(* ===== verification/Prelude.thy ===== *)
theory Prelude
  imports Main "HOL-Library.Word"
begin

text \<open>
  What every other theory of the development shares.
  \<^item> The machine integers of the code (\<open>u8\<close>, \<open>u16\<close>, \<open>u32\<close>, \<open>u64\<close>) with Rust's
    \<open>checked_add\<close>, \<open>saturating_add\<close> and the checked conversions to and from \<open>i64\<close>,
    the integer type of an SQLite column.
  \<^item> Rust strings as UTF-8 byte lists (\<open>string\<close>): \<open>str::len\<close> is \<open>length\<close>,
    \<open>chars().count()\<close> is \<open>chars_count\<close>, \<open>str::trim\<close> is \<open>rust_trim\<close>, and
    \<open>strip_prefix\<close>, \<open>parse::<uN>\<close> and \<open>from_str_radix\<close> are written out.
  \<^item> The two effect types: \<open>'e + 'a\<close> for a fallible computation (\<open>andThen\<close> is the
    \<open>?\<close> operator) and \<open>'s \<Rightarrow> ('e + 'a) \<times> 's\<close> for one that also changes a state
    (\<open>bindS\<close>).
  \<^item> Generic facts about lists, keyed lists and maps, and the collections
    \<open>result_simps\<close> and \<open>step_defs\<close> the component theories add to.
\<close>

named_theorems result_simps "inversion of fallible computations"
named_theorems step_defs "definitions of the handlers, unfolded together"

section \<open>Machine integers\<close>

type_synonym u8 = "8 word"
type_synonym u16 = "16 word"
type_synonym u32 = "32 word"
type_synonym u64 = "64 word"
type_synonym bytes = "u8 list"

definition i64_max :: int where
  "i64_max = 2 ^ 63 - 1"

definition checked_add_u64 :: "u64 \<Rightarrow> u64 \<Rightarrow> u64 option" where
  "checked_add_u64 a b = (if uint a + uint b < 2 ^ 64 then Some (a + b) else None)"

definition saturating_add_u64 :: "u64 \<Rightarrow> u64 \<Rightarrow> u64" where
  "saturating_add_u64 a b = (if uint a + uint b < 2 ^ 64 then a + b else - 1)"

text \<open>\<open>i64::try_from(u64)\<close> and \<open>u64::try_from(i64)\<close>; an \<open>i64\<close> is an \<open>int\<close> in range.\<close>

definition u64_to_i64 :: "u64 \<Rightarrow> int option" where
  "u64_to_i64 v = (if uint v \<le> i64_max then Some (uint v) else None)"

definition i64_to_u64 :: "int \<Rightarrow> u64 option" where
  "i64_to_u64 v = (if 0 \<le> v then Some (word_of_int v) else None)"

lemma checked_add_u64_Some:
  "checked_add_u64 a b = Some c \<Longrightarrow> uint c = uint a + uint b"
  by (auto simp: checked_add_u64_def uint_word_ariths split: if_splits)

lemma u64_to_i64_Some [result_simps]:
  "u64_to_i64 v = Some i \<longleftrightarrow> i = uint v \<and> uint v \<le> i64_max"
  by (auto simp: u64_to_i64_def)

lemma i64_to_u64_Some [result_simps]:
  "i64_to_u64 i = Some v \<longleftrightarrow> 0 \<le> i \<and> v = word_of_int i"
  by (auto simp: i64_to_u64_def)

lemma i64_to_u64_of_uint [simp]: "i64_to_u64 (uint (v :: u64)) = Some v"
  by (simp add: i64_to_u64_def)

lemma uint_of_i64:
  assumes "0 \<le> i" and "i \<le> i64_max"
  shows "uint (word_of_int i :: u64) = i"
  using assms by (simp add: i64_max_def uint_word_of_int take_bit_int_eq_self)

lemma i64_u64_round_trip:
  "0 \<le> i \<Longrightarrow> i \<le> i64_max \<Longrightarrow> u64_to_i64 (word_of_int i) = Some i"
  by (simp add: u64_to_i64_def uint_of_i64)

lemma saturating_add_u64_le: "uint a \<le> uint (saturating_add_u64 a b)"
proof (cases "uint a + uint b < 2 ^ 64")
  case True
  then have "uint (a + b) = uint a + uint b"
    by (simp add: uint_word_ariths)
  with True show ?thesis by (simp add: saturating_add_u64_def)
next
  case False
  then have "saturating_add_u64 a b = - 1"
    by (simp add: saturating_add_u64_def)
  then show ?thesis
    by (simp add: word_le_def [symmetric])
qed

section \<open>Fallible computations\<close>

fun andThen :: "'e + 'a \<Rightarrow> ('a \<Rightarrow> 'e + 'b) \<Rightarrow> 'e + 'b" where
  "andThen (Inl e) f = Inl e"
| "andThen (Inr x) f = f x"

definition ok_or :: "'e \<Rightarrow> 'a option \<Rightarrow> 'e + 'a" where
  "ok_or e m = (case m of None \<Rightarrow> Inl e | Some x \<Rightarrow> Inr x)"

definition map_err :: "('e \<Rightarrow> 'f) \<Rightarrow> 'e + 'a \<Rightarrow> 'f + 'a" where
  "map_err f r = (case r of Inl e \<Rightarrow> Inl (f e) | Inr x \<Rightarrow> Inr x)"

lemma andThen_Inr [result_simps]: "andThen r f = Inr y \<longleftrightarrow> (\<exists>x. r = Inr x \<and> f x = Inr y)"
  by (cases r) auto

lemma andThen_Inl [result_simps]:
  "andThen r f = Inl e \<longleftrightarrow> r = Inl e \<or> (\<exists>x. r = Inr x \<and> f x = Inl e)"
  by (cases r) auto

lemma andThen_cong [fundef_cong]:
  "r = r' \<Longrightarrow> (\<And>x. r' = Inr x \<Longrightarrow> f x = g x) \<Longrightarrow> andThen r f = andThen r' g"
  by (cases r') auto

lemma ok_or_Inr [result_simps]: "ok_or e m = Inr x \<longleftrightarrow> m = Some x"
  by (cases m) (auto simp: ok_or_def)

lemma ok_or_Inl [result_simps]: "ok_or e m = Inl d \<longleftrightarrow> m = None \<and> d = e"
  by (cases m) (auto simp: ok_or_def)

lemma ok_or_simps [simp]: "ok_or e None = Inl e" "ok_or e (Some x) = Inr x"
  by (simp_all add: ok_or_def)

lemma map_err_Inr [result_simps]: "map_err f r = Inr x \<longleftrightarrow> r = Inr x"
  by (cases r) (auto simp: map_err_def)

lemma map_err_simps [simp]: "map_err f (Inl e) = Inl (f e)" "map_err f (Inr x) = Inr x"
  by (simp_all add: map_err_def)

text \<open>\<open>iter().map(f).collect::<Result<Vec<_>, _>>()\<close>: the first error wins.\<close>

fun collect_results :: "('a \<Rightarrow> 'e + 'b) \<Rightarrow> 'a list \<Rightarrow> 'e + 'b list" where
  "collect_results f [] = Inr []"
| "collect_results f (x # xs) =
     andThen (f x) (\<lambda>y. andThen (collect_results f xs) (\<lambda>ys. Inr (y # ys)))"

lemma collect_results_cong [fundef_cong]:
  "xs = ys \<Longrightarrow> (\<And>x. x \<in> set ys \<Longrightarrow> f x = g x) \<Longrightarrow> collect_results f xs = collect_results g ys"
  by (induction ys arbitrary: xs) auto

lemma collect_results_Inr:
  "collect_results f xs = Inr ys \<longleftrightarrow> list_all2 (\<lambda>x y. f x = Inr y) xs ys"
  by (induction xs arbitrary: ys) (auto simp: result_simps list_all2_Cons1)

lemma collect_results_map:
  "(\<And>x. x \<in> set xs \<Longrightarrow> f x = Inr (g x)) \<Longrightarrow> collect_results f xs = Inr (map g xs)"
  by (induction xs) auto

lemma collect_results_length: "collect_results f xs = Inr ys \<Longrightarrow> length ys = length xs"
  by (auto simp: collect_results_Inr dest: list_all2_lengthD)

text \<open>Stateful fallible computations, run in sequence until the first error.\<close>

type_synonym ('s, 'e, 'a) comp = "'s \<Rightarrow> ('e + 'a) \<times> 's"

definition returnS :: "'a \<Rightarrow> ('s, 'e, 'a) comp" where
  "returnS x = (\<lambda>s. (Inr x, s))"

definition liftS :: "'e + 'a \<Rightarrow> ('s, 'e, 'a) comp" where
  "liftS r = (\<lambda>s. (r, s))"

definition bindS :: "('s, 'e, 'a) comp \<Rightarrow> ('a \<Rightarrow> ('s, 'e, 'b) comp) \<Rightarrow> ('s, 'e, 'b) comp" where
  "bindS m f = (\<lambda>s. case m s of (Inl e, s') \<Rightarrow> (Inl e, s') | (Inr x, s') \<Rightarrow> f x s')"

lemma returnS_iff [result_simps]: "returnS x s = (r, t) \<longleftrightarrow> r = Inr x \<and> t = s"
  by (auto simp: returnS_def)

lemma liftS_iff [result_simps]: "liftS r s = (r', t) \<longleftrightarrow> r = r' \<and> t = s"
  by (auto simp: liftS_def)

lemma bindS_Inr [result_simps]:
  "bindS m f s = (Inr y, t) \<longleftrightarrow> (\<exists>x s'. m s = (Inr x, s') \<and> f x s' = (Inr y, t))"
  by (auto simp: bindS_def split: prod.splits sum.splits)

lemma bindS_Inl [result_simps]:
  "bindS m f s = (Inl e, t) \<longleftrightarrow>
     m s = (Inl e, t) \<or> (\<exists>x s'. m s = (Inr x, s') \<and> f x s' = (Inl e, t))"
  by (auto simp: bindS_def split: prod.splits sum.splits)

lemma bindS_returnS [simp]: "bindS (returnS x) f = f x"
  by (simp add: bindS_def returnS_def)

lemma bindS_cong [fundef_cong]:
  "m s = m' s' \<Longrightarrow> (\<And>x t. m' s' = (Inr x, t) \<Longrightarrow> f x t = g x t) \<Longrightarrow> bindS m f s = bindS m' g s'"
  by (auto simp: bindS_def split: prod.splits sum.splits)

text \<open>An invariant of every step of a sequence is one of the sequence.\<close>

definition keeps :: "('s \<Rightarrow> 's \<Rightarrow> bool) \<Rightarrow> ('s, 'e, 'a) comp \<Rightarrow> bool" where
  "keeps R m \<longleftrightarrow> (\<forall>s. R s (snd (m s)))"

lemma keeps_returnS [intro]: "reflp R \<Longrightarrow> keeps R (returnS x)"
  by (auto simp: keeps_def returnS_def elim: reflpE)

lemma keeps_liftS [intro]: "reflp R \<Longrightarrow> keeps R (liftS x)"
  by (auto simp: keeps_def liftS_def elim: reflpE)

lemma keeps_bindS [intro]:
  assumes "transp R" and "keeps R m" and "\<And>x. keeps R (f x)"
  shows "keeps R (bindS m f)"
  unfolding keeps_def
proof
  fix s
  obtain r s' where m: "m s = (r, s')" by (cases "m s")
  with assms(2) have "R s s'" by (metis keeps_def snd_conv)
  moreover have "R s' (snd (f x s'))" for x
    using assms(3) by (simp add: keeps_def)
  ultimately show "R s (snd (bindS m f s))"
    using assms(1) m by (cases r) (auto simp: bindS_def elim: transpE)
qed

end
