(* ===== verification/Rust_Strings.thy ===== *)
theory Rust_Strings
  imports Prelude
begin

text \<open>
  Rust's \<open>str\<close> as the code uses it. A \<open>string\<close> is the list of the UTF-8 bytes, so
  \<open>str::len\<close> is \<open>length\<close> and comparison of strings is comparison of byte lists.
  \<open>chars().count()\<close> counts the bytes that start a character; \<open>trim\<close> removes the
  UTF-8 encodings of the Unicode \<open>White_Space\<close> characters from both ends; unsigned
  parsing and decimal printing are those of the standard library.
\<close>

definition code_of :: "char \<Rightarrow> nat" where
  "code_of c = of_char c"

definition chars_count :: "string \<Rightarrow> nat" where
  "chars_count s = length (filter (\<lambda>c. code_of c < 128 \<or> 192 \<le> code_of c) s)"

definition strip_prefix :: "string \<Rightarrow> string \<Rightarrow> string option" where
  "strip_prefix p s =
     (if length p \<le> length s \<and> take (length p) s = p then Some (drop (length p) s) else None)"

definition starts_with :: "string \<Rightarrow> string \<Rightarrow> bool" where
  "starts_with p s \<longleftrightarrow> strip_prefix p s \<noteq> None"

lemma strip_prefix_Some [result_simps]: "strip_prefix p s = Some r \<longleftrightarrow> s = p @ r"
  by (auto simp: strip_prefix_def) (metis append_take_drop_id)

lemma strip_prefix_append [simp]: "strip_prefix p (p @ r) = Some r"
  by (simp add: strip_prefix_Some)

lemma starts_with_iff: "starts_with p s \<longleftrightarrow> (\<exists>r. s = p @ r)"
  by (auto simp: starts_with_def strip_prefix_Some)

section \<open>Trimming\<close>

definition chars_of :: "nat list \<Rightarrow> string" where
  "chars_of ns = map char_of ns"

text \<open>U+0009..U+000D, U+0020, U+0085, U+00A0, U+1680, U+2000..U+200A, U+2028, U+2029,
  U+202F, U+205F and U+3000 in UTF-8.\<close>

definition whitespace_seqs :: "string list" where
  "whitespace_seqs = map chars_of
     ([[9], [10], [11], [12], [13], [32], [194, 133], [194, 160], [225, 154, 128]]
      @ map (\<lambda>n. [226, 128, n]) [128, 129, 130, 131, 132, 133, 134, 135, 136, 137, 138, 168, 169, 175]
      @ [[226, 129, 159], [227, 128, 128]])"

lemma whitespace_seqs_nonempty: "w \<in> set whitespace_seqs \<Longrightarrow> w \<noteq> []"
  by (auto simp: whitespace_seqs_def chars_of_def)

definition strip_any :: "string list \<Rightarrow> string \<Rightarrow> string option" where
  "strip_any ws s = map_option (\<lambda>w. drop (length w) s) (List.find (\<lambda>w. starts_with w s) ws)"

lemma strip_any_shorter:
  assumes "strip_any ws s = Some r" and "\<forall>w \<in> set ws. w \<noteq> []"
  shows "length r < length s"
  using assms by (auto simp: strip_any_def find_Some_iff starts_with_iff)

function trim_start_seqs :: "string list \<Rightarrow> string \<Rightarrow> string" where
  "trim_start_seqs ws s =
     (if \<forall>w \<in> set ws. w \<noteq> []
      then (case strip_any ws s of None \<Rightarrow> s | Some r \<Rightarrow> trim_start_seqs ws r)
      else s)"
  by pat_completeness auto
termination
  by (relation "measure (\<lambda>(ws, s). length s)") (auto dest: strip_any_shorter)

declare trim_start_seqs.simps [simp del]

definition trim_start :: "string \<Rightarrow> string" where
  "trim_start s = trim_start_seqs whitespace_seqs s"

definition trim_end :: "string \<Rightarrow> string" where
  "trim_end s = rev (trim_start_seqs (map rev whitespace_seqs) (rev s))"

definition rust_trim :: "string \<Rightarrow> string" where
  "rust_trim s = trim_end (trim_start s)"

lemma trim_start_seqs_length: "length (trim_start_seqs ws s) \<le> length s"
proof (induction ws s rule: trim_start_seqs.induct)
  case (1 ws s)
  then show ?case
    by (subst trim_start_seqs.simps)
      (auto split: option.split dest: strip_any_shorter order_trans [OF _ less_imp_le])
qed

lemma rust_trim_length: "length (rust_trim s) \<le> length s"
  using trim_start_seqs_length [of whitespace_seqs s]
    trim_start_seqs_length [of "map rev whitespace_seqs" "rev (trim_start s)"]
  by (simp add: rust_trim_def trim_end_def trim_start_def)

lemma trim_start_seqs_stop: "strip_any ws s = None \<Longrightarrow> trim_start_seqs ws s = s"
  by (subst trim_start_seqs.simps) simp

text \<open>No whitespace begins or ends with a printable ASCII character.\<close>

lemma strip_any_None:
  assumes "\<And>w. w \<in> set ws \<Longrightarrow> w \<noteq> [] \<and> hd w \<noteq> hd s" and "s \<noteq> []"
  shows "strip_any ws s = None"
  using assms by (fastforce simp: strip_any_def find_None_iff starts_with_iff)

lemma whitespace_bytes:
  assumes "w \<in> set whitespace_seqs" and "c \<in> {hd w, last w}"
  shows "code_of c < 33 \<or> 127 < code_of c"
  using assms by (auto simp: whitespace_seqs_def chars_of_def code_of_def)

lemma rust_trim_plain:
  assumes "s \<noteq> []" and "33 \<le> code_of (hd s)" "code_of (hd s) \<le> 127"
    and "33 \<le> code_of (last s)" "code_of (last s) \<le> 127"
  shows "rust_trim s = s"
proof -
  have "strip_any whitespace_seqs s = None"
    using assms(1-3) whitespace_bytes whitespace_seqs_nonempty by (fastforce intro!: strip_any_None)
  moreover have "strip_any (map rev whitespace_seqs) (rev s) = None"
    using assms(1,4,5) whitespace_bytes whitespace_seqs_nonempty
    by (fastforce intro!: strip_any_None simp: hd_rev)
  ultimately show ?thesis
    by (simp add: rust_trim_def trim_start_def trim_end_def trim_start_seqs_stop)
qed

section \<open>Unsigned numbers\<close>

definition digit_val :: "nat \<Rightarrow> char \<Rightarrow> nat option" where
  "digit_val radix c =
     (let n = code_of c in if 48 \<le> n \<and> n \<le> 57 \<and> n - 48 < radix then Some (n - 48) else None)"

fun digits_val :: "nat \<Rightarrow> nat \<Rightarrow> nat \<Rightarrow> string \<Rightarrow> nat option" where
  "digits_val radix bound acc [] = Some acc"
| "digits_val radix bound acc (c # cs) =
     (case digit_val radix c of
        None \<Rightarrow> None
      | Some d \<Rightarrow>
          (if acc * radix + d \<le> bound then digits_val radix bound (acc * radix + d) cs else None))"

text \<open>\<open>uN::from_str_radix\<close> for a radix up to ten: an optional \<open>+\<close>, then at least one digit.\<close>

definition parse_unsigned :: "nat \<Rightarrow> nat \<Rightarrow> string \<Rightarrow> nat option" where
  "parse_unsigned radix bound s =
     (let ds = (if starts_with ''+'' s then tl s else s)
      in if ds = [] then None else digits_val radix bound 0 ds)"

lemma digits_val_bound: "digits_val radix bound acc s = Some n \<Longrightarrow> acc \<le> bound \<Longrightarrow> n \<le> bound"
  by (induction s arbitrary: acc) (auto split: option.splits if_splits)

lemma parse_unsigned_bound: "parse_unsigned radix bound s = Some n \<Longrightarrow> n \<le> bound"
  by (auto simp: parse_unsigned_def Let_def split: if_splits dest: digits_val_bound)

fun show_nat :: "nat \<Rightarrow> string" where
  "show_nat n =
     (if n < 10 then [char_of (48 + n)] else show_nat (n div 10) @ [char_of (48 + n mod 10)])"

declare show_nat.simps [simp del]

lemma digits_val_append:
  "digits_val radix bound acc (xs @ ys) =
     (case digits_val radix bound acc xs of None \<Rightarrow> None | Some n \<Rightarrow> digits_val radix bound n ys)"
  by (induction xs arbitrary: acc) (auto split: option.splits)

lemma digit_val_digit: "d < 10 \<Longrightarrow> digit_val 10 (char_of (48 + d)) = Some d"
  by (simp add: digit_val_def code_of_def Let_def)

lemma digits_val_show: "n \<le> bound \<Longrightarrow> digits_val 10 bound 0 (show_nat n) = Some n"
proof (induction n rule: show_nat.induct)
  case (1 n)
  show ?case
  proof (cases "n < 10")
    case True
    with "1.prems" show ?thesis by (subst show_nat.simps) (simp add: digit_val_digit)
  next
    case False
    with "1" have "digits_val 10 bound 0 (show_nat (n div 10)) = Some (n div 10)" by simp
    with False "1.prems" show ?thesis
      by (subst show_nat.simps) (simp add: digits_val_append digit_val_digit)
  qed
qed

lemma show_nat_digits: "c \<in> set (show_nat n) \<Longrightarrow> 48 \<le> code_of c \<and> code_of c \<le> 57"
proof (induction n rule: show_nat.induct)
  case (1 n)
  then show ?case
    by (subst (asm) show_nat.simps) (auto simp: code_of_def split: if_splits)
qed

lemma show_nat_nonempty [simp]: "show_nat n \<noteq> []"
  by (subst show_nat.simps) simp

lemma parse_show_nat: "n \<le> bound \<Longrightarrow> parse_unsigned 10 bound (show_nat n) = Some n"
proof -
  assume n: "n \<le> bound"
  have "\<not> starts_with ''+'' (show_nat n)"
    using show_nat_digits [of "CHR ''+''" n] by (auto simp: starts_with_iff code_of_def)
  with n show ?thesis by (simp add: parse_unsigned_def digits_val_show)
qed

lemma show_nat_inj: "show_nat m = show_nat n \<Longrightarrow> m = n"
  by (metis digits_val_show max.cobounded1 max.cobounded2 option.inject)

end
