(* ===== verification/Wire.thy ===== *)
theory Wire
  imports Rust_Strings "HOL-Library.Char_ord" "HOL-Library.List_Lexorder"
    "HOL-Library.Product_Lexorder"
begin

text \<open>
  The protocol types of \<open>helium-sync-common\<close>: identifiers, protocol versions and their
  negotiation, timestamps, the encrypted envelope and the request and response DTOs.
  A UUID is its 128-bit value, a timestamp the instant it denotes; their text forms are
  produced by third-party crates and are parameters wherever the code uses them.
\<close>

type_synonym uuid = "128 word"

datatype object_id = ObjectId uuid
datatype device_id = DeviceId uuid
datatype protocol_version = ProtocolVersion (protocol_number: u16)
datatype timestamp = Timestamp (instant: int)

fun object_uuid :: "object_id \<Rightarrow> uuid" where
  "object_uuid (ObjectId u) = u"

fun device_uuid :: "device_id \<Rightarrow> uuid" where
  "device_uuid (DeviceId u) = u"

lemma object_uuid_inj [simp]: "object_uuid a = object_uuid b \<longleftrightarrow> a = b"
  by (cases a; cases b) auto

lemma device_uuid_inj [simp]: "device_uuid a = device_uuid b \<longleftrightarrow> a = b"
  by (cases a; cases b) auto

section \<open>Protocol versions\<close>

text \<open>The derived \<open>PartialOrd\<close>/\<open>Ord\<close> of the newtype compares the number.\<close>

instantiation protocol_version :: linorder
begin

definition less_eq_protocol_version :: "protocol_version \<Rightarrow> protocol_version \<Rightarrow> bool" where
  "less_eq_protocol_version a b \<longleftrightarrow> protocol_number a \<le> protocol_number b"

definition less_protocol_version :: "protocol_version \<Rightarrow> protocol_version \<Rightarrow> bool" where
  "less_protocol_version a b \<longleftrightarrow> protocol_number a < protocol_number b"

instance
  by standard
    (auto simp: less_eq_protocol_version_def less_protocol_version_def intro: protocol_version.expand)

end

instantiation timestamp :: linorder
begin

definition less_eq_timestamp :: "timestamp \<Rightarrow> timestamp \<Rightarrow> bool" where
  "less_eq_timestamp a b \<longleftrightarrow> instant a \<le> instant b"

definition less_timestamp :: "timestamp \<Rightarrow> timestamp \<Rightarrow> bool" where
  "less_timestamp a b \<longleftrightarrow> instant a < instant b"

instance
  by standard (auto simp: less_eq_timestamp_def less_timestamp_def intro: timestamp.expand)

end

definition PROTOCOL_MIN :: protocol_version where "PROTOCOL_MIN = ProtocolVersion 1"
definition PROTOCOL_MAX :: protocol_version where "PROTOCOL_MAX = ProtocolVersion 1"

record protocol_range =
  range_min :: protocol_version
  range_max :: protocol_version

definition default_range :: protocol_range where
  "default_range = \<lparr>range_min = PROTOCOL_MIN, range_max = PROTOCOL_MAX\<rparr>"

definition negotiate :: "protocol_range \<Rightarrow> protocol_range \<Rightarrow> protocol_version option" where
  "negotiate self peer =
     (let lowest_max = min (range_max self) (range_max peer)
      in if lowest_max \<ge> max (range_min self) (range_min peer) then Some lowest_max else None)"

definition in_range :: "protocol_version \<Rightarrow> protocol_range \<Rightarrow> bool" where
  "in_range v r \<longleftrightarrow> range_min r \<le> v \<and> v \<le> range_max r"

lemma negotiate_sym: "negotiate a b = negotiate b a"
  by (simp add: negotiate_def Let_def min.commute max.commute)

lemma negotiate_Some_iff:
  "negotiate a b = Some v \<longleftrightarrow>
     in_range v a \<and> in_range v b \<and> (\<forall>w. in_range w a \<and> in_range w b \<longrightarrow> w \<le> v)"
proof
  assume "negotiate a b = Some v"
  then show "in_range v a \<and> in_range v b \<and> (\<forall>w. in_range w a \<and> in_range w b \<longrightarrow> w \<le> v)"
    by (auto simp: negotiate_def in_range_def Let_def split: if_splits)
next
  assume v: "in_range v a \<and> in_range v b \<and> (\<forall>w. in_range w a \<and> in_range w b \<longrightarrow> w \<le> v)"
  let ?m = "min (range_max a) (range_max b)"
  from v have "max (range_min a) (range_min b) \<le> ?m" and "v \<le> ?m"
    by (auto simp: in_range_def)
  moreover from this(1) have "in_range ?m a \<and> in_range ?m b"
    by (auto simp: in_range_def)
  with v have "?m \<le> v" by blast
  ultimately have "?m = v" and "max (range_min a) (range_min b) \<le> v"
    using order.antisym order.trans by blast+
  then show "negotiate a b = Some v"
    by (simp add: negotiate_def Let_def)
qed

section \<open>Envelopes, objects and requests\<close>

record envelope =
  env_version :: u8
  env_algorithm :: string
  env_key_version :: u32
  env_nonce :: bytes
  env_ciphertext :: bytes

record sync_object =
  so_id :: object_id
  so_namespace :: string
  so_revision :: u64
  so_cursor :: u64
  so_device_id :: device_id
  so_modified_at :: timestamp
  so_deleted :: bool
  so_envelope :: "envelope option"

record put_object_request =
  put_namespace :: string
  put_base_revision :: "u64 option"
  put_device_id :: device_id
  put_modified_at :: timestamp
  put_envelope :: envelope

record delete_object_request =
  del_base_revision :: u64
  del_device_id :: device_id
  del_modified_at :: timestamp

datatype batch_operation =
    BatchPut object_id put_object_request
  | BatchDelete object_id delete_object_request

record batch_request =
  batch_operations :: "batch_operation list"

record batch_response =
  batch_objects :: "sync_object list"

record change =
  ch_cursor :: u64
  ch_object_id :: object_id
  ch_namespace :: string
  ch_revision :: u64
  ch_device_id :: device_id
  ch_modified_at :: timestamp
  ch_deleted :: bool

record changes_response =
  page_changes :: "change list"
  page_next_cursor :: u64
  page_has_more :: bool

record device =
  dev_id :: device_id
  dev_name :: string
  dev_created_at :: timestamp
  dev_revoked_at :: "timestamp option"

record register_device_request =
  reg_id :: device_id
  reg_name :: string

record version_response =
  vr_server_version :: string
  vr_protocol :: protocol_range
  vr_capabilities :: "string list"

record status_response =
  sr_status :: string
  sr_database :: string
  sr_server_time :: timestamp
  sr_protocol :: protocol_version

text \<open>\<open>ApiErrorBody\<close> without its random \<open>request_id\<close>, which nothing reads back.\<close>

record api_error_body =
  err_code :: string
  err_message :: string
  err_current_revision :: "u64 option"
  err_current_cursor :: "u64 option"

end
