(* ===== verification/Tables.thy ===== *)
theory Tables
  imports Prelude
begin

text \<open>
  SQL tables as lists of row records, for the server's and the client's databases: a table
  with a primary key is a list whose key column is distinct. \<open>find_row\<close> is
  \<open>SELECT ... WHERE key = ?\<close>, \<open>insert_row\<close> an \<open>INSERT\<close> (\<open>None\<close> when the key
  exists), \<open>upsert_row\<close> an \<open>INSERT ... ON CONFLICT DO UPDATE\<close> of every other column,
  \<open>update_rows\<close> an \<open>UPDATE\<close> with the number of affected rows and \<open>delete_rows\<close> a
  \<open>DELETE\<close>. The lemmas say what a lookup returns after each and that the key stays
  distinct; the collection \<open>row_simps\<close> carries them.
\<close>

named_theorems row_simps "lookups in a table after a statement"

definition find_row :: "('r \<Rightarrow> 'k) \<Rightarrow> 'k \<Rightarrow> 'r list \<Rightarrow> 'r option" where
  "find_row key k rows = List.find (\<lambda>r. key r = k) rows"

definition insert_row :: "('r \<Rightarrow> 'k) \<Rightarrow> 'r \<Rightarrow> 'r list \<Rightarrow> 'r list option" where
  "insert_row key row rows =
     (if find_row key (key row) rows = None then Some (rows @ [row]) else None)"

definition upsert_row :: "('r \<Rightarrow> 'k) \<Rightarrow> 'r \<Rightarrow> 'r list \<Rightarrow> 'r list" where
  "upsert_row key row rows =
     (if find_row key (key row) rows = None then rows @ [row]
      else map (\<lambda>r. if key r = key row then row else r) rows)"

definition update_rows :: "('r \<Rightarrow> bool) \<Rightarrow> ('r \<Rightarrow> 'r) \<Rightarrow> 'r list \<Rightarrow> nat \<times> 'r list" where
  "update_rows p f rows = (length (filter p rows), map (\<lambda>r. if p r then f r else r) rows)"

definition delete_rows :: "('r \<Rightarrow> bool) \<Rightarrow> 'r list \<Rightarrow> nat \<times> 'r list" where
  "delete_rows p rows = (length (filter p rows), filter (\<lambda>r. \<not> p r) rows)"

definition key_ok :: "('r \<Rightarrow> 'k) \<Rightarrow> 'r list \<Rightarrow> bool" where
  "key_ok key rows \<longleftrightarrow> distinct (map key rows)"

lemma find_row_Nil [simp]: "find_row key k [] = None"
  by (simp add: find_row_def)

lemma find_row_Cons: "find_row key k (r # rs) = (if key r = k then Some r else find_row key k rs)"
  by (simp add: find_row_def)

lemma find_row_append:
  "find_row key k (xs @ ys) =
     (case find_row key k xs of None \<Rightarrow> find_row key k ys | Some r \<Rightarrow> Some r)"
  by (induction xs) (auto simp: find_row_Cons)

lemma find_row_None: "find_row key k rows = None \<longleftrightarrow> k \<notin> key ` set rows"
  by (auto simp: find_row_def find_None_iff)

lemma find_row_SomeD: "find_row key k rows = Some r \<Longrightarrow> r \<in> set rows \<and> key r = k"
  by (induction rows) (auto simp: find_row_Cons split: if_splits)

lemma find_row_Some_iff:
  assumes "key_ok key rows"
  shows "find_row key k rows = Some r \<longleftrightarrow> r \<in> set rows \<and> key r = k"
  using assms
  by (induction rows) (auto simp: find_row_Cons key_ok_def image_iff)

lemma key_ok_Nil [simp]: "key_ok key []"
  by (simp add: key_ok_def)

lemma find_row_map_at:
  assumes "\<And>r. key (f r) = key r"
  shows "find_row key k (map (\<lambda>r. if p r then f r else r) rows) =
     map_option (\<lambda>r. if p r then f r else r) (find_row key k rows)"
  using assms by (induction rows) (auto simp: find_row_Cons)

lemma find_row_replace:
  "find_row key k (map (\<lambda>r. if key r = key row then row else r) rows) =
     (if k = key row \<and> find_row key k rows \<noteq> None then Some row else find_row key k rows)"
  by (induction rows) (auto simp: find_row_Cons)

lemma find_row_upsert [row_simps]:
  "find_row key k (upsert_row key row rows) = (if k = key row then Some row else find_row key k rows)"
  by (auto simp: upsert_row_def find_row_replace find_row_append find_row_Cons split: option.split)

lemma upsert_row_keys: "key ` set (upsert_row key row rows) = insert (key row) (key ` set rows)"
  by (auto simp: upsert_row_def find_row_None image_iff)

lemma map_key_replace:
  "map key (map (\<lambda>r. if key r = key row then row else r) rows) = map key rows"
  by simp

lemma key_ok_upsert [intro]: "key_ok key rows \<Longrightarrow> key_ok key (upsert_row key row rows)"
  unfolding key_ok_def upsert_row_def
  by (auto simp: find_row_None map_key_replace simp del: map_map)

lemma set_upsert_row:
  "r \<in> set (upsert_row key row rows) \<Longrightarrow> r = row \<or> (r \<in> set rows \<and> key r \<noteq> key row)"
  by (auto simp: upsert_row_def find_row_None split: if_splits) (metis image_eqI)

lemma insert_row_Some:
  "insert_row key row rows = Some rows' \<longleftrightarrow> key row \<notin> key ` set rows \<and> rows' = rows @ [row]"
  by (auto simp: insert_row_def find_row_None)

lemma find_row_insert [row_simps]:
  "insert_row key row rows = Some rows' \<Longrightarrow>
     find_row key k rows' = (if k = key row then Some row else find_row key k rows)"
  by (auto simp: insert_row_def find_row_append find_row_Cons split: if_splits option.split)

lemma key_ok_insert [intro]:
  "insert_row key row rows = Some rows' \<Longrightarrow> key_ok key rows \<Longrightarrow> key_ok key rows'"
  by (auto simp: insert_row_Some key_ok_def)

lemma key_ok_update [intro]:
  assumes "key_ok key rows" and "\<And>r. key (f r) = key r"
  shows "key_ok key (snd (update_rows p f rows))"
proof -
  have "map key (map (\<lambda>r. if p r then f r else r) rows) = map key rows"
    using assms(2) by simp
  with assms(1) show ?thesis by (simp add: key_ok_def update_rows_def del: map_map)
qed

lemma find_row_update [row_simps]:
  assumes "\<And>r. key (f r) = key r"
  shows "find_row key k (snd (update_rows p f rows)) =
     map_option (\<lambda>r. if p r then f r else r) (find_row key k rows)"
  using assms by (simp add: update_rows_def find_row_map_at)

lemma update_rows_keys:
  assumes "\<And>r. key (f r) = key r"
  shows "map key (snd (update_rows p f rows)) = map key rows"
  using assms by (simp add: update_rows_def)

lemma fst_update_rows_zero: "fst (update_rows p f rows) = 0 \<longleftrightarrow> (\<forall>r \<in> set rows. \<not> p r)"
  by (auto simp: update_rows_def filter_empty_conv)

lemma snd_update_rows_zero: "fst (update_rows p f rows) = 0 \<Longrightarrow> snd (update_rows p f rows) = rows"
  unfolding fst_update_rows_zero unfolding update_rows_def by (auto intro: map_idI)

lemma update_rows_one_key:
  assumes "key_ok key rows"
  shows "fst (update_rows (\<lambda>r. key r = k) f rows) = (if k \<in> key ` set rows then 1 else 0)"
  using assms by (induction rows) (auto simp: update_rows_def key_ok_def image_iff)

lemma key_ok_delete [intro]: "key_ok key rows \<Longrightarrow> key_ok key (snd (delete_rows p rows))"
  by (simp add: key_ok_def delete_rows_def distinct_map_filter)

lemma find_row_delete [row_simps]:
  "find_row key k (snd (delete_rows (\<lambda>r. key r = j) rows)) =
     (if k = j then None else find_row key k rows)"
  by (induction rows) (auto simp: delete_rows_def find_row_Cons)

lemma delete_rows_one_key:
  assumes "key_ok key rows"
  shows "fst (delete_rows (\<lambda>r. key r = k) rows) = (if k \<in> key ` set rows then 1 else 0)"
  using assms by (induction rows) (auto simp: delete_rows_def key_ok_def image_iff)

end
