(* ===== verification/ServerDb.thy ===== *)
theory ServerDb
  imports Wire Tables
begin

text \<open>
  The server's SQLite database (\<open>migrations/0001_initial.sql\<close>), its statements as
  \<open>api.rs\<close> issues them, and its transactions.
  \<^item> The columns hold what SQLite holds: UUIDs and timestamps as text, revisions and
    cursors as integers, the envelope as JSON text. The conversions are third-party code
    (\<open>uuid\<close>, \<open>time\<close>, \<open>serde_json\<close>) and are fields of \<open>env\<close>; \<open>codec_ok\<close> states
    their documented round trips.
  \<^item> \<open>changes.cursor\<close> is an \<open>AUTOINCREMENT\<close> key: \<open>db_seq\<close> is the last value handed out.
  \<^item> Every call to the database may fail (I/O, lock timeout): the \<open>n\<close>-th call fails when
    \<open>db_fault e n\<close>, leaves the data as it was and is a \<open>database_error\<close>. Theorems hold for
    every fault schedule.
  \<^item> A transaction whose body or commit fails is rolled back.
\<close>

record device_row =
  dr_id :: string
  dr_name :: string
  dr_created_at :: string
  dr_revoked_at :: "string option"

record object_row =
  or_id :: string
  or_namespace :: string
  or_revision :: int
  or_cursor :: int
  or_device_id :: string
  or_modified_at :: string
  or_deleted :: int
  or_envelope_json :: "string option"

record change_row =
  cr_cursor :: int
  cr_object_id :: string
  cr_namespace :: string
  cr_revision :: int
  cr_device_id :: string
  cr_modified_at :: string
  cr_deleted :: int

record database =
  db_devices :: "device_row list"
  db_objects :: "object_row list"
  db_changes :: "change_row list"
  db_seq :: int

definition empty_database :: database where
  "empty_database = \<lparr>db_devices = [], db_objects = [], db_changes = [], db_seq = 0\<rparr>"

record env =
  uuid_text :: "uuid \<Rightarrow> string"
  uuid_parse :: "string \<Rightarrow> uuid option"
  time_format :: "timestamp \<Rightarrow> string option"
  time_parse :: "string \<Rightarrow> timestamp option"
  envelope_to_json :: "envelope \<Rightarrow> string option"
  envelope_of_json :: "string \<Rightarrow> envelope option"
  db_fault :: "nat \<Rightarrow> bool"
  clock :: "nat \<Rightarrow> timestamp"

definition codec_ok :: "env \<Rightarrow> bool" where
  "codec_ok e \<longleftrightarrow>
     (\<forall>u. uuid_parse e (uuid_text e u) = Some u) \<and>
     (\<forall>t s. time_format e t = Some s \<longrightarrow> time_parse e s = Some t) \<and>
     (\<forall>v s. envelope_to_json e v = Some s \<longrightarrow> envelope_of_json e s = Some v)"

lemma codec_ok_uuid: "codec_ok e \<Longrightarrow> uuid_parse e (uuid_text e u) = Some u"
  by (simp add: codec_ok_def)

lemma codec_ok_uuid_inj: "codec_ok e \<Longrightarrow> uuid_text e u = uuid_text e v \<longleftrightarrow> u = v"
  by (metis codec_ok_def option.inject)

lemma codec_ok_time: "codec_ok e \<Longrightarrow> time_format e t = Some s \<Longrightarrow> time_parse e s = Some t"
  by (simp add: codec_ok_def)

lemma codec_ok_envelope:
  "codec_ok e \<Longrightarrow> envelope_to_json e v = Some s \<Longrightarrow> envelope_of_json e s = Some v"
  by (simp add: codec_ok_def)

section \<open>Statements\<close>

text \<open>A statement gives \<open>None\<close> when a constraint of the schema refuses it.\<close>

type_synonym 'a statement = "database \<Rightarrow> ('a \<times> database) option"

definition no_op :: "unit statement" where
  "no_op d = Some ((), d)"

definition select_device :: "string \<Rightarrow> device_row option statement" where
  "select_device i d = Some (find_row dr_id i (db_devices d), d)"

definition insert_device :: "device_row \<Rightarrow> unit statement" where
  "insert_device r d =
     map_option (\<lambda>rows. ((), d\<lparr>db_devices := rows\<rparr>)) (insert_row dr_id r (db_devices d))"

definition select_devices :: "device_row list statement" where
  "select_devices d = Some (sort_key (\<lambda>r. (dr_created_at r, dr_id r)) (db_devices d), d)"

definition update_revoked :: "string \<Rightarrow> string \<Rightarrow> nat statement" where
  "update_revoked t i d =
     (let (n, rows) = update_rows (\<lambda>r. dr_id r = i \<and> dr_revoked_at r = None)
                        (\<lambda>r. r\<lparr>dr_revoked_at := Some t\<rparr>) (db_devices d)
      in Some (n, d\<lparr>db_devices := rows\<rparr>))"

definition select_object :: "string \<Rightarrow> object_row option statement" where
  "select_object i d = Some (find_row or_id i (db_objects d), d)"

definition device_exists :: "string \<Rightarrow> database \<Rightarrow> bool" where
  "device_exists i d \<longleftrightarrow> find_row dr_id i (db_devices d) \<noteq> None"

text \<open>\<open>INSERT INTO changes\<close> gives the new row id. It is refused when the device does not exist
  (foreign key) or when no row id is left.\<close>

definition insert_change :: "string \<Rightarrow> string \<Rightarrow> int \<Rightarrow> string \<Rightarrow> string \<Rightarrow> int \<Rightarrow> int statement" where
  "insert_change obj ns rv dev modified deleted d =
     (if device_exists dev d \<and> db_seq d < i64_max
      then Some (db_seq d + 1,
             d\<lparr>db_seq := db_seq d + 1,
               db_changes := db_changes d @
                 [\<lparr>cr_cursor = db_seq d + 1, cr_object_id = obj, cr_namespace = ns,
                   cr_revision = rv, cr_device_id = dev, cr_modified_at = modified,
                   cr_deleted = deleted\<rparr>]\<rparr>)
      else None)"

definition row_checks :: "object_row \<Rightarrow> database \<Rightarrow> bool" where
  "row_checks r d \<longleftrightarrow>
     0 < or_revision r \<and> 0 < or_cursor r \<and> or_deleted r \<in> {0, 1} \<and> device_exists (or_device_id r) d"

definition upsert_object :: "object_row \<Rightarrow> unit statement" where
  "upsert_object r d =
     (if row_checks r d then Some ((), d\<lparr>db_objects := upsert_row or_id r (db_objects d)\<rparr>)
      else None)"

text \<open>\<open>UPDATE objects SET revision=?, cursor=?, device_id=?, modified_at=?, deleted=1,
  envelope_json=NULL WHERE id=?\<close>.\<close>

definition tombstone :: "int \<Rightarrow> int \<Rightarrow> string \<Rightarrow> string \<Rightarrow> object_row \<Rightarrow> object_row" where
  "tombstone rv cur dev modified r =
     r\<lparr>or_revision := rv, or_cursor := cur, or_device_id := dev, or_modified_at := modified,
       or_deleted := 1, or_envelope_json := None\<rparr>"

definition tombstone_object :: "int \<Rightarrow> int \<Rightarrow> string \<Rightarrow> string \<Rightarrow> string \<Rightarrow> nat statement" where
  "tombstone_object rv cur dev modified i d =
     (let (n, rows) = update_rows (\<lambda>r. or_id r = i) (tombstone rv cur dev modified) (db_objects d)
      in if \<forall>r \<in> set rows. or_id r = i \<longrightarrow> row_checks r d
         then Some (n, d\<lparr>db_objects := rows\<rparr>) else None)"

definition select_changes :: "int \<Rightarrow> nat \<Rightarrow> change_row list statement" where
  "select_changes after limit d =
     Some (take limit (sort_key cr_cursor (filter (\<lambda>r. after < cr_cursor r) (db_changes d))), d)"

section \<open>Connections and transactions\<close>

record conn =
  c_db :: database
  c_tick :: nat

text \<open>The status of a response and its \<open>ApiErrorBody\<close>.\<close>

record api_error =
  ae_status :: nat
  ae_body :: api_error_body

type_synonym 'a handler = "(conn, api_error, 'a) comp"

definition api_error_new :: "nat \<Rightarrow> string \<Rightarrow> string \<Rightarrow> api_error" where
  "api_error_new status code message =
     \<lparr>ae_status = status,
      ae_body = \<lparr>err_code = code, err_message = message, err_current_revision = None,
                 err_current_cursor = None\<rparr>\<rparr>"

definition api_conflict :: "u64 \<Rightarrow> u64 \<Rightarrow> api_error" where
  "api_conflict current_revision current_cursor =
     (let error = api_error_new 409 ''revision_conflict''
                    ''the object changed since the supplied base revision''
      in error\<lparr>ae_body := (ae_body error)
           \<lparr>err_current_revision := Some current_revision,
             err_current_cursor := Some current_cursor\<rparr>\<rparr>)"

definition database_error :: api_error where
  "database_error = api_error_new 500 ''database_unavailable'' ''the server database operation failed''"

definition serialization_error :: api_error where
  "serialization_error =
     api_error_new 500 ''stored_data_invalid'' ''stored synchronization metadata was invalid''"

definition sql :: "env \<Rightarrow> 'a statement \<Rightarrow> 'a handler" where
  "sql e q c =
     (let c' = c\<lparr>c_tick := Suc (c_tick c)\<rparr>
      in if db_fault e (c_tick c) then (Inl database_error, c')
         else (case q (c_db c) of
                 None \<Rightarrow> (Inl database_error, c')
               | Some (x, d) \<Rightarrow> (Inr x, c'\<lparr>c_db := d\<rparr>)))"

definition rollback_to :: "database \<Rightarrow> conn \<Rightarrow> conn" where
  "rollback_to d c = c\<lparr>c_db := d\<rparr>"

text \<open>\<open>pool.begin()\<close>, the body, \<open>commit()\<close>; a transaction dropped without a commit rolls back.\<close>

definition transaction :: "env \<Rightarrow> 'a handler \<Rightarrow> 'a handler" where
  "transaction e body c =
     (case sql e no_op c of
        (Inl er, c1) \<Rightarrow> (Inl er, c1)
      | (Inr _, c1) \<Rightarrow>
          (case body c1 of
             (Inl er, c2) \<Rightarrow> (Inl er, rollback_to (c_db c1) c2)
           | (Inr x, c2) \<Rightarrow>
               (case sql e no_op c2 of
                  (Inl er, c3) \<Rightarrow> (Inl er, rollback_to (c_db c1) c3)
                | (Inr _, c3) \<Rightarrow> (Inr x, c3))))"

lemma sql_Inr [result_simps]:
  "sql e q c = (Inr x, c') \<longleftrightarrow>
     \<not> db_fault e (c_tick c) \<and>
     (\<exists>d. q (c_db c) = Some (x, d) \<and> c' = c\<lparr>c_tick := Suc (c_tick c), c_db := d\<rparr>)"
  by (auto simp: sql_def Let_def split: option.splits)

lemma sql_Inl [result_simps]:
  "sql e q c = (Inl er, c') \<longleftrightarrow>
     (db_fault e (c_tick c) \<or> q (c_db c) = None) \<and> er = database_error \<and>
     c' = c\<lparr>c_tick := Suc (c_tick c)\<rparr>"
  by (auto simp: sql_def Let_def split: option.splits)

lemma no_op_db [simp]: "no_op d = Some (x, d') \<longleftrightarrow> d' = d"
  by (auto simp: no_op_def)

lemma no_op_not_None [simp]: "no_op d \<noteq> None"
  by (simp add: no_op_def)

lemma transaction_Inl: "transaction e body c = (Inl er, c') \<Longrightarrow> c_db c' = c_db c"
  by (auto simp: transaction_def result_simps rollback_to_def split: prod.splits sum.splits)

lemma transaction_Inr:
  "transaction e body c = (Inr x, c') \<Longrightarrow>
     \<exists>c2. body (c\<lparr>c_tick := Suc (c_tick c)\<rparr>) = (Inr x, c2) \<and> c_db c' = c_db c2"
  by (auto simp: transaction_def result_simps split: prod.splits sum.splits)

text \<open>Without faults a transaction succeeds exactly when its body does.\<close>

lemma sql_no_fault:
  "(\<And>n. \<not> db_fault e n) \<Longrightarrow> q (c_db c) = Some (x, d) \<Longrightarrow>
     sql e q c = (Inr x, c\<lparr>c_tick := Suc (c_tick c), c_db := d\<rparr>)"
  by (simp add: sql_def)

end
