(* ===== verification/ServerApi.thy ===== *)
theory ServerApi
  imports ServerDb
begin

text \<open>
  The request handlers of \<open>helium-sync-server/src/api.rs\<close> and the middleware of
  \<open>auth.rs\<close>, one definition per function, each statement and each early return in the
  order of the code. A handler takes the environment and runs on a connection
  (\<open>conn\<close>: the database and the number of database calls made so far).
\<close>

section \<open>Limits and conversions\<close>

definition MAX_BATCH_OPERATIONS :: nat where "MAX_BATCH_OPERATIONS = 100"
definition MAX_PAYLOAD_BYTES :: nat where "MAX_PAYLOAD_BYTES = 4 * 1024 * 1024"
definition MAX_CHANGES_LIMIT :: nat where "MAX_CHANGES_LIMIT = 1000"

definition numeric_range :: "string \<Rightarrow> api_error" where
  "numeric_range label = api_error_new 422 ''numeric_range'' (label @ '' exceeds the supported range'')"

definition i64_from_u64 :: "u64 \<Rightarrow> string \<Rightarrow> api_error + int" where
  "i64_from_u64 v label = ok_or (numeric_range label) (u64_to_i64 v)"

definition u64_from_i64 :: "int \<Rightarrow> api_error + u64" where
  "u64_from_i64 v = ok_or serialization_error (i64_to_u64 v)"

definition timestamp_string :: "env \<Rightarrow> timestamp \<Rightarrow> api_error + string" where
  "timestamp_string e t = ok_or serialization_error (time_format e t)"

definition parse_timestamp :: "env \<Rightarrow> string \<Rightarrow> api_error + timestamp" where
  "parse_timestamp e s = ok_or serialization_error (time_parse e s)"

definition parse_uuid :: "env \<Rightarrow> string \<Rightarrow> api_error + uuid" where
  "parse_uuid e s = ok_or serialization_error (uuid_parse e s)"

definition row_to_object :: "env \<Rightarrow> object_row \<Rightarrow> api_error + sync_object" where
  "row_to_object e r =
     andThen (parse_uuid e (or_id r)) (\<lambda>i.
     andThen (u64_from_i64 (or_revision r)) (\<lambda>revision.
     andThen (u64_from_i64 (or_cursor r)) (\<lambda>cursor.
     andThen (parse_uuid e (or_device_id r)) (\<lambda>dev.
     andThen (parse_timestamp e (or_modified_at r)) (\<lambda>modified.
     andThen (case or_envelope_json r of
                None \<Rightarrow> Inr None
              | Some value \<Rightarrow>
                  (case envelope_of_json e value of
                     None \<Rightarrow> Inl serialization_error
                   | Some v \<Rightarrow> Inr (Some v))) (\<lambda>envelope.
     Inr \<lparr>so_id = ObjectId i, so_namespace = or_namespace r, so_revision = revision,
          so_cursor = cursor, so_device_id = DeviceId dev, so_modified_at = modified,
          so_deleted = (or_deleted r \<noteq> 0), so_envelope = envelope\<rparr>))))))"

definition row_to_change :: "env \<Rightarrow> change_row \<Rightarrow> api_error + change" where
  "row_to_change e r =
     andThen (u64_from_i64 (cr_cursor r)) (\<lambda>cursor.
     andThen (parse_uuid e (cr_object_id r)) (\<lambda>i.
     andThen (u64_from_i64 (cr_revision r)) (\<lambda>revision.
     andThen (parse_uuid e (cr_device_id r)) (\<lambda>dev.
     andThen (parse_timestamp e (cr_modified_at r)) (\<lambda>modified.
     Inr \<lparr>ch_cursor = cursor, ch_object_id = ObjectId i, ch_namespace = cr_namespace r,
          ch_revision = revision, ch_device_id = DeviceId dev, ch_modified_at = modified,
          ch_deleted = (cr_deleted r \<noteq> 0)\<rparr>)))))"

definition row_to_device :: "env \<Rightarrow> device_row \<Rightarrow> api_error + device" where
  "row_to_device e r =
     andThen (parse_uuid e (dr_id r)) (\<lambda>i.
     andThen (parse_timestamp e (dr_created_at r)) (\<lambda>created.
     andThen (case dr_revoked_at r of
                None \<Rightarrow> Inr None
              | Some value \<Rightarrow> andThen (parse_timestamp e value) (\<lambda>t. Inr (Some t))) (\<lambda>revoked.
     Inr \<lparr>dev_id = DeviceId i, dev_name = dr_name r, dev_created_at = created,
          dev_revoked_at = revoked\<rparr>)))"

section \<open>Devices\<close>

text \<open>\<open>Timestamp::now_utc()\<close>: the clock of the environment.\<close>

definition now_utc :: "env \<Rightarrow> timestamp handler" where
  "now_utc e c = (Inr (clock e (c_tick c)), c)"

lemma now_utc_iff [result_simps]: "now_utc e c = (r, c') \<longleftrightarrow> r = Inr (clock e (c_tick c)) \<and> c' = c"
  by (auto simp: now_utc_def)

definition register_device :: "env \<Rightarrow> register_device_request \<Rightarrow> (nat \<times> device) handler" where
  "register_device e req =
     (let name = rust_trim (reg_name req); i = uuid_text e (device_uuid (reg_id req))
      in if name = [] \<or> length name > 128
         then liftS (Inl (api_error_new 422 ''invalid_device_name''
                ''device name must contain between 1 and 128 characters''))
         else bindS (sql e (select_device i)) (\<lambda>existing.
           case existing of
             Some row \<Rightarrow>
               if dr_name row = name \<and> dr_revoked_at row = None
               then liftS (andThen (parse_timestamp e (dr_created_at row)) (\<lambda>created.
                      Inr (200, \<lparr>dev_id = reg_id req, dev_name = dr_name row,
                                 dev_created_at = created, dev_revoked_at = None\<rparr>)))
               else liftS (Inl (api_error_new 409 ''device_exists''
                      ''a device with this ID is already registered with different or revoked metadata''))
           | None \<Rightarrow>
               bindS (now_utc e) (\<lambda>created_at.
               bindS (liftS (timestamp_string e created_at)) (\<lambda>created.
               bindS (sql e (insert_device
                        \<lparr>dr_id = i, dr_name = name, dr_created_at = created,
                         dr_revoked_at = None\<rparr>)) (\<lambda>_.
               returnS (201, \<lparr>dev_id = reg_id req, dev_name = name,
                              dev_created_at = created_at, dev_revoked_at = None\<rparr>))))))"

definition list_devices :: "env \<Rightarrow> device list handler" where
  "list_devices e =
     bindS (sql e select_devices) (\<lambda>rows. liftS (collect_results (row_to_device e) rows))"

definition revoke_device :: "env \<Rightarrow> uuid \<Rightarrow> nat handler" where
  "revoke_device e i =
     bindS (now_utc e) (\<lambda>now.
     bindS (liftS (timestamp_string e now)) (\<lambda>revoked_at.
     bindS (sql e (update_revoked revoked_at (uuid_text e i))) (\<lambda>affected.
     if affected = 0
     then liftS (Inl (api_error_new 404 ''device_not_found'' ''active device was not found''))
     else returnS 204)))"

definition ensure_active_device :: "env \<Rightarrow> device_id \<Rightarrow> unit handler" where
  "ensure_active_device e i =
     bindS (sql e (select_device (uuid_text e (device_uuid i)))) (\<lambda>row. liftS
       (case row of
          Some r \<Rightarrow>
            if dr_revoked_at r = None then Inr ()
            else Inl (api_error_new 403 ''device_revoked'' ''the writing device is revoked'')
        | None \<Rightarrow>
            Inl (api_error_new 403 ''device_unregistered'' ''the writing device is not registered'')))"

section \<open>Objects\<close>

definition object_not_found :: api_error where
  "object_not_found = api_error_new 404 ''object_not_found'' ''sync object was not found''"

definition get_object :: "env \<Rightarrow> uuid \<Rightarrow> sync_object handler" where
  "get_object e i =
     bindS (sql e (select_object (uuid_text e i))) (\<lambda>row.
     bindS (liftS (ok_or object_not_found row)) (\<lambda>r.
     liftS (row_to_object e r)))"

definition validate_put :: "put_object_request \<Rightarrow> api_error + unit" where
  "validate_put req =
     (if put_namespace req = [] \<or> length (put_namespace req) > 128
      then Inl (api_error_new 422 ''invalid_namespace''
             ''namespace must contain between 1 and 128 characters'')
      else if env_version (put_envelope req) \<noteq> 1
            \<or> env_algorithm (put_envelope req) \<noteq> ''XCHACHA20-POLY1305''
            \<or> length (env_nonce (put_envelope req)) \<noteq> 24
      then Inl (api_error_new 422 ''invalid_envelope''
             ''encrypted envelope must use version 1 XChaCha20-Poly1305 with a 24-byte nonce'')
      else if length (env_ciphertext (put_envelope req)) > MAX_PAYLOAD_BYTES
      then Inl (api_error_new 413 ''payload_too_large''
             ''encrypted payload exceeds the configured 4 MiB limit'')
      else Inr ())"

definition conflict_with :: "int \<Rightarrow> int \<Rightarrow> api_error + 'a" where
  "conflict_with revision cursor =
     andThen (u64_from_i64 revision) (\<lambda>r.
     andThen (u64_from_i64 cursor) (\<lambda>cu. Inl (api_conflict r cu)))"

definition revision_exhausted :: api_error where
  "revision_exhausted =
     api_error_new 409 ''revision_exhausted'' ''object revision cannot be incremented''"

fun put_revision :: "(int \<times> int) option \<Rightarrow> u64 option \<Rightarrow> api_error + u64" where
  "put_revision None None = Inr 1"
| "put_revision (Some (current, cursor)) (Some base) =
     andThen (u64_from_i64 current) (\<lambda>cur.
       if cur = base then ok_or revision_exhausted (checked_add_u64 base 1)
       else conflict_with current cursor)"
| "put_revision (Some (current, cursor)) None = conflict_with current cursor"
| "put_revision None (Some base) =
     Inl (api_error_new 409 ''object_missing''
       ''an update base revision was supplied for a missing object'')"

definition put_object_tx :: "env \<Rightarrow> object_id \<Rightarrow> put_object_request \<Rightarrow> sync_object handler" where
  "put_object_tx e i req =
     bindS (liftS (validate_put req)) (\<lambda>_.
     bindS (ensure_active_device e (put_device_id req)) (\<lambda>_.
     bindS (sql e (select_object (uuid_text e (object_uuid i)))) (\<lambda>row.
     bindS (liftS (put_revision (map_option (\<lambda>r. (or_revision r, or_cursor r)) row)
                     (put_base_revision req))) (\<lambda>new_revision.
     bindS (liftS (timestamp_string e (put_modified_at req))) (\<lambda>modified_at.
     bindS (liftS (i64_from_u64 new_revision ''revision'')) (\<lambda>revision_i64.
     bindS (sql e (insert_change (uuid_text e (object_uuid i)) (put_namespace req) revision_i64
                     (uuid_text e (device_uuid (put_device_id req))) modified_at 0)) (\<lambda>rowid.
     bindS (liftS (u64_from_i64 rowid)) (\<lambda>cursor.
     bindS (liftS (ok_or serialization_error (envelope_to_json e (put_envelope req)))) (\<lambda>json.
     bindS (liftS (i64_from_u64 cursor ''cursor'')) (\<lambda>cursor_i64.
     bindS (sql e (upsert_object
                     \<lparr>or_id = uuid_text e (object_uuid i), or_namespace = put_namespace req,
                      or_revision = revision_i64, or_cursor = cursor_i64,
                      or_device_id = uuid_text e (device_uuid (put_device_id req)),
                      or_modified_at = modified_at, or_deleted = 0,
                      or_envelope_json = Some json\<rparr>)) (\<lambda>_.
     returnS \<lparr>so_id = i, so_namespace = put_namespace req, so_revision = new_revision,
              so_cursor = cursor, so_device_id = put_device_id req,
              so_modified_at = put_modified_at req, so_deleted = False,
              so_envelope = Some (put_envelope req)\<rparr>)))))))))))"

definition delete_object_tx :: "env \<Rightarrow> object_id \<Rightarrow> delete_object_request \<Rightarrow> sync_object handler" where
  "delete_object_tx e i req =
     bindS (ensure_active_device e (del_device_id req)) (\<lambda>_.
     bindS (sql e (select_object (uuid_text e (object_uuid i)))) (\<lambda>row.
     bindS (liftS (ok_or object_not_found row)) (\<lambda>r.
     bindS (liftS (u64_from_i64 (or_revision r))) (\<lambda>current.
     bindS (liftS (if current \<noteq> del_base_revision req
                   then andThen (u64_from_i64 (or_cursor r)) (\<lambda>cu. Inl (api_conflict current cu))
                   else Inr ())) (\<lambda>_.
     bindS (liftS (ok_or revision_exhausted (checked_add_u64 current 1))) (\<lambda>new_revision.
     bindS (liftS (timestamp_string e (del_modified_at req))) (\<lambda>modified_at.
     bindS (liftS (i64_from_u64 new_revision ''revision'')) (\<lambda>revision_i64.
     bindS (sql e (insert_change (uuid_text e (object_uuid i)) (or_namespace r) revision_i64
                     (uuid_text e (device_uuid (del_device_id req))) modified_at 1)) (\<lambda>rowid.
     bindS (liftS (u64_from_i64 rowid)) (\<lambda>cursor.
     bindS (liftS (i64_from_u64 cursor ''cursor'')) (\<lambda>cursor_i64.
     bindS (sql e (tombstone_object revision_i64 cursor_i64
                     (uuid_text e (device_uuid (del_device_id req))) modified_at
                     (uuid_text e (object_uuid i)))) (\<lambda>_.
     returnS \<lparr>so_id = i, so_namespace = or_namespace r, so_revision = new_revision,
              so_cursor = cursor, so_device_id = del_device_id req,
              so_modified_at = del_modified_at req, so_deleted = True,
              so_envelope = None\<rparr>))))))))))))"

definition put_object :: "env \<Rightarrow> uuid \<Rightarrow> put_object_request \<Rightarrow> sync_object handler" where
  "put_object e i req = transaction e (put_object_tx e (ObjectId i) req)"

definition delete_object :: "env \<Rightarrow> uuid \<Rightarrow> delete_object_request \<Rightarrow> sync_object handler" where
  "delete_object e i req = transaction e (delete_object_tx e (ObjectId i) req)"

section \<open>Changes and batches\<close>

definition changes :: "env \<Rightarrow> u64 \<Rightarrow> u32 \<Rightarrow> changes_response handler" where
  "changes e after limit =
     (let n = nat (uint limit)
      in if n = 0 \<or> n > MAX_CHANGES_LIMIT
         then liftS (Inl (api_error_new 422 ''invalid_limit''
                ''changes limit must be between 1 and 1000''))
         else bindS (liftS (i64_from_u64 after ''after cursor'')) (\<lambda>after_i64.
              bindS (sql e (select_changes after_i64 (n + 1))) (\<lambda>rows.
              bindS (liftS (collect_results (row_to_change e) (take n rows))) (\<lambda>page.
              returnS \<lparr>page_changes = page,
                       page_next_cursor = (if page = [] then after else ch_cursor (last page)),
                       page_has_more = (length rows > n)\<rparr>))))"

fun batch_op_tx :: "env \<Rightarrow> batch_operation \<Rightarrow> sync_object handler" where
  "batch_op_tx e (BatchPut i req) = put_object_tx e i req"
| "batch_op_tx e (BatchDelete i req) = delete_object_tx e i req"

fun batch_tx :: "env \<Rightarrow> batch_operation list \<Rightarrow> sync_object list handler" where
  "batch_tx e [] = returnS []"
| "batch_tx e (operation # rest) =
     bindS (batch_op_tx e operation) (\<lambda>object.
     bindS (batch_tx e rest) (\<lambda>objects. returnS (object # objects)))"

definition batch :: "env \<Rightarrow> batch_request \<Rightarrow> batch_response handler" where
  "batch e req =
     (if batch_operations req = [] \<or> length (batch_operations req) > MAX_BATCH_OPERATIONS
      then liftS (Inl (api_error_new 422 ''invalid_batch_size''
             ''a batch must contain between 1 and 100 operations''))
      else bindS (transaction e (batch_tx e (batch_operations req)))
             (\<lambda>objects. returnS \<lparr>batch_objects = objects\<rparr>))"

section \<open>Version, status and the middleware\<close>

definition version :: "string \<Rightarrow> version_response" where
  "version pkg_version =
     \<lparr>vr_server_version = pkg_version,
      vr_protocol = \<lparr>range_min = PROTOCOL_MIN, range_max = PROTOCOL_MAX\<rparr>,
      vr_capabilities =
        [''objects'', ''changes'', ''devices'', ''batch'', ''encrypted-envelope-v1'']\<rparr>"

definition status :: "env \<Rightarrow> status_response handler" where
  "status e =
     bindS (sql e no_op) (\<lambda>_.
     bindS (now_utc e) (\<lambda>now.
     returnS \<lparr>sr_status = ''ok'', sr_database = ''ok'', sr_server_time = now,
              sr_protocol = PROTOCOL_MAX\<rparr>))"

text \<open>The routes of \<open>router\<close>, with the body already decoded by the framework.\<close>

datatype route =
    RouteVersion
  | RouteStatus
  | RouteListDevices
  | RouteRegister register_device_request
  | RouteRevoke uuid
  | RouteChanges u64 u32
  | RouteGet uuid
  | RoutePut uuid put_object_request
  | RouteDelete uuid delete_object_request
  | RouteBatch batch_request

record http_request =
  hr_authorization :: "string option"
  hr_protocol :: "string option"
  hr_route :: route

datatype reply =
    VersionReply version_response
  | StatusReply status_response
  | DevicesReply "device list"
  | DeviceReply nat device
  | RevokedReply nat
  | ChangesReply changes_response
  | ObjectReply sync_object
  | BatchReply batch_response

definition reply_with :: "('a \<Rightarrow> reply) \<Rightarrow> 'a handler \<Rightarrow> reply handler" where
  "reply_with f m = bindS m (\<lambda>x. returnS (f x))"

fun handle_route :: "env \<Rightarrow> string \<Rightarrow> route \<Rightarrow> reply handler" where
  "handle_route e pkg RouteVersion = returnS (VersionReply (version pkg))"
| "handle_route e pkg RouteStatus = reply_with StatusReply (status e)"
| "handle_route e pkg RouteListDevices = reply_with DevicesReply (list_devices e)"
| "handle_route e pkg (RouteRegister req) =
     reply_with (\<lambda>(s, d). DeviceReply s d) (register_device e req)"
| "handle_route e pkg (RouteRevoke i) = reply_with RevokedReply (revoke_device e i)"
| "handle_route e pkg (RouteChanges after limit) = reply_with ChangesReply (changes e after limit)"
| "handle_route e pkg (RouteGet i) = reply_with ObjectReply (get_object e i)"
| "handle_route e pkg (RoutePut i req) = reply_with ObjectReply (put_object e i req)"
| "handle_route e pkg (RouteDelete i req) = reply_with ObjectReply (delete_object e i req)"
| "handle_route e pkg (RouteBatch req) = reply_with BatchReply (batch e req)"

definition require_protocol :: "string option \<Rightarrow> api_error + unit" where
  "require_protocol header =
     (case Option.bind header (parse_unsigned 10 65535) of
        Some v \<Rightarrow>
          if v = nat (uint (protocol_number PROTOCOL_MAX)) then Inr ()
          else Inl (api_error_new 426 ''protocol_incompatible''
                 ''a supported x-helium-sync-protocol header is required'')
      | None \<Rightarrow> Inl (api_error_new 426 ''protocol_incompatible''
                 ''a supported x-helium-sync-protocol header is required''))"

definition bytes_of :: "string \<Rightarrow> bytes" where
  "bytes_of s = map (\<lambda>c. word_of_nat (code_of c)) s"

text \<open>\<open>sha256\<close> is the \<open>sha2\<close> crate; \<open>ct_eq\<close> decides equality of the digests.\<close>

definition token_digest :: "(bytes \<Rightarrow> bytes) \<Rightarrow> string \<Rightarrow> bytes" where
  "token_digest sha256 token = sha256 (bytes_of token)"

record app_state =
  app_token_digest :: bytes

definition app_state_new :: "(bytes \<Rightarrow> bytes) \<Rightarrow> string \<Rightarrow> app_state" where
  "app_state_new sha256 token = \<lparr>app_token_digest = token_digest sha256 token\<rparr>"

definition require_auth :: "(bytes \<Rightarrow> bytes) \<Rightarrow> app_state \<Rightarrow> string option \<Rightarrow> api_error + unit" where
  "require_auth sha256 state header =
     andThen (ok_or (api_error_new 401 ''authentication_required'' ''a bearer token is required'')
                (Option.bind header (strip_prefix ''Bearer ''))) (\<lambda>presented.
       if sha256 (bytes_of presented) \<noteq> app_token_digest state
       then Inl (api_error_new 401 ''authentication_rejected'' ''the bearer token was rejected'')
       else Inr ())"

text \<open>\<open>require_auth\<close> is the outermost layer; every route but \<open>/v1/version\<close> is under
  \<open>require_protocol\<close>.\<close>

definition serve_request ::
  "env \<Rightarrow> (bytes \<Rightarrow> bytes) \<Rightarrow> app_state \<Rightarrow> string \<Rightarrow> http_request \<Rightarrow> reply handler" where
  "serve_request e sha256 state pkg req =
     bindS (liftS (require_auth sha256 state (hr_authorization req))) (\<lambda>_.
     bindS (liftS (if hr_route req = RouteVersion then Inr ()
                   else require_protocol (hr_protocol req))) (\<lambda>_.
     handle_route e pkg (hr_route req)))"

end
