(* ===== verification/ServerInv.thy ===== *)
theory ServerInv
  imports ServerApi
begin

text \<open>
  What the handlers do to the database when they succeed, and the invariant \<open>db_inv\<close> they
  keep. Both write operations have the same effect, \<open>write_db\<close>: they append one row to
  \<open>changes\<close> and make the object's row agree with it. The invariant says that keys are
  unique, that cursors grow strictly and never exceed the sequence, that the revisions of the
  changes of one object are 1, 2, ..., n in order, and that the object's row is the last of
  them, with an envelope exactly when it is not deleted.
\<close>

section \<open>The effect of a write\<close>

definition change_of_row :: "object_row \<Rightarrow> change_row" where
  "change_of_row r =
     \<lparr>cr_cursor = or_cursor r, cr_object_id = or_id r, cr_namespace = or_namespace r,
      cr_revision = or_revision r, cr_device_id = or_device_id r,
      cr_modified_at = or_modified_at r, cr_deleted = or_deleted r\<rparr>"

definition write_db :: "object_row \<Rightarrow> database \<Rightarrow> database" where
  "write_db r d = d\<lparr>db_seq := db_seq d + 1, db_changes := db_changes d @ [change_of_row r],
                    db_objects := upsert_row or_id r (db_objects d)\<rparr>"

definition device_active :: "env \<Rightarrow> device_id \<Rightarrow> database \<Rightarrow> bool" where
  "device_active e i d \<longleftrightarrow>
     (\<exists>r. find_row dr_id (uuid_text e (device_uuid i)) (db_devices d) = Some r
          \<and> dr_revoked_at r = None)"

definition current_row :: "env \<Rightarrow> object_id \<Rightarrow> database \<Rightarrow> object_row option" where
  "current_row e i d = find_row or_id (uuid_text e (object_uuid i)) (db_objects d)"

lemma ensure_active_device_Inr [result_simps]:
  "ensure_active_device e i c = (Inr u, c') \<longleftrightarrow>
     \<not> db_fault e (c_tick c) \<and> device_active e i (c_db c) \<and> c' = c\<lparr>c_tick := Suc (c_tick c)\<rparr>"
  by (auto simp: ensure_active_device_def result_simps select_device_def device_active_def
      split: option.splits if_splits)

lemma device_active_exists:
  "device_active e i d \<Longrightarrow> device_exists (uuid_text e (device_uuid i)) d"
  by (auto simp: device_active_def device_exists_def)

text \<open>Row ids go through \<open>u64\<close> and back without loss.\<close>

lemma rowid_round_trip:
  assumes "u64_from_i64 n = Inr cur" and "i64_from_u64 cur label = Inr m" and "n \<le> i64_max"
  shows "m = n" and "cur = word_of_int n" and "0 \<le> n"
  using assms uint_of_i64 [of n]
  by (auto simp: u64_from_i64_def i64_from_u64_def result_simps)

definition put_row :: "env \<Rightarrow> object_id \<Rightarrow> put_object_request \<Rightarrow> u64 \<Rightarrow> int \<Rightarrow> string \<Rightarrow> string \<Rightarrow> object_row" where
  "put_row e i req revision cursor modified json =
     \<lparr>or_id = uuid_text e (object_uuid i), or_namespace = put_namespace req,
      or_revision = uint revision, or_cursor = cursor,
      or_device_id = uuid_text e (device_uuid (put_device_id req)),
      or_modified_at = modified, or_deleted = 0, or_envelope_json = Some json\<rparr>"

definition put_result :: "object_id \<Rightarrow> put_object_request \<Rightarrow> u64 \<Rightarrow> u64 \<Rightarrow> sync_object" where
  "put_result i req revision cursor =
     \<lparr>so_id = i, so_namespace = put_namespace req, so_revision = revision, so_cursor = cursor,
      so_device_id = put_device_id req, so_modified_at = put_modified_at req,
      so_deleted = False, so_envelope = Some (put_envelope req)\<rparr>"

lemma put_object_tx_success:
  assumes "put_object_tx e i req c = (Inr ob, c')"
  obtains revision modified json where
    "validate_put req = Inr ()" "device_active e (put_device_id req) (c_db c)"
    "put_revision (map_option (\<lambda>r. (or_revision r, or_cursor r)) (current_row e i (c_db c)))
       (put_base_revision req) = Inr revision"
    "time_format e (put_modified_at req) = Some modified"
    "envelope_to_json e (put_envelope req) = Some json"
    "uint revision \<le> i64_max" "db_seq (c_db c) < i64_max" "0 \<le> db_seq (c_db c) + 1"
    "c_db c' = write_db (put_row e i req revision (db_seq (c_db c) + 1) modified json) (c_db c)"
    "ob = put_result i req revision (word_of_int (db_seq (c_db c) + 1))"
proof -
  let ?d = "c_db c" and ?i = "uuid_text e (object_uuid i)"
  let ?dev = "uuid_text e (device_uuid (put_device_id req))"
  from assms obtain d1 d2 modified revision revi rowid cur json curi where
    step: "validate_put req = Inr ()" "device_active e (put_device_id req) ?d"
    "put_revision (map_option (\<lambda>r. (or_revision r, or_cursor r)) (current_row e i ?d))
       (put_base_revision req) = Inr revision"
    "time_format e (put_modified_at req) = Some modified"
    "i64_from_u64 revision ''revision'' = Inr revi"
    "insert_change ?i (put_namespace req) revi ?dev modified 0 ?d = Some (rowid, d1)"
    "u64_from_i64 rowid = Inr cur" "envelope_to_json e (put_envelope req) = Some json"
    "i64_from_u64 cur ''cursor'' = Inr curi"
    "upsert_object
       \<lparr>or_id = ?i, or_namespace = put_namespace req, or_revision = revi, or_cursor = curi,
        or_device_id = ?dev, or_modified_at = modified, or_deleted = 0,
        or_envelope_json = Some json\<rparr> d1 = Some ((), d2)"
    "c_db c' = d2" "ob = put_result i req revision cur"
    unfolding put_object_tx_def
    by (auto simp: result_simps select_object_def timestamp_string_def current_row_def put_result_def)
  from step(6) have d1: "rowid = db_seq ?d + 1" "db_seq ?d < i64_max"
    "d1 = ?d\<lparr>db_seq := db_seq ?d + 1, db_changes := db_changes ?d @
       [\<lparr>cr_cursor = db_seq ?d + 1, cr_object_id = ?i, cr_namespace = put_namespace req,
         cr_revision = revi, cr_device_id = ?dev, cr_modified_at = modified, cr_deleted = 0\<rparr>]\<rparr>"
    by (auto simp: insert_change_def split: if_splits)
  from step(5) have rev: "revi = uint revision" "uint revision \<le> i64_max"
    by (auto simp: i64_from_u64_def result_simps)
  have cur: "curi = db_seq ?d + 1" "cur = word_of_int (db_seq ?d + 1)" "0 \<le> db_seq ?d + 1"
    using rowid_round_trip [OF step(7,9)] d1 by (auto simp: i64_max_def)
  have "c_db c' = write_db (put_row e i req revision (db_seq ?d + 1) modified json) ?d"
    using step(10,11) d1(3) rev cur(1)
    by (auto simp: upsert_object_def write_db_def put_row_def change_of_row_def split: if_splits)
  then show ?thesis
    using that [OF step(1-4,8) rev(2) d1(2) cur(3)] step(12) cur(2) by simp
qed

definition delete_result :: "object_id \<Rightarrow> delete_object_request \<Rightarrow> string \<Rightarrow> u64 \<Rightarrow> u64 \<Rightarrow> sync_object" where
  "delete_result i req ns revision cursor =
     \<lparr>so_id = i, so_namespace = ns, so_revision = revision, so_cursor = cursor,
      so_device_id = del_device_id req, so_modified_at = del_modified_at req,
      so_deleted = True, so_envelope = None\<rparr>"

lemma tombstone_id [simp]: "or_id (tombstone rv cur dev modified r) = or_id r"
  by (simp add: tombstone_def)

lemma tombstone_as_upsert:
  assumes "key_ok or_id rows" and "find_row or_id i rows = Some r"
  shows "snd (update_rows (\<lambda>r. or_id r = i) (tombstone rv cur dev modified) rows) =
     upsert_row or_id (tombstone rv cur dev modified r) rows"
proof -
  have r: "or_id r = i" using find_row_SomeD [OF assms(2)] by simp
  let ?t = "tombstone rv cur dev modified"
  have "map (\<lambda>x. if or_id x = i then ?t x else x) rows =
        map (\<lambda>x. if or_id x = or_id (?t r) then ?t r else x) rows"
  proof (rule map_cong [OF refl])
    fix x assume "x \<in> set rows"
    then show "(if or_id x = i then ?t x else x) = (if or_id x = or_id (?t r) then ?t r else x)"
      using r assms(2) find_row_Some_iff [OF assms(1), of i x] by (cases "or_id x = i") simp_all
  qed
  moreover have "find_row or_id (or_id (?t r)) rows \<noteq> None"
    using assms(2) r by simp
  ultimately show ?thesis
    unfolding update_rows_def upsert_row_def snd_conv by (simp only: if_False)
qed


lemma delete_object_tx_success:
  assumes "delete_object_tx e i req c = (Inr ob, c')" and "key_ok or_id (db_objects (c_db c))"
  obtains r modified where
    "device_active e (del_device_id req) (c_db c)" "current_row e i (c_db c) = Some r"
    "0 \<le> or_revision r" "word_of_int (or_revision r) = del_base_revision req"
    "time_format e (del_modified_at req) = Some modified"
    "uint (del_base_revision req) + 1 \<le> i64_max" "db_seq (c_db c) < i64_max" "0 \<le> db_seq (c_db c) + 1"
    "c_db c' = write_db (tombstone (uint (del_base_revision req) + 1) (db_seq (c_db c) + 1)
        (uuid_text e (device_uuid (del_device_id req))) modified r) (c_db c)"
    "ob = delete_result i req (or_namespace r) (del_base_revision req + 1)
        (word_of_int (db_seq (c_db c) + 1))"
proof -
  let ?d = "c_db c" and ?i = "uuid_text e (object_uuid i)"
  let ?dev = "uuid_text e (device_uuid (del_device_id req))" and ?base = "del_base_revision req"
  from assms(1) obtain r modified revision revi rowid cur curi n d1 d2 where
    step: "device_active e (del_device_id req) ?d" "current_row e i ?d = Some r"
    "u64_from_i64 (or_revision r) = Inr ?base"
    "checked_add_u64 ?base 1 = Some revision"
    "time_format e (del_modified_at req) = Some modified"
    "i64_from_u64 revision ''revision'' = Inr revi"
    "insert_change ?i (or_namespace r) revi ?dev modified 1 ?d = Some (rowid, d1)"
    "u64_from_i64 rowid = Inr cur" "i64_from_u64 cur ''cursor'' = Inr curi"
    "tombstone_object revi curi ?dev modified ?i d1 = Some (n, d2)"
    "c_db c' = d2" "ob = delete_result i req (or_namespace r) revision cur"
    unfolding delete_object_tx_def
    by (auto simp: result_simps select_object_def timestamp_string_def current_row_def
        delete_result_def split: if_splits)
  from step(7) have d1: "rowid = db_seq ?d + 1" "db_seq ?d < i64_max"
    "d1 = ?d\<lparr>db_seq := db_seq ?d + 1, db_changes := db_changes ?d @
       [\<lparr>cr_cursor = db_seq ?d + 1, cr_object_id = ?i, cr_namespace = or_namespace r,
         cr_revision = revi, cr_device_id = ?dev, cr_modified_at = modified, cr_deleted = 1\<rparr>]\<rparr>"
    by (auto simp: insert_change_def split: if_splits)
  from step(3) have base: "0 \<le> or_revision r" "word_of_int (or_revision r) = ?base"
    by (auto simp: u64_from_i64_def result_simps)
  have rev: "revision = ?base + 1" "revi = uint ?base + 1" "uint ?base + 1 \<le> i64_max"
    using checked_add_u64_Some [OF step(4)] step(4,6)
    by (auto simp: i64_from_u64_def result_simps checked_add_u64_def split: if_splits)
  have cur: "curi = db_seq ?d + 1" "cur = word_of_int (db_seq ?d + 1)" "0 \<le> db_seq ?d + 1"
    using rowid_round_trip [OF step(8,9)] d1 by (auto simp: i64_max_def)
  have "find_row or_id ?i (db_objects ?d) = Some r"
    using step(2) by (simp add: current_row_def)
  note up = tombstone_as_upsert [OF assms(2) this, of revi curi ?dev modified]
  have ri: "or_id r = ?i"
    using step(2) find_row_SomeD unfolding current_row_def by metis
  have "d2 = d1\<lparr>db_objects := upsert_row or_id (tombstone revi curi ?dev modified r) (db_objects ?d)\<rparr>"
    using step(10) up d1(3)
    by (auto simp: tombstone_object_def Let_def split: prod.splits if_splits)
  then have "c_db c' = write_db (tombstone (uint ?base + 1) (db_seq ?d + 1) ?dev modified r) ?d"
    using step(11) d1(3) rev(2) cur(1) ri
    by (simp add: write_db_def change_of_row_def tombstone_def)
  then show ?thesis
    using that [OF step(1,2) base step(5) rev(3) d1(2) cur(3)] step(12) rev(1) cur(2) by simp
qed


section \<open>The invariant\<close>

definition history :: "string \<Rightarrow> database \<Rightarrow> change_row list" where
  "history i d = filter (\<lambda>r. cr_object_id r = i) (db_changes d)"

text \<open>The revisions of a history are 1, 2, ... in order.\<close>

definition numbered :: "change_row list \<Rightarrow> bool" where
  "numbered h \<longleftrightarrow> map cr_revision h = map int [1..<Suc (length h)]"

lemma numbered_Nil [simp]: "numbered []"
  by (simp add: numbered_def)

lemma numbered_snoc: "numbered (h @ [x]) \<longleftrightarrow> numbered h \<and> cr_revision x = int (Suc (length h))"
  by (auto simp: numbered_def)

lemma numbered_last: "numbered h \<Longrightarrow> h \<noteq> [] \<Longrightarrow> cr_revision (last h) = int (length h)"
  by (cases h rule: rev_cases) (auto simp: numbered_snoc)

definition object_ok :: "database \<Rightarrow> object_row \<Rightarrow> bool" where
  "object_ok d r \<longleftrightarrow>
     history (or_id r) d \<noteq> [] \<and>
     numbered (history (or_id r) d) \<and>
     last (history (or_id r) d) = change_of_row r \<and>
     or_revision r \<le> i64_max \<and> or_deleted r \<in> {0, 1} \<and>
     (or_deleted r = 0 \<longleftrightarrow> or_envelope_json r \<noteq> None) \<and> device_exists (or_device_id r) d"

definition change_ok :: "database \<Rightarrow> change_row \<Rightarrow> bool" where
  "change_ok d r \<longleftrightarrow>
     0 < cr_cursor r \<and> cr_cursor r \<le> db_seq d \<and> device_exists (cr_device_id r) d \<and>
     cr_object_id r \<in> or_id ` set (db_objects d)"

definition db_inv :: "database \<Rightarrow> bool" where
  "db_inv d \<longleftrightarrow>
     key_ok dr_id (db_devices d) \<and> key_ok or_id (db_objects d) \<and>
     0 \<le> db_seq d \<and> db_seq d \<le> i64_max \<and>
     sorted_wrt (<) (map cr_cursor (db_changes d)) \<and>
     (\<forall>r \<in> set (db_changes d). change_ok d r) \<and> (\<forall>r \<in> set (db_objects d). object_ok d r)"

lemma db_invD:
  assumes "db_inv d"
  shows "key_ok dr_id (db_devices d)" "key_ok or_id (db_objects d)" "0 \<le> db_seq d"
    "db_seq d \<le> i64_max" "sorted_wrt (<) (map cr_cursor (db_changes d))"
    "\<And>r. r \<in> set (db_changes d) \<Longrightarrow> change_ok d r" "\<And>r. r \<in> set (db_objects d) \<Longrightarrow> object_ok d r"
  using assms by (auto simp: db_inv_def)

lemma db_inv_empty: "db_inv empty_database"
  by (simp add: db_inv_def empty_database_def i64_max_def)

lemma device_exists_write [simp]: "device_exists i (write_db r d) = device_exists i d"
  by (simp add: device_exists_def write_db_def)

lemma history_write:
  "history i (write_db r d) = history i d @ (if or_id r = i then [change_of_row r] else [])"
  by (simp add: history_def write_db_def change_of_row_def)

lemma object_ok_revision:
  assumes "object_ok d r"
  shows "or_revision r = int (length (history (or_id r) d))" and "1 \<le> or_revision r"
proof -
  let ?h = "history (or_id r) d"
  from assms have h: "?h \<noteq> []" "numbered ?h" "last ?h = change_of_row r"
    by (auto simp: object_ok_def)
  from numbered_last [OF h(2,1)] h(3) show "or_revision r = int (length ?h)"
    by (simp add: change_of_row_def)
  with h(1) show "1 \<le> or_revision r" by (cases ?h) auto
qed

text \<open>What a write needs: the next row id, the next revision of the object and a row that
  satisfies the row part of the invariant.\<close>

definition write_ok :: "object_row \<Rightarrow> database \<Rightarrow> bool" where
  "write_ok r d \<longleftrightarrow>
     or_cursor r = db_seq d + 1 \<and> db_seq d < i64_max \<and> or_revision r \<le> i64_max \<and>
     or_revision r = (case find_row or_id (or_id r) (db_objects d) of
                        None \<Rightarrow> 1 | Some q \<Rightarrow> or_revision q + 1) \<and>
     or_deleted r \<in> {0, 1} \<and> (or_deleted r = 0 \<longleftrightarrow> or_envelope_json r \<noteq> None) \<and>
     device_exists (or_device_id r) d"

lemma history_empty:
  assumes "db_inv d" and "find_row or_id i (db_objects d) = None"
  shows "history i d = []"
  using assms by (auto simp: db_inv_def change_ok_def find_row_None history_def filter_empty_conv)

lemma write_ok_revision:
  assumes "db_inv d" and "write_ok r d"
  shows "or_revision r = int (Suc (length (history (or_id r) d)))"
proof (cases "find_row or_id (or_id r) (db_objects d)")
  case None
  with assms history_empty [OF assms(1) None] show ?thesis by (simp add: write_ok_def)
next
  case (Some q)
  then have "q \<in> set (db_objects d)" "or_id q = or_id r"
    using find_row_SomeD by fastforce+
  with assms Some object_ok_revision(1) [OF db_invD(7) [OF assms(1)]] show ?thesis
    by (auto simp: write_ok_def)
qed

lemma history_numbered:
  assumes "db_inv d"
  shows "numbered (history i d)"
proof (cases "find_row or_id i (db_objects d)")
  case None
  with history_empty [OF assms None] show ?thesis by simp
next
  case (Some q)
  then have "q \<in> set (db_objects d)" "or_id q = i"
    using find_row_SomeD by fast+
  with db_invD(7) [OF assms] show ?thesis by (auto simp: object_ok_def)
qed

lemma history_numbered_write:
  assumes "db_inv d" and "write_ok r d"
  shows "numbered (history (or_id r) (write_db r d))"
  using write_ok_revision [OF assms] history_numbered [OF assms(1)]
  by (simp add: history_write numbered_snoc change_of_row_def)

lemma write_db_inv:
  assumes inv: "db_inv d" and ok: "write_ok r d"
  shows "db_inv (write_db r d)"
proof -
  let ?d = "write_db r d"
  have fields: "db_devices ?d = db_devices d" "db_seq ?d = db_seq d + 1"
    "db_objects ?d = upsert_row or_id r (db_objects d)"
    "db_changes ?d = db_changes d @ [change_of_row r]"
    by (simp_all add: write_db_def)
  have ids: "or_id ` set (db_objects ?d) = insert (or_id r) (or_id ` set (db_objects d))"
    by (simp add: fields upsert_row_keys)
  have "change_ok ?d x" if "x \<in> set (db_changes ?d)" for x
  proof (cases "x = change_of_row r")
    case True
    then show ?thesis using ok db_invD(3) [OF inv] ids fields(2)
      by (simp add: change_ok_def change_of_row_def write_ok_def)
  next
    case False
    with that have "change_ok d x" using db_invD(6) [OF inv] by (simp add: fields)
    then show ?thesis unfolding change_ok_def ids using fields(2) by auto
  qed
  moreover have "object_ok ?d x" if "x \<in> set (db_objects ?d)" for x
  proof (cases "x = r")
    case True
    have "history (or_id r) ?d \<noteq> []" "last (history (or_id r) ?d) = change_of_row r"
      by (simp_all add: history_write)
    with ok history_numbered_write [OF inv ok] show ?thesis
      unfolding True object_ok_def write_ok_def device_exists_write by blast
  next
    case False
    with that have x: "x \<in> set (db_objects d)" "or_id x \<noteq> or_id r"
      unfolding fields by (blast dest: set_upsert_row)+
    then have "history (or_id x) ?d = history (or_id x) d" by (simp add: history_write)
    with db_invD(7) [OF inv x(1)] show ?thesis
      unfolding object_ok_def by auto
  qed
  moreover have "sorted_wrt (<) (map cr_cursor (db_changes ?d))"
    using db_invD(5,6) [OF inv] ok
    by (auto simp: fields sorted_wrt_append change_ok_def change_of_row_def write_ok_def
        intro: order.strict_trans1)
  moreover have "key_ok or_id (db_objects ?d)"
    unfolding fields(3) by (rule key_ok_upsert) (rule db_invD(2) [OF inv])
  ultimately show ?thesis
    using inv ok by (auto simp: db_inv_def fields(1,2) write_ok_def)
qed

lemma put_revision_Inr:
  "put_revision cur base = Inr revision \<longleftrightarrow>
     (cur = None \<and> base = None \<and> revision = 1) \<or>
     (\<exists>n k b. cur = Some (n, k) \<and> base = Some b \<and> 0 \<le> n \<and> b = word_of_int n \<and>
        checked_add_u64 b 1 = Some revision)"
  by (cases "(cur, base)" rule: put_revision.cases)
    (auto simp: result_simps u64_from_i64_def conflict_with_def)

lemma current_row_object:
  assumes "db_inv d" and "current_row e i d = Some r"
  shows "r \<in> set (db_objects d)" "or_id r = uuid_text e (object_uuid i)" "object_ok d r"
    "or_revision r \<le> i64_max"
proof -
  show r: "r \<in> set (db_objects d)" and "or_id r = uuid_text e (object_uuid i)"
    using assms(2) find_row_SomeD unfolding current_row_def by fast+
  show "object_ok d r" by (rule db_invD(7) [OF assms(1) r])
  then show "or_revision r \<le> i64_max" by (simp add: object_ok_def)
qed

lemma put_write_ok:
  assumes inv: "db_inv d" and dev: "device_active e (put_device_id req) d"
    and rev: "put_revision (map_option (\<lambda>r. (or_revision r, or_cursor r)) (current_row e i d))
       (put_base_revision req) = Inr revision"
    and bounds: "uint revision \<le> i64_max" "db_seq d < i64_max"
  shows "write_ok (put_row e i req revision (db_seq d + 1) modified json) d"
proof -
  have "uint revision = (case current_row e i d of None \<Rightarrow> 1 | Some q \<Rightarrow> or_revision q + 1)"
  proof (cases "current_row e i d")
    case None
    with rev show ?thesis by (simp add: put_revision_Inr)
  next
    case (Some q)
    with rev current_row_object(4) [OF inv Some] show ?thesis
      by (auto simp: put_revision_Inr uint_of_i64 dest!: checked_add_u64_Some)
  qed
  then show ?thesis
    using bounds device_active_exists [OF dev] by (simp add: write_ok_def put_row_def current_row_def)
qed

lemma delete_write_ok:
  assumes inv: "db_inv d" and dev: "device_active e (del_device_id req) d"
    and row: "current_row e i d = Some r" "uint (del_base_revision req) = or_revision r"
    and bounds: "uint (del_base_revision req) + 1 \<le> i64_max" "db_seq d < i64_max"
  shows "write_ok (tombstone (uint (del_base_revision req) + 1) (db_seq d + 1)
      (uuid_text e (device_uuid (del_device_id req))) modified r) d"
  using row bounds current_row_object(2) [OF inv row(1)] device_active_exists [OF dev]
  by (simp add: write_ok_def tombstone_def current_row_def)

lemma base_is_revision:
  assumes "db_inv d" and "current_row e i d = Some r" and "0 \<le> or_revision r"
    and "word_of_int (or_revision r) = (base :: u64)"
  shows "uint base = or_revision r"
  using assms(3,4) current_row_object(4) [OF assms(1,2)] uint_of_i64 by metis

lemma put_object_tx_write:
  assumes inv: "db_inv (c_db c)" and ok: "put_object_tx e i req c = (Inr ob, c')"
  obtains r where "write_ok r (c_db c)" "c_db c' = write_db r (c_db c)"
proof -
  from ok obtain revision modified json where
    w: "device_active e (put_device_id req) (c_db c)"
    "put_revision (map_option (\<lambda>r. (or_revision r, or_cursor r)) (current_row e i (c_db c)))
       (put_base_revision req) = Inr revision"
    "uint revision \<le> i64_max" "db_seq (c_db c) < i64_max"
    "c_db c' = write_db (put_row e i req revision (db_seq (c_db c) + 1) modified json) (c_db c)"
    by (rule put_object_tx_success)
  from that [OF put_write_ok [OF inv w(1-4)] w(5)] show ?thesis .
qed

lemma delete_object_tx_write:
  assumes inv: "db_inv (c_db c)" and ok: "delete_object_tx e i req c = (Inr ob, c')"
  obtains r where "write_ok r (c_db c)" "c_db c' = write_db r (c_db c)"
proof -
  from ok db_invD(2) [OF inv] obtain r modified where
    w: "device_active e (del_device_id req) (c_db c)" "current_row e i (c_db c) = Some r"
    "0 \<le> or_revision r" "word_of_int (or_revision r) = del_base_revision req"
    "uint (del_base_revision req) + 1 \<le> i64_max" "db_seq (c_db c) < i64_max"
    "c_db c' = write_db (tombstone (uint (del_base_revision req) + 1) (db_seq (c_db c) + 1)
        (uuid_text e (device_uuid (del_device_id req))) modified r) (c_db c)"
    by (rule delete_object_tx_success)
  note ok' = delete_write_ok [OF inv w(1,2) base_is_revision [OF inv w(2-4)] w(5,6)]
  from that [OF ok' w(7)] show ?thesis .
qed


section \<open>Every request keeps the invariant\<close>

lemma db_inv_devices:
  assumes "db_inv d" and "key_ok dr_id rows" and "dr_id ` set (db_devices d) \<subseteq> dr_id ` set rows"
  shows "db_inv (d\<lparr>db_devices := rows\<rparr>)"
proof -
  have "device_exists i d \<Longrightarrow> device_exists i (d\<lparr>db_devices := rows\<rparr>)" for i
    using assms(3) by (auto simp: device_exists_def find_row_None)
  then show ?thesis
    using assms(1,2) by (auto simp: db_inv_def change_ok_def object_ok_def history_def)
qed

definition preserves_inv :: "'a handler \<Rightarrow> bool" where
  "preserves_inv m \<longleftrightarrow> (\<forall>c. db_inv (c_db c) \<longrightarrow> db_inv (c_db (snd (m c))))"

lemma preserves_invI:
  "(\<And>c r c'. db_inv (c_db c) \<Longrightarrow> m c = (r, c') \<Longrightarrow> db_inv (c_db c')) \<Longrightarrow> preserves_inv m"
  by (simp add: preserves_inv_def) (metis prod.collapse)

lemma preserves_invD:
  "preserves_inv m \<Longrightarrow> db_inv (c_db c) \<Longrightarrow> m c = (r, c') \<Longrightarrow> db_inv (c_db c')"
  unfolding preserves_inv_def by (metis snd_conv)

lemma preserves_bindS [intro]:
  assumes "preserves_inv m" and "\<And>x. preserves_inv (f x)"
  shows "preserves_inv (bindS m f)"
proof (rule preserves_invI)
  fix c r c'
  assume c: "db_inv (c_db c)" and run: "bindS m f c = (r, c')"
  obtain r1 c1 where m: "m c = (r1, c1)" by (cases "m c")
  with assms(1) c have c1: "db_inv (c_db c1)" by (blast dest: preserves_invD)
  show "db_inv (c_db c')"
  proof (cases r1)
    case (Inl er)
    with run m c1 show ?thesis by (simp add: bindS_def)
  next
    case (Inr x)
    with run m have "f x c1 = (r, c')" by (simp add: bindS_def)
    with assms(2) c1 show ?thesis by (rule preserves_invD)
  qed
qed

lemma preserves_liftS [intro]: "preserves_inv (liftS r)"
  by (simp add: preserves_inv_def liftS_def)

lemma preserves_now [intro]: "preserves_inv (now_utc e)"
  by (simp add: preserves_inv_def now_utc_def)

lemma preserves_returnS [intro]: "preserves_inv (returnS x)"
  by (simp add: preserves_inv_def returnS_def)

lemma preserves_sql [intro]:
  "(\<And>d x d'. db_inv d \<Longrightarrow> q d = Some (x, d') \<Longrightarrow> db_inv d') \<Longrightarrow> preserves_inv (sql e q)"
  by (auto simp: preserves_inv_def sql_def Let_def split: option.split)

lemma preserves_selects [intro]:
  "preserves_inv (sql e no_op)" "preserves_inv (sql e (select_device i))"
  "preserves_inv (sql e select_devices)" "preserves_inv (sql e (select_object i))"
  "preserves_inv (sql e (select_changes a n))"
  by (auto intro!: preserves_sql
      simp: select_device_def select_devices_def select_object_def select_changes_def)

lemma preserves_insert_device [intro]: "preserves_inv (sql e (insert_device r))"
  by (auto intro!: preserves_sql db_inv_devices dest: db_invD(1) simp: insert_device_def insert_row_Some)
    (auto simp: key_ok_def dest: db_invD(1))

lemma preserves_update_revoked [intro]: "preserves_inv (sql e (update_revoked t i))"
proof (rule preserves_sql)
  fix d x d'
  assume inv: "db_inv d" and run: "update_revoked t i d = Some (x, d')"
  let ?rows = "snd (update_rows (\<lambda>r. dr_id r = i \<and> dr_revoked_at r = None)
                 (\<lambda>r. r\<lparr>dr_revoked_at := Some t\<rparr>) (db_devices d))"
  have keys: "map dr_id ?rows = map dr_id (db_devices d)" by (rule update_rows_keys) simp
  then have "key_ok dr_id ?rows" using db_invD(1) [OF inv] by (simp add: key_ok_def)
  moreover have "dr_id ` set (db_devices d) \<subseteq> dr_id ` set ?rows"
    using keys by (metis image_set order_refl)
  ultimately have "db_inv (d\<lparr>db_devices := ?rows\<rparr>)" by (rule db_inv_devices [OF inv])
  then show "db_inv d'" using run by (auto simp: update_revoked_def Let_def split: prod.splits)
qed

lemma preserves_transaction:
  assumes "\<And>c x c'. db_inv (c_db c) \<Longrightarrow> body c = (Inr x, c') \<Longrightarrow> db_inv (c_db c')"
  shows "preserves_inv (transaction e body)"
proof (rule preserves_invI)
  fix c r c'
  assume c: "db_inv (c_db c)" and run: "transaction e body c = (r, c')"
  show "db_inv (c_db c')"
  proof (cases r)
    case (Inl er)
    with run transaction_Inl c show ?thesis by metis
  next
    case (Inr x)
    with run obtain c2 where "body (c\<lparr>c_tick := Suc (c_tick c)\<rparr>) = (Inr x, c2)" "c_db c' = c_db c2"
      using transaction_Inr by metis
    with assms [of "c\<lparr>c_tick := Suc (c_tick c)\<rparr>"] c show ?thesis by simp
  qed
qed

lemma put_object_tx_inv:
  "db_inv (c_db c) \<Longrightarrow> put_object_tx e i req c = (Inr ob, c') \<Longrightarrow> db_inv (c_db c')"
  by (metis put_object_tx_write write_db_inv)

lemma delete_object_tx_inv:
  "db_inv (c_db c) \<Longrightarrow> delete_object_tx e i req c = (Inr ob, c') \<Longrightarrow> db_inv (c_db c')"
  by (metis delete_object_tx_write write_db_inv)

lemma batch_op_tx_inv:
  "db_inv (c_db c) \<Longrightarrow> batch_op_tx e operation c = (Inr ob, c') \<Longrightarrow> db_inv (c_db c')"
  by (cases operation) (auto intro: put_object_tx_inv delete_object_tx_inv)

lemma batch_tx_inv:
  "db_inv (c_db c) \<Longrightarrow> batch_tx e operations c = (Inr obs, c') \<Longrightarrow> db_inv (c_db c')"
  by (induction operations arbitrary: c obs) (auto simp: result_simps dest: batch_op_tx_inv)

lemma preserves_handle_route: "preserves_inv (handle_route e pkg rt)"
proof (cases rt)
  case (RouteRegister req)
  have "preserves_inv (register_device e req)"
    unfolding register_device_def Let_def by (auto intro!: preserves_bindS split: option.split)
  with RouteRegister show ?thesis by (auto simp: reply_with_def)
next
  case (RoutePut i req)
  have "preserves_inv (put_object e i req)" unfolding put_object_def
    by (rule preserves_transaction) (rule put_object_tx_inv)
  with RoutePut show ?thesis by (auto simp: reply_with_def)
next
  case (RouteDelete i req)
  have "preserves_inv (delete_object e i req)" unfolding delete_object_def
    by (rule preserves_transaction) (rule delete_object_tx_inv)
  with RouteDelete show ?thesis by (auto simp: reply_with_def)
next
  case (RouteBatch req)
  have "preserves_inv (transaction e (batch_tx e (batch_operations req)))"
    by (rule preserves_transaction) (rule batch_tx_inv)
  then have "preserves_inv (batch e req)" by (auto simp: batch_def)
  with RouteBatch show ?thesis by (auto simp: reply_with_def)
qed (auto simp: reply_with_def status_def list_devices_def revoke_device_def changes_def Let_def
    get_object_def intro!: preserves_bindS)

lemma preserves_serve_request: "preserves_inv (serve_request e sha256 state pkg req)"
  unfolding serve_request_def by (intro preserves_bindS preserves_liftS preserves_handle_route)

end
