(* ===== verification/ServerSpec.thy ===== *)
theory ServerSpec
  imports ServerInv "HOL-Library.Multiset"
begin

text \<open>
  The abstract store the server promises and the simulation between it and the database.
  A \<open>store\<close> holds the registered devices, a map from object ids to objects, the log of
  changes and the last cursor; \<open>spec_put\<close>, \<open>spec_delete\<close> and \<open>spec_changes\<close> say what
  the operations mean on it. \<open>sim e d s\<close> relates a database to the store it represents;
  the handlers on the database simulate the operations on the store, and without database
  faults they succeed whenever the store operation does.
\<close>

record store =
  st_devices :: "device list"
  st_objects :: "object_id \<Rightarrow> sync_object option"
  st_log :: "change list"
  st_seq :: int

definition empty_store :: store where
  "empty_store = \<lparr>st_devices = [], st_objects = (\<lambda>_. None), st_log = [], st_seq = 0\<rparr>"

definition st_active :: "device_id \<Rightarrow> store \<Rightarrow> bool" where
  "st_active i s \<longleftrightarrow> (\<exists>v \<in> set (st_devices s). dev_id v = i \<and> dev_revoked_at v = None)"

definition change_of_object :: "sync_object \<Rightarrow> change" where
  "change_of_object ob =
     \<lparr>ch_cursor = so_cursor ob, ch_object_id = so_id ob, ch_namespace = so_namespace ob,
      ch_revision = so_revision ob, ch_device_id = so_device_id ob,
      ch_modified_at = so_modified_at ob, ch_deleted = so_deleted ob\<rparr>"

definition record_object :: "sync_object \<Rightarrow> store \<Rightarrow> store" where
  "record_object ob s =
     s\<lparr>st_objects := (st_objects s)(so_id ob := Some ob), st_log := st_log s @ [change_of_object ob],
       st_seq := st_seq s + 1\<rparr>"

text \<open>A write is accepted when the writer is active and names the current revision exactly;
  it creates revision \<open>base + 1\<close> (1 for a new object) under the next cursor.\<close>

definition spec_put :: "object_id \<Rightarrow> put_object_request \<Rightarrow> store \<Rightarrow> (sync_object \<times> store) option" where
  "spec_put i req s =
     (if validate_put req = Inr () \<and> st_active (put_device_id req) s
         \<and> put_base_revision req = map_option so_revision (st_objects s i)
      then (let r = (case st_objects s i of None \<Rightarrow> 1 | Some ob \<Rightarrow> so_revision ob + 1);
                ob = put_result i req r (word_of_int (st_seq s + 1))
            in Some (ob, record_object ob s))
      else None)"

definition spec_delete :: "object_id \<Rightarrow> delete_object_request \<Rightarrow> store \<Rightarrow> (sync_object \<times> store) option" where
  "spec_delete i req s =
     (case st_objects s i of
        None \<Rightarrow> None
      | Some ob \<Rightarrow>
          if st_active (del_device_id req) s \<and> del_base_revision req = so_revision ob
          then (let ob' = delete_result i req (so_namespace ob) (so_revision ob + 1)
                            (word_of_int (st_seq s + 1))
                in Some (ob', record_object ob' s))
          else None)"

section \<open>The simulation relation\<close>

definition object_enc :: "env \<Rightarrow> object_row \<Rightarrow> sync_object \<Rightarrow> bool" where
  "object_enc e r ob \<longleftrightarrow>
     or_id r = uuid_text e (object_uuid (so_id ob)) \<and> or_namespace r = so_namespace ob \<and>
     or_revision r = uint (so_revision ob) \<and> or_cursor r = uint (so_cursor ob) \<and>
     or_device_id r = uuid_text e (device_uuid (so_device_id ob)) \<and>
     time_format e (so_modified_at ob) = Some (or_modified_at r) \<and>
     or_deleted r = (if so_deleted ob then 1 else 0) \<and>
     (case so_envelope ob of
        None \<Rightarrow> or_envelope_json r = None
      | Some v \<Rightarrow> or_envelope_json r = envelope_to_json e v \<and> envelope_to_json e v \<noteq> None)"

definition change_enc :: "env \<Rightarrow> change_row \<Rightarrow> change \<Rightarrow> bool" where
  "change_enc e r ch \<longleftrightarrow>
     cr_cursor r = uint (ch_cursor ch) \<and> cr_object_id r = uuid_text e (object_uuid (ch_object_id ch)) \<and>
     cr_namespace r = ch_namespace ch \<and> cr_revision r = uint (ch_revision ch) \<and>
     cr_device_id r = uuid_text e (device_uuid (ch_device_id ch)) \<and>
     time_format e (ch_modified_at ch) = Some (cr_modified_at r) \<and>
     cr_deleted r = (if ch_deleted ch then 1 else 0)"

definition device_enc :: "env \<Rightarrow> device_row \<Rightarrow> device \<Rightarrow> bool" where
  "device_enc e r v \<longleftrightarrow>
     dr_id r = uuid_text e (device_uuid (dev_id v)) \<and> dr_name r = dev_name v \<and>
     time_format e (dev_created_at v) = Some (dr_created_at r) \<and>
     (case dev_revoked_at v of
        None \<Rightarrow> dr_revoked_at r = None
      | Some t \<Rightarrow> dr_revoked_at r = time_format e t \<and> time_format e t \<noteq> None)"

definition sim :: "env \<Rightarrow> database \<Rightarrow> store \<Rightarrow> bool" where
  "sim e d s \<longleftrightarrow>
     db_inv d \<and> st_seq s = db_seq d \<and>
     (\<forall>i. rel_option (object_enc e) (current_row e i d) (st_objects s i)) \<and>
     (\<forall>i ob. st_objects s i = Some ob \<longrightarrow> so_id ob = i) \<and>
     list_all2 (change_enc e) (db_changes d) (st_log s) \<and>
     list_all2 (device_enc e) (db_devices d) (st_devices s)"

lemma row_to_object_enc:
  "codec_ok e \<Longrightarrow> object_enc e r ob \<Longrightarrow> row_to_object e r = Inr ob"
  by (cases ob; cases "so_id ob"; cases "so_device_id ob")
    (auto simp: row_to_object_def object_enc_def parse_uuid_def u64_from_i64_def parse_timestamp_def
      codec_ok_uuid codec_ok_time codec_ok_envelope split: option.splits)

lemma row_to_change_enc:
  "codec_ok e \<Longrightarrow> change_enc e r ch \<Longrightarrow> row_to_change e r = Inr ch"
  by (cases ch; cases "ch_object_id ch"; cases "ch_device_id ch")
    (auto simp: row_to_change_def change_enc_def parse_uuid_def u64_from_i64_def parse_timestamp_def
      codec_ok_uuid codec_ok_time)

lemma row_to_device_enc:
  "codec_ok e \<Longrightarrow> device_enc e r v \<Longrightarrow> row_to_device e r = Inr v"
  by (cases v; cases "dev_id v")
    (auto simp: row_to_device_def device_enc_def parse_uuid_def parse_timestamp_def
      codec_ok_uuid codec_ok_time split: option.splits)

lemma sim_empty: "sim e empty_database empty_store"
  using db_inv_empty by (simp add: sim_def empty_database_def empty_store_def current_row_def)

lemma simD:
  assumes "sim e d s"
  shows "db_inv d" "st_seq s = db_seq d"
    "\<And>i. rel_option (object_enc e) (current_row e i d) (st_objects s i)"
    "\<And>i ob. st_objects s i = Some ob \<Longrightarrow> so_id ob = i"
    "list_all2 (change_enc e) (db_changes d) (st_log s)"
    "list_all2 (device_enc e) (db_devices d) (st_devices s)"
  using assms by (auto simp: sim_def)

lemma find_row_enc:
  assumes "codec_ok e" and "list_all2 (device_enc e) rows vs"
  shows "rel_option (device_enc e) (find_row dr_id (uuid_text e (device_uuid i)) rows)
     (find_row dev_id i vs)"
  using assms(2)
  by (induction rule: list_all2_induct)
    (auto simp: find_row_Cons device_enc_def codec_ok_uuid_inj [OF assms(1)])

lemma sim_device_row:
  assumes "codec_ok e" and "sim e d s"
  shows "rel_option (device_enc e) (find_row dr_id (uuid_text e (device_uuid i)) (db_devices d))
     (find_row dev_id i (st_devices s))"
  using find_row_enc [OF assms(1) simD(6) [OF assms(2)]] .

lemma sim_device_keys:
  assumes "codec_ok e" and "sim e d s"
  shows "key_ok dev_id (st_devices s)"
proof -
  have "map dr_id (db_devices d) = map (\<lambda>v. uuid_text e (device_uuid (dev_id v))) (st_devices s)"
    using simD(6) [OF assms(2)]
    by (induction rule: list_all2_induct) (auto simp: device_enc_def)
  moreover have "distinct (map dr_id (db_devices d))"
    using db_invD(1) [OF simD(1) [OF assms(2)]] by (simp add: key_ok_def)
  ultimately show ?thesis
    by (auto simp: key_ok_def distinct_map inj_on_def)
qed

lemma device_active_sim:
  assumes "codec_ok e" and "sim e d s"
  shows "device_active e i d \<longleftrightarrow> st_active i s"
proof -
  have "st_active i s \<longleftrightarrow>
      (\<exists>v. find_row dev_id i (st_devices s) = Some v \<and> dev_revoked_at v = None)"
    unfolding st_active_def find_row_Some_iff [OF sim_device_keys [OF assms]] by blast
  then show ?thesis
    unfolding device_active_def using sim_device_row [OF assms, of i]
    by (auto simp: option_rel_Some1 option_rel_Some2 device_enc_def split: option.splits)
qed

lemma current_row_write:
  assumes "codec_ok e" and "or_id r = uuid_text e (object_uuid i)"
  shows "current_row e j (write_db r d) = (if j = i then Some r else current_row e j d)"
  using assms by (simp add: current_row_def write_db_def row_simps codec_ok_uuid_inj)

lemma change_enc_of_object: "object_enc e r ob \<Longrightarrow> change_enc e (change_of_row r) (change_of_object ob)"
  by (simp add: object_enc_def change_enc_def change_of_row_def change_of_object_def)

text \<open>A write of a row that encodes an object is \<open>record_object\<close> on the store.\<close>

lemma sim_write:
  assumes "codec_ok e" and "sim e d s" and "write_ok r d" and "object_enc e r ob"
  shows "sim e (write_db r d) (record_object ob s)"
proof -
  have id: "or_id r = uuid_text e (object_uuid (so_id ob))"
    using assms(4) by (simp add: object_enc_def)
  have "db_inv (write_db r d)" by (rule write_db_inv [OF simD(1) [OF assms(2)] assms(3)])
  moreover have "rel_option (object_enc e) (current_row e i (write_db r d))
      (st_objects (record_object ob s) i)" for i
    using simD(3) [OF assms(2), of i] assms(4)
    by (simp add: current_row_write [OF assms(1) id] record_object_def)
  moreover have "list_all2 (change_enc e) (db_changes (write_db r d)) (st_log (record_object ob s))"
    using simD(5) [OF assms(2)] change_enc_of_object [OF assms(4)]
    by (simp add: write_db_def record_object_def list_all2_appendI)
  ultimately show ?thesis
    using assms(2) by (auto simp: sim_def write_db_def record_object_def split: if_splits)
qed

lemma sim_current:
  assumes "sim e d s"
  shows "current_row e i d = None \<longleftrightarrow> st_objects s i = None"
    and "current_row e i d = Some r \<Longrightarrow> \<exists>ob. st_objects s i = Some ob \<and> object_enc e r ob \<and> so_id ob = i"
  using simD(3,4) [OF assms, of i] by (auto simp: option_rel_Some1)

lemma st_revision_bound:
  assumes "sim e d s" and "st_objects s i = Some ob"
  shows "uint (so_revision ob) \<le> i64_max"
proof -
  from simD(3) [OF assms(1), of i] assms(2) obtain r where
    r: "current_row e i d = Some r" "object_enc e r ob" by (auto simp: option_rel_Some2)
  then have "r \<in> set (db_objects d)" using find_row_SomeD unfolding current_row_def by fast
  with simD(1) [OF assms(1)] r(2) show ?thesis
    by (auto simp: db_inv_def object_ok_def object_enc_def)
qed

section \<open>The handlers simulate the store\<close>

lemma put_simulates:
  assumes "codec_ok e" and sim: "sim e (c_db c) s" and run: "put_object_tx e i req c = (Inr ob, c')"
  shows "\<exists>s'. spec_put i req s = Some (ob, s') \<and> sim e (c_db c') s'"
proof -
  let ?d = "c_db c"
  from run obtain revision modified json where
    w: "validate_put req = Inr ()" "device_active e (put_device_id req) ?d"
    "put_revision (map_option (\<lambda>r. (or_revision r, or_cursor r)) (current_row e i ?d))
       (put_base_revision req) = Inr revision"
    "time_format e (put_modified_at req) = Some modified"
    "envelope_to_json e (put_envelope req) = Some json"
    "uint revision \<le> i64_max" "db_seq ?d < i64_max" "0 \<le> db_seq ?d + 1"
    "c_db c' = write_db (put_row e i req revision (db_seq ?d + 1) modified json) ?d"
    "ob = put_result i req revision (word_of_int (db_seq ?d + 1))"
    by (rule put_object_tx_success)
  let ?r = "put_row e i req revision (db_seq ?d + 1) modified json"
  have rev: "put_base_revision req = map_option so_revision (st_objects s i)"
    "revision = (case st_objects s i of None \<Rightarrow> 1 | Some ob \<Rightarrow> so_revision ob + 1)"
    using w(3) simD(3) [OF sim, of i]
    by (auto simp: put_revision_Inr option_rel_Some1 object_enc_def checked_add_u64_def
        split: if_splits)
  have seq: "uint (word_of_int (db_seq ?d + 1) :: u64) = db_seq ?d + 1"
    by (rule uint_of_i64) (use w(7,8) in auto)
  have enc: "object_enc e ?r ob"
    unfolding w(10) using w(4,5) seq
    unfolding object_enc_def put_row_def put_result_def sync_object.simps seq by simp
  have "sim e (c_db c') (record_object ob s)"
    unfolding w(9)
    by (rule sim_write [OF assms(1) sim put_write_ok [OF simD(1) [OF sim] w(2,3,6,7)] enc])
  moreover have "spec_put i req s = Some (ob, record_object ob s)"
    using w(1,2,10) rev device_active_sim [OF assms(1) sim] simD(2) [OF sim]
    by (simp add: spec_put_def Let_def)
  ultimately show ?thesis by blast
qed

lemma delete_simulates:
  assumes "codec_ok e" and sim: "sim e (c_db c) s" and run: "delete_object_tx e i req c = (Inr ob, c')"
  shows "\<exists>s'. spec_delete i req s = Some (ob, s') \<and> sim e (c_db c') s'"
proof -
  let ?d = "c_db c" and ?base = "del_base_revision req"
  note inv = simD(1) [OF sim]
  from run db_invD(2) [OF inv] obtain r modified where
    w: "device_active e (del_device_id req) ?d" "current_row e i ?d = Some r"
    "0 \<le> or_revision r" "word_of_int (or_revision r) = ?base"
    "time_format e (del_modified_at req) = Some modified"
    "uint ?base + 1 \<le> i64_max" "db_seq ?d < i64_max" "0 \<le> db_seq ?d + 1"
    "c_db c' = write_db (tombstone (uint ?base + 1) (db_seq ?d + 1)
        (uuid_text e (device_uuid (del_device_id req))) modified r) ?d"
    "ob = delete_result i req (or_namespace r) (?base + 1) (word_of_int (db_seq ?d + 1))"
    by (rule delete_object_tx_success)
  note base = base_is_revision [OF inv w(2-4)]
  obtain ob0 where ob0: "st_objects s i = Some ob0" "object_enc e r ob0" "so_id ob0 = i"
    using sim_current(2) [OF sim w(2)] by blast
  have rev: "so_revision ob0 = ?base" "so_namespace ob0 = or_namespace r"
    using ob0(2) base by (simp_all add: object_enc_def word_uint_eq_iff)
  have seq: "uint (word_of_int (db_seq ?d + 1) :: u64) = db_seq ?d + 1"
    by (rule uint_of_i64) (use w(7,8) in auto)
  have "uint (?base + 1) = uint ?base + 1"
    using w(6) by (simp add: uint_word_ariths i64_max_def)
  then have enc: "object_enc e (tombstone (uint ?base + 1) (db_seq ?d + 1)
      (uuid_text e (device_uuid (del_device_id req))) modified r) ob"
    unfolding w(10) using w(5) seq current_row_object(2) [OF inv w(2)]
    unfolding object_enc_def tombstone_def delete_result_def sync_object.simps seq by simp
  have "sim e (c_db c') (record_object ob s)"
    unfolding w(9)
    by (rule sim_write [OF assms(1) sim delete_write_ok [OF inv w(1,2) base w(6,7)] enc])
  moreover have "spec_delete i req s = Some (ob, record_object ob s)"
    using w(1,10) rev ob0(1) device_active_sim [OF assms(1) sim] simD(2) [OF sim]
    by (simp add: spec_delete_def Let_def)
  ultimately show ?thesis by blast
qed

section \<open>Without faults the store decides\<close>

definition no_faults :: "env \<Rightarrow> bool" where
  "no_faults e \<longleftrightarrow> (\<forall>n. \<not> db_fault e n)"

lemma sql_ok:
  "no_faults e \<Longrightarrow> sql e q c = (Inr x, c') \<longleftrightarrow>
     (\<exists>d. q (c_db c) = Some (x, d) \<and> c' = c\<lparr>c_tick := Suc (c_tick c), c_db := d\<rparr>)"
  by (simp add: sql_Inr no_faults_def)

text \<open>Room for one more change and one more revision, and metadata the codecs can write.\<close>

definition put_room :: "env \<Rightarrow> object_id \<Rightarrow> put_object_request \<Rightarrow> store \<Rightarrow> bool" where
  "put_room e i req s \<longleftrightarrow>
     st_seq s < i64_max \<and> time_format e (put_modified_at req) \<noteq> None \<and>
     envelope_to_json e (put_envelope req) \<noteq> None \<and>
     (case st_objects s i of None \<Rightarrow> True | Some ob \<Rightarrow> uint (so_revision ob) < i64_max)"

lemma put_complete:
  assumes codec: "codec_ok e" and nf: "no_faults e" and sim: "sim e (c_db c) s"
    and room: "put_room e i req s" and spec: "spec_put i req s = Some (ob, s')"
  shows "\<exists>c'. put_object_tx e i req c = (Inr ob, c') \<and> sim e (c_db c') s'"
proof -
  let ?d = "c_db c"
  from spec have s: "validate_put req = Inr ()" "st_active (put_device_id req) s"
    "put_base_revision req = map_option so_revision (st_objects s i)"
    by (auto simp: spec_put_def split: if_splits)
  obtain revision where rev: "put_revision (map_option (\<lambda>r. (or_revision r, or_cursor r))
      (current_row e i ?d)) (put_base_revision req) = Inr revision" "uint revision \<le> i64_max"
  proof (cases "st_objects s i")
    case None
    with simD(3) [OF sim, of i] s(3) that [of 1] show thesis by (simp add: i64_max_def)
  next
    case (Some ob0)
    with simD(3) [OF sim, of i] obtain r where
      r: "current_row e i ?d = Some r" "object_enc e r ob0" by (auto simp: option_rel_Some2)
    have b: "uint (so_revision ob0) < i64_max" using room Some by (simp add: put_room_def)
    then have "checked_add_u64 (so_revision ob0) 1 = Some (so_revision ob0 + 1)"
      "uint (so_revision ob0 + 1) \<le> i64_max"
      by (simp_all add: checked_add_u64_def i64_max_def uint_word_ariths)
    with r s(3) Some that [of "so_revision ob0 + 1"] show thesis
      by (simp add: u64_from_i64_def object_enc_def)
  qed
  have dev: "device_active e (put_device_id req) ?d" using s(2) device_active_sim [OF codec sim] by simp
  from room simD(2) [OF sim] obtain modified json where
    text_ok: "time_format e (put_modified_at req) = Some modified"
    "envelope_to_json e (put_envelope req) = Some json" and seq: "db_seq ?d < i64_max"
    by (auto simp: put_room_def)
  have seq0: "0 \<le> db_seq ?d" by (rule db_invD(3) [OF simD(1) [OF sim]])
  have cur: "uint (word_of_int (db_seq ?d + 1) :: u64) = db_seq ?d + 1"
    by (rule uint_of_i64) (use seq seq0 in auto)
  have dev': "device_exists (uuid_text e (device_uuid (put_device_id req))) ?d"
    by (rule device_active_exists [OF dev])
  have pos: "0 < uint revision"
    using put_write_ok [OF simD(1) [OF sim] dev rev seq] object_ok_revision(2) write_ok_revision [OF simD(1) [OF sim]]
    by (metis of_nat_0_less_iff put_row_def object_row.select_convs(3) zero_less_Suc)
  have "\<exists>ob' c'. put_object_tx e i req c = (Inr ob', c')"
    unfolding put_object_tx_def
    using s(1) dev rev text_ok seq seq0 cur dev' pos nf
    by (simp add: result_simps sql_ok select_object_def current_row_def timestamp_string_def
        insert_change_def u64_from_i64_def i64_from_u64_def upsert_object_def row_checks_def
        device_exists_def no_faults_def)
  then obtain ob' c' where run: "put_object_tx e i req c = (Inr ob', c')" by blast
  from put_simulates [OF codec sim run] spec show ?thesis by (auto simp: run)
qed

lemma delete_complete:
  assumes codec: "codec_ok e" and nf: "no_faults e" and sim: "sim e (c_db c) s"
    and room: "st_seq s < i64_max" "time_format e (del_modified_at req) \<noteq> None"
      "uint (del_base_revision req) < i64_max"
    and spec: "spec_delete i req s = Some (ob, s')"
  shows "\<exists>c'. delete_object_tx e i req c = (Inr ob, c') \<and> sim e (c_db c') s'"
proof -
  let ?d = "c_db c" and ?base = "del_base_revision req"
  note inv = simD(1) [OF sim]
  from spec obtain ob0 where s: "st_objects s i = Some ob0" "st_active (del_device_id req) s"
    "?base = so_revision ob0"
    by (auto simp: spec_delete_def Let_def split: option.splits if_splits)
  with simD(3) [OF sim, of i] obtain r where
    r: "current_row e i ?d = Some r" "object_enc e r ob0" by (auto simp: option_rel_Some2)
  have rid: "or_id r = uuid_text e (object_uuid i)" by (rule current_row_object(2) [OF inv r(1)])
  have inc: "checked_add_u64 ?base 1 = Some (?base + 1)" "uint (?base + 1) = uint ?base + 1"
    using room(3) by (simp_all add: checked_add_u64_def i64_max_def uint_word_ariths)
  have base: "u64_from_i64 (or_revision r) = Inr ?base"
    using r(2) s(3) by (simp add: u64_from_i64_def object_enc_def)
  have dev: "device_active e (del_device_id req) ?d" using s(2) device_active_sim [OF codec sim] by simp
  have dev': "device_exists (uuid_text e (device_uuid (del_device_id req))) ?d"
    by (rule device_active_exists [OF dev])
  from room simD(2) [OF sim] obtain modified where
    text_ok: "time_format e (del_modified_at req) = Some modified" and seq: "db_seq ?d < i64_max"
    by auto
  have seq0: "0 \<le> db_seq ?d" by (rule db_invD(3) [OF inv])
  have cur: "uint (word_of_int (db_seq ?d + 1) :: u64) = db_seq ?d + 1"
    by (rule uint_of_i64) (use seq seq0 in auto)
  have tomb: "tombstone_object (uint (?base + 1)) (db_seq ?d + 1) dev' modified (uuid_text e (object_uuid i)) d1 \<noteq> None"
    if "db_objects d1 = db_objects ?d" "device_exists dev' d1" for dev' d1
    using that seq0 inc(2) uint_ge_0 [of ?base]
    by (auto simp: tombstone_object_def update_rows_def tombstone_def row_checks_def split: if_splits)
  have "\<exists>ob' c'. delete_object_tx e i req c = (Inr ob', c')"
    unfolding delete_object_tx_def
    using dev r(1) base inc text_ok seq seq0 cur dev' room(3) nf tomb
    by (simp add: result_simps sql_ok select_object_def current_row_def timestamp_string_def
        insert_change_def u64_from_i64_def i64_from_u64_def device_exists_def no_faults_def)
  then obtain ob' c' where run: "delete_object_tx e i req c = (Inr ob', c')" by blast
  from delete_simulates [OF codec sim run] spec show ?thesis by (auto simp: run)
qed

text \<open>A write with a stale base is refused with the object's current revision and cursor.\<close>

lemma put_stale:
  assumes codec: "codec_ok e" and nf: "no_faults e" and sim: "sim e (c_db c) s"
    and valid: "validate_put req = Inr ()" and dev: "st_active (put_device_id req) s"
    and cur: "st_objects s i = Some ob" and stale: "put_base_revision req \<noteq> Some (so_revision ob)"
  shows "\<exists>c'. put_object_tx e i req c = (Inl (api_conflict (so_revision ob) (so_cursor ob)), c') \<and>
    c_db c' = c_db c"
proof -
  from simD(3) [OF sim, of i] cur obtain r where
    r: "current_row e i (c_db c) = Some r" "object_enc e r ob" by (auto simp: option_rel_Some2)
  have "put_revision (Some (or_revision r, or_cursor r)) (put_base_revision req) =
      Inl (api_conflict (so_revision ob) (so_cursor ob))"
    using stale r(2) by (cases "put_base_revision req")
      (auto simp: object_enc_def u64_from_i64_def conflict_with_def)
  moreover obtain d where "find_row dr_id (uuid_text e (device_uuid (put_device_id req))) (db_devices (c_db c)) = Some d"
    "dr_revoked_at d = None"
    using dev device_active_sim [OF codec sim] by (auto simp: device_active_def)
  ultimately show ?thesis
    using valid r(1) nf
    by (auto simp: put_object_tx_def bindS_def liftS_def ensure_active_device_def sql_def
        select_device_def select_object_def current_row_def no_faults_def)
qed

section \<open>Reads, devices and batches\<close>

definition spec_changes :: "u64 \<Rightarrow> nat \<Rightarrow> store \<Rightarrow> changes_response" where
  "spec_changes after n s =
     (let later = filter (\<lambda>ch. after < ch_cursor ch) (st_log s)
      in \<lparr>page_changes = take n later,
          page_next_cursor = (if take n later = [] then after else ch_cursor (last (take n later))),
          page_has_more = (length later > n)\<rparr>)"

lemma select_changes_sorted:
  assumes "db_inv d"
  shows "select_changes a n d = Some (take n (filter (\<lambda>r. a < cr_cursor r) (db_changes d)), d)"
proof -
  have "sorted (map cr_cursor (db_changes d))"
    using db_invD(5) [OF assms] by (rule strict_sorted_imp_sorted)
  then have "sorted (map cr_cursor (filter (\<lambda>r. a < cr_cursor r) (db_changes d)))"
    by (rule sorted_filter)
  then show ?thesis by (simp add: select_changes_def sort_key_id_if_sorted)
qed

lemma list_all2_filter:
  assumes "list_all2 R xs ys" and "\<And>x y. R x y \<Longrightarrow> P x = Q y"
  shows "list_all2 R (filter P xs) (filter Q ys)"
  using assms by (induction rule: list_all2_induct) auto

lemma changes_simulates:
  assumes codec: "codec_ok e" and sim: "sim e (c_db c) s" and run: "changes e after limit c = (Inr page, c')"
  shows "page = spec_changes after (nat (uint limit)) s \<and> c_db c' = c_db c"
proof -
  let ?n = "nat (uint limit)" and ?rows = "filter (\<lambda>r. uint after < cr_cursor r) (db_changes (c_db c))"
  let ?later = "filter (\<lambda>ch. after < ch_cursor ch) (st_log s)"
  have enc: "list_all2 (change_enc e) ?rows ?later"
    by (rule list_all2_filter [OF simD(5) [OF sim]]) (simp add: change_enc_def word_less_def)
  then have len: "length ?rows = length ?later" by (rule list_all2_lengthD)
  have "collect_results (row_to_change e) (take ?n ?rows) = Inr (take ?n ?later)"
    using enc row_to_change_enc [OF codec]
    by (auto simp: collect_results_Inr intro: list_all2_mono list_all2_takeI)
  then show ?thesis
    using run simD(1) [OF sim] len
    by (auto simp: changes_def Let_def result_simps select_changes_sorted i64_from_u64_def
        spec_changes_def min_def split: if_splits)
qed

lemma get_simulates:
  assumes codec: "codec_ok e" and sim: "sim e (c_db c) s" and run: "get_object e i c = (Inr ob, c')"
  shows "st_objects s (ObjectId i) = Some ob \<and> c_db c' = c_db c"
proof -
  from run obtain r where r: "current_row e (ObjectId i) (c_db c) = Some r"
    "row_to_object e r = Inr ob" "c_db c' = c_db c"
    by (auto simp: get_object_def result_simps select_object_def current_row_def)
  with sim_current(2) [OF sim r(1)] row_to_object_enc [OF codec] show ?thesis by auto
qed

fun spec_operation :: "batch_operation \<Rightarrow> store \<Rightarrow> (sync_object \<times> store) option" where
  "spec_operation (BatchPut i req) s = spec_put i req s"
| "spec_operation (BatchDelete i req) s = spec_delete i req s"

fun spec_batch :: "batch_operation list \<Rightarrow> store \<Rightarrow> (sync_object list \<times> store) option" where
  "spec_batch [] s = Some ([], s)"
| "spec_batch (operation # rest) s =
     (case spec_operation operation s of
        None \<Rightarrow> None
      | Some (ob, s1) \<Rightarrow>
          (case spec_batch rest s1 of None \<Rightarrow> None | Some (obs, s2) \<Rightarrow> Some (ob # obs, s2)))"

lemma operation_simulates:
  assumes "codec_ok e" and "sim e (c_db c) s" and "batch_op_tx e operation c = (Inr ob, c')"
  shows "\<exists>s'. spec_operation operation s = Some (ob, s') \<and> sim e (c_db c') s'"
  using assms put_simulates delete_simulates by (cases operation) auto

lemma batch_simulates:
  assumes "codec_ok e"
  shows "sim e (c_db c) s \<Longrightarrow> batch_tx e operations c = (Inr obs, c') \<Longrightarrow>
    \<exists>s'. spec_batch operations s = Some (obs, s') \<and> sim e (c_db c') s'"
proof (induction operations arbitrary: c s obs)
  case Nil
  then show ?case by (auto simp: result_simps)
next
  case (Cons operation rest)
  from Cons.prems(2) obtain ob c1 obs1 where
    run: "batch_op_tx e operation c = (Inr ob, c1)" "batch_tx e rest c1 = (Inr obs1, c')"
    "obs = ob # obs1"
    by (auto simp: result_simps)
  from operation_simulates [OF assms Cons.prems(1) run(1)] Cons.IH [OF _ run(2)] run(3)
  show ?case by fastforce
qed

definition spec_register :: "register_device_request \<Rightarrow> nat \<Rightarrow> device \<Rightarrow> store \<Rightarrow> store \<Rightarrow> bool" where
  "spec_register req code v s s' \<longleftrightarrow>
     dev_id v = reg_id req \<and> dev_name v = rust_trim (reg_name req) \<and> dev_revoked_at v = None \<and>
     0 < length (dev_name v) \<and> length (dev_name v) \<le> 128 \<and>
     (case find_row dev_id (reg_id req) (st_devices s) of
        Some w \<Rightarrow> code = 200 \<and> v = w \<and> s' = s
      | None \<Rightarrow> code = 201 \<and> s' = s\<lparr>st_devices := st_devices s @ [v]\<rparr>)"

definition spec_revoke :: "uuid \<Rightarrow> timestamp \<Rightarrow> store \<Rightarrow> store \<Rightarrow> bool" where
  "spec_revoke i t s s' \<longleftrightarrow>
     st_active (DeviceId i) s \<and>
     s' = s\<lparr>st_devices := map (\<lambda>v. if dev_id v = DeviceId i \<and> dev_revoked_at v = None
                                   then v\<lparr>dev_revoked_at := Some t\<rparr> else v) (st_devices s)\<rparr>"

lemma sim_devices:
  assumes "sim e d s" and "list_all2 (device_enc e) rows vs" and "db_inv (d\<lparr>db_devices := rows\<rparr>)"
  shows "sim e (d\<lparr>db_devices := rows\<rparr>) (s\<lparr>st_devices := vs\<rparr>)"
  using assms unfolding sim_def current_row_def by simp

lemma register_simulates:
  assumes codec: "codec_ok e" and sim: "sim e (c_db c) s"
    and run: "register_device e req c = (Inr (code, v), c')"
  shows "\<exists>s'. spec_register req code v s s' \<and> sim e (c_db c') s'"
proof -
  let ?i = "uuid_text e (device_uuid (reg_id req))" and ?name = "rust_trim (reg_name req)"
  have name: "?name \<noteq> []" "length ?name \<le> 128"
    using run by (auto simp: register_device_def Let_def result_simps split: if_splits)
  note row = sim_device_row [OF codec sim, of "reg_id req"]
  show ?thesis
  proof (cases "find_row dr_id ?i (db_devices (c_db c))")
    case None
    with run name obtain created where
      r: "time_format e (clock e (Suc (c_tick c))) = Some created" "code = 201"
      "v = \<lparr>dev_id = reg_id req, dev_name = ?name, dev_created_at = clock e (Suc (c_tick c)),
           dev_revoked_at = None\<rparr>"
      "insert_device \<lparr>dr_id = ?i, dr_name = ?name, dr_created_at = created, dr_revoked_at = None\<rparr>
         (c_db c) = Some ((), c_db c')"
      by (auto simp: register_device_def Let_def result_simps select_device_def timestamp_string_def)
    have fresh: "find_row dev_id (reg_id req) (st_devices s) = None" using row None by simp
    have "db_inv (c_db c')"
      by (rule preserves_invD [where m = "register_device e req", OF _ simD(1) [OF sim] run])
        (auto simp: register_device_def Let_def intro!: preserves_bindS split: option.split)
    moreover from r(4) have db: "c_db c' = (c_db c)\<lparr>db_devices := db_devices (c_db c) @
        [\<lparr>dr_id = ?i, dr_name = ?name, dr_created_at = created, dr_revoked_at = None\<rparr>]\<rparr>"
      by (auto simp: insert_device_def insert_row_Some)
    moreover have "list_all2 (device_enc e) (db_devices (c_db c) @
        [\<lparr>dr_id = ?i, dr_name = ?name, dr_created_at = created, dr_revoked_at = None\<rparr>])
        (st_devices s @ [v])"
      using simD(6) [OF sim] r(1,3) by (simp add: list_all2_appendI device_enc_def)
    ultimately have "sim e (c_db c') (s\<lparr>st_devices := st_devices s @ [v]\<rparr>)"
      using sim_devices [OF sim] by metis
    then show ?thesis
      using fresh r(2,3) name by (auto simp: spec_register_def)
  next
    case (Some x)
    with row obtain w where w: "find_row dev_id (reg_id req) (st_devices s) = Some w" "device_enc e x w"
      by (auto simp: option_rel_Some1)
    then have "dev_id w = reg_id req" using find_row_SomeD by fast
    moreover from Some run name obtain created where
      r: "parse_timestamp e (dr_created_at x) = Inr created" "code = 200" "dr_name x = ?name"
      "dr_revoked_at x = None" "c_db c' = c_db c"
      "v = \<lparr>dev_id = reg_id req, dev_name = dr_name x, dev_created_at = created, dev_revoked_at = None\<rparr>"
      by (auto simp: register_device_def Let_def result_simps select_device_def split: if_splits)
    moreover from this(1) w(2) have "created = dev_created_at w"
      by (auto simp: device_enc_def parse_timestamp_def result_simps dest: codec_ok_time [OF codec])
    ultimately have "v = w" using w(2)
      by (cases w) (auto simp: device_enc_def split: option.splits)
    with r w \<open>dev_id w = reg_id req\<close> name sim show ?thesis by (auto simp: spec_register_def)
  qed
qed

lemma revoke_simulates:
  assumes codec: "codec_ok e" and sim: "sim e (c_db c) s" and run: "revoke_device e i c = (Inr code, c')"
  shows "\<exists>t s'. code = 204 \<and> spec_revoke i t s s' \<and> sim e (c_db c') s'"
proof -
  let ?i = "uuid_text e i" and ?t = "clock e (c_tick c)"
  let ?p = "\<lambda>r. dr_id r = ?i \<and> dr_revoked_at r = None"
  from run obtain revoked_at where
    r: "time_format e ?t = Some revoked_at" "code = 204"
    "fst (update_rows ?p (\<lambda>r. r\<lparr>dr_revoked_at := Some revoked_at\<rparr>) (db_devices (c_db c))) \<noteq> 0"
    "c_db c' = (c_db c)\<lparr>db_devices :=
       snd (update_rows ?p (\<lambda>r. r\<lparr>dr_revoked_at := Some revoked_at\<rparr>) (db_devices (c_db c)))\<rparr>"
    by (auto simp: revoke_device_def result_simps timestamp_string_def update_revoked_def Let_def
        split: if_splits prod.splits)
  let ?vs = "map (\<lambda>v. if dev_id v = DeviceId i \<and> dev_revoked_at v = None
      then v\<lparr>dev_revoked_at := Some ?t\<rparr> else v) (st_devices s)"
  from r(3) obtain x where "x \<in> set (db_devices (c_db c))" "dr_id x = ?i" "dr_revoked_at x = None"
    unfolding fst_update_rows_zero by auto
  then have "device_active e (DeviceId i) (c_db c)"
    using find_row_Some_iff [OF db_invD(1) [OF simD(1) [OF sim]], of ?i x]
    by (auto simp: device_active_def)
  then have "st_active (DeviceId i) s" using device_active_sim [OF codec sim] by simp
  moreover have "list_all2 (device_enc e)
      (snd (update_rows ?p (\<lambda>r. r\<lparr>dr_revoked_at := Some revoked_at\<rparr>) (db_devices (c_db c))))
      ?vs"
    using simD(6) [OF sim] unfolding update_rows_def
  proof (induction rule: list_all2_induct)
    case (Cons x xs v vs)
    have "device_uuid (dev_id v) = i \<longleftrightarrow> dev_id v = DeviceId i" by (cases "dev_id v") auto
    with Cons r(1) show ?case
      by (auto simp: device_enc_def codec_ok_uuid_inj [OF codec] split: option.splits)
  qed simp
  moreover have "db_inv (c_db c')"
    by (rule preserves_invD [where m = "revoke_device e i", OF _ simD(1) [OF sim] run])
      (auto simp: revoke_device_def intro!: preserves_bindS)
  ultimately have "sim e (c_db c') (s\<lparr>st_devices := ?vs\<rparr>)" unfolding r(4) by (intro sim_devices [OF sim])
  with \<open>st_active (DeviceId i) s\<close> r(2) show ?thesis by (auto simp: spec_revoke_def)
qed

section \<open>Whole requests\<close>

text \<open>A request that fails leaves the database as it was, under every fault schedule.\<close>

definition error_keeps :: "'a handler \<Rightarrow> bool" where
  "error_keeps m \<longleftrightarrow> (\<forall>c er c'. m c = (Inl er, c') \<longrightarrow> c_db c' = c_db c)"

definition reads_only :: "'a handler \<Rightarrow> bool" where
  "reads_only m \<longleftrightarrow> (\<forall>c r c'. m c = (r, c') \<longrightarrow> c_db c' = c_db c)"

lemma reads_only_keeps: "reads_only m \<Longrightarrow> error_keeps m"
  by (simp add: reads_only_def error_keeps_def)

lemma error_keeps_bindS:
  assumes "reads_only m" and "\<And>x. error_keeps (f x)"
  shows "error_keeps (bindS m f)"
  using assms unfolding error_keeps_def reads_only_def bindS_Inl by metis

lemma reads_only_bindS:
  assumes "reads_only m" and "\<And>x. reads_only (f x)"
  shows "reads_only (bindS m f)"
  using assms unfolding reads_only_def bindS_def by (fastforce split: prod.splits sum.splits)

lemma reads_only_basic:
  "reads_only (liftS r)" "reads_only (returnS x)" "reads_only (now_utc e)" "reads_only (sql e no_op)"
  "reads_only (sql e (select_device i))" "reads_only (sql e select_devices)"
  "reads_only (sql e (select_object i))" "reads_only (sql e (select_changes a n))"
  by (auto simp: reads_only_def result_simps sql_def Let_def no_op_def select_device_def
      select_devices_def select_object_def select_changes_def split: if_splits)

lemma error_keeps_reply: "error_keeps m \<Longrightarrow> error_keeps (reply_with f m)"
  by (auto simp: error_keeps_def reply_with_def result_simps)

lemma reads_only_reply: "reads_only m \<Longrightarrow> reads_only (reply_with f m)"
  unfolding reply_with_def by (intro reads_only_bindS reads_only_basic)

lemma error_keeps_transaction: "error_keeps (transaction e body)"
  unfolding error_keeps_def using transaction_Inl by metis

lemma register_error_keeps: "error_keeps (register_device e req)"
  unfolding error_keeps_def
  by (auto simp: register_device_def Let_def result_simps select_device_def
      split: if_splits option.splits)

lemma revoke_error_keeps: "error_keeps (revoke_device e i)"
proof -
  have "d' = d" if "update_revoked t x d = Some (0, d')" for t x d d'
    using that snd_update_rows_zero [of "\<lambda>r. dr_id r = x \<and> dr_revoked_at r = None"
        "\<lambda>r. r\<lparr>dr_revoked_at := Some t\<rparr>" "db_devices d"]
    by (auto simp: update_revoked_def Let_def split: prod.splits)
  then show ?thesis
    unfolding error_keeps_def by (auto simp: revoke_device_def result_simps split: if_splits)
qed

lemma changes_reads_only: "reads_only (changes e after limit)"
  unfolding changes_def Let_def by (auto intro!: reads_only_bindS reads_only_basic)

lemma handle_route_error_keeps: "error_keeps (handle_route e pkg rt)"
proof (cases rt)
  case (RouteRegister req)
  then show ?thesis using register_error_keeps by (simp add: error_keeps_reply)
next
  case (RouteRevoke i)
  then show ?thesis using revoke_error_keeps by (simp add: error_keeps_reply)
next
  case (RouteBatch req)
  have "error_keeps (batch e req)"
    unfolding batch_def using error_keeps_transaction [of e "batch_tx e (batch_operations req)"]
    by (auto simp: error_keeps_def result_simps)
  with RouteBatch show ?thesis by (simp add: error_keeps_reply)
qed (auto simp: put_object_def delete_object_def status_def list_devices_def
    get_object_def intro!: error_keeps_reply error_keeps_transaction
    intro: reads_only_keeps reads_only_bindS reads_only_basic changes_reads_only)

definition spec_list :: "device list \<Rightarrow> store \<Rightarrow> bool" where
  "spec_list vs s \<longleftrightarrow> mset vs = mset (st_devices s)"

text \<open>What an accepted request means: the steps of the store.\<close>

inductive spec_route :: "string \<Rightarrow> store \<Rightarrow> route \<Rightarrow> reply \<Rightarrow> store \<Rightarrow> bool" for pkg s where
  step_version: "spec_route pkg s RouteVersion (VersionReply (version pkg)) s"
| step_status: "sr_protocol r = PROTOCOL_MAX \<Longrightarrow> spec_route pkg s RouteStatus (StatusReply r) s"
| step_list: "spec_list vs s \<Longrightarrow> spec_route pkg s RouteListDevices (DevicesReply vs) s"
| step_register:
    "spec_register req code v s s' \<Longrightarrow> spec_route pkg s (RouteRegister req) (DeviceReply code v) s'"
| step_revoke: "spec_revoke i t s s' \<Longrightarrow> spec_route pkg s (RouteRevoke i) (RevokedReply 204) s'"
| step_changes:
    "0 < nat (uint limit) \<Longrightarrow> nat (uint limit) \<le> MAX_CHANGES_LIMIT \<Longrightarrow>
     spec_route pkg s (RouteChanges after limit)
       (ChangesReply (spec_changes after (nat (uint limit)) s)) s"
| step_get: "st_objects s (ObjectId i) = Some ob \<Longrightarrow> spec_route pkg s (RouteGet i) (ObjectReply ob) s"
| step_put:
    "spec_put (ObjectId i) req s = Some (ob, s') \<Longrightarrow> spec_route pkg s (RoutePut i req) (ObjectReply ob) s'"
| step_delete:
    "spec_delete (ObjectId i) req s = Some (ob, s') \<Longrightarrow>
     spec_route pkg s (RouteDelete i req) (ObjectReply ob) s'"
| step_batch:
    "0 < length (batch_operations req) \<Longrightarrow> length (batch_operations req) \<le> MAX_BATCH_OPERATIONS \<Longrightarrow>
     spec_batch (batch_operations req) s = Some (obs, s') \<Longrightarrow>
     spec_route pkg s (RouteBatch req) (BatchReply \<lparr>batch_objects = obs\<rparr>) s'"

inductive_cases spec_route_putE: "spec_route pkg s (RoutePut i req) r s'"
inductive_cases spec_route_revokeE: "spec_route pkg s (RouteRevoke i) r s'"

lemma list_all2_mset_perm:
  assumes "list_all2 R xs ys" and "mset xs' = mset xs" and "list_all2 R xs' ys'"
    and "\<And>x y z. R x y \<Longrightarrow> R x z \<Longrightarrow> y = z"
  shows "mset ys' = mset ys"
proof -
  define f where "f x = (SOME y. R x y)" for x
  have f: "R x y \<Longrightarrow> f x = y" for x y
    unfolding f_def using assms(4) by (metis someI)
  have "bs = map f as" if "list_all2 R as bs" for as bs
    using that by (induction rule: list_all2_induct) (auto simp: f)
  then have "ys = map f xs" "ys' = map f xs'" using assms(1,3) by auto
  with assms(2) show ?thesis by (simp add: mset_map)
qed

lemma list_devices_simulates:
  assumes codec: "codec_ok e" and sim: "sim e (c_db c) s" and run: "list_devices e c = (Inr vs, c')"
  shows "spec_list vs s \<and> c_db c' = c_db c"
proof -
  let ?rows = "sort_key (\<lambda>r. (dr_created_at r, dr_id r)) (db_devices (c_db c))"
  from run have r: "collect_results (row_to_device e) ?rows = Inr vs" "c_db c' = c_db c"
    by (auto simp: list_devices_def result_simps select_devices_def)
  have "list_all2 (\<lambda>r v. row_to_device e r = Inr v) (db_devices (c_db c)) (st_devices s)"
    using simD(6) [OF sim] row_to_device_enc [OF codec] by (rule list_all2_mono)
  from list_all2_mset_perm [OF this _ r(1) [unfolded collect_results_Inr]] r(2)
  show ?thesis by (simp add: spec_list_def)
qed

lemma transaction_simulates:
  assumes "transaction e body c = (Inr x, c')" and "sim e (c_db c) s"
    and "\<And>c2 c3. sim e (c_db c2) s \<Longrightarrow> body c2 = (Inr x, c3) \<Longrightarrow> \<exists>s'. P s' \<and> sim e (c_db c3) s'"
  shows "\<exists>s'. P s' \<and> sim e (c_db c') s'"
proof -
  obtain c2 where "body (c\<lparr>c_tick := Suc (c_tick c)\<rparr>) = (Inr x, c2)" "c_db c' = c_db c2"
    using transaction_Inr [OF assms(1)] by blast
  with assms(3) [of "c\<lparr>c_tick := Suc (c_tick c)\<rparr>" c2] assms(2) show ?thesis by simp
qed

lemma reply_with_Inr [result_simps]:
  "reply_with f m c = (Inr r, c') \<longleftrightarrow> (\<exists>x. m c = (Inr x, c') \<and> r = f x)"
  by (auto simp: reply_with_def result_simps)

lemma handle_route_simulates:
  assumes codec: "codec_ok e" and sim: "sim e (c_db c) s"
    and run: "handle_route e pkg rt c = (Inr r, c')"
  shows "\<exists>s'. spec_route pkg s rt r s' \<and> sim e (c_db c') s'"
proof (cases rt)
  case RouteVersion
  with run sim show ?thesis by (auto simp: result_simps intro: spec_route.intros)
next
  case RouteStatus
  with run obtain x where "r = StatusReply x" "sr_protocol x = PROTOCOL_MAX" "c_db c' = c_db c"
    by (auto simp: result_simps status_def)
  with RouteStatus sim show ?thesis by (metis spec_route.step_status)
next
  case RouteListDevices
  with run obtain vs where "r = DevicesReply vs" "spec_list vs s" "c_db c' = c_db c"
    using list_devices_simulates [OF codec sim] by (auto simp: result_simps)
  with RouteListDevices sim show ?thesis by (metis spec_route.step_list)
next
  case (RouteRegister req)
  with run register_simulates [OF codec sim] show ?thesis
    by (fastforce simp: result_simps intro: spec_route.intros)
next
  case (RouteRevoke i)
  with run revoke_simulates [OF codec sim] show ?thesis
    by (fastforce simp: result_simps intro: spec_route.intros)
next
  case (RouteChanges after limit)
  with run obtain page where page: "changes e after limit c = (Inr page, c')" "r = ChangesReply page"
    by (auto simp: result_simps)
  have "0 < n" if "n \<noteq> 0" for n :: nat using that by simp
  with page have "0 < nat (uint limit)" "nat (uint limit) \<le> MAX_CHANGES_LIMIT"
    unfolding changes_def Let_def
    by (simp_all add: liftS_iff split: if_splits)
  with changes_simulates [OF codec sim page(1)] page(2) sim RouteChanges show ?thesis
    by (metis spec_route.step_changes)
next
  case (RouteGet i)
  with run sim get_simulates [OF codec sim] show ?thesis
    by (fastforce simp: result_simps intro: spec_route.intros)
next
  case (RoutePut i req)
  with run obtain ob where put: "put_object e i req c = (Inr ob, c')" "r = ObjectReply ob"
    by (auto simp: result_simps)
  have "\<exists>s'. spec_put (ObjectId i) req s = Some (ob, s') \<and> sim e (c_db c') s'"
    by (rule transaction_simulates [OF put(1) [unfolded put_object_def] sim]) (rule put_simulates [OF codec])
  then show ?thesis using RoutePut put(2) by (auto intro: spec_route.intros)
next
  case (RouteDelete i req)
  with run obtain ob where del: "delete_object e i req c = (Inr ob, c')" "r = ObjectReply ob"
    by (auto simp: result_simps)
  have "\<exists>s'. spec_delete (ObjectId i) req s = Some (ob, s') \<and> sim e (c_db c') s'"
    by (rule transaction_simulates [OF del(1) [unfolded delete_object_def] sim]) (rule delete_simulates [OF codec])
  then show ?thesis using RouteDelete del(2) by (auto intro: spec_route.intros)
next
  case (RouteBatch req)
  with run obtain obs where
    b: "transaction e (batch_tx e (batch_operations req)) c = (Inr obs, c')"
    "r = BatchReply \<lparr>batch_objects = obs\<rparr>" "batch_operations req \<noteq> []"
    "length (batch_operations req) \<le> MAX_BATCH_OPERATIONS"
    by (auto simp: result_simps batch_def split: if_splits)
  have "\<exists>s'. spec_batch (batch_operations req) s = Some (obs, s') \<and> sim e (c_db c') s'"
    by (rule transaction_simulates [OF b(1) sim]) (rule batch_simulates [OF codec])
  then show ?thesis using RouteBatch b(2-4) by (auto intro: spec_route.intros)
qed

text \<open>A served request either changes nothing and reports an error, or answers as the store
  says.\<close>

lemma serve_request_simulates:
  assumes "codec_ok e" and "sim e (c_db c) s" and "serve_request e sha256 st pkg req c = (r, c')"
  shows "(\<exists>er. r = Inl er \<and> c_db c' = c_db c) \<or>
     (\<exists>x s'. r = Inr x \<and> spec_route pkg s (hr_route req) x s' \<and> sim e (c_db c') s')"
proof (cases r)
  case (Inl er)
  have "error_keeps (serve_request e sha256 st pkg req)"
    unfolding serve_request_def
    by (intro error_keeps_bindS reads_only_basic handle_route_error_keeps)
  with assms(3) Inl show ?thesis by (simp add: error_keeps_def)
next
  case (Inr x)
  with assms(3) have "handle_route e pkg (hr_route req) c = (Inr x, c')"
    by (auto simp: serve_request_def result_simps)
  from handle_route_simulates [OF assms(1,2) this] Inr show ?thesis by blast
qed

end
