(* ===== verification/ServerProps.thy ===== *)
theory ServerProps
  imports ServerSpec
begin

text \<open>
  The properties of the server: a run of requests from any number of clients, in the order the
  database serves them, under every schedule of database faults. \<open>serve_all\<close> runs a list of
  requests, \<open>spec_run\<close> is the same run on the abstract store. Each property is followed by
  its witness, on the codec \<open>demo_env\<close>.
\<close>

section \<open>Runs\<close>

fun serve_all ::
  "env \<Rightarrow> (bytes \<Rightarrow> bytes) \<Rightarrow> app_state \<Rightarrow> string \<Rightarrow> http_request list \<Rightarrow> conn \<Rightarrow>
     (api_error + reply) list \<times> conn" where
  "serve_all e sha256 st pkg [] c = ([], c)"
| "serve_all e sha256 st pkg (req # reqs) c =
     (let (r, c1) = serve_request e sha256 st pkg req c;
          (rs, c2) = serve_all e sha256 st pkg reqs c1
      in (r # rs, c2))"

inductive spec_run :: "string \<Rightarrow> store \<Rightarrow> (route \<times> (api_error + reply)) list \<Rightarrow> store \<Rightarrow> bool" for pkg where
  run_Nil: "spec_run pkg s [] s"
| run_error: "spec_run pkg s rest s' \<Longrightarrow> spec_run pkg s ((rt, Inl er) # rest) s'"
| run_step: "spec_route pkg s rt x s1 \<Longrightarrow> spec_run pkg s1 rest s' \<Longrightarrow>
    spec_run pkg s ((rt, Inr x) # rest) s'"

lemma serve_all_simulates:
  assumes "codec_ok e"
  shows "sim e (c_db c) s \<Longrightarrow> serve_all e sha256 st pkg reqs c = (rs, c') \<Longrightarrow>
    \<exists>s'. spec_run pkg s (zip (map hr_route reqs) rs) s' \<and> sim e (c_db c') s'"
proof (induction reqs arbitrary: c s rs)
  case Nil
  then show ?case by (auto intro: run_Nil)
next
  case (Cons req reqs)
  obtain r c1 where r: "serve_request e sha256 st pkg req c = (r, c1)"
    by (cases "serve_request e sha256 st pkg req c")
  obtain rs1 where rs1: "serve_all e sha256 st pkg reqs c1 = (rs1, c')" "rs = r # rs1"
    using Cons.prems(2) r by (auto split: prod.splits)
  from serve_request_simulates [OF assms Cons.prems(1) r]
  show ?case
  proof (elim disjE exE conjE)
    fix er assume er: "r = Inl er" "c_db c1 = c_db c"
    with Cons.prems(1) have "sim e (c_db c1) s" by simp
    from Cons.IH [OF this rs1(1)] show ?thesis using er rs1(2) by (auto intro: run_error)
  next
    fix x s1 assume x: "r = Inr x" "spec_route pkg s (hr_route req) x s1" "sim e (c_db c1) s1"
    from Cons.IH [OF x(3) rs1(1)] show ?thesis using x rs1(2) by (auto intro: run_step)
  qed
qed

lemma serve_all_inv: "db_inv (c_db c) \<Longrightarrow> db_inv (c_db (snd (serve_all e sha256 st pkg reqs c)))"
proof (induction reqs arbitrary: c)
  case (Cons req reqs)
  obtain r c1 where r: "serve_request e sha256 st pkg req c = (r, c1)"
    by (cases "serve_request e sha256 st pkg req c")
  with preserves_serve_request Cons.prems have "db_inv (c_db c1)" by (blast dest: preserves_invD)
  with Cons.IH [of c1] r show ?case by (simp add: split_beta)
qed simp

text \<open>A revoked device stays revoked, whatever is served.\<close>

definition st_revoked :: "device_id \<Rightarrow> store \<Rightarrow> bool" where
  "st_revoked i s \<longleftrightarrow> (\<exists>v \<in> set (st_devices s). dev_id v = i) \<and> \<not> st_active i s"

lemma record_object_devices [simp]: "st_devices (record_object ob s) = st_devices s"
  by (simp add: record_object_def)

lemma spec_put_devices: "spec_put i req s = Some (ob, s') \<Longrightarrow> st_devices s' = st_devices s"
  by (auto simp: spec_put_def Let_def split: if_splits)

lemma spec_delete_devices: "spec_delete i req s = Some (ob, s') \<Longrightarrow> st_devices s' = st_devices s"
  by (auto simp: spec_delete_def Let_def split: option.splits if_splits)

lemma spec_put_active: "spec_put i req s = Some (ob, s') \<Longrightarrow> st_active (put_device_id req) s"
  by (simp add: spec_put_def split: if_splits)

lemma spec_delete_active: "spec_delete i req s = Some (ob, s') \<Longrightarrow> st_active (del_device_id req) s"
  by (simp add: spec_delete_def split: if_splits option.splits)

lemma spec_batch_devices: "spec_batch operations s = Some (obs, s') \<Longrightarrow> st_devices s' = st_devices s"
proof (induction operations arbitrary: s obs)
  case (Cons operation rest)
  then obtain ob s1 obs1 where "spec_operation operation s = Some (ob, s1)"
    "spec_batch rest s1 = Some (obs1, s')" by (auto split: option.splits)
  with Cons.IH show ?case
    by (cases operation) (auto dest: spec_put_devices spec_delete_devices)
qed simp

lemma spec_revoke_revoked:
  assumes "spec_revoke i t s s'"
  shows "st_revoked (DeviceId i) s'"
proof -
  have "map dev_id (st_devices s') = map dev_id (st_devices s)"
    using assms by (simp add: spec_revoke_def)
  then have "dev_id ` set (st_devices s') = dev_id ` set (st_devices s)" by (metis image_set)
  with assms show ?thesis
    by (auto simp: spec_revoke_def st_revoked_def st_active_def image_iff Bex_def set_eq_iff)
qed

lemma spec_route_revoked:
  assumes "spec_route pkg s rt x s'" and "st_revoked i s"
  shows "st_revoked i s'"
  using assms
proof (cases rule: spec_route.cases)
  case (step_register req code v)
  then show ?thesis using assms(2)
    by (auto simp: spec_register_def st_revoked_def st_active_def find_row_None split: option.splits)
next
  case (step_revoke j t)
  then show ?thesis using assms(2)
    by (auto simp: spec_revoke_def st_revoked_def st_active_def)
next
  case (step_put j req ob)
  then show ?thesis using assms(2) by (simp add: st_revoked_def st_active_def spec_put_devices)
next
  case (step_delete j req ob)
  then show ?thesis using assms(2) by (simp add: st_revoked_def st_active_def spec_delete_devices)
next
  case (step_batch req obs)
  then show ?thesis using assms(2) by (simp add: st_revoked_def st_active_def spec_batch_devices)
qed auto

lemma spec_run_revoked: "spec_run pkg s log s' \<Longrightarrow> st_revoked i s \<Longrightarrow> st_revoked i s'"
  by (induction rule: spec_run.induct) (auto dest: spec_route_revoked)

lemma sim_revoked:
  assumes "codec_ok e" and "sim e d s"
  shows "st_revoked i s \<longleftrightarrow>
    (\<exists>r. find_row dr_id (uuid_text e (device_uuid i)) (db_devices d) = Some r \<and> dr_revoked_at r \<noteq> None)"
proof -
  have "st_revoked i s \<longleftrightarrow>
      (\<exists>v. find_row dev_id i (st_devices s) = Some v \<and> dev_revoked_at v \<noteq> None)"
    unfolding st_revoked_def st_active_def find_row_Some_iff [OF sim_device_keys [OF assms]]
    using sim_device_keys [OF assms] by (auto simp: key_ok_def distinct_map inj_on_def)
  then show ?thesis
    using sim_device_row [OF assms, of i]
    by (auto simp: option_rel_Some1 option_rel_Some2 device_enc_def split: option.splits)
qed

section \<open>Steps that do not look at the call counter\<close>

definition tick_free :: "'a handler \<Rightarrow> bool" where
  "tick_free m \<longleftrightarrow> (\<forall>c c1. c_db c = c_db c1 \<longrightarrow>
     fst (m c) = fst (m c1) \<and> c_db (snd (m c)) = c_db (snd (m c1)))"

lemma tick_freeD:
  "tick_free m \<Longrightarrow> c_db c = c_db c1 \<Longrightarrow> m c = (r, c') \<Longrightarrow> \<exists>c1'. m c1 = (r, c1') \<and> c_db c1' = c_db c'"
  unfolding tick_free_def by (metis fst_conv prod.collapse snd_conv)

lemma tick_freeI:
  "(\<And>c c1 r c'. c_db c = c_db c1 \<Longrightarrow> m c = (r, c') \<Longrightarrow> \<exists>c1'. m c1 = (r, c1') \<and> c_db c1' = c_db c') \<Longrightarrow>
     tick_free m"
  unfolding tick_free_def by (metis fst_conv prod.collapse snd_conv)

lemma tick_free_bindS:
  assumes "tick_free m" and "\<And>x. tick_free (f x)"
  shows "tick_free (bindS m f)"
proof (rule tick_freeI)
  fix c c1 :: conn and r c' assume db: "c_db c = c_db c1" and run: "bindS m f c = (r, c')"
  obtain r1 d where m: "m c = (r1, d)" by (cases "m c")
  from tick_freeD [where m = m, OF assms(1) db m] obtain d1 where d1: "m c1 = (r1, d1)" "c_db d1 = c_db d" by blast
  show "\<exists>c1'. bindS m f c1 = (r, c1') \<and> c_db c1' = c_db c'"
  proof (cases r1)
    case (Inl er)
    with run m d1 show ?thesis by (simp add: bindS_def)
  next
    case (Inr x)
    with run m have "f x d = (r, c')" by (simp add: bindS_def)
    from tick_freeD [where m = "f x", OF assms(2) d1(2) [symmetric] this] Inr d1 show ?thesis by (simp add: bindS_def)
  qed
qed

lemma tick_free_basic:
  "tick_free (liftS r)" "tick_free (returnS x)" "no_faults e \<Longrightarrow> tick_free (sql e q)"
  by (auto simp: tick_free_def liftS_def returnS_def sql_def no_faults_def Let_def split: option.split)

lemma tick_free_tx:
  assumes "no_faults e"
  shows "tick_free (put_object_tx e i req)" "tick_free (delete_object_tx e i dreq)"
    "tick_free (ensure_active_device e dev)"
proof -
  show dev: "tick_free (ensure_active_device e dev)" for dev
    unfolding ensure_active_device_def by (intro tick_free_bindS tick_free_basic assms)
  show "tick_free (put_object_tx e i req)"
    unfolding put_object_tx_def by (intro tick_free_bindS tick_free_basic assms dev)
  show "tick_free (delete_object_tx e i dreq)"
    unfolding delete_object_tx_def by (intro tick_free_bindS tick_free_basic assms dev)
qed

fun single_operation :: "env \<Rightarrow> batch_operation \<Rightarrow> sync_object handler" where
  "single_operation e (BatchPut i req) = put_object e (object_uuid i) req"
| "single_operation e (BatchDelete i req) = delete_object e (object_uuid i) req"

fun one_by_one :: "env \<Rightarrow> batch_operation list \<Rightarrow> sync_object list handler" where
  "one_by_one e [] = returnS []"
| "one_by_one e (operation # rest) =
     bindS (single_operation e operation) (\<lambda>ob.
     bindS (one_by_one e rest) (\<lambda>obs. returnS (ob # obs)))"

lemma object_id_uuid [simp]: "ObjectId (object_uuid i) = i"
  by (cases i) simp

lemma transaction_ok:
  assumes "no_faults e" and "tick_free body" and "c_db c = c_db c1" and "body c = (Inr x, c')"
  shows "\<exists>c1'. transaction e body c1 = (Inr x, c1') \<and> c_db c1' = c_db c'"
proof -
  from tick_freeD [where m = body, OF assms(2) _ assms(4), of "c1\<lparr>c_tick := Suc (c_tick c1)\<rparr>"] assms(3)
  obtain c2 where "body (c1\<lparr>c_tick := Suc (c_tick c1)\<rparr>) = (Inr x, c2)" "c_db c2 = c_db c'" by auto
  with assms(1) show ?thesis
    by (auto simp: transaction_def sql_def no_faults_def no_op_def)
qed

lemma single_operation_ok:
  assumes nf: "no_faults e" and "c_db c = c_db c1" and "batch_op_tx e operation c = (Inr ob, c')"
  shows "\<exists>c1'. single_operation e operation c1 = (Inr ob, c1') \<and> c_db c1' = c_db c'"
  using assms(2,3) transaction_ok [OF nf tick_free_tx(1) [OF nf]] transaction_ok [OF nf tick_free_tx(2) [OF nf]]
  by (cases operation) (simp_all add: put_object_def delete_object_def)

lemma one_by_one_ok:
  assumes nf: "no_faults e"
  shows "c_db c = c_db c1 \<Longrightarrow> batch_tx e operations c = (Inr obs, c') \<Longrightarrow>
    \<exists>c1'. one_by_one e operations c1 = (Inr obs, c1') \<and> c_db c1' = c_db c'"
proof (induction operations arbitrary: c c1 obs)
  case Nil
  then show ?case by (auto simp: returnS_def)
next
  case (Cons operation rest)
  from Cons.prems(2) obtain ob c2 obs2 where
    r: "batch_op_tx e operation c = (Inr ob, c2)" "batch_tx e rest c2 = (Inr obs2, c')" "obs = ob # obs2"
    by (auto simp: result_simps)
  from single_operation_ok [OF nf Cons.prems(1) r(1)] obtain c3 where
    c3: "single_operation e operation c1 = (Inr ob, c3)" "c_db c3 = c_db c2" by blast
  from Cons.IH [OF c3(2) [symmetric] r(2)] c3(1) r(3) show ?case by (auto simp: result_simps)
qed

section \<open>A concrete environment\<close>

definition demo_envelope :: envelope where
  "demo_envelope = \<lparr>env_version = 1, env_algorithm = ''XCHACHA20-POLY1305'', env_key_version = 1,
     env_nonce = replicate 24 0, env_ciphertext = [1, 2, 3]\<rparr>"

text \<open>Identifiers and instants are written in unary.\<close>

definition unary :: "nat \<Rightarrow> string" where
  "unary n = replicate n CHR ''x''"

lemma unary_eq [simp]: "unary m = unary n \<longleftrightarrow> m = n"
  by (auto simp: unary_def)

lemma length_unary [simp]: "length (unary n) = n"
  by (simp add: unary_def)

definition demo_env :: env where
  "demo_env = \<lparr>uuid_text = (\<lambda>u. unary (unat u)),
     uuid_parse = (\<lambda>s. Some (word_of_nat (length s))),
     time_format = (\<lambda>t. if 0 \<le> instant t then Some (unary (nat (instant t))) else None),
     time_parse = (\<lambda>s. Some (Timestamp (int (length s)))),
     envelope_to_json = (\<lambda>v. if v = demo_envelope then Some ''{}'' else None),
     envelope_of_json = (\<lambda>s. if s = ''{}'' then Some demo_envelope else None),
     db_fault = (\<lambda>n. False), clock = (\<lambda>n. Timestamp (int n))\<rparr>"

lemma demo_env_simps [simp]:
  "uuid_text demo_env u = unary (unat u)" "uuid_parse demo_env s = Some (word_of_nat (length s))"
  "time_format demo_env (Timestamp t) = (if 0 \<le> t then Some (unary (nat t)) else None)"
  "time_parse demo_env s = Some (Timestamp (int (length s)))"
  "envelope_to_json demo_env demo_envelope = Some ''{}''"
  "envelope_of_json demo_env ''{}'' = Some demo_envelope"
  "db_fault demo_env n = False" "clock demo_env n = Timestamp (int n)"
  by (simp_all add: demo_env_def)

lemma demo_codec: "codec_ok demo_env"
proof -
  have "time_parse demo_env s = Some t" if "time_format demo_env t = Some s" for t s
    using that by (cases t) (auto split: if_splits)
  moreover have "uuid_parse demo_env (uuid_text demo_env u) = Some u" for u by simp
  moreover have "envelope_of_json demo_env s = Some v" if "envelope_to_json demo_env v = Some s" for v s
    using that by (simp add: demo_env_def split: if_splits)
  ultimately show ?thesis unfolding codec_ok_def by blast
qed

lemma demo_no_faults: "no_faults demo_env"
  by (simp add: no_faults_def)

definition demo_device :: device_id where "demo_device = DeviceId 7"

definition demo_put :: "u64 option \<Rightarrow> put_object_request" where
  "demo_put base = \<lparr>put_namespace = ''bookmarks'', put_base_revision = base,
     put_device_id = demo_device, put_modified_at = Timestamp 5, put_envelope = demo_envelope\<rparr>"

definition demo_conn :: conn where
  "demo_conn = \<lparr>c_db = empty_database, c_tick = 0\<rparr>"

definition demo_request :: "route \<Rightarrow> http_request" where
  "demo_request rt = \<lparr>hr_authorization = Some ''Bearer secret'', hr_protocol = Some ''1'', hr_route = rt\<rparr>"

text \<open>A database with one device and one object, reached by two requests, and its store.\<close>

definition demo_row :: device_row where
  "demo_row = \<lparr>dr_id = unary 7, dr_name = ''pc'', dr_created_at = unary 1, dr_revoked_at = None\<rparr>"

definition demo_store0 :: store where
  "demo_store0 = empty_store\<lparr>st_devices := [\<lparr>dev_id = demo_device, dev_name = ''pc'',
     dev_created_at = Timestamp 1, dev_revoked_at = None\<rparr>]\<rparr>"

definition demo_conn0 :: conn where
  "demo_conn0 = demo_conn\<lparr>c_db := empty_database\<lparr>db_devices := [demo_row]\<rparr>\<rparr>"

definition demo_conn1 :: conn where
  "demo_conn1 = snd (put_object_tx demo_env (ObjectId 3) (demo_put None) demo_conn0)"

definition demo_object :: sync_object where
  "demo_object = put_result (ObjectId 3) (demo_put None) 1 1"

definition demo_store1 :: store where
  "demo_store1 = record_object demo_object demo_store0"

lemma demo_sim0: "sim demo_env (c_db demo_conn0) demo_store0"
proof -
  have "list_all2 (device_enc demo_env) [demo_row] (st_devices demo_store0)"
    by (simp add: demo_store0_def device_enc_def demo_row_def demo_device_def)
  moreover have "db_inv (empty_database\<lparr>db_devices := [demo_row]\<rparr>)"
    by (simp add: db_inv_def empty_database_def i64_max_def key_ok_def)
  ultimately show ?thesis
    using sim_devices [OF sim_empty [of demo_env]]
    by (simp add: demo_conn0_def demo_conn_def demo_store0_def)
qed

lemma demo_put_simps [simp]:
  "put_base_revision (demo_put b) = b" "put_device_id (demo_put b) = demo_device"
  "put_modified_at (demo_put b) = Timestamp 5" "put_envelope (demo_put b) = demo_envelope"
  by (simp_all add: demo_put_def)

lemma demo_store0_simps [simp]: "st_objects demo_store0 = (\<lambda>_. None)" "st_seq demo_store0 = 0"
  by (simp_all add: demo_store0_def empty_store_def)

lemma demo_valid: "validate_put (demo_put b) = Inr ()"
  by (simp add: validate_put_def demo_put_def demo_envelope_def MAX_PAYLOAD_BYTES_def)

lemma demo_active: "st_active demo_device demo_store0" "st_active demo_device demo_store1"
  by (simp_all add: st_active_def demo_store0_def demo_store1_def)

lemma demo_put_run:
  "put_object_tx demo_env (ObjectId 3) (demo_put None) demo_conn0 = (Inr demo_object, demo_conn1)"
  and demo_sim1: "sim demo_env (c_db demo_conn1) demo_store1"
proof -
  have "spec_put (ObjectId 3) (demo_put None) demo_store0 = Some (demo_object, demo_store1)"
    using demo_valid demo_active(1)
    by (simp add: spec_put_def demo_store1_def demo_object_def Let_def)
  moreover have "put_room demo_env (ObjectId 3) (demo_put None) demo_store0"
    by (simp add: put_room_def demo_store0_def empty_store_def i64_max_def)
  ultimately have "\<exists>c'. put_object_tx demo_env (ObjectId 3) (demo_put None) demo_conn0 = (Inr demo_object, c') \<and>
      sim demo_env (c_db c') demo_store1"
    using put_complete [OF demo_codec demo_no_faults demo_sim0] by blast
  then show "put_object_tx demo_env (ObjectId 3) (demo_put None) demo_conn0 = (Inr demo_object, demo_conn1)"
    "sim demo_env (c_db demo_conn1) demo_store1"
    by (auto simp: demo_conn1_def)
qed

lemma demo_current: "st_objects demo_store1 (ObjectId 3) = Some demo_object"
  by (simp add: demo_store1_def record_object_def demo_object_def put_result_def)

definition demo_digest :: "bytes \<Rightarrow> bytes" where
  "demo_digest b = b"

definition demo_app :: app_state where
  "demo_app = app_state_new demo_digest ''secret''"

section \<open>Properties\<close>

text \<open>C1. Refinement: whatever requests are served, in whatever order and under whatever
  schedule of database faults, the answers are those of a run of the abstract store in which a
  failed request changes nothing, and the database represents the store at the end.\<close>

theorem server_refines_store:
  assumes "codec_ok e" and "sim e (c_db c) s"
  shows "\<exists>s'. spec_run pkg s (zip (map hr_route reqs) (fst (serve_all e sha256 st pkg reqs c))) s' \<and>
    sim e (c_db (snd (serve_all e sha256 st pkg reqs c))) s'"
  using serve_all_simulates [OF assms] by (metis prod.collapse)

lemma server_refines_store_witness:
  "\<exists>s'. spec_run ''1.0'' demo_store0
      (zip [RoutePut 3 (demo_put None), RouteGet 3]
        (fst (serve_all demo_env demo_digest demo_app ''1.0''
           [demo_request (RoutePut 3 (demo_put None)), demo_request (RouteGet 3)] demo_conn0))) s' \<and>
    sim demo_env (c_db (snd (serve_all demo_env demo_digest demo_app ''1.0''
           [demo_request (RoutePut 3 (demo_put None)), demo_request (RouteGet 3)] demo_conn0))) s'"
  using server_refines_store [OF demo_codec demo_sim0, of "''1.0''"
      "[demo_request (RoutePut 3 (demo_put None)), demo_request (RouteGet 3)]"]
  by (simp add: demo_request_def)

text \<open>C6. Invariant: in every database the server reaches from an empty one, whatever is
  requested and whichever database calls fail, the cursors of the change log grow strictly and
  the revisions of each object's changes are 1, 2, ..., n without gap or repetition, the last
  one being the revision of the object's row.\<close>

theorem server_histories_numbered:
  "let d = c_db (snd (serve_all e sha256 st pkg reqs \<lparr>c_db = empty_database, c_tick = 0\<rparr>))
   in db_inv d \<and> sorted_wrt (<) (map cr_cursor (db_changes d)) \<and>
      map cr_revision (history i d) = map int [1..<Suc (length (history i d))] \<and>
      map_option change_of_row (find_row or_id i (db_objects d)) =
        (if history i d = [] then None else Some (last (history i d)))"
proof -
  let ?d = "c_db (snd (serve_all e sha256 st pkg reqs \<lparr>c_db = empty_database, c_tick = 0\<rparr>))"
  have inv: "db_inv ?d" by (rule serve_all_inv) (simp add: db_inv_empty)
  have "map_option change_of_row (find_row or_id i (db_objects ?d)) =
        (if history i ?d = [] then None else Some (last (history i ?d)))"
  proof (cases "find_row or_id i (db_objects ?d)")
    case None
    with history_empty [OF inv None] show ?thesis by simp
  next
    case (Some r)
    then have "r \<in> set (db_objects ?d)" "or_id r = i" using find_row_SomeD by fast+
    with db_invD(7) [OF inv this(1)] Some show ?thesis by (auto simp: object_ok_def)
  qed
  with inv db_invD(5) [OF inv] history_numbered [OF inv, of i] show ?thesis
    by (simp add: Let_def numbered_def del: upt_Suc)
qed

text \<open>C12. A batch is all or nothing: a batch that is refused, at any operation or by any database
  fault, leaves the database as it was, and one that is accepted has the objects and the database
  of its operations requested one by one.\<close>

theorem batch_all_or_nothing:
  assumes "batch e req c = (r, c')"
  shows "case r of
      Inl er \<Rightarrow> c_db c' = c_db c
    | Inr resp \<Rightarrow> no_faults e \<longrightarrow>
        (\<exists>c1. one_by_one e (batch_operations req) c = (Inr (batch_objects resp), c1) \<and> c_db c1 = c_db c')"
proof (cases r)
  case (Inl er)
  with assms transaction_Inl show ?thesis by (auto simp: batch_def result_simps split: if_splits)
next
  case (Inr resp)
  with assms obtain obs where
    run: "transaction e (batch_tx e (batch_operations req)) c = (Inr obs, c')"
    "resp = \<lparr>batch_objects = obs\<rparr>"
    by (auto simp: batch_def result_simps split: if_splits)
  obtain c2 where c2: "batch_tx e (batch_operations req) (c\<lparr>c_tick := Suc (c_tick c)\<rparr>) = (Inr obs, c2)"
    "c_db c' = c_db c2"
    using transaction_Inr [OF run(1)] by auto
  show ?thesis
  proof (cases "no_faults e")
    case True
    from one_by_one_ok [OF this _ c2(1), of c] c2(2) Inr run(2) show ?thesis by simp
  qed (simp add: Inr)
qed

lemma batch_all_or_nothing_witness:
  "\<exists>resp c'. batch demo_env \<lparr>batch_operations = [BatchPut (ObjectId 3) (demo_put None)]\<rparr> demo_conn0 = (Inr resp, c') \<and>
    (\<exists>c1. one_by_one demo_env [BatchPut (ObjectId 3) (demo_put None)] demo_conn0 =
       (Inr (batch_objects resp), c1) \<and> c_db c1 = c_db c')"
proof -
  have "tick_free (batch_tx demo_env [BatchPut (ObjectId 3) (demo_put None)])"
    by (auto intro!: tick_free_bindS tick_free_tx tick_free_basic demo_no_faults)
  note tx = transaction_ok [OF demo_no_faults this refl]
  have "batch_tx demo_env [BatchPut (ObjectId 3) (demo_put None)] demo_conn0 = (Inr [demo_object], demo_conn1)"
    using demo_put_run by (simp add: result_simps)
  from tx [OF this] obtain c' where
    "transaction demo_env (batch_tx demo_env [BatchPut (ObjectId 3) (demo_put None)]) demo_conn0 =
       (Inr [demo_object], c')"
    by auto
  then have "batch demo_env \<lparr>batch_operations = [BatchPut (ObjectId 3) (demo_put None)]\<rparr> demo_conn0 =
       (Inr \<lparr>batch_objects = [demo_object]\<rparr>, c')"
    by (simp add: batch_def MAX_BATCH_OPERATIONS_def bindS_Inr returnS_iff)
  with batch_all_or_nothing [OF this] demo_no_faults show ?thesis by auto
qed

text \<open>C13. No lost update: a put whose base is not the object's current revision never succeeds and
  changes nothing; without database faults an active device is told the current revision and
  cursor in a 409 \<open>revision_conflict\<close>.\<close>

theorem stale_put_refused:
  assumes codec: "codec_ok e" and sim: "sim e (c_db c) s"
    and cur: "st_objects s (ObjectId i) = Some ob" and stale: "put_base_revision req \<noteq> Some (so_revision ob)"
  shows "\<exists>er c'. put_object e i req c = (Inl er, c') \<and> c_db c' = c_db c \<and>
    (no_faults e \<and> validate_put req = Inr () \<and> st_active (put_device_id req) s \<longrightarrow>
       er = api_conflict (so_revision ob) (so_cursor ob))"
proof -
  obtain r c' where run: "put_object e i req c = (r, c')" by (cases "put_object e i req c")
  let ?c1 = "c\<lparr>c_tick := Suc (c_tick c)\<rparr>"
  have sim1: "sim e (c_db ?c1) s" using sim by simp
  have "\<exists>er. r = Inl er"
  proof (cases r)
    case (Inr x)
    from transaction_Inr [OF run [unfolded put_object_def Inr]] obtain c2 where
      "put_object_tx e (ObjectId i) req ?c1 = (Inr x, c2)" by blast
    from put_simulates [OF codec sim1 this] stale cur have False
      by (auto simp: spec_put_def split: if_splits)
    then show ?thesis ..
  qed simp
  then obtain er where er: "r = Inl er" ..
  moreover have "c_db c' = c_db c"
    using transaction_Inl run er unfolding put_object_def by blast
  moreover have "er = api_conflict (so_revision ob) (so_cursor ob)"
    if "no_faults e" "validate_put req = Inr ()" "st_active (put_device_id req) s"
    using put_stale [OF codec that(1) sim1 that(2,3) cur stale] run er that(1)
    by (auto simp: put_object_def transaction_def sql_def no_faults_def no_op_def)
  ultimately show ?thesis using run by auto
qed

lemma stale_put_refused_witness:
  "\<exists>er c'. put_object demo_env 3 (demo_put None) demo_conn1 = (Inl er, c') \<and>
    c_db c' = c_db demo_conn1 \<and> er = api_conflict 1 1"
  using stale_put_refused [OF demo_codec demo_sim1 demo_current, of "demo_put None"]
    demo_valid demo_active demo_no_faults
  by (simp add: demo_object_def put_result_def)

text \<open>C20. Availability: without database faults, a put that names the current revision, from an
  active device, with metadata the codecs can write and counters that are not exhausted, is
  accepted; it creates the next revision under the next cursor, a read then returns exactly the
  object of the answer, and every page of changes that reaches the end of the log ends with it.\<close>

theorem current_put_accepted:
  assumes codec: "codec_ok e" and nf: "no_faults e" and sim: "sim e (c_db c) s"
    and valid: "validate_put req = Inr ()" and dev: "st_active (put_device_id req) s"
    and base: "put_base_revision req = map_option so_revision (st_objects s (ObjectId i))"
    and room: "put_room e (ObjectId i) req s"
  shows "\<exists>ob c1. put_object e i req c = (Inr ob, c1) \<and>
    so_revision ob = (case put_base_revision req of None \<Rightarrow> 1 | Some b \<Rightarrow> b + 1) \<and>
    so_cursor ob = word_of_int (st_seq s + 1) \<and> so_envelope ob = Some (put_envelope req) \<and>
    fst (get_object e i c1) = Inr ob \<and>
    (\<exists>s1. sim e (c_db c1) s1 \<and> last (st_log s1) = change_of_object ob)"
proof -
  let ?ob = "put_result (ObjectId i) req
    (case st_objects s (ObjectId i) of None \<Rightarrow> 1 | Some ob \<Rightarrow> so_revision ob + 1) (word_of_int (st_seq s + 1))"
  let ?s1 = "record_object ?ob s"
  have spec: "spec_put (ObjectId i) req s = Some (?ob, ?s1)"
    using valid dev base by (simp add: spec_put_def Let_def)
  from put_complete [OF codec nf sim room spec] obtain c2 where
    c2: "put_object_tx e (ObjectId i) req c = (Inr ?ob, c2)" "sim e (c_db c2) ?s1" by blast
  from transaction_ok [OF nf tick_free_tx(1) [OF nf] refl c2(1)] obtain c1 where
    c1: "put_object e i req c = (Inr ?ob, c1)" "c_db c1 = c_db c2"
    unfolding put_object_def by blast
  have sim1: "sim e (c_db c1) ?s1" using c2(2) c1(2) by simp
  have st: "st_objects ?s1 (ObjectId i) = Some ?ob" "last (st_log ?s1) = change_of_object ?ob"
    by (simp_all add: record_object_def put_result_def)
  with simD(3) [OF sim1, of "ObjectId i"] obtain r where
    r: "current_row e (ObjectId i) (c_db c1) = Some r" "object_enc e r ?ob"
    by (auto simp: option_rel_Some2)
  have "fst (get_object e i c1) = Inr ?ob"
    using nf r(1) row_to_object_enc [OF codec r(2)]
    by (simp add: get_object_def bindS_def liftS_def sql_def no_faults_def select_object_def current_row_def)
  then show ?thesis
    using c1(1) sim1 st(2) base
    by (intro exI [of _ ?ob] exI [of _ c1]) (auto simp: put_result_def split: option.split)
qed

lemma current_put_accepted_witness:
  "\<exists>ob c1. put_object demo_env 3 (demo_put (Some 1)) demo_conn1 = (Inr ob, c1) \<and> so_revision ob = 2 \<and>
    fst (get_object demo_env 3 c1) = Inr ob"
proof -
  have room: "put_room demo_env (ObjectId 3) (demo_put (Some 1)) demo_store1"
    by (simp add: put_room_def demo_current demo_object_def put_result_def i64_max_def)
      (simp add: demo_store1_def record_object_def)
  have "put_base_revision (demo_put (Some 1)) = map_option so_revision (st_objects demo_store1 (ObjectId 3))"
    by (simp add: demo_current demo_object_def put_result_def)
  from current_put_accepted [OF demo_codec demo_no_faults demo_sim1 demo_valid _ this room]
    demo_active(2) show ?thesis by auto
qed

text \<open>C23. The change feed: without database faults, a page asked for after cursor \<open>after\<close> holds the
  next \<open>limit\<close> changes of the log, in strictly growing cursor order, \<open>has_more\<close> tells whether
  later ones remain, and the next cursor is that of the last change of the page.\<close>

theorem changes_page_exact:
  assumes codec: "codec_ok e" and nf: "no_faults e" and sim: "sim e (c_db c) s"
    and limit: "0 < nat (uint limit)" "nat (uint limit) \<le> MAX_CHANGES_LIMIT"
    and after: "uint after \<le> i64_max"
  shows "\<exists>page. fst (changes e after limit c) = Inr page \<and>
    (let later = filter (\<lambda>ch. after < ch_cursor ch) (st_log s)
     in sorted_wrt (<) (map ch_cursor later) \<and> page_changes page = take (nat (uint limit)) later \<and>
        page_has_more page = (nat (uint limit) < length later) \<and>
        page_next_cursor page = (if later = [] then after else ch_cursor (last (page_changes page))))"
proof -
  let ?n = "nat (uint limit)" and ?later = "filter (\<lambda>ch. after < ch_cursor ch) (st_log s)"
  let ?rows = "filter (\<lambda>r. uint after < cr_cursor r) (db_changes (c_db c))"
  have enc: "list_all2 (change_enc e) ?rows ?later"
    by (rule list_all2_filter [OF simD(5) [OF sim]]) (simp add: change_enc_def word_less_def)
  have "collect_results (row_to_change e) (take ?n ?rows) = Inr (take ?n ?later)"
    using enc row_to_change_enc [OF codec]
    by (auto simp: collect_results_Inr intro: list_all2_mono list_all2_takeI)
  then have "collect_results (row_to_change e) (take ?n (take (?n + 1) ?rows)) = Inr (take ?n ?later)"
    by (simp add: min_def)
  then have "\<exists>c'. changes e after limit c =
      (Inr \<lparr>page_changes = take ?n ?later,
        page_next_cursor = (if take ?n ?later = [] then after else ch_cursor (last (take ?n ?later))),
        page_has_more = (length (take (?n + 1) ?rows) > ?n)\<rparr>, c')"
    using nf limit after simD(1) [OF sim] unfolding changes_def Let_def
    by (simp add: bindS_def liftS_def returnS_def sql_def no_faults_def select_changes_sorted
        i64_from_u64_def u64_to_i64_def del: take_take nat_uint_eq)
  then obtain page c' where run: "changes e after limit c = (Inr page, c')" by blast
  from changes_simulates [OF codec sim run] have page: "page = spec_changes after ?n s" by simp
  have "map cr_cursor (db_changes (c_db c)) = map (\<lambda>ch. uint (ch_cursor ch)) (st_log s)"
    using simD(5) [OF sim] by (induction rule: list_all2_induct) (simp_all add: change_enc_def)
  with db_invD(5) [OF simD(1) [OF sim]] have "sorted_wrt (<) (map ch_cursor (st_log s))"
    by (simp add: sorted_wrt_map word_less_def)
  then have "sorted_wrt (<) (map ch_cursor ?later)"
    by (simp add: sorted_wrt_map sorted_wrt_filter)
  with run page limit(1) show ?thesis
    by (simp add: spec_changes_def Let_def del: nat_uint_eq)
qed

lemma changes_page_exact_witness:
  "\<exists>page. fst (changes demo_env 0 10 demo_conn1) = Inr page \<and>
    page_changes page = [change_of_object demo_object] \<and> \<not> page_has_more page \<and> page_next_cursor page = 1"
proof -
  have "filter (\<lambda>ch. 0 < ch_cursor ch) (st_log demo_store1) = [change_of_object demo_object]"
    by (simp add: demo_store1_def record_object_def demo_store0_def empty_store_def change_of_object_def
        demo_object_def put_result_def)
  moreover have "ch_cursor (change_of_object demo_object) = 1"
    by (simp add: change_of_object_def demo_object_def put_result_def)
  ultimately show ?thesis
    using changes_page_exact [OF demo_codec demo_no_faults demo_sim1, of 10 0]
    by (fastforce simp: MAX_CHANGES_LIMIT_def i64_max_def Let_def)
qed

text \<open>C21. Revocation is final: once a device is revoked, then whatever is served afterwards, and
  whichever database calls fail, no write of that device succeeds any more and its attempts
  change nothing.\<close>

theorem revoked_device_cannot_write:
  assumes codec: "codec_ok e" and sim: "sim e (c_db c) s" and run: "revoke_device e i c = (Inr code, c1)"
    and put: "put_device_id preq = DeviceId i" and del: "del_device_id dreq = DeviceId i"
  shows "let c2 = snd (serve_all e sha256 st pkg reqs c1) in
    (\<exists>er c3. put_object e j preq c2 = (Inl er, c3) \<and> c_db c3 = c_db c2) \<and>
    (\<exists>er c3. delete_object e j dreq c2 = (Inl er, c3) \<and> c_db c3 = c_db c2)"
proof -
  let ?c2 = "snd (serve_all e sha256 st pkg reqs c1)"
  from revoke_simulates [OF codec sim run] obtain t s1 where
    s1: "spec_revoke i t s s1" "sim e (c_db c1) s1" by blast
  then have "st_revoked (DeviceId i) s1" by (blast intro: spec_revoke_revoked)
  moreover from serve_all_simulates [OF codec s1(2)] obtain s2 log where
    s2: "spec_run pkg s1 log s2" "sim e (c_db ?c2) s2" by (metis prod.collapse)
  ultimately have revoked: "\<not> st_active (DeviceId i) s2"
    using spec_run_revoked by (metis st_revoked_def)
  have fails: "\<exists>er c3. transaction e body ?c2 = (Inl er, c3) \<and> c_db c3 = c_db ?c2"
    if "\<And>c x c'. sim e (c_db c) s2 \<Longrightarrow> body c \<noteq> (Inr x, c')" for body :: "sync_object handler"
  proof (cases "transaction e body ?c2")
    case (Pair r c3)
    have "r \<noteq> Inr x" for x
      using transaction_Inr [of e body ?c2 x c3] that [of "?c2\<lparr>c_tick := Suc (c_tick ?c2)\<rparr>"] s2(2) Pair
      by auto
    then obtain er where "r = Inl er" by (cases r) auto
    with Pair transaction_Inl show ?thesis by blast
  qed
  have "put_object_tx e (ObjectId j) preq c \<noteq> (Inr x, c')" if "sim e (c_db c) s2" for c x c'
    using put_simulates [OF codec that] spec_put_active revoked put by metis
  moreover have "delete_object_tx e (ObjectId j) dreq c \<noteq> (Inr x, c')" if "sim e (c_db c) s2" for c x c'
    using delete_simulates [OF codec that] spec_delete_active revoked del by metis
  ultimately show ?thesis unfolding Let_def put_object_def delete_object_def using fails by blast
qed

definition demo_delete :: delete_object_request where
  "demo_delete = \<lparr>del_base_revision = 1, del_device_id = demo_device, del_modified_at = Timestamp 6\<rparr>"

definition demo_conn2 :: conn where
  "demo_conn2 = snd (revoke_device demo_env 7 demo_conn0)"

lemma demo_revoke: "revoke_device demo_env 7 demo_conn0 = (Inr 204, demo_conn2)"
proof -
  have "fst (revoke_device demo_env 7 demo_conn0) = Inr 204"
    by (simp add: revoke_device_def bindS_def now_utc_def liftS_def returnS_def timestamp_string_def
        sql_def update_revoked_def update_rows_def demo_conn0_def demo_conn_def demo_row_def empty_database_def)
  then show ?thesis by (metis demo_conn2_def prod.collapse)
qed

lemma revoked_device_cannot_write_witness:
  "let c2 = snd (serve_all demo_env demo_digest demo_app ''1.0'' [demo_request RouteListDevices] demo_conn2) in
    (\<exists>er c3. put_object demo_env 3 (demo_put None) c2 = (Inl er, c3) \<and> c_db c3 = c_db c2) \<and>
    (\<exists>er c3. delete_object demo_env 3 demo_delete c2 = (Inl er, c3) \<and> c_db c3 = c_db c2)"
  by (rule revoked_device_cannot_write [OF demo_codec demo_sim0 demo_revoke])
    (simp_all add: demo_device_def demo_delete_def)

definition presents_token :: "(bytes \<Rightarrow> bytes) \<Rightarrow> app_state \<Rightarrow> http_request \<Rightarrow> bool" where
  "presents_token sha256 st req \<longleftrightarrow>
     (\<exists>token. hr_authorization req = Some (''Bearer '' @ token) \<and>
        sha256 (bytes_of token) = app_token_digest st)"

lemma require_auth_iff: "require_auth sha256 st (hr_authorization req) = Inr () \<longleftrightarrow> presents_token sha256 st req"
  unfolding presents_token_def require_auth_def
  by (auto simp: andThen_Inr ok_or_Inr bind_eq_Some_conv strip_prefix_Some)

lemma require_auth_status: "require_auth sha256 st h = Inl er \<Longrightarrow> ae_status er = 401"
  by (auto simp: require_auth_def andThen_Inl ok_or_Inl api_error_new_def split: if_splits)

lemma require_protocol_status: "require_protocol h = Inl er \<Longrightarrow> ae_status er = 426"
  by (auto simp: require_protocol_def api_error_new_def split: option.splits if_splits)

lemma unit_result: "(r :: 'e + unit) \<noteq> Inr () \<Longrightarrow> \<exists>er. r = Inl er"
  by (cases r) auto

text \<open>C22. Authentication: a request that does not present a bearer token with the configured digest
  is answered 401 and runs no database call at all; one that does, without a supported protocol
  header, is answered 426 on every route but the version, also without any database call.\<close>

theorem unauthorized_request_refused:
  assumes "\<not> presents_token sha256 st req \<or>
    (hr_route req \<noteq> RouteVersion \<and> require_protocol (hr_protocol req) \<noteq> Inr ())"
  shows "\<exists>er. serve_request e sha256 st pkg req c = (Inl er, c) \<and>
     ae_status er = (if presents_token sha256 st req then 426 else 401)"
proof (cases "presents_token sha256 st req")
  case True
  with assms obtain er where "hr_route req \<noteq> RouteVersion" "require_protocol (hr_protocol req) = Inl er"
    using unit_result by blast
  with True require_protocol_status require_auth_iff [of sha256 st req] show ?thesis
    by (simp add: serve_request_def bindS_def liftS_def)
next
  case False
  then obtain er where "require_auth sha256 st (hr_authorization req) = Inl er"
    using require_auth_iff unit_result by metis
  with False require_auth_status show ?thesis by (simp add: serve_request_def bindS_def liftS_def)
qed

lemma unauthorized_request_refused_witness:
  "\<exists>er. serve_request demo_env demo_digest demo_app ''1.0''
      \<lparr>hr_authorization = Some ''Bearer guess'', hr_protocol = Some ''1'', hr_route = RouteListDevices\<rparr> demo_conn0 =
      (Inl er, demo_conn0) \<and> ae_status er = 401"
proof -
  have "\<not> presents_token demo_digest demo_app
      \<lparr>hr_authorization = Some ''Bearer guess'', hr_protocol = Some ''1'', hr_route = RouteListDevices\<rparr>"
    by (auto simp: presents_token_def demo_digest_def demo_app_def app_state_new_def token_digest_def
        bytes_of_def code_of_def)
  with unauthorized_request_refused [OF disjI1 [OF this], of demo_env "''1.0''" demo_conn0]
  show ?thesis by simp
qed

text \<open>Registration is idempotent: repeating a registration that succeeded, with no database
  fault, answers 200 with the same device and changes nothing; a device id is never registered
  twice under another name.\<close>

theorem register_idempotent:
  assumes codec: "codec_ok e" and nf: "no_faults e" and run: "register_device e req c = (Inr (code, v), c1)"
  shows "fst (register_device e req c1) = Inr (200, v) \<and> c_db (snd (register_device e req c1)) = c_db c1 \<and>
    (reg_id req2 = reg_id req \<and> rust_trim (reg_name req2) \<noteq> dev_name v \<longrightarrow>
       (\<exists>er. fst (register_device e req2 c1) = Inl er \<and> ae_status er \<in> {409, 422}) \<and>
       c_db (snd (register_device e req2 c1)) = c_db c1)"
proof -
  let ?i = "uuid_text e (device_uuid (reg_id req))" and ?name = "rust_trim (reg_name req)"
  have name: "?name \<noteq> []" "length ?name \<le> 128"
    using run by (auto simp: register_device_def Let_def result_simps split: if_splits)
  have "\<exists>row. find_row dr_id ?i (db_devices (c_db c1)) = Some row \<and> dr_name row = ?name \<and>
      dr_revoked_at row = None \<and> time_parse e (dr_created_at row) = Some (dev_created_at v) \<and>
      v = \<lparr>dev_id = reg_id req, dev_name = ?name, dev_created_at = dev_created_at v, dev_revoked_at = None\<rparr>"
  proof (cases "find_row dr_id ?i (db_devices (c_db c))")
    case None
    with run name codec_ok_time [OF codec] show ?thesis
      by (auto simp: register_device_def Let_def result_simps select_device_def timestamp_string_def
          insert_device_def row_simps)
  next
    case (Some row)
    with run name show ?thesis
      by (auto simp: register_device_def Let_def result_simps select_device_def parse_timestamp_def
          split: if_splits)
  qed
  then obtain row where row: "find_row dr_id ?i (db_devices (c_db c1)) = Some row" "dr_name row = ?name"
    "dr_revoked_at row = None" "time_parse e (dr_created_at row) = Some (dev_created_at v)"
    "v = \<lparr>dev_id = reg_id req, dev_name = ?name, dev_created_at = dev_created_at v, dev_revoked_at = None\<rparr>"
    by blast
  have "register_device e req c1 = (Inr (200, v), c1\<lparr>c_tick := Suc (c_tick c1)\<rparr>)"
    using name row nf
    by (simp add: register_device_def Let_def bindS_def liftS_def sql_def no_faults_def select_device_def
        parse_timestamp_def)
  moreover have "fst (register_device e req2 c1) \<in>
      {Inl (api_error_new 422 ''invalid_device_name'' ''device name must contain between 1 and 128 characters''),
       Inl (api_error_new 409 ''device_exists''
         ''a device with this ID is already registered with different or revoked metadata'')} \<and>
      c_db (snd (register_device e req2 c1)) = c_db c1"
    if "reg_id req2 = reg_id req" "rust_trim (reg_name req2) \<noteq> dev_name v"
  proof -
    have "rust_trim (reg_name req2) \<noteq> dr_name row" using that(2) row(2,5) by (metis device.select_convs(2))
    then show ?thesis
      using that(1) row(1) nf
      by (auto simp: register_device_def Let_def bindS_def liftS_def sql_def no_faults_def select_device_def)
  qed
  ultimately show ?thesis by (fastforce simp: api_error_new_def)
qed

lemma register_idempotent_witness:
  "\<exists>v c1. register_device demo_env \<lparr>reg_id = DeviceId 9, reg_name = ''pc''\<rparr> demo_conn0 = (Inr (201, v), c1) \<and>
     fst (register_device demo_env \<lparr>reg_id = DeviceId 9, reg_name = ''pc''\<rparr> c1) = Inr (200, v)"
proof -
  have "rust_trim ''pc'' = ''pc''" by (rule rust_trim_plain) (simp_all add: code_of_def)
  then have "\<exists>v c1. register_device demo_env \<lparr>reg_id = DeviceId 9, reg_name = ''pc''\<rparr> demo_conn0 = (Inr (201, v), c1)"
    by (simp add: register_device_def Let_def bindS_def now_utc_def liftS_def returnS_def timestamp_string_def
        sql_def select_device_def insert_device_def insert_row_def demo_conn0_def demo_conn_def demo_row_def
        empty_database_def find_row_Cons)
  then show ?thesis using register_idempotent [OF demo_codec demo_no_faults] by blast
qed

end
