(* ===== verification/Bookmarks.thy ===== *)
theory Bookmarks
  imports Wire
begin

text \<open>
  Bookmark snapshots of \<open>helium-sync-profile/src/lib.rs\<close>: the canonical tree, its
  conversion from and to Chromium's \<open>Bookmarks\<close> file, the statistics, and the three-way merge.
  A child is found by its id as the code's \<open>BTreeMap\<close> of the siblings finds it (the last of
  equal ids). The functions that take \<open>&mut conflicts\<close> return the number of conflicts they
  add beside their result.
\<close>

section \<open>Snapshots\<close>

datatype bookmark_node =
    Folder (folder_id: string) (folder_name: string) (folder_added: "string option")
      (folder_modified: "string option") (folder_children: "bookmark_node list")
  | Url (url_id: string) (url_name: string) (url_url: string) (url_added: "string option")

record bookmark_root =
  root_key :: string
  root_node :: bookmark_node

record bookmark_snapshot =
  bs_format :: string
  bs_source_browser :: string
  bs_profile_directory :: string
  bs_chromium_version :: u64
  bs_roots :: "bookmark_root list"

datatype profile_error =
    NotFound
  | ReadError string
  | ParseError string
  | Changing string
  | UnsupportedNodeType string
  | UnsafeRestore string
  | ArchiveError string string
  | WriteError string
  | ProfileMismatch string string
  | IncompatibleSnapshot string
  | InvalidProfileName string
  | InvalidExtensionArchive string

fun node_id :: "bookmark_node \<Rightarrow> string" where
  "node_id (Folder i name added modified children) = i"
| "node_id (Url i name url added) = i"

section \<open>Statistics\<close>

fun count_nodes :: "bookmark_node \<Rightarrow> nat \<times> nat" where
  "count_nodes (Folder i name added modified children) =
     (let counts = map count_nodes children
      in (sum_list (map fst counts), Suc (sum_list (map snd counts))))"
| "count_nodes (Url i name url added) = (1, 0)"

record bookmark_stats_record =
  stat_bookmarks :: nat
  stat_folders :: nat
  stat_bytes :: nat

text \<open>\<open>json_len\<close> is the length of the snapshot's JSON text, \<open>None\<close> when it cannot be
  serialized.\<close>

definition bookmark_stats ::
  "(bookmark_snapshot \<Rightarrow> nat option) \<Rightarrow> bookmark_snapshot \<Rightarrow> bookmark_stats_record" where
  "bookmark_stats json_len s =
     (let counts = map (\<lambda>root. count_nodes (root_node root)) (bs_roots s)
      in \<lparr>stat_bookmarks = sum_list (map fst counts), stat_folders = sum_list (map snd counts),
          stat_bytes = (case json_len s of None \<Rightarrow> 0 | Some n \<Rightarrow> min n (2 ^ 64 - 1))\<rparr>)"

section \<open>The three-way merge\<close>

definition node_lookup :: "bookmark_node list \<Rightarrow> string \<Rightarrow> bookmark_node option" where
  "node_lookup nodes i = map_of (rev (map (\<lambda>n. (node_id n, n)) nodes)) i"

definition base_lookup :: "bookmark_node list option \<Rightarrow> string \<Rightarrow> bookmark_node option" where
  "base_lookup base i = (case base of None \<Rightarrow> None | Some nodes \<Rightarrow> node_lookup nodes i)"

text \<open>The first occurrences of a list, as the \<open>BTreeSet\<close> \<open>seen\<close> selects them.\<close>

fun first_seen :: "'a list \<Rightarrow> 'a list \<Rightarrow> 'a list" where
  "first_seen seen [] = []"
| "first_seen seen (x # xs) =
     (if x \<in> set seen then first_seen seen xs else x # first_seen (x # seen) xs)"

definition merge_value :: "'a option \<Rightarrow> 'a \<Rightarrow> 'a \<Rightarrow> 'a \<times> nat" where
  "merge_value base l r =
     (if l = r then (l, 0)
      else if Some l = base then (r, 0)
      else if Some r = base then (l, 0)
      else (r, 1))"

definition child_ids ::
  "bookmark_node list option \<Rightarrow> bookmark_node list \<Rightarrow> bookmark_node list \<Rightarrow> string list" where
  "child_ids base l r =
     first_seen [] (map node_id (r @ l @ (case base of None \<Rightarrow> [] | Some nodes \<Rightarrow> nodes)))"

definition option_size :: "bookmark_node option \<Rightarrow> nat" where
  "option_size n = (case n of None \<Rightarrow> 0 | Some x \<Rightarrow> size x)"

lemma node_lookup_in: "node_lookup nodes i = Some n \<Longrightarrow> n \<in> set nodes \<and> node_id n = i"
  unfolding node_lookup_def by (auto dest!: map_of_SomeD)

lemma option_size_lookup: "option_size (node_lookup nodes i) \<le> size_list size nodes"
proof (cases "node_lookup nodes i")
  case (Some n)
  then have "n \<in> set nodes" using node_lookup_in by fast
  then show ?thesis by (simp add: Some option_size_def size_list_estimation')
qed (simp add: option_size_def)

lemma lookup_sizes:
  "(case node_lookup l i of None \<Rightarrow> 0 | Some n \<Rightarrow> size n) + (case node_lookup r i of None \<Rightarrow> 0 | Some n \<Rightarrow> size n)
     \<le> size_list size l + size_list size r"
  using option_size_lookup [of l i] option_size_lookup [of r i]
  by (simp add: option_size_def add_mono)

function (sequential)
  merge_optional_node ::
    "bookmark_node option \<Rightarrow> bookmark_node option \<Rightarrow> bookmark_node option \<Rightarrow> bookmark_node option \<times> nat" and
  merge_present_node :: "bookmark_node option \<Rightarrow> bookmark_node \<Rightarrow> bookmark_node \<Rightarrow> bookmark_node \<times> nat" and
  merge_children ::
    "bookmark_node list option \<Rightarrow> bookmark_node list \<Rightarrow> bookmark_node list \<Rightarrow> bookmark_node list \<times> nat"
where
  "merge_optional_node base l r =
     (if l = r then (l, 0)
      else if l = base then (r, 0)
      else if r = base then (l, 0)
      else (case (l, r) of
              (Some ln, Some rn) \<Rightarrow> (let (n, k) = merge_present_node base ln rn in (Some n, k))
            | (None, Some rn) \<Rightarrow> if base = None then (None, 0) else (Some rn, 1)
            | (Some ln, None) \<Rightarrow> if base = None then (None, 0) else (Some ln, 1)
            | (None, None) \<Rightarrow> (None, 0)))"
| "merge_present_node base (Folder li lname ladded lmodified lchildren)
       (Folder ri rname radded rmodified rchildren) =
     (if li = ri
      then (let b = (case base of
                       Some (Folder bi bname badded bmodified bchildren) \<Rightarrow>
                         if bi = li then Some (bname, badded, bmodified, bchildren) else None
                     | _ \<Rightarrow> None);
                (name, k1) = merge_value (map_option fst b) lname rname;
                (added, k2) = merge_value (map_option (fst \<circ> snd) b) ladded radded;
                (modified, k3) = merge_value (map_option (fst \<circ> snd \<circ> snd) b) lmodified rmodified;
                (children, k4) = merge_children (map_option (snd \<circ> snd \<circ> snd) b) lchildren rchildren
            in (Folder li name added modified children, k1 + k2 + k3 + k4))
      else (Folder ri rname radded rmodified rchildren, 1))"
| "merge_present_node base (Url li lname lurl ladded) (Url ri rname rurl radded) =
     (if li = ri
      then (let b = (case base of
                       Some (Url bi bname burl badded) \<Rightarrow>
                         if bi = li then Some (bname, burl, badded) else None
                     | _ \<Rightarrow> None);
                (name, k1) = merge_value (map_option fst b) lname rname;
                (url, k2) = merge_value (map_option (fst \<circ> snd) b) lurl rurl;
                (added, k3) = merge_value (map_option (snd \<circ> snd) b) ladded radded
            in (Url li name url added, k1 + k2 + k3))
      else (Url ri rname rurl radded, 1))"
| "merge_present_node base ln rn = (rn, 1)"
| "merge_children base l r =
     (let merged = map (\<lambda>i. merge_optional_node (base_lookup base i) (node_lookup l i) (node_lookup r i))
                     (child_ids base l r)
      in (List.map_filter fst merged, sum_list (map snd merged)))"
  by pat_completeness auto
termination
proof (relation "inv_image (less_than <*lex*> less_than)
    (case_sum (\<lambda>(b, l, r). (option_size l + option_size r, 1 :: nat))
      (case_sum (\<lambda>(b, l, r). (size l + size r, 0)) (\<lambda>(b, l, r). (size_list size l + size_list size r, 2))))")
qed (auto simp: option_size_def intro: le_neq_implies_less [OF lookup_sizes])

declare merge_optional_node.simps [simp del] merge_children.simps [simp del]

definition validate_merge_pair :: "bookmark_snapshot \<Rightarrow> bookmark_snapshot \<Rightarrow> profile_error + unit" where
  "validate_merge_pair left right =
     (if bs_format left \<noteq> bs_format right \<or> bs_source_browser left \<noteq> bs_source_browser right
         \<or> bs_profile_directory left \<noteq> bs_profile_directory right
      then Inl (IncompatibleSnapshot
             (bs_format left @ '':'' @ bs_source_browser left @ '':'' @ bs_profile_directory left
              @ '' does not match ''
              @ bs_format right @ '':'' @ bs_source_browser right @ '':'' @ bs_profile_directory right))
      else Inr ())"

definition roots_map :: "bookmark_root list \<Rightarrow> string \<Rightarrow> bookmark_node option" where
  "roots_map roots key = map_of (rev (map (\<lambda>r. (root_key r, root_node r)) roots)) key"

record merge_result =
  mr_snapshot :: bookmark_snapshot
  mr_conflicts :: nat

definition merge_root_keys ::
  "bookmark_snapshot option \<Rightarrow> bookmark_snapshot \<Rightarrow> bookmark_snapshot \<Rightarrow> string list" where
  "merge_root_keys base local remote =
     first_seen [] (map root_key (bs_roots remote @ bs_roots local @
       (case base of None \<Rightarrow> [] | Some b \<Rightarrow> bs_roots b)))"

definition merge_roots ::
  "bookmark_snapshot option \<Rightarrow> bookmark_snapshot \<Rightarrow> bookmark_snapshot \<Rightarrow> bookmark_root list \<times> nat" where
  "merge_roots base local remote =
     (let merged = map (\<lambda>key. (key, merge_optional_node
                      (case base of None \<Rightarrow> None | Some b \<Rightarrow> roots_map (bs_roots b) key)
                      (roots_map (bs_roots local) key) (roots_map (bs_roots remote) key)))
                     (merge_root_keys base local remote)
      in (List.map_filter (\<lambda>(key, m). map_option (\<lambda>node. \<lparr>root_key = key, root_node = node\<rparr>) (fst m)) merged,
          sum_list (map (\<lambda>(key, m). snd m) merged)))"

definition merge_bookmarks ::
  "bookmark_snapshot option \<Rightarrow> bookmark_snapshot \<Rightarrow> bookmark_snapshot \<Rightarrow> profile_error + merge_result" where
  "merge_bookmarks base local remote =
     andThen (validate_merge_pair local remote) (\<lambda>_.
     andThen (case base of None \<Rightarrow> Inr () | Some b \<Rightarrow> validate_merge_pair b local) (\<lambda>_.
       let (roots, conflicts) = merge_roots base local remote
       in Inr \<lparr>mr_snapshot =
                 \<lparr>bs_format = bs_format remote, bs_source_browser = bs_source_browser remote,
                  bs_profile_directory = bs_profile_directory remote,
                  bs_chromium_version = max (bs_chromium_version local) (bs_chromium_version remote),
                  bs_roots = roots\<rparr>,
               mr_conflicts = conflicts\<rparr>))"

section \<open>Lookups in a merge\<close>

lemma first_seen_set: "set (first_seen seen xs) = set xs - set seen"
  by (induction seen xs rule: first_seen.induct) auto

lemma first_seen_distinct: "distinct (first_seen seen xs)"
  by (induction seen xs rule: first_seen.induct) (auto simp: first_seen_set)

lemma first_seen_id: "distinct xs \<Longrightarrow> set xs \<inter> set seen = {} \<Longrightarrow> first_seen seen xs = xs"
  by (induction seen xs rule: first_seen.induct) auto

lemma first_seen_append_subset: "set ys \<subseteq> set xs \<union> set seen \<Longrightarrow> first_seen seen (xs @ ys) = first_seen seen xs"
proof (induction xs arbitrary: seen)
  case Nil
  then show ?case by (induction ys) auto
qed auto

lemma merge_optional_same [simp]: "merge_optional_node base n n = (n, 0)"
  by (simp add: merge_optional_node.simps)

lemma merge_optional_local_base [simp]: "merge_optional_node base base r = (r, 0)"
  by (simp add: merge_optional_node.simps)

lemma merge_optional_remote_base [simp]: "merge_optional_node base l base = (l, 0)"
  by (simp add: merge_optional_node.simps)

lemma merge_present_id:
  "node_id ln = node_id rn \<Longrightarrow> node_id (fst (merge_present_node base ln rn)) = node_id rn"
  by (cases "(base, ln, rn)" rule: merge_present_node.cases) (auto simp: Let_def split: prod.splits)

lemma merge_optional_id:
  assumes "fst (merge_optional_node base l r) = Some n"
    and "\<And>x. l = Some x \<Longrightarrow> node_id x = i" and "\<And>x. r = Some x \<Longrightarrow> node_id x = i"
  shows "node_id n = i"
  using assms merge_present_id
  by (auto simp: merge_optional_node.simps split: if_splits option.splits prod.splits)
    (metis fst_conv)+

text \<open>Both sides absent stays absent: the last arm of the code's match is never taken otherwise.\<close>

lemma merge_optional_present:
  "fst (merge_optional_node base l r) \<noteq> None \<Longrightarrow> l \<noteq> None \<or> r \<noteq> None"
  by (auto simp: merge_optional_node.simps split: if_splits)

lemma node_lookup_None: "node_lookup nodes i = None \<longleftrightarrow> i \<notin> node_id ` set nodes"
  by (force simp: node_lookup_def map_of_eq_None_iff)

lemma node_lookup_Nil [simp]: "node_lookup [] i = None"
  by (simp add: node_lookup_def)

lemma map_of_map_filter:
  assumes "\<And>i n. f i = Some n \<Longrightarrow> key n = i"
  shows "distinct ids \<Longrightarrow> map_of (rev (map (\<lambda>n. (key n, g n)) (List.map_filter f ids))) i =
    (if i \<in> set ids then map_option g (f i) else None)"
proof (induction ids)
  case (Cons x ids)
  show ?case
  proof (cases "f x")
    case None
    with Cons show ?thesis by (auto simp: List.map_filter_simps)
  next
    case (Some n)
    with Cons assms show ?thesis
      by (auto simp: List.map_filter_simps map_add_def split: option.split)
  qed
qed (simp add: List.map_filter_simps)

lemma child_ids_set:
  "i \<notin> set (child_ids base l r) \<Longrightarrow>
     node_lookup r i = None \<and> node_lookup l i = None \<and> base_lookup base i = None"
  by (auto simp: child_ids_def first_seen_set node_lookup_None base_lookup_def split: option.splits)

lemma map_filter_map: "List.map_filter f (map g xs) = List.map_filter (\<lambda>x. f (g x)) xs"
  by (induction xs) (auto simp: List.map_filter_simps split: option.split)

text \<open>What a lookup finds among merged children.\<close>

lemma merge_children_lookup:
  "node_lookup (fst (merge_children base l r)) i =
     fst (merge_optional_node (base_lookup base i) (node_lookup l i) (node_lookup r i))"
proof -
  let ?f = "\<lambda>i. fst (merge_optional_node (base_lookup base i) (node_lookup l i) (node_lookup r i))"
  have id: "node_id n = i" if "?f i = Some n" for i n
    by (rule merge_optional_id [OF that]) (auto dest: node_lookup_in)
  have "node_lookup (List.map_filter ?f (child_ids base l r)) i =
      (if i \<in> set (child_ids base l r) then ?f i else None)"
    using map_of_map_filter [of ?f node_id "child_ids base l r" "\<lambda>n. n" i, OF id]
    by (simp add: node_lookup_def child_ids_def first_seen_distinct option.map_ident)
  moreover have "?f i = None" if "i \<notin> set (child_ids base l r)"
    using child_ids_set [OF that] by simp
  ultimately show ?thesis by (auto simp: merge_children.simps Let_def map_filter_map)
qed

lemma merge_children_ids_distinct: "distinct (map node_id (fst (merge_children base l r)))"
proof -
  let ?f = "\<lambda>i. fst (merge_optional_node (base_lookup base i) (node_lookup l i) (node_lookup r i))"
  have id: "node_id n = i" if "?f i = Some n" for i n
    by (rule merge_optional_id [OF that]) (auto dest: node_lookup_in)
  have "distinct ids \<Longrightarrow> distinct (map node_id (List.map_filter ?f ids)) \<and>
      set (map node_id (List.map_filter ?f ids)) \<subseteq> set ids" for ids
    using id by (induction ids) (auto simp: List.map_filter_simps split: option.split)
  then show ?thesis
    by (simp add: merge_children.simps Let_def map_filter_map child_ids_def first_seen_distinct)
qed

section \<open>Paths\<close>

fun node_at :: "bookmark_node option \<Rightarrow> string list \<Rightarrow> bookmark_node option" where
  "node_at n [] = n"
| "node_at (Some (Folder i name added modified children)) (k # path) = node_at (node_lookup children k) path"
| "node_at n (k # path) = None"

text \<open>\<open>shared l r path\<close>: every node strictly above the end of the path is a folder with the same
  id on both sides.\<close>

fun shared :: "bookmark_node option \<Rightarrow> bookmark_node option \<Rightarrow> string list \<Rightarrow> bool" where
  "shared l r [] \<longleftrightarrow> True"
| "shared (Some (Folder i lname ladded lmodified lchildren)) (Some (Folder j rname radded rmodified rchildren))
     (k # path) \<longleftrightarrow> i = j \<and> shared (node_lookup lchildren k) (node_lookup rchildren k) path"
| "shared l r (k # path) \<longleftrightarrow> False"

lemma node_at_Cons: "node_at n (k # path) =
    (case n of Some (Folder i name added modified children) \<Rightarrow> node_at (node_lookup children k) path | _ \<Rightarrow> None)"
  by (auto split: option.split bookmark_node.split)

lemma node_at_None [simp]: "node_at None path = None"
  by (cases path) auto

lemma merge_at_path:
  assumes "shared l r path" and "base = None \<or> l = None \<or> map_option node_id base = map_option node_id l"
  shows "node_at (fst (merge_optional_node base l r)) path =
    fst (merge_optional_node (node_at base path) (node_at l path) (node_at r path))"
  using assms
proof (induction l r path arbitrary: base rule: shared.induct)
  case (2 i lname ladded lmodified lchildren j rname radded rmodified rchildren k path)
  let ?l = "Folder i lname ladded lmodified lchildren" and ?r = "Folder j rname radded rmodified rchildren"
  consider "?l = ?r" | "Some ?l = base" | "Some ?r = base" |
    (differ) "?l \<noteq> ?r" "Some ?l \<noteq> base" "Some ?r \<noteq> base" by blast
  then show ?case
  proof cases
    case differ
    define b where "b = (case base of
        Some (Folder bi bname badded bmodified bchildren) \<Rightarrow> Some bchildren | _ \<Rightarrow> None)"
    have "node_at (fst (merge_optional_node base (Some ?l) (Some ?r))) (k # path) =
        node_at (node_lookup (fst (merge_children b lchildren rchildren)) k) path"
      using differ 2(2,3) unfolding b_def
      by (auto simp: merge_optional_node.simps [of base] Let_def split: prod.splits option.splits
          bookmark_node.splits)
    also have "\<dots> = fst (merge_optional_node (node_at (base_lookup b k) path)
        (node_at (node_lookup lchildren k) path) (node_at (node_lookup rchildren k) path))"
      unfolding merge_children_lookup
    proof (rule "2.IH")
      show "shared (node_lookup lchildren k) (node_lookup rchildren k) path" using 2(2) by simp
      show "base_lookup b k = None \<or> node_lookup lchildren k = None \<or>
          map_option node_id (base_lookup b k) = map_option node_id (node_lookup lchildren k)"
        by (cases "base_lookup b k"; cases "node_lookup lchildren k"; cases b)
          (auto simp: base_lookup_def dest: node_lookup_in)
    qed
    also have "node_at (base_lookup b k) path = node_at base (k # path)"
      unfolding b_def by (auto simp: base_lookup_def split: option.split bookmark_node.split)
    finally show ?thesis by simp
  qed auto
qed auto

end
