(* ===== verification/BookmarkFile.thy ===== *)
theory BookmarkFile
  imports Bookmarks
begin

text \<open>
  Chromium's \<open>Bookmarks\<close> file: the JSON that \<open>chromium_bookmarks_json\<close> builds, the raw tree
  serde's derived deserializers read, its canonicalization by \<open>convert_node\<close> and the reading
  loop of \<open>read_bookmarks\<close>. JSON text is a parameter (\<open>to_text\<close>, \<open>of_text\<close>: the crate
  \<open>serde_json\<close>); \<open>json_codec\<close> states that printed values parse back. Keyed collections are
  \<open>BTreeMap\<close>s: association lists sorted by key.
\<close>

section \<open>Sorted association lists\<close>

fun btree_insert :: "'k :: linorder \<Rightarrow> 'v \<Rightarrow> ('k \<times> 'v) list \<Rightarrow> ('k \<times> 'v) list" where
  "btree_insert k v [] = [(k, v)]"
| "btree_insert k v ((k', v') # rest) =
     (if k < k' then (k, v) # (k', v') # rest
      else if k = k' then (k, v) # rest
      else (k', v') # btree_insert k v rest)"

definition btree_collect :: "('k :: linorder \<times> 'v) list \<Rightarrow> ('k \<times> 'v) list" where
  "btree_collect xs = fold (\<lambda>(k, v). btree_insert k v) xs []"

abbreviation btree_ok :: "('k :: linorder \<times> 'v) list \<Rightarrow> bool" where
  "btree_ok xs \<equiv> sorted_wrt (<) (map fst xs)"

lemma btree_insert_keys: "fst ` set (btree_insert k v xs) = insert k (fst ` set xs)"
  by (induction k v xs rule: btree_insert.induct) auto

lemma btree_insert_ok: "btree_ok xs \<Longrightarrow> btree_ok (btree_insert k v xs)"
proof (induction k v xs rule: btree_insert.induct)
  case (2 k v k' v' rest)
  have "\<forall>x \<in> set (map fst (btree_insert k v rest)). k' < x" if "k' < k"
    using that 2(2) btree_insert_keys [of k v rest] by auto
  with 2 show ?case by auto
qed simp

lemma btree_insert_lookup:
  "btree_ok xs \<Longrightarrow> map_of (btree_insert k v xs) = (map_of xs)(k \<mapsto> v)"
proof (induction k v xs rule: btree_insert.induct)
  case (2 k v k' v' rest)
  then show ?case by (auto simp: fun_eq_iff)
qed simp

lemma btree_collect_snoc: "btree_collect (xs @ [(k, v)]) = btree_insert k v (btree_collect xs)"
  by (simp add: btree_collect_def)

lemma btree_collect_ok: "btree_ok (btree_collect xs)"
  by (induction xs rule: rev_induct) (auto simp: btree_collect_snoc btree_insert_ok btree_collect_def)

lemma btree_collect_lookup: "map_of (btree_collect xs) = map_of (rev xs)"
proof (induction xs rule: rev_induct)
  case (snoc x xs)
  then show ?case
    by (cases x) (simp add: btree_collect_snoc btree_insert_lookup btree_collect_ok)
qed (simp add: btree_collect_def)

lemma btree_insert_last: "(\<And>x. x \<in> fst ` set xs \<Longrightarrow> x < k) \<Longrightarrow> btree_insert k v xs = xs @ [(k, v)]"
  by (induction k v xs rule: btree_insert.induct) force+

lemma btree_collect_id: "btree_ok xs \<Longrightarrow> btree_collect xs = xs"
proof (induction xs rule: rev_induct)
  case (snoc x xs)
  then have "btree_insert (fst x) (snd x) xs = xs @ [x]"
    by (subst btree_insert_last) (auto simp: sorted_wrt_append)
  with snoc show ?case
    by (cases x) (simp add: btree_collect_snoc sorted_wrt_append)
qed (simp add: btree_collect_def)

section \<open>JSON values\<close>

datatype json =
    JNull
  | JNum u64
  | JStr string
  | JArr "json list"
  | JObj "(string \<times> json) list"

definition opt_json :: "string option \<Rightarrow> json" where
  "opt_json s = (case s of None \<Rightarrow> JNull | Some v \<Rightarrow> JStr v)"

text \<open>The derived \<open>Serialize\<close> of \<open>BookmarkNode\<close>, tagged by \<open>type\<close>.\<close>

fun node_json :: "bookmark_node \<Rightarrow> json" where
  "node_json (Folder i name added modified children) =
     JObj [(''type'', JStr ''folder''), (''id'', JStr i), (''name'', JStr name),
           (''date_added'', opt_json added), (''date_modified'', opt_json modified),
           (''children'', JArr (map node_json children))]"
| "node_json (Url i name url added) =
     JObj [(''type'', JStr ''url''), (''id'', JStr i), (''name'', JStr name), (''url'', JStr url),
           (''date_added'', opt_json added)]"

text \<open>\<open>serde_json::Map\<close> is a \<open>BTreeMap\<close>.\<close>

definition chromium_bookmarks_value :: "bookmark_snapshot \<Rightarrow> json" where
  "chromium_bookmarks_value s =
     JObj [(''roots'', JObj (btree_collect (map (\<lambda>r. (root_key r, node_json (root_node r))) (bs_roots s)))),
           (''version'', JNum (bs_chromium_version s))]"

definition chromium_bookmarks_json ::
  "(json \<Rightarrow> bytes) \<Rightarrow> bookmark_snapshot \<Rightarrow> bytes" where
  "chromium_bookmarks_json to_text s = to_text (chromium_bookmarks_value s)"

section \<open>The raw tree\<close>

datatype raw_node =
  RawNode (raw_id: string) (raw_name: string) (raw_kind: string) (raw_url: "string option")
    (raw_added: "string option") (raw_modified: "string option") (raw_children: "raw_node list")

record raw_bookmarks =
  raw_version :: u64
  raw_roots :: "(string \<times> raw_node) list"

text \<open>The derived \<open>Deserialize\<close>: unknown fields are ignored, a repeated field is an error, a
  \<open>default\<close> field may be missing, an \<open>Option\<close> may also be null.\<close>

definition json_field :: "string \<Rightarrow> (string \<times> json) list \<Rightarrow> json list" where
  "json_field k fs = map snd (filter (\<lambda>f. fst f = k) fs)"

definition req_string :: "string \<Rightarrow> (string \<times> json) list \<Rightarrow> unit + string" where
  "req_string k fs = (case json_field k fs of [JStr s] \<Rightarrow> Inr s | _ \<Rightarrow> Inl ())"

definition opt_string :: "string \<Rightarrow> (string \<times> json) list \<Rightarrow> unit + string option" where
  "opt_string k fs =
     (case json_field k fs of
        [] \<Rightarrow> Inr None
      | [JNull] \<Rightarrow> Inr None
      | [JStr s] \<Rightarrow> Inr (Some s)
      | _ \<Rightarrow> Inl ())"

definition array_field :: "string \<Rightarrow> (string \<times> json) list \<Rightarrow> unit + json list" where
  "array_field k fs =
     (case json_field k fs of [] \<Rightarrow> Inr [] | [JArr js] \<Rightarrow> Inr js | _ \<Rightarrow> Inl ())"

lemma elem_size: "x \<in> set xs \<Longrightarrow> f x \<le> size_list f xs"
  by (rule size_list_estimation' [OF _ order_refl])

lemma json_field_size:
  assumes "j \<in> set (json_field k fs)"
  shows "size j < size (JObj fs)"
proof -
  from assms have "(k, j) \<in> set fs" by (auto simp: json_field_def)
  from elem_size [OF this, of "size_prod (\<lambda>x. 0) size"] show ?thesis by simp
qed

lemma array_field_size: "array_field k fs = Inr js \<Longrightarrow> j \<in> set js \<Longrightarrow> size j < size (JObj fs)"
proof -
  assume a: "array_field k fs = Inr js" and j: "j \<in> set js"
  from a j have "JArr js \<in> set (json_field k fs)"
    by (auto simp: array_field_def split: list.splits json.splits)
  from json_field_size [OF this] have "size (JArr js) < size (JObj fs)" .
  moreover have "size j < size (JArr js)" using elem_size [OF j, of size] by simp
  ultimately show ?thesis by (rule less_trans [rotated])
qed

function (sequential) raw_of_json :: "json \<Rightarrow> unit + raw_node" where
  "raw_of_json (JObj fs) =
     andThen (req_string ''id'' fs) (\<lambda>i.
     andThen (req_string ''name'' fs) (\<lambda>name.
     andThen (req_string ''type'' fs) (\<lambda>kind.
     andThen (opt_string ''url'' fs) (\<lambda>url.
     andThen (opt_string ''date_added'' fs) (\<lambda>added.
     andThen (opt_string ''date_modified'' fs) (\<lambda>modified.
     andThen (array_field ''children'' fs) (\<lambda>js.
     andThen (collect_results raw_of_json js) (\<lambda>children.
     Inr (RawNode i name kind url added modified children)))))))))"
| "raw_of_json j = Inl ()"
  by pat_completeness auto
termination
  by (relation "measure size") (auto dest: array_field_size)

definition raw_root :: "string \<times> json \<Rightarrow> unit + string \<times> raw_node" where
  "raw_root f = andThen (raw_of_json (snd f)) (\<lambda>n. Inr (fst f, n))"

fun raw_bookmarks_of_json :: "json \<Rightarrow> unit + raw_bookmarks" where
  "raw_bookmarks_of_json (JObj fs) =
     andThen (case json_field ''version'' fs of [] \<Rightarrow> Inr 0 | [JNum n] \<Rightarrow> Inr n | _ \<Rightarrow> Inl ()) (\<lambda>v.
     andThen (case json_field ''roots'' fs of [JObj rs] \<Rightarrow> collect_results raw_root rs | _ \<Rightarrow> Inl ())
       (\<lambda>roots. Inr \<lparr>raw_version = v, raw_roots = btree_collect roots\<rparr>))"
| "raw_bookmarks_of_json j = Inl ()"

function (sequential) convert_node :: "raw_node \<Rightarrow> profile_error + bookmark_node" where
  "convert_node (RawNode i name kind url added modified children) =
     (if kind = ''folder''
      then andThen (collect_results convert_node children) (\<lambda>nodes.
             Inr (Folder i name added modified nodes))
      else if kind = ''url''
      then andThen (ok_or (UnsupportedNodeType ''url node without URL'') url) (\<lambda>u.
             Inr (Url i name u added))
      else Inl (UnsupportedNodeType kind))"
  by pat_completeness auto
termination
  by (relation "measure size") (auto simp: elem_size less_Suc_eq_le)

definition convert_root :: "string \<times> raw_node \<Rightarrow> profile_error + bookmark_root" where
  "convert_root f = andThen (convert_node (snd f)) (\<lambda>n. Inr \<lparr>root_key = fst f, root_node = n\<rparr>)"

section \<open>Reading\<close>

text \<open>What one attempt observes: the metadata before, the bytes and the metadata after, each
  \<open>None\<close> when the call fails.\<close>

record file_meta =
  fm_len :: nat
  fm_modified :: "nat option"

record read_attempt =
  ra_before :: "file_meta option"
  ra_bytes :: "bytes option"
  ra_after :: "file_meta option"

definition snapshot_of_bytes ::
  "(bytes \<Rightarrow> json option) \<Rightarrow> string \<Rightarrow> string \<Rightarrow> bytes \<Rightarrow> profile_error + bookmark_snapshot" where
  "snapshot_of_bytes of_text path dir b =
     andThen (ok_or (ParseError path) (of_text b)) (\<lambda>j.
     andThen (map_err (\<lambda>_. ParseError path) (raw_bookmarks_of_json j)) (\<lambda>raw.
     andThen (collect_results convert_root (raw_roots raw)) (\<lambda>roots.
     Inr \<lparr>bs_format = ''helium-bookmarks-v1'', bs_source_browser = ''helium'',
          bs_profile_directory = dir, bs_chromium_version = raw_version raw, bs_roots = roots\<rparr>)))"

text \<open>The loop over the attempts left; a file that changes on the last one is an error.\<close>

fun read_attempts ::
  "(bytes \<Rightarrow> json option) \<Rightarrow> string \<Rightarrow> string \<Rightarrow> read_attempt list \<Rightarrow> profile_error + bookmark_snapshot" where
  "read_attempts of_text path dir [] = Inl (Changing path)"
| "read_attempts of_text path dir (a # rest) =
     andThen (ok_or (ReadError path) (ra_before a)) (\<lambda>before.
     andThen (ok_or (ReadError path) (ra_bytes a)) (\<lambda>b.
     andThen (ok_or (ReadError path) (ra_after a)) (\<lambda>after.
       if fm_len before \<noteq> fm_len after \<or> fm_modified before \<noteq> fm_modified after
       then read_attempts of_text path dir rest
       else snapshot_of_bytes of_text path dir b)))"

definition read_bookmarks ::
  "(bytes \<Rightarrow> json option) \<Rightarrow> string \<Rightarrow> string \<Rightarrow> read_attempt \<Rightarrow> read_attempt \<Rightarrow> profile_error + bookmark_snapshot" where
  "read_bookmarks of_text path dir first second = read_attempts of_text path dir [first, second]"

section \<open>Round trips\<close>

definition json_codec :: "(json \<Rightarrow> bytes) \<Rightarrow> (bytes \<Rightarrow> json option) \<Rightarrow> json \<Rightarrow> bool" where
  "json_codec to_text of_text j \<longleftrightarrow> of_text (to_text j) = Some j"

fun raw_of_node :: "bookmark_node \<Rightarrow> raw_node" where
  "raw_of_node (Folder i name added modified children) =
     RawNode i name ''folder'' None added modified (map raw_of_node children)"
| "raw_of_node (Url i name url added) = RawNode i name ''url'' (Some url) added None []"

lemma raw_of_node_json: "raw_of_json (node_json n) = Inr (raw_of_node n)"
proof (induction n)
  case (Folder i name added modified children)
  then have "collect_results raw_of_json (map node_json children) = Inr (map raw_of_node children)"
    by (auto simp: collect_results_Inr list_all2_map1 list_all2_map2 list_all2_same)
  then show ?case
    by (cases added; cases modified)
      (simp_all add: req_string_def opt_string_def array_field_def json_field_def opt_json_def)
next
  case (Url i name url added)
  then show ?case
    by (cases added)
      (simp_all add: req_string_def opt_string_def array_field_def json_field_def opt_json_def)
qed

lemma convert_raw_of_node: "convert_node (raw_of_node n) = Inr n"
proof (induction n)
  case (Folder i name added modified children)
  then have "collect_results convert_node (map raw_of_node children) = Inr children"
    by (auto simp: collect_results_Inr list_all2_map1 list_all2_same)
  then show ?case by simp
qed simp

definition canonical :: "bookmark_snapshot \<Rightarrow> bool" where
  "canonical s \<longleftrightarrow> bs_format s = ''helium-bookmarks-v1'' \<and> bs_source_browser s = ''helium'' \<and>
     distinct (map root_key (bs_roots s))"

definition sort_roots :: "bookmark_snapshot \<Rightarrow> bookmark_snapshot" where
  "sort_roots s = s\<lparr>bs_roots := map (\<lambda>(k, n). \<lparr>root_key = k, root_node = n\<rparr>)
     (btree_collect (map (\<lambda>r. (root_key r, root_node r)) (bs_roots s)))\<rparr>"

lemma btree_insert_map: "btree_insert k (f v) (map (\<lambda>(a, b). (a, f b)) xs) = map (\<lambda>(a, b). (a, f b)) (btree_insert k v xs)"
  by (induction k v xs rule: btree_insert.induct) auto

lemma btree_collect_map: "btree_collect (map (\<lambda>(a, b). (a, f b)) xs) = map (\<lambda>(a, b). (a, f b)) (btree_collect xs)"
  by (induction xs rule: rev_induct) (auto simp: btree_collect_snoc btree_insert_map split: prod.splits,
      simp add: btree_collect_def)

lemma roots_read_back:
  assumes "btree_ok rs"
  shows "andThen (collect_results raw_root (map (\<lambda>(k, n). (k, node_json n)) rs)) (\<lambda>roots.
     Inr (btree_collect roots)) = Inr (map (\<lambda>(k, n). (k, raw_of_node n)) rs)"
    and "collect_results convert_root (map (\<lambda>(k, n). (k, raw_of_node n)) rs) =
      Inr (map (\<lambda>(k, n). \<lparr>root_key = k, root_node = n\<rparr>) rs)"
proof -
  have "collect_results raw_root (map (\<lambda>(k, n). (k, node_json n)) rs) = Inr (map (\<lambda>(k, n). (k, raw_of_node n)) rs)"
    by (auto simp: collect_results_Inr list_all2_map1 list_all2_map2 list_all2_same raw_root_def raw_of_node_json)
  moreover have "btree_collect (map (\<lambda>(k, n). (k, raw_of_node n)) rs) = map (\<lambda>(k, n). (k, raw_of_node n)) rs"
    using btree_collect_map [of raw_of_node rs] btree_collect_id [OF assms] by simp
  ultimately show "andThen (collect_results raw_root (map (\<lambda>(k, n). (k, node_json n)) rs)) (\<lambda>roots.
     Inr (btree_collect roots)) = Inr (map (\<lambda>(k, n). (k, raw_of_node n)) rs)"
    by simp
  show "collect_results convert_root (map (\<lambda>(k, n). (k, raw_of_node n)) rs) =
      Inr (map (\<lambda>(k, n). \<lparr>root_key = k, root_node = n\<rparr>) rs)"
    by (auto simp: collect_results_Inr list_all2_map1 list_all2_map2 list_all2_same convert_root_def
        convert_raw_of_node)
qed

lemma snapshot_of_written:
  assumes "json_codec to_text of_text (chromium_bookmarks_value s)" and "canonical s"
  shows "snapshot_of_bytes of_text path (bs_profile_directory s) (chromium_bookmarks_json to_text s) =
    Inr (sort_roots s)"
proof -
  let ?rs = "btree_collect (map (\<lambda>r. (root_key r, root_node r)) (bs_roots s))"
  have "btree_collect (map (\<lambda>r. (root_key r, node_json (root_node r))) (bs_roots s)) =
      map (\<lambda>(k, n). (k, node_json n)) ?rs"
    using btree_collect_map [of node_json "map (\<lambda>r. (root_key r, root_node r)) (bs_roots s)"]
    by (simp add: comp_def)
  moreover obtain raws where raws: "collect_results raw_root (map (\<lambda>(k, n). (k, node_json n)) ?rs) = Inr raws"
    "btree_collect raws = map (\<lambda>(k, n). (k, raw_of_node n)) ?rs"
    using roots_read_back(1) [OF btree_collect_ok, of "map (\<lambda>r. (root_key r, root_node r)) (bs_roots s)"]
    by (auto simp: andThen_Inr)
  ultimately show ?thesis
    using assms roots_read_back(2) [OF btree_collect_ok, of "map (\<lambda>r. (root_key r, root_node r)) (bs_roots s)"]
    unfolding json_codec_def snapshot_of_bytes_def chromium_bookmarks_json_def
    by (simp add: chromium_bookmarks_value_def json_field_def canonical_def sort_roots_def)
qed

end
