(* ===== verification/BookmarkProps.thy ===== *)
theory BookmarkProps
  imports BookmarkFile
begin

text \<open>
  The properties of the bookmark merge and of the \<open>Bookmarks\<close> file: the merge decides every
  node by the same three-way rule wherever its parent is a folder on both sides, keeps sibling ids
  and root keys distinct, fast-forwards when one side did not change, and what a restore writes
  reads back with its roots sorted.
\<close>

section \<open>Roots\<close>

definition base_root :: "bookmark_snapshot option \<Rightarrow> string \<Rightarrow> bookmark_node option" where
  "base_root base key = (case base of None \<Rightarrow> None | Some b \<Rightarrow> roots_map (bs_roots b) key)"

lemma roots_map_None: "roots_map roots k = None \<longleftrightarrow> k \<notin> root_key ` set roots"
  by (force simp: roots_map_def map_of_eq_None_iff)

lemma roots_map_keys:
  "roots_map (bs_roots s) k \<noteq> None \<Longrightarrow> k \<in> set (map root_key (bs_roots s))"
  by (simp add: roots_map_None)

lemma merge_root_keys_other:
  "k \<notin> set (merge_root_keys base l r) \<Longrightarrow>
     roots_map (bs_roots l) k = None \<and> roots_map (bs_roots r) k = None \<and> base_root base k = None"
  by (auto simp: merge_root_keys_def first_seen_set roots_map_None base_root_def split: option.splits)

definition merged_root ::
  "bookmark_snapshot option \<Rightarrow> bookmark_snapshot \<Rightarrow> bookmark_snapshot \<Rightarrow> string \<Rightarrow> bookmark_node option" where
  "merged_root base l r k =
     fst (merge_optional_node (base_root base k) (roots_map (bs_roots l) k) (roots_map (bs_roots r) k))"

definition root_of :: "(string \<Rightarrow> bookmark_node option) \<Rightarrow> string \<Rightarrow> bookmark_root option" where
  "root_of f k = map_option (\<lambda>node. \<lparr>root_key = k, root_node = node\<rparr>) (f k)"

lemma merge_roots_fst:
  "fst (merge_roots base l r) = List.map_filter (root_of (merged_root base l r)) (merge_root_keys base l r)"
  unfolding merge_roots_def Let_def fst_conv map_filter_map root_of_def [abs_def] merged_root_def base_root_def
  by simp

lemma map_filter_root_of_keys:
  "distinct keys \<Longrightarrow> distinct (map root_key (List.map_filter (root_of f) keys)) \<and>
     root_key ` set (List.map_filter (root_of f) keys) \<subseteq> set keys"
  by (induction keys) (auto simp: List.map_filter_simps root_of_def split: option.split)

lemma merge_roots_lookup: "roots_map (fst (merge_roots base l r)) k = merged_root base l r k"
proof -
  have key: "root_of (merged_root base l r) i = Some n \<Longrightarrow> root_key n = i" for i n
    by (auto simp: root_of_def)
  have "roots_map (fst (merge_roots base l r)) k =
      (if k \<in> set (merge_root_keys base l r) then merged_root base l r k else None)"
    using map_of_map_filter [of "root_of (merged_root base l r)" root_key "merge_root_keys base l r" root_node k, OF key]
    by (simp add: roots_map_def merge_roots_fst merge_root_keys_def first_seen_distinct root_of_def
        option.map_comp comp_def option.map_ident)
  moreover have "merged_root base l r k = None" if "k \<notin> set (merge_root_keys base l r)"
    using merge_root_keys_other [OF that] by (simp add: merged_root_def)
  ultimately show ?thesis by auto
qed

lemma merge_bookmarks_Inr:
  "merge_bookmarks base l r = Inr m \<longleftrightarrow>
     validate_merge_pair l r = Inr () \<and>
     (case base of None \<Rightarrow> True | Some b \<Rightarrow> validate_merge_pair b l = Inr ()) \<and>
     m = \<lparr>mr_snapshot =
            \<lparr>bs_format = bs_format r, bs_source_browser = bs_source_browser r,
             bs_profile_directory = bs_profile_directory r,
             bs_chromium_version = max (bs_chromium_version l) (bs_chromium_version r),
             bs_roots = fst (merge_roots base l r)\<rparr>,
          mr_conflicts = snd (merge_roots base l r)\<rparr>"
  by (auto simp: merge_bookmarks_def andThen_Inr split: prod.splits option.splits)

lemma merge_bookmarks_root:
  "merge_bookmarks base l r = Inr m \<Longrightarrow> roots_map (bs_roots (mr_snapshot m)) k = merged_root base l r k"
  by (auto simp: merge_bookmarks_Inr merge_roots_lookup)

section \<open>Well-formed trees\<close>

fun wf_node :: "bookmark_node \<Rightarrow> bool" where
  "wf_node (Folder i name added modified children) \<longleftrightarrow>
     distinct (map node_id children) \<and> (\<forall>n \<in> set children. wf_node n)"
| "wf_node (Url i name url added) \<longleftrightarrow> True"

definition wf_snapshot :: "bookmark_snapshot \<Rightarrow> bool" where
  "wf_snapshot s \<longleftrightarrow> distinct (map root_key (bs_roots s)) \<and> (\<forall>r \<in> set (bs_roots s). wf_node (root_node r))"

lemma map_filter_set: "y \<in> set (List.map_filter f xs) \<longleftrightarrow> (\<exists>x \<in> set xs. f x = Some y)"
  by (force simp: List.map_filter_def)

lemma merge_wf:
  "(\<And>x. l = Some x \<Longrightarrow> wf_node x) \<Longrightarrow> (\<And>x. r = Some x \<Longrightarrow> wf_node x) \<Longrightarrow>
     fst (merge_optional_node base l r) = Some n \<Longrightarrow> wf_node n"
  "wf_node ln \<Longrightarrow> wf_node rn \<Longrightarrow> wf_node (fst (merge_present_node base ln rn))"
  "(\<forall>x \<in> set ls. wf_node x) \<Longrightarrow> (\<forall>x \<in> set rs. wf_node x) \<Longrightarrow>
     \<forall>x \<in> set (fst (merge_children bs ls rs)). wf_node x"
proof (induction base l r and base ln rn and bs ls rs arbitrary: n and n and n
    rule: merge_optional_node_merge_present_node_merge_children.induct)
  case (1 base l r)
  then show ?case
    by (auto simp: merge_optional_node.simps [of base l r] split: if_splits option.splits prod.splits)
next
  case (2 base li lname ladded lmodified lchildren ri rname radded rmodified rchildren)
  then show ?case
    by (auto simp: Let_def split: prod.splits) (metis fst_conv merge_children_ids_distinct)
next
  case (5 base ls rs)
  then show ?case
    by (auto simp: merge_children.simps [of base] Let_def map_filter_map map_filter_set)
      (metis node_lookup_in)
qed (auto simp: Let_def split: prod.splits)

lemma roots_map_in: "roots_map roots k = Some n \<Longrightarrow> \<exists>r \<in> set roots. root_key r = k \<and> root_node r = n"
  by (auto simp: roots_map_def dest!: map_of_SomeD)

lemma merge_bookmarks_wf:
  assumes "merge_bookmarks base l r = Inr m" and "wf_snapshot l" and "wf_snapshot r"
  shows "wf_snapshot (mr_snapshot m)"
proof -
  have roots: "bs_roots (mr_snapshot m) =
      List.map_filter (root_of (merged_root base l r)) (merge_root_keys base l r)"
    using assms(1) by (auto simp: merge_bookmarks_Inr merge_roots_fst)
  have keys: "distinct (map root_key (bs_roots (mr_snapshot m)))"
    unfolding roots using map_filter_root_of_keys by (simp add: merge_root_keys_def first_seen_distinct)
  have "wf_node (root_node x)" if "x \<in> set (bs_roots (mr_snapshot m))" for x
  proof -
    from that obtain k where "merged_root base l r k = Some (root_node x)"
      unfolding roots map_filter_set by (auto simp: root_of_def)
    then show ?thesis
      unfolding merged_root_def
      by (rule merge_wf(1) [rotated 2]) (use assms(2,3) in \<open>auto simp: wf_snapshot_def dest!: roots_map_in\<close>)
  qed
  with keys show ?thesis by (simp add: wf_snapshot_def)
qed

section \<open>Fast-forward\<close>

lemma map_filter_all: "(\<And>x. x \<in> set xs \<Longrightarrow> f x = Some (g x)) \<Longrightarrow> List.map_filter f xs = map g xs"
  by (induction xs) (auto simp: List.map_filter_simps)

lemma map_filter_append: "List.map_filter f (xs @ ys) = List.map_filter f xs @ List.map_filter f ys"
  by (simp add: List.map_filter_def)

lemma map_filter_none: "(\<And>x. x \<in> set xs \<Longrightarrow> f x = None) \<Longrightarrow> List.map_filter f xs = []"
  by (induction xs) (auto simp: List.map_filter_simps)

lemma roots_map_distinct:
  assumes "distinct (map root_key roots)" and "x \<in> set roots"
  shows "roots_map roots (root_key x) = Some (root_node x)"
proof -
  have "distinct (map fst (rev (map (\<lambda>r. (root_key r, root_node r)) roots)))"
    using assms(1) by (simp add: rev_map [symmetric] comp_def)
  then show ?thesis
    unfolding roots_map_def using assms(2) by (intro map_of_is_SomeI) auto
qed

lemma roots_of_map:
  assumes "distinct (map root_key roots)"
  shows "List.map_filter (root_of (roots_map roots)) (map root_key roots) = roots"
proof -
  have "List.map_filter (\<lambda>x. root_of (roots_map roots) (root_key x)) roots = map (\<lambda>x. x) roots"
    by (rule map_filter_all) (simp add: root_of_def roots_map_distinct [OF assms])
  then show ?thesis by (simp add: map_filter_map)
qed

lemma first_seen_split:
  assumes "distinct xs"
  shows "\<exists>zs. first_seen [] (xs @ ys) = xs @ zs \<and> set zs = set ys - set xs"
proof -
  have "first_seen seen (xs @ ys) = xs @ first_seen (rev xs @ seen) ys"
    if "set xs \<inter> set seen = {}" "distinct xs" for seen
    using that by (induction xs arbitrary: seen) auto
  with assms show ?thesis by (auto simp: first_seen_set)
qed

lemma merge_roots_fast_forward:
  assumes "distinct (map root_key (bs_roots r))"
    and "\<And>k. merged_root base l r k = roots_map (bs_roots r) k"
  shows "fst (merge_roots base l r) = bs_roots r"
proof -
  let ?ys = "map root_key (bs_roots l @ (case base of None \<Rightarrow> [] | Some b \<Rightarrow> bs_roots b))"
  obtain zs where "first_seen [] (map root_key (bs_roots r) @ ?ys) = map root_key (bs_roots r) @ zs"
    "set zs = set ?ys - set (map root_key (bs_roots r))"
    using first_seen_split [OF assms(1), of ?ys] by metis
  then have zs: "merge_root_keys base l r = map root_key (bs_roots r) @ zs"
    "\<And>k. k \<in> set zs \<Longrightarrow> k \<notin> root_key ` set (bs_roots r)"
    unfolding merge_root_keys_def map_append by simp_all
  have "List.map_filter (root_of (roots_map (bs_roots r))) zs = []"
    by (rule map_filter_none) (simp add: root_of_def roots_map_None zs(2))
  then show ?thesis
    unfolding merge_roots_fst assms(2) [abs_def] zs(1) map_filter_append
    by (simp add: roots_of_map [OF assms(1)])
qed

lemma merge_roots_no_conflicts:
  assumes "\<And>k. snd (merge_optional_node (base_root base k) (roots_map (bs_roots l) k) (roots_map (bs_roots r) k)) = 0"
  shows "snd (merge_roots base l r) = 0"
  using assms by (simp add: merge_roots_def Let_def base_root_def comp_def cong: map_cong)

section \<open>Properties\<close>

text \<open>C3. Three-way merge: in an accepted merge, at every path whose ancestors are folders with the
  same ids on both sides (and whose root the base also knows under that id), what the result holds
  is decided by that node alone: it is the other side's when one side left the base as it was, a
  node added on one side is kept, one deleted on one side and untouched on the other is gone, and
  one deleted on one side but modified on the other is kept as modified.\<close>

theorem merge_three_way:
  assumes ok: "merge_bookmarks base l r = Inr m"
    and sh: "shared (roots_map (bs_roots l) key) (roots_map (bs_roots r) key) path"
    and root: "base_root base key = None \<or> roots_map (bs_roots l) key = None \<or>
      map_option node_id (base_root base key) = map_option node_id (roots_map (bs_roots l) key)"
  shows "let B = node_at (base_root base key) path;
             L = node_at (roots_map (bs_roots l) key) path;
             R = node_at (roots_map (bs_roots r) key) path;
             M = node_at (roots_map (bs_roots (mr_snapshot m)) key) path
         in M = (if L = B then R
                 else if R = B then L
                 else (case (L, R) of
                         (None, _) \<Rightarrow> R
                       | (_, None) \<Rightarrow> L
                       | (Some ln, Some rn) \<Rightarrow>
                           if L = R then L else Some (fst (merge_present_node B ln rn))))"
proof -
  have "node_at (roots_map (bs_roots (mr_snapshot m)) key) path =
      fst (merge_optional_node (node_at (base_root base key) path)
        (node_at (roots_map (bs_roots l) key) path) (node_at (roots_map (bs_roots r) key) path))"
    unfolding merge_bookmarks_root [OF ok] merged_root_def by (rule merge_at_path [OF sh root])
  then show ?thesis
    by (auto simp: Let_def merge_optional_node.simps split: option.splits prod.splits)
qed

definition demo_url :: "string \<Rightarrow> bookmark_node" where
  "demo_url i = Url i ''n'' ''https://example.org'' None"

definition demo_snapshot :: "bookmark_node list \<Rightarrow> bookmark_snapshot" where
  "demo_snapshot children =
     \<lparr>bs_format = ''helium-bookmarks-v1'', bs_source_browser = ''helium'',
      bs_profile_directory = ''Default'', bs_chromium_version = 1,
      bs_roots = [\<lparr>root_key = ''bookmark_bar'', root_node = Folder ''1'' ''Bar'' None None children\<rparr>]\<rparr>"

lemma demo_root: "roots_map (bs_roots (demo_snapshot ns)) ''bookmark_bar'' = Some (Folder ''1'' ''Bar'' None None ns)"
  by (simp add: demo_snapshot_def roots_map_def)

lemma demo_merge_ok: "\<exists>m. merge_bookmarks (Some (demo_snapshot a)) (demo_snapshot b) (demo_snapshot c) = Inr m"
  by (simp add: merge_bookmarks_Inr validate_merge_pair_def demo_snapshot_def)

lemma merge_three_way_witness:
  "\<exists>m. merge_bookmarks (Some (demo_snapshot [demo_url ''2''])) (demo_snapshot [])
       (demo_snapshot [demo_url ''2'', demo_url ''3'']) = Inr m \<and>
     node_at (roots_map (bs_roots (mr_snapshot m)) ''bookmark_bar'') [''2''] = None \<and>
     node_at (roots_map (bs_roots (mr_snapshot m)) ''bookmark_bar'') [''3''] = Some (demo_url ''3'')"
proof -
  obtain m where m: "merge_bookmarks (Some (demo_snapshot [demo_url ''2''])) (demo_snapshot [])
       (demo_snapshot [demo_url ''2'', demo_url ''3'']) = Inr m"
    using demo_merge_ok by blast
  have sh: "shared (roots_map (bs_roots (demo_snapshot [])) ''bookmark_bar'')
      (roots_map (bs_roots (demo_snapshot [demo_url ''2'', demo_url ''3''])) ''bookmark_bar'') [k]" for k
    by (simp add: demo_root)
  have root: "base_root (Some (demo_snapshot [demo_url ''2''])) ''bookmark_bar'' = None \<or>
      roots_map (bs_roots (demo_snapshot [])) ''bookmark_bar'' = None \<or>
      map_option node_id (base_root (Some (demo_snapshot [demo_url ''2''])) ''bookmark_bar'') =
      map_option node_id (roots_map (bs_roots (demo_snapshot [])) ''bookmark_bar'')"
    by (simp add: base_root_def demo_root)
  show ?thesis
    using m merge_three_way [OF m sh [of "''2''"] root] merge_three_way [OF m sh [of "''3''"] root]
    by (simp add: base_root_def demo_root node_lookup_def demo_url_def)
qed

text \<open>C27. Fast-forward: when this device has not changed since the last common state, a merge takes
  the server's bookmarks exactly, root order included, and when the server has not, the merge
  keeps every root of this device and adds none; neither counts a conflict.\<close>

theorem merge_fast_forward:
  assumes "validate_merge_pair l r = Inr ()" and "distinct (map root_key (bs_roots r))"
  shows "\<exists>m m'. merge_bookmarks (Some l) l r = Inr m \<and> bs_roots (mr_snapshot m) = bs_roots r \<and>
      mr_conflicts m = 0 \<and>
    merge_bookmarks (Some r) l r = Inr m' \<and>
      roots_map (bs_roots (mr_snapshot m')) = roots_map (bs_roots l) \<and> mr_conflicts m' = 0"
proof -
  have v: "validate_merge_pair x x = Inr ()" "validate_merge_pair r l = Inr ()" for x
    using assms(1) by (auto simp: validate_merge_pair_def split: if_splits)
  have ff: "merged_root (Some l) l r k = roots_map (bs_roots r) k" for k
    by (simp add: merged_root_def base_root_def)
  have keep: "merged_root (Some r) l r k = roots_map (bs_roots l) k" for k
    by (simp add: merged_root_def base_root_def)
  show ?thesis
    using assms(1) v merge_roots_fast_forward [OF assms(2) ff]
    by (simp add: merge_bookmarks_Inr merge_roots_no_conflicts base_root_def merge_roots_lookup keep fun_eq_iff)
qed

lemma merge_fast_forward_witness:
  "\<exists>m m'. merge_bookmarks (Some (demo_snapshot [])) (demo_snapshot []) (demo_snapshot [demo_url ''2'']) = Inr m \<and>
      bs_roots (mr_snapshot m) = bs_roots (demo_snapshot [demo_url ''2'']) \<and> mr_conflicts m = 0 \<and>
    merge_bookmarks (Some (demo_snapshot [demo_url ''2''])) (demo_snapshot []) (demo_snapshot [demo_url ''2'']) = Inr m' \<and>
      roots_map (bs_roots (mr_snapshot m')) = roots_map (bs_roots (demo_snapshot [])) \<and> mr_conflicts m' = 0"
  by (rule merge_fast_forward) (simp_all add: validate_merge_pair_def demo_snapshot_def)

text \<open>C28. Well-formedness: a merge of snapshots whose root keys and sibling ids are distinct has
  distinct root keys and distinct sibling ids in every folder, whatever the base is.\<close>

theorem merge_keeps_ids_distinct:
  assumes "merge_bookmarks base l r = Inr m" and "wf_snapshot l" and "wf_snapshot r"
  shows "wf_snapshot (mr_snapshot m)"
  by (rule merge_bookmarks_wf [OF assms])

lemma merge_keeps_ids_distinct_witness:
  "\<exists>m. merge_bookmarks (Some (demo_snapshot [])) (demo_snapshot [demo_url ''2'']) (demo_snapshot [demo_url ''3'']) = Inr m \<and>
     wf_snapshot (mr_snapshot m)"
proof -
  obtain m where m: "merge_bookmarks (Some (demo_snapshot [])) (demo_snapshot [demo_url ''2''])
      (demo_snapshot [demo_url ''3'']) = Inr m"
    using demo_merge_ok by blast
  from merge_keeps_ids_distinct [OF this] m show ?thesis
    by (simp add: wf_snapshot_def demo_snapshot_def demo_url_def)
qed

text \<open>C29. Round trip: a snapshot with distinct root keys, written to a \<open>Bookmarks\<close> file and read
  back from a file that does not change meanwhile, is the same snapshot with its roots sorted by
  key; folders, urls, dates, order of children and the version survive.\<close>

theorem bookmarks_read_back:
  assumes "json_codec to_text of_text (chromium_bookmarks_value s)" and "canonical s"
  shows "read_bookmarks of_text path (bs_profile_directory s)
      \<lparr>ra_before = Some meta, ra_bytes = Some (chromium_bookmarks_json to_text s), ra_after = Some meta\<rparr> second =
    Inr (sort_roots s)"
  using snapshot_of_written [OF assms] by (simp add: read_bookmarks_def)

text \<open>A codec whose only value is the snapshot's.\<close>

definition demo_to_text :: "json \<Rightarrow> bytes" where
  "demo_to_text j = [123, 125]"

definition demo_of_text :: "bookmark_snapshot \<Rightarrow> bytes \<Rightarrow> json option" where
  "demo_of_text s b = (if b = [123, 125] then Some (chromium_bookmarks_value s) else None)"

lemma demo_sorted: "sort_roots (demo_snapshot ns) = demo_snapshot ns"
  by (simp add: sort_roots_def demo_snapshot_def btree_collect_def)

lemma bookmarks_read_back_witness:
  "read_bookmarks (demo_of_text (demo_snapshot [demo_url ''2''])) ''p'' ''Default''
      \<lparr>ra_before = Some \<lparr>fm_len = 2, fm_modified = None\<rparr>,
       ra_bytes = Some (chromium_bookmarks_json demo_to_text (demo_snapshot [demo_url ''2''])),
       ra_after = Some \<lparr>fm_len = 2, fm_modified = None\<rparr>\<rparr>
      \<lparr>ra_before = None, ra_bytes = None, ra_after = None\<rparr> = Inr (demo_snapshot [demo_url ''2''])"
proof -
  have "json_codec demo_to_text (demo_of_text (demo_snapshot [demo_url ''2'']))
      (chromium_bookmarks_value (demo_snapshot [demo_url ''2'']))"
    by (simp add: json_codec_def demo_of_text_def demo_to_text_def)
  moreover have "canonical (demo_snapshot [demo_url ''2''])" by (simp add: canonical_def demo_snapshot_def)
  moreover have "bs_profile_directory (demo_snapshot ns) = ''Default''" for ns by (simp add: demo_snapshot_def)
  ultimately show ?thesis using bookmarks_read_back demo_sorted by metis
qed

text \<open>A file that changes during both attempts is an error, and so is one that cannot be read or
  whose metadata cannot be read; one that settles on the second attempt is read from it.\<close>

theorem changing_file_retried_once:
  assumes "ra_before a = Some m1" "ra_bytes a = Some b" "ra_after a = Some m2" "m1 \<noteq> m2"
  shows "read_bookmarks of_text path dir a second =
     (case ra_before second of
        None \<Rightarrow> Inl (ReadError path)
      | Some m3 \<Rightarrow>
          (case ra_bytes second of
             None \<Rightarrow> Inl (ReadError path)
           | Some b' \<Rightarrow>
               (case ra_after second of
                  None \<Rightarrow> Inl (ReadError path)
                | Some m4 \<Rightarrow>
                    if m3 = m4 then snapshot_of_bytes of_text path dir b' else Inl (Changing path))))"
  using assms by (cases m1; cases m2) (auto simp: read_bookmarks_def split: option.split)

lemma changing_file_retried_once_witness:
  "read_bookmarks (\<lambda>b. None) ''p'' ''Default''
     \<lparr>ra_before = Some \<lparr>fm_len = 2, fm_modified = None\<rparr>, ra_bytes = Some [1],
      ra_after = Some \<lparr>fm_len = 3, fm_modified = None\<rparr>\<rparr>
     \<lparr>ra_before = Some \<lparr>fm_len = 3, fm_modified = None\<rparr>, ra_bytes = Some [1, 2],
      ra_after = Some \<lparr>fm_len = 4, fm_modified = None\<rparr>\<rparr> = Inl (Changing ''p'')"
  by (subst changing_file_retried_once) (simp, simp, simp, simp, simp)

text \<open>A divergence from the documentation ("independent changes are combined"): when two devices
  each add a bookmark to which their browser gave the same id, the merge keeps one node, with the
  fields of the server's bookmark; this device's bookmark is lost, counted as a conflict.\<close>

theorem same_id_additions_lose_one:
  assumes "u \<noteq> u'"
  shows "\<exists>k. merge_optional_node None (Some (Url i n u d)) (Some (Url i n' u' d')) = (Some (Url i n' u' d'), Suc k)"
  using assms by (auto simp: merge_optional_node.simps merge_value_def)

lemma same_id_additions_lose_one_witness:
  "\<exists>k. merge_optional_node None (Some (Url ''5'' ''a'' ''https://a'' None)) (Some (Url ''5'' ''b'' ''https://b'' None)) =
     (Some (Url ''5'' ''b'' ''https://b'' None), Suc k)"
  by (rule same_id_additions_lose_one) simp

text \<open>C40. A merge that does not settle: when the merged snapshot's roots are not in key order, the file a
  restore writes reads back as a different snapshot, and merging again from there, with nothing
  changed on either side, gives the unsorted snapshot back; so every later synchronization
  finds a difference and restores again.\<close>

theorem unsorted_roots_never_settle:
  assumes "json_codec to_text of_text (chromium_bookmarks_value m)" and "canonical m"
    and "\<not> sorted_wrt (<) (map root_key (bs_roots m))"
  shows "\<exists>l m'. snapshot_of_bytes of_text path (bs_profile_directory m) (chromium_bookmarks_json to_text m) = Inr l \<and>
    l \<noteq> m \<and> merge_bookmarks (Some m) l m = Inr m' \<and> mr_snapshot m' = m \<and> mr_snapshot m' \<noteq> l"
proof -
  let ?l = "sort_roots m"
  have "btree_ok (btree_collect (map (\<lambda>r. (root_key r, root_node r)) (bs_roots m)))" by (rule btree_collect_ok)
  then have "sorted_wrt (<) (map root_key (bs_roots ?l))"
    by (simp add: sort_roots_def comp_def split_beta)
  with assms(3) have ne: "?l \<noteq> m" by auto
  have "map_of (btree_collect (map (\<lambda>r. (root_key r, root_node r)) (bs_roots m))) =
      map_of (rev (map (\<lambda>r. (root_key r, root_node r)) (bs_roots m)))" by (rule btree_collect_lookup)
  moreover have "roots_map (bs_roots ?l) k =
      map_of (rev (btree_collect (map (\<lambda>r. (root_key r, root_node r)) (bs_roots m)))) k" for k
    by (simp add: roots_map_def sort_roots_def comp_def split_beta)
  moreover have "map_of (rev (btree_collect xs)) = map_of (btree_collect xs)" for xs :: "(string \<times> bookmark_node) list"
    using btree_collect_lookup [of "btree_collect xs"] btree_collect_id [OF btree_collect_ok, of xs] by simp
  ultimately have same: "roots_map (bs_roots ?l) k = roots_map (bs_roots m) k" for k
    unfolding roots_map_def by simp
  have ff: "merged_root (Some m) ?l m k = roots_map (bs_roots m) k" for k
    by (simp add: merged_root_def base_root_def same)
  have v: "validate_merge_pair ?l m = Inr ()" "validate_merge_pair m ?l = Inr ()"
    by (simp_all add: validate_merge_pair_def sort_roots_def)
  obtain m' where m': "merge_bookmarks (Some m) ?l m = Inr m'"
    using v by (simp add: merge_bookmarks_Inr)
  then have "mr_snapshot m' = m"
    using merge_roots_fast_forward [OF _ ff] assms(2)
    by (auto simp: merge_bookmarks_Inr canonical_def sort_roots_def)
  with m' ne snapshot_of_written [OF assms(1,2)] show ?thesis by auto
qed

definition unsorted_snapshot :: bookmark_snapshot where
  "unsorted_snapshot = (demo_snapshot [])\<lparr>bs_roots :=
     [\<lparr>root_key = ''synced'', root_node = demo_url ''2''\<rparr>, \<lparr>root_key = ''other'', root_node = demo_url ''3''\<rparr>]\<rparr>"

lemma unsorted_roots_never_settle_witness:
  "\<exists>l m'. snapshot_of_bytes (demo_of_text unsorted_snapshot) ''p'' ''Default''
        (chromium_bookmarks_json demo_to_text unsorted_snapshot) = Inr l \<and>
    l \<noteq> unsorted_snapshot \<and> merge_bookmarks (Some unsorted_snapshot) l unsorted_snapshot = Inr m' \<and>
    mr_snapshot m' = unsorted_snapshot \<and> mr_snapshot m' \<noteq> l"
proof -
  have "json_codec demo_to_text (demo_of_text unsorted_snapshot) (chromium_bookmarks_value unsorted_snapshot)"
    by (simp add: json_codec_def demo_of_text_def demo_to_text_def)
  moreover have "canonical unsorted_snapshot"
    by (simp add: canonical_def unsorted_snapshot_def demo_snapshot_def)
  moreover have "\<not> sorted_wrt (<) (map root_key (bs_roots unsorted_snapshot))"
    by (simp add: unsorted_snapshot_def less_char_def)
  ultimately show ?thesis
    using unsorted_roots_never_settle [of demo_to_text "demo_of_text unsorted_snapshot" unsorted_snapshot "''p''"]
    by (simp add: unsorted_snapshot_def demo_snapshot_def)
qed

end
