(* ===== verification/Crypto.thy ===== *)
theory Crypto
  imports Bookmarks
begin

text \<open>
  Client-side encryption, \<open>helium-sync-client-core/src/crypto.rs\<close>: recovery codes, the
  key derivations, the associated data and the envelopes of objects and of local state. The
  primitives (HKDF-SHA-256, XChaCha20-Poly1305, SHA-256, base64url, RFC 3339 and JSON) are
  third-party crates: they are the fields of a \<open>suite\<close>, and \<open>suite_ok\<close> states what they
  document. The random nonce is an argument of the operations that draw one.
\<close>

section \<open>Errors\<close>

datatype client_error =
    Configuration string
  | Connect string
  | Tls string
  | Timeout
  | SshHostKeyUnknown string
  | SshHostKeyChanged string
  | SshAuthentication
  | Ssh string
  | RemoteSocket string
  | ApiAuthentication
  | ProtocolIncompatible u16 u16 u16 u16
  | ApiFailure nat string string
  | CryptoError string
  | SecretStore string
  | StateError string
  | ProfileFailure profile_error
  | Serialization string

section \<open>Primitives\<close>

record suite =
  hkdf_expand :: "bytes \<Rightarrow> bytes \<Rightarrow> bytes \<Rightarrow> bytes option"
  aead_encrypt :: "bytes \<Rightarrow> bytes \<Rightarrow> bytes \<Rightarrow> bytes \<Rightarrow> bytes option"
  aead_decrypt :: "bytes \<Rightarrow> bytes \<Rightarrow> bytes \<Rightarrow> bytes \<Rightarrow> bytes option"
  digest256 :: "bytes \<Rightarrow> bytes"
  base64_encode :: "bytes \<Rightarrow> string"
  base64_decode :: "string \<Rightarrow> bytes option"
  rfc3339 :: "timestamp \<Rightarrow> string option"
  envelope_text :: "envelope \<Rightarrow> bytes option"
  envelope_read :: "bytes \<Rightarrow> envelope option"

text \<open>Decryption is the inverse of encryption under the same key, nonce and associated data (the
  cipher is deterministic given them); a digest has 32 bytes; the decoder is strict, so it accepts
  only what the encoder writes; JSON written is read back.\<close>

definition suite_ok :: "suite \<Rightarrow> bool" where
  "suite_ok c \<longleftrightarrow>
     (\<forall>k n a m ct. aead_decrypt c k n a ct = Some m \<longleftrightarrow> aead_encrypt c k n a m = Some ct) \<and>
     (\<forall>b. length (digest256 c b) = 32) \<and>
     (\<forall>b s. base64_decode c s = Some b \<longleftrightarrow> base64_encode c b = s) \<and>
     (\<forall>v t. envelope_text c v = Some t \<longrightarrow> envelope_read c t = Some v)"

lemma suite_okD:
  assumes "suite_ok c"
  shows "aead_decrypt c k n a ct = Some m \<longleftrightarrow> aead_encrypt c k n a m = Some ct"
    "length (digest256 c b) = 32" "base64_decode c s = Some b \<longleftrightarrow> base64_encode c b = s"
    "envelope_text c v = Some t \<Longrightarrow> envelope_read c t = Some v"
  using assms unfolding suite_ok_def by auto

section \<open>Big-endian fields\<close>

definition ascii :: "string \<Rightarrow> bytes" where
  "ascii s = map (\<lambda>ch. word_of_nat (code_of ch)) s"

text \<open>\<open>to_be_bytes\<close> of an integer of \<open>n\<close> bytes.\<close>

fun be_bytes :: "nat \<Rightarrow> nat \<Rightarrow> bytes" where
  "be_bytes 0 v = []"
| "be_bytes (Suc n) v = word_of_nat (v div 256 ^ n) # be_bytes n (v mod 256 ^ n)"

definition uuid_bytes :: "uuid \<Rightarrow> bytes" where
  "uuid_bytes u = be_bytes 16 (unat u)"

definition append_field :: "bytes \<Rightarrow> bytes \<Rightarrow> client_error + bytes" where
  "append_field output fld =
     (if length fld < 2 ^ 32 then Inr (output @ be_bytes 4 (length fld) @ fld)
      else Inl (CryptoError ''authenticated metadata is too large''))"

section \<open>Recovery codes\<close>

definition RECOVERY_PREFIX :: string where "RECOVERY_PREFIX = ''hsync1:''"
definition MASTER_KEY_LENGTH :: nat where "MASTER_KEY_LENGTH = 32"

definition from_recovery_code :: "suite \<Rightarrow> string \<Rightarrow> client_error + bytes" where
  "from_recovery_code c code =
     andThen (ok_or (CryptoError ''recovery code must start with hsync1:'')
               (strip_prefix RECOVERY_PREFIX code)) (\<lambda>encoded.
     andThen (ok_or (CryptoError ''recovery code is not valid base64url'')
               (base64_decode c encoded)) (\<lambda>decoded.
       if length decoded \<noteq> MASTER_KEY_LENGTH + 4
       then Inl (CryptoError ''recovery code has an invalid length'')
       else (let key = take MASTER_KEY_LENGTH decoded; checksum = drop MASTER_KEY_LENGTH decoded
             in if checksum \<noteq> take 4 (digest256 c key)
                then Inl (CryptoError ''recovery code checksum did not match'')
                else Inr key)))"

definition recovery_code :: "suite \<Rightarrow> bytes \<Rightarrow> string" where
  "recovery_code c key = RECOVERY_PREFIX @ base64_encode c (key @ take 4 (digest256 c key))"

section \<open>Keys and associated data\<close>

record object_metadata =
  om_protocol :: protocol_version
  om_object_id :: object_id
  om_namespace :: string
  om_device_id :: device_id
  om_revision :: u64
  om_modified_at :: timestamp

definition object_key_info :: "string \<Rightarrow> u32 \<Rightarrow> client_error + bytes" where
  "object_key_info namespace key_version =
     andThen (append_field (ascii ''helium-sync/object-key/'') (ascii namespace)) (\<lambda>info.
     Inr (info @ be_bytes 4 (unat key_version)))"

definition derive_key :: "suite \<Rightarrow> bytes \<Rightarrow> object_id \<Rightarrow> string \<Rightarrow> u32 \<Rightarrow> client_error + bytes" where
  "derive_key c master i namespace key_version =
     andThen (object_key_info namespace key_version) (\<lambda>info.
     ok_or (CryptoError ''object key derivation failed'')
       (hkdf_expand c (uuid_bytes (object_uuid i)) master info))"

definition local_state_salt :: bytes where
  "local_state_salt = ascii ''helium-sync/local-state-salt/v1''"

definition derive_local_state_key :: "suite \<Rightarrow> bytes \<Rightarrow> string \<Rightarrow> client_error + bytes" where
  "derive_local_state_key c master purpose =
     andThen (append_field (ascii ''helium-sync/local-state-key/v1'') (ascii purpose)) (\<lambda>info.
     ok_or (CryptoError ''local state key derivation failed'')
       (hkdf_expand c local_state_salt master info))"

definition local_state_aad :: "string \<Rightarrow> client_error + bytes" where
  "local_state_aad purpose = append_field (ascii ''helium-sync/local-state-aad/v1'') (ascii purpose)"

definition associated_data :: "suite \<Rightarrow> object_metadata \<Rightarrow> u8 \<Rightarrow> client_error + bytes" where
  "associated_data c m envelope_version =
     (let aad = ascii ''helium-sync/aad/v1'' @ be_bytes 2 (unat (protocol_number (om_protocol m)))
      in andThen (append_field aad (uuid_bytes (object_uuid (om_object_id m)))) (\<lambda>aad.
         andThen (append_field aad (ascii (om_namespace m))) (\<lambda>aad.
         andThen (append_field aad (uuid_bytes (device_uuid (om_device_id m)))) (\<lambda>aad.
         let aad = aad @ be_bytes 8 (unat (om_revision m))
         in andThen (ok_or (Serialization ''time'') (rfc3339 c (om_modified_at m))) (\<lambda>text.
            andThen (append_field aad (ascii text)) (\<lambda>aad. Inr (aad @ [envelope_version])))))))"

section \<open>Envelopes\<close>

definition encrypt :: "suite \<Rightarrow> bytes \<Rightarrow> bytes \<Rightarrow> object_metadata \<Rightarrow> bytes \<Rightarrow> client_error + envelope" where
  "encrypt c nonce master m plaintext =
     andThen (derive_key c master (om_object_id m) (om_namespace m) 1) (\<lambda>key.
     andThen (associated_data c m 1) (\<lambda>aad.
     andThen (ok_or (CryptoError ''payload encryption failed'') (aead_encrypt c key nonce aad plaintext))
       (\<lambda>ciphertext.
     Inr \<lparr>env_version = 1, env_algorithm = ''XCHACHA20-POLY1305'', env_key_version = 1,
          env_nonce = nonce, env_ciphertext = ciphertext\<rparr>)))"

definition object_metadata_of :: "sync_object \<Rightarrow> object_metadata" where
  "object_metadata_of ob =
     \<lparr>om_protocol = PROTOCOL_MAX, om_object_id = so_id ob, om_namespace = so_namespace ob,
      om_device_id = so_device_id ob, om_revision = so_revision ob, om_modified_at = so_modified_at ob\<rparr>"

definition authentication_failed :: client_error where
  "authentication_failed =
     CryptoError ''ciphertext authentication failed; payload or metadata was changed''"

definition decrypt :: "suite \<Rightarrow> bytes \<Rightarrow> sync_object \<Rightarrow> client_error + bytes" where
  "decrypt c master ob =
     andThen (ok_or (CryptoError ''deleted object does not contain an encrypted payload'')
               (so_envelope ob)) (\<lambda>v.
       if env_version v \<noteq> 1 \<or> env_key_version v \<noteq> 1 \<or> env_algorithm v \<noteq> ''XCHACHA20-POLY1305''
          \<or> length (env_nonce v) \<noteq> 24
       then Inl (CryptoError ''encrypted envelope algorithm or version is unsupported'')
       else andThen (derive_key c master (so_id ob) (so_namespace ob) (env_key_version v)) (\<lambda>key.
            andThen (associated_data c (object_metadata_of ob) (env_version v)) (\<lambda>aad.
            ok_or authentication_failed (aead_decrypt c key (env_nonce v) aad (env_ciphertext v)))))"

definition encrypt_local_state :: "suite \<Rightarrow> bytes \<Rightarrow> bytes \<Rightarrow> string \<Rightarrow> bytes \<Rightarrow> client_error + bytes" where
  "encrypt_local_state c nonce master purpose plaintext =
     andThen (derive_local_state_key c master purpose) (\<lambda>key.
     andThen (local_state_aad purpose) (\<lambda>aad.
     andThen (ok_or (CryptoError ''local state encryption failed'') (aead_encrypt c key nonce aad plaintext))
       (\<lambda>ciphertext.
     ok_or (Serialization ''json'') (envelope_text c
       \<lparr>env_version = 1, env_algorithm = ''XCHACHA20-POLY1305-LOCAL-STATE'', env_key_version = 1,
        env_nonce = nonce, env_ciphertext = ciphertext\<rparr>))))"

definition decrypt_local_state :: "suite \<Rightarrow> bytes \<Rightarrow> string \<Rightarrow> bytes \<Rightarrow> client_error + bytes" where
  "decrypt_local_state c master purpose encoded =
     andThen (ok_or (Serialization ''json'') (envelope_read c encoded)) (\<lambda>v.
       if env_version v \<noteq> 1 \<or> env_key_version v \<noteq> 1
          \<or> env_algorithm v \<noteq> ''XCHACHA20-POLY1305-LOCAL-STATE'' \<or> length (env_nonce v) \<noteq> 24
       then Inl (CryptoError ''local state envelope algorithm or version is unsupported'')
       else andThen (derive_local_state_key c master purpose) (\<lambda>key.
            andThen (local_state_aad purpose) (\<lambda>aad.
            ok_or (CryptoError ''local state authentication failed; data or context changed'')
              (aead_decrypt c key (env_nonce v) aad (env_ciphertext v)))))"

section \<open>Encodings are injective\<close>

lemma length_be_bytes [simp]: "length (be_bytes n v) = n"
  by (induction n v rule: be_bytes.induct) auto

lemma be_bytes_inj: "be_bytes n v = be_bytes n w \<Longrightarrow> v < 256 ^ n \<Longrightarrow> w < 256 ^ n \<Longrightarrow> v = w"
proof (induction n arbitrary: v w)
  case (Suc n)
  have "v div 256 ^ n < 256" "w div 256 ^ n < 256"
    using Suc.prems(2,3) by (simp_all add: less_mult_imp_div_less mult.commute)
  moreover have "(word_of_nat (v div 256 ^ n) :: u8) = word_of_nat (w div 256 ^ n)"
    using Suc.prems(1) by simp
  ultimately have "v div 256 ^ n = w div 256 ^ n"
    by (simp add: word_of_nat_eq_iff take_bit_nat_eq_self)
  moreover have "v mod 256 ^ n = w mod 256 ^ n"
    using Suc.IH [of "v mod 256 ^ n" "w mod 256 ^ n"] Suc.prems(1) by simp
  ultimately show ?case by (metis div_mult_mod_eq)
qed simp

lemma ascii_inj: "ascii s = ascii t \<longleftrightarrow> s = t"
proof -
  have "inj (\<lambda>ch. word_of_nat (code_of ch) :: u8)"
  proof (rule injI)
    fix x y assume "(word_of_nat (code_of x) :: u8) = word_of_nat (code_of y)"
    moreover have "code_of z < 256" for z by (simp add: code_of_def)
    ultimately have "code_of x = code_of y" by (simp add: word_of_nat_eq_iff take_bit_nat_eq_self)
    then show "x = y" by (simp add: code_of_def)
  qed
  then show ?thesis by (simp add: ascii_def inj_map_eq_map)
qed

lemma uuid_bytes_inj: "uuid_bytes u = uuid_bytes v \<longleftrightarrow> u = v"
proof
  assume "uuid_bytes u = uuid_bytes v"
  moreover have "unat (x :: uuid) < 256 ^ 16" for x
  proof -
    have "unat x < 2 ^ LENGTH(128)" by (rule unsigned_less)
    then show ?thesis by simp
  qed
  ultimately have "unat u = unat v" unfolding uuid_bytes_def using be_bytes_inj by blast
  then show "u = v" by (rule unsigned_word_eqI)
qed simp

text \<open>A length-prefixed field can be cut off again: two outputs are equal only if the fields and
  what follows are.\<close>

lemma append_field_inj:
  assumes "append_field p f = Inr a" and "append_field q g = Inr b" and "a @ xs = b @ ys"
    and "length p = length q"
  shows "p = q \<and> f = g \<and> xs = ys"
proof -
  from assms have l: "length f < 2 ^ 32" "length g < 2 ^ 32"
    and eq: "p @ be_bytes 4 (length f) @ f @ xs = q @ be_bytes 4 (length g) @ g @ ys"
    by (auto simp: append_field_def split: if_splits)
  then have "p = q" "be_bytes 4 (length f) = be_bytes 4 (length g)" "f @ xs = g @ ys"
    using assms(4) by simp_all
  moreover from this(2) l have "length f = length g"
    using be_bytes_inj [of 4 "length f" "length g"] by simp
  ultimately show ?thesis by simp
qed

lemma append_field_length: "append_field p f = Inr a \<Longrightarrow> length a = length p + 4 + length f"
  by (auto simp: append_field_def split: if_splits)

text \<open>A fixed-width integer before a field can be cut off too.\<close>

lemma be_word_inj:
  assumes "be_bytes n (unat (a :: 'a :: len word)) = be_bytes n (unat b)" and "LENGTH('a) = 8 * n"
  shows "a = b"
proof -
  have "unat x < 256 ^ n" for x :: "'a word"
  proof -
    have "unat x < 2 ^ LENGTH('a)" by (rule unsigned_less)
    also have "(2 :: nat) ^ LENGTH('a) = 256 ^ n"
      unfolding assms(2) by (simp add: power_mult)
    finally show ?thesis .
  qed
  then have "unat a = unat b" using be_bytes_inj [OF assms(1)] by blast
  then show ?thesis by (rule unsigned_word_eqI)
qed

lemma associated_data_parts:
  "associated_data c m v = Inr a \<longleftrightarrow>
     (\<exists>a1 a2 a3 text a4.
        append_field (ascii ''helium-sync/aad/v1'' @ be_bytes 2 (unat (protocol_number (om_protocol m))))
          (uuid_bytes (object_uuid (om_object_id m))) = Inr a1 \<and>
        append_field a1 (ascii (om_namespace m)) = Inr a2 \<and>
        append_field a2 (uuid_bytes (device_uuid (om_device_id m))) = Inr a3 \<and>
        rfc3339 c (om_modified_at m) = Some text \<and>
        append_field (a3 @ be_bytes 8 (unat (om_revision m))) (ascii text) = Inr a4 \<and> a = a4 @ [v])"
  by (auto simp: associated_data_def Let_def result_simps)

lemma append_field_Inr:
  "append_field p f = Inr a \<longleftrightarrow> length f < 2 ^ 32 \<and> a = p @ be_bytes 4 (length f) @ f"
  by (auto simp: append_field_def)

lemma field_cancel:
  assumes "be_bytes 4 (length f) @ f @ xs = be_bytes 4 (length g) @ g @ ys"
    and "length f < 2 ^ 32" and "length g < 2 ^ 32"
  shows "f = g \<and> xs = ys"
proof -
  have "length f = length g"
    using assms be_bytes_inj [of 4 "length f" "length g"] by simp
  with assms(1) show ?thesis by simp
qed

lemma associated_data_inj:
  assumes "associated_data c m v = Inr a" and "associated_data c m' v' = Inr a"
  shows "om_protocol m = om_protocol m' \<and> om_object_id m = om_object_id m' \<and>
    om_namespace m = om_namespace m' \<and> om_device_id m = om_device_id m' \<and>
    om_revision m = om_revision m' \<and> rfc3339 c (om_modified_at m) = rfc3339 c (om_modified_at m') \<and> v = v'"
proof -
  have len: "length (ascii ''helium-sync/aad/v1'') = 18" by (simp add: ascii_def)
  from assms(1) obtain t where t: "rfc3339 c (om_modified_at m) = Some t"
    "a = ascii ''helium-sync/aad/v1'' @ be_bytes 2 (unat (protocol_number (om_protocol m))) @
      be_bytes 4 16 @ uuid_bytes (object_uuid (om_object_id m)) @
      be_bytes 4 (length (ascii (om_namespace m))) @ ascii (om_namespace m) @
      be_bytes 4 16 @ uuid_bytes (device_uuid (om_device_id m)) @ be_bytes 8 (unat (om_revision m)) @
      be_bytes 4 (length (ascii t)) @ ascii t @ [v]"
    "length (ascii (om_namespace m)) < 2 ^ 32" "length (ascii t) < 2 ^ 32"
    by (auto simp: associated_data_parts append_field_Inr uuid_bytes_def)
  from assms(2) obtain t' where t': "rfc3339 c (om_modified_at m') = Some t'"
    "a = ascii ''helium-sync/aad/v1'' @ be_bytes 2 (unat (protocol_number (om_protocol m'))) @
      be_bytes 4 16 @ uuid_bytes (object_uuid (om_object_id m')) @
      be_bytes 4 (length (ascii (om_namespace m'))) @ ascii (om_namespace m') @
      be_bytes 4 16 @ uuid_bytes (device_uuid (om_device_id m')) @ be_bytes 8 (unat (om_revision m')) @
      be_bytes 4 (length (ascii t')) @ ascii t' @ [v']"
    "length (ascii (om_namespace m')) < 2 ^ 32" "length (ascii t') < 2 ^ 32"
    by (auto simp: associated_data_parts append_field_Inr uuid_bytes_def)
  have lu: "length (uuid_bytes u) = 16" for u by (simp add: uuid_bytes_def)
  from t(2) t'(2) have protocol: "be_bytes 2 (unat (protocol_number (om_protocol m))) =
      be_bytes 2 (unat (protocol_number (om_protocol m')))"
    and object: "uuid_bytes (object_uuid (om_object_id m)) = uuid_bytes (object_uuid (om_object_id m'))"
    and rest: "be_bytes 4 (length (ascii (om_namespace m))) @ ascii (om_namespace m) @
      be_bytes 4 16 @ uuid_bytes (device_uuid (om_device_id m)) @ be_bytes 8 (unat (om_revision m)) @
      be_bytes 4 (length (ascii t)) @ ascii t @ [v] =
      be_bytes 4 (length (ascii (om_namespace m'))) @ ascii (om_namespace m') @
      be_bytes 4 16 @ uuid_bytes (device_uuid (om_device_id m')) @ be_bytes 8 (unat (om_revision m')) @
      be_bytes 4 (length (ascii t')) @ ascii t' @ [v']"
    by (simp_all add: lu)
  from field_cancel [OF rest t(3) t'(3)] have
    namespace: "ascii (om_namespace m) = ascii (om_namespace m')" and
    device: "uuid_bytes (device_uuid (om_device_id m)) = uuid_bytes (device_uuid (om_device_id m'))" and
    revision: "be_bytes 8 (unat (om_revision m)) = be_bytes 8 (unat (om_revision m'))" and
    tail: "be_bytes 4 (length (ascii t)) @ ascii t @ [v] = be_bytes 4 (length (ascii t')) @ ascii t' @ [v']"
    by (simp_all add: lu)
  from field_cancel [OF tail t(4) t'(4)] have stamp: "t = t'" and v: "v = v'" by (simp_all add: ascii_inj)
  have "protocol_number (om_protocol m) = protocol_number (om_protocol m')"
    by (rule be_word_inj [OF protocol]) simp
  moreover have "om_revision m = om_revision m'"
    by (rule be_word_inj [OF revision]) simp
  ultimately show ?thesis
    using object namespace device stamp v t(1) t'(1)
    by (auto simp: uuid_bytes_inj ascii_inj intro: protocol_version.expand)
qed

end
