(* ===== verification/ClientApi.thy ===== *)
theory ClientApi
  imports Crypto
begin

text \<open>
  The API client, \<open>helium-sync-client-core/src/api.rs\<close>, over any transport
  (\<open>transport.rs\<close>): version negotiation before the first call, the headers of a request, and
  the reading of a response. A transport is a computation on a remote state \<open>'s\<close>. JSON is a
  parameter: \<open>body_text\<close> writes a value, \<open>body_parse\<close> reads the type the call expects.
\<close>

section \<open>Bodies\<close>

datatype body =
    BodyPut put_object_request
  | BodyDelete delete_object_request
  | BodyRegister register_device_request
  | BodyOperations batch_request
  | BodyObject sync_object
  | BodyChanges changes_response
  | BodyDevice device
  | BodyDevices "device list"
  | BodyBatch batch_response
  | BodyVersion version_response
  | BodyStatus status_response
  | BodyError api_error_body

datatype body_kind = KPut | KDelete | KRegister | KOperations | KObject | KChanges | KDevice | KDevices | KBatch
  | KVersion | KStatus | KError

fun kind_of :: "body \<Rightarrow> body_kind" where
  "kind_of (BodyPut r) = KPut"
| "kind_of (BodyDelete r) = KDelete"
| "kind_of (BodyRegister r) = KRegister"
| "kind_of (BodyOperations r) = KOperations"
| "kind_of (BodyObject r) = KObject"
| "kind_of (BodyChanges r) = KChanges"
| "kind_of (BodyDevice r) = KDevice"
| "kind_of (BodyDevices r) = KDevices"
| "kind_of (BodyBatch r) = KBatch"
| "kind_of (BodyVersion r) = KVersion"
| "kind_of (BodyStatus r) = KStatus"
| "kind_of (BodyError r) = KError"

record body_codec =
  body_text :: "body \<Rightarrow> bytes option"
  body_parse :: "body_kind \<Rightarrow> bytes \<Rightarrow> body option"
  id_text :: "uuid \<Rightarrow> string"

definition body_codec_ok :: "body_codec \<Rightarrow> bool" where
  "body_codec_ok j \<longleftrightarrow>
     (\<forall>b t. body_text j b = Some t \<longrightarrow> body_parse j (kind_of b) t = Some b) \<and>
     (\<forall>k t b. body_parse j k t = Some b \<longrightarrow> kind_of b = k)"

lemma body_codec_okD:
  assumes "body_codec_ok j"
  shows "body_text j b = Some t \<Longrightarrow> kind_of b = k \<Longrightarrow> body_parse j k t = Some b"
    "body_parse j k t = Some b \<Longrightarrow> kind_of b = k"
  using assms unfolding body_codec_ok_def by auto

section \<open>Transports\<close>

datatype http_method = GET | POST | PUT | DELETE

record transport_request =
  tr_method :: http_method
  tr_path :: string
  tr_headers :: "(string \<times> string) list"
  tr_body :: bytes

record transport_response =
  ts_status :: nat
  ts_body :: bytes

type_synonym 's transport = "transport_request \<Rightarrow> ('s, client_error, transport_response) comp"

record 's api_state =
  as_protocol :: "protocol_version option"
  as_remote :: 's

definition PROTOCOL_HEADER :: string where "PROTOCOL_HEADER = ''x-helium-sync-protocol''"

text \<open>\<open>HeaderValue::from_str\<close> accepts visible characters, spaces, tabs and bytes above 127.\<close>

definition header_value_ok :: "string \<Rightarrow> bool" where
  "header_value_ok s \<longleftrightarrow> (\<forall>c \<in> set s. (32 \<le> code_of c \<and> code_of c \<noteq> 127) \<or> code_of c = 9)"

definition unexpected_response :: api_error_body where
  "unexpected_response =
     \<lparr>err_code = ''unexpected_response'', err_message = ''server returned a non-JSON error response'',
      err_current_revision = None, err_current_cursor = None\<rparr>"

definition is_success :: "nat \<Rightarrow> bool" where
  "is_success status \<longleftrightarrow> 200 \<le> status \<and> status < 300"

definition parse_response :: "body_codec \<Rightarrow> body_kind \<Rightarrow> transport_response \<Rightarrow> client_error + body" where
  "parse_response j k response =
     (if is_success (ts_status response)
      then ok_or (Serialization ''json'') (body_parse j k (ts_body response))
      else if ts_status response = 401 then Inl ApiAuthentication
      else (let er = (case body_parse j KError (ts_body response) of
                        Some (BodyError er) \<Rightarrow> er | _ \<Rightarrow> unexpected_response)
            in Inl (ApiFailure (ts_status response) (err_code er) (err_message er))))"

section \<open>Requests\<close>

definition protocol_text :: "protocol_version \<Rightarrow> string" where
  "protocol_text v = show_nat (unat (protocol_number v))"

definition request_headers :: "string \<Rightarrow> protocol_version option \<Rightarrow> bool \<Rightarrow> bool \<Rightarrow> (string \<times> string) list" where
  "request_headers token protocol include_protocol has_body =
     [(''authorization'', ''Bearer '' @ token)] @
     (if include_protocol
      then [(PROTOCOL_HEADER, protocol_text (case protocol of None \<Rightarrow> PROTOCOL_MAX | Some v \<Rightarrow> v))]
      else []) @
     (if has_body then [(''content-type'', ''application/json'')] else [])"

definition remote :: "('s, 'e, 'a) comp \<Rightarrow> ('s api_state, 'e, 'a) comp" where
  "remote m a = (let (r, w) = m (as_remote a) in (r, a\<lparr>as_remote := w\<rparr>))"

definition get_protocol :: "('s api_state, client_error, protocol_version option) comp" where
  "get_protocol a = (Inr (as_protocol a), a)"

definition set_protocol :: "protocol_version \<Rightarrow> ('s api_state, client_error, unit) comp" where
  "set_protocol v a = (Inr (), a\<lparr>as_protocol := Some v\<rparr>)"

definition json_request ::
  "body_codec \<Rightarrow> string \<Rightarrow> 's transport \<Rightarrow> http_method \<Rightarrow> string \<Rightarrow> body option \<Rightarrow> body_kind \<Rightarrow> bool \<Rightarrow>
     ('s api_state, client_error, body) comp" where
  "json_request j token execute method path payload kind include_protocol =
     (if \<not> header_value_ok (''Bearer '' @ token)
      then liftS (Inl (Configuration ''API token contains invalid header characters''))
      else bindS get_protocol (\<lambda>protocol.
           bindS (liftS (case payload of
                           None \<Rightarrow> Inr []
                         | Some b \<Rightarrow> ok_or (Serialization ''json'') (body_text j b))) (\<lambda>bytes.
           bindS (remote (execute
                    \<lparr>tr_method = method, tr_path = path,
                     tr_headers = request_headers token protocol include_protocol (payload \<noteq> None),
                     tr_body = bytes\<rparr>)) (\<lambda>response.
           liftS (parse_response j kind response)))))"

text \<open>The client's range is the crate's.\<close>

definition negotiate_version ::
  "body_codec \<Rightarrow> string \<Rightarrow> 's transport \<Rightarrow> ('s api_state, client_error, version_response) comp" where
  "negotiate_version j token execute =
     bindS (json_request j token execute GET ''/v1/version'' None KVersion False) (\<lambda>b.
     bindS (liftS (case b of BodyVersion r \<Rightarrow> Inr r | _ \<Rightarrow> Inl (Serialization ''json''))) (\<lambda>response.
     bindS (liftS (ok_or
         (ProtocolIncompatible (protocol_number PROTOCOL_MIN) (protocol_number PROTOCOL_MAX)
            (protocol_number (range_min (vr_protocol response)))
            (protocol_number (range_max (vr_protocol response))))
         (negotiate default_range (vr_protocol response)))) (\<lambda>selected.
     bindS (set_protocol selected) (\<lambda>_. returnS response))))"

definition ensure_negotiated ::
  "body_codec \<Rightarrow> string \<Rightarrow> 's transport \<Rightarrow> ('s api_state, client_error, protocol_version) comp" where
  "ensure_negotiated j token execute =
     bindS get_protocol (\<lambda>protocol.
       case protocol of
         Some v \<Rightarrow> returnS v
       | None \<Rightarrow>
           bindS (negotiate_version j token execute) (\<lambda>_.
           bindS get_protocol (\<lambda>protocol.
           liftS (ok_or (ProtocolIncompatible (protocol_number PROTOCOL_MIN) (protocol_number PROTOCOL_MAX) 0 0)
             protocol))))"

definition negotiated_request ::
  "body_codec \<Rightarrow> string \<Rightarrow> 's transport \<Rightarrow> http_method \<Rightarrow> string \<Rightarrow> body option \<Rightarrow> body_kind \<Rightarrow>
     ('s api_state, client_error, body) comp" where
  "negotiated_request j token execute method path payload kind =
     bindS (ensure_negotiated j token execute) (\<lambda>_.
     json_request j token execute method path payload kind True)"

definition expect_object :: "body \<Rightarrow> client_error + sync_object" where
  "expect_object b = (case b of BodyObject ob \<Rightarrow> Inr ob | _ \<Rightarrow> Inl (Serialization ''json''))"

definition objects_path :: "body_codec \<Rightarrow> object_id \<Rightarrow> string" where
  "objects_path j i = ''/v1/objects/'' @ id_text j (object_uuid i)"

definition client_put_object ::
  "body_codec \<Rightarrow> string \<Rightarrow> 's transport \<Rightarrow> object_id \<Rightarrow> put_object_request \<Rightarrow>
     ('s api_state, client_error, sync_object) comp" where
  "client_put_object j token execute i req =
     bindS (negotiated_request j token execute PUT (objects_path j i) (Some (BodyPut req)) KObject)
       (\<lambda>b. liftS (expect_object b))"

definition client_get_object ::
  "body_codec \<Rightarrow> string \<Rightarrow> 's transport \<Rightarrow> object_id \<Rightarrow> ('s api_state, client_error, sync_object) comp" where
  "client_get_object j token execute i =
     bindS (negotiated_request j token execute GET (objects_path j i) None KObject)
       (\<lambda>b. liftS (expect_object b))"

definition client_delete_object ::
  "body_codec \<Rightarrow> string \<Rightarrow> 's transport \<Rightarrow> object_id \<Rightarrow> delete_object_request \<Rightarrow>
     ('s api_state, client_error, sync_object) comp" where
  "client_delete_object j token execute i req =
     bindS (negotiated_request j token execute DELETE (objects_path j i) (Some (BodyDelete req)) KObject)
       (\<lambda>b. liftS (expect_object b))"

definition client_changes ::
  "body_codec \<Rightarrow> string \<Rightarrow> 's transport \<Rightarrow> u64 \<Rightarrow> ('s api_state, client_error, changes_response) comp" where
  "client_changes j token execute after =
     bindS (negotiated_request j token execute GET (''/v1/changes?after='' @ show_nat (unat after)) None KChanges)
       (\<lambda>b. liftS (case b of BodyChanges page \<Rightarrow> Inr page | _ \<Rightarrow> Inl (Serialization ''json'')))"

definition client_register_device ::
  "body_codec \<Rightarrow> string \<Rightarrow> 's transport \<Rightarrow> register_device_request \<Rightarrow>
     ('s api_state, client_error, device) comp" where
  "client_register_device j token execute req =
     bindS (negotiated_request j token execute POST ''/v1/devices'' (Some (BodyRegister req)) KDevice)
       (\<lambda>b. liftS (case b of BodyDevice d \<Rightarrow> Inr d | _ \<Rightarrow> Inl (Serialization ''json'')))"

definition client_status ::
  "body_codec \<Rightarrow> string \<Rightarrow> 's transport \<Rightarrow> ('s api_state, client_error, status_response) comp" where
  "client_status j token execute =
     bindS (negotiated_request j token execute GET ''/v1/status'' None KStatus)
       (\<lambda>b. liftS (case b of BodyStatus r \<Rightarrow> Inr r | _ \<Rightarrow> Inl (Serialization ''json'')))"

lemma get_protocol_iff [result_simps]: "get_protocol a = (r, a') \<longleftrightarrow> r = Inr (as_protocol a) \<and> a' = a"
  by (auto simp: get_protocol_def)

lemma set_protocol_iff [result_simps]:
  "set_protocol v a = (r, a') \<longleftrightarrow> r = Inr () \<and> a' = a\<lparr>as_protocol := Some v\<rparr>"
  by (auto simp: set_protocol_def)

lemma remote_iff [result_simps]:
  "remote m a = (r, a') \<longleftrightarrow> (\<exists>w. m (as_remote a) = (r, w) \<and> a' = a\<lparr>as_remote := w\<rparr>)"
  by (auto simp: remote_def split: prod.splits)

end
