(* ===== verification/Orchestration.thy ===== *)
theory Orchestration
  imports ClientApi Tables
begin

text \<open>
  The client core, \<open>helium-sync-client-core/src/orchestration.rs\<close>: uploading and
  downloading encrypted objects, saving, loading and discovering bookmarks, and extension bundles
  split into chunks with a manifest published last. The operations use an \<open>api\<close> (the five
  calls of the API client) on a remote state; random ids, nonces and the clock are sequences drawn
  from in turn, and the JSON of snapshots and manifests is a parameter.
\<close>

section \<open>The interface to the server\<close>

record 's api =
  api_register :: "register_device_request \<Rightarrow> ('s, client_error, device) comp"
  api_put :: "object_id \<Rightarrow> put_object_request \<Rightarrow> ('s, client_error, sync_object) comp"
  api_get :: "object_id \<Rightarrow> ('s, client_error, sync_object) comp"
  api_delete :: "object_id \<Rightarrow> delete_object_request \<Rightarrow> ('s, client_error, sync_object) comp"
  api_changes :: "u64 \<Rightarrow> ('s, client_error, changes_response) comp"

section \<open>Data\<close>

definition SYNTHETIC_SENTINEL :: string where
  "SYNTHETIC_SENTINEL = ''HELIUM_SYNC_TRANSPORT_TEST_PLAINTEXT_7f3a9c21''"
definition BOOKMARK_NAMESPACE :: string where "BOOKMARK_NAMESPACE = ''helium.bookmarks.v1''"
definition EXTENSION_MANIFEST_NAMESPACE :: string where
  "EXTENSION_MANIFEST_NAMESPACE = ''helium.extensions.manifest.v1''"
definition EXTENSION_CHUNK_NAMESPACE :: string where
  "EXTENSION_CHUNK_NAMESPACE = ''helium.extensions.chunk.v1''"
definition EXTENSION_CHUNK_BYTES :: nat where "EXTENSION_CHUNK_BYTES = 2900000"

record sync_proof =
  sp_object_id :: object_id
  sp_namespace :: string
  sp_revision :: u64
  sp_cursor :: u64
  sp_plaintext_matches :: bool

record extension_stats =
  es_extensions :: u64
  es_files :: u64
  es_bytes :: u64

record extension_descriptor =
  ed_format :: string
  ed_profile_directory :: string
  ed_archive_sha256 :: string
  ed_archive_bytes :: u64
  ed_stats :: extension_stats

record extension_chunk =
  ec_object_id :: object_id
  ec_revision :: u64
  ec_sha256 :: string
  ec_bytes :: u64

record extension_manifest =
  em_format :: string
  em_profile_directory :: string
  em_archive_sha256 :: string
  em_archive_bytes :: u64
  em_stats :: extension_stats
  em_chunks :: "extension_chunk list"

record 's core =
  core_api :: "'s api"
  core_suite :: suite
  core_master :: bytes
  core_device :: device_id
  core_ids :: "nat \<Rightarrow> uuid"
  core_nonces :: "nat \<Rightarrow> bytes"
  core_clock :: "nat \<Rightarrow> timestamp"
  snapshot_json :: "bookmark_snapshot \<Rightarrow> bytes option"
  snapshot_parse :: "bytes \<Rightarrow> bookmark_snapshot option"
  manifest_json :: "extension_manifest \<Rightarrow> bytes option"
  manifest_parse :: "bytes \<Rightarrow> extension_manifest option"
  error_text :: "client_error \<Rightarrow> string"
  core_id_text :: "uuid \<Rightarrow> string"

record 's client =
  cl_remote :: 's
  cl_draws :: nat

definition call :: "('s, 'e, 'a) comp \<Rightarrow> ('s client, 'e, 'a) comp" where
  "call m c = (let (r, w) = m (cl_remote c) in (r, c\<lparr>cl_remote := w\<rparr>))"

definition draw :: "('s client, 'e, nat) comp" where
  "draw c = (Inr (cl_draws c), c\<lparr>cl_draws := Suc (cl_draws c)\<rparr>)"

lemma call_iff [result_simps]:
  "call m c = (r, c') \<longleftrightarrow> (\<exists>w. m (cl_remote c) = (r, w) \<and> c' = c\<lparr>cl_remote := w\<rparr>)"
  by (auto simp: call_def split: prod.splits)

lemma draw_iff [result_simps]: "draw c = (r, c') \<longleftrightarrow> r = Inr (cl_draws c) \<and> c' = c\<lparr>cl_draws := Suc (cl_draws c)\<rparr>"
  by (auto simp: draw_def)

definition hex_digit :: "nat \<Rightarrow> char" where
  "hex_digit n = char_of (if n < 10 then 48 + n else 87 + n)"

definition sha256_bytes :: "suite \<Rightarrow> bytes \<Rightarrow> string" where
  "sha256_bytes c b = concat (map (\<lambda>w. [hex_digit (unat w div 16), hex_digit (unat w mod 16)]) (digest256 c b))"

definition is_undecryptable_candidate :: "client_error \<Rightarrow> bool" where
  "is_undecryptable_candidate er \<longleftrightarrow> er = authentication_failed"

text \<open>\<open>u64::try_from(len)\<close> never fails for a length that fits the address space.\<close>

definition len_u64 :: "'a list \<Rightarrow> u64" where
  "len_u64 xs = word_of_nat (length xs)"

section \<open>Objects\<close>

definition core_register_device :: "'s core \<Rightarrow> string \<Rightarrow> ('s client, client_error, unit) comp" where
  "core_register_device k name c =
     (case call (api_register (core_api k) \<lparr>reg_id = core_device k, reg_name = name\<rparr>) c of
        (Inr _, c') \<Rightarrow> (Inr (), c')
      | (Inl (ApiFailure status code message), c') \<Rightarrow>
          if code = ''device_exists'' then (Inr (), c') else (Inl (ApiFailure status code message), c')
      | (Inl er, c') \<Rightarrow> (Inl er, c'))"

definition sync_base_purpose :: "string \<Rightarrow> string \<Rightarrow> string" where
  "sync_base_purpose namespace dir = namespace @ '':'' @ dir"

definition protect_base :: "'s core \<Rightarrow> string \<Rightarrow> string \<Rightarrow> bytes \<Rightarrow> ('s client, client_error, bytes) comp" where
  "protect_base k namespace dir plaintext =
     bindS draw (\<lambda>n. liftS (encrypt_local_state (core_suite k) (core_nonces k n) (core_master k)
       (sync_base_purpose namespace dir) plaintext))"

definition open_base :: "'s core \<Rightarrow> string \<Rightarrow> string \<Rightarrow> bytes \<Rightarrow> client_error + bytes" where
  "open_base k namespace dir encrypted =
     decrypt_local_state (core_suite k) (core_master k) (sync_base_purpose namespace dir) encrypted"

abbreviation "protect_sync_base k \<equiv> protect_base k BOOKMARK_NAMESPACE"
abbreviation "open_sync_base k \<equiv> open_base k BOOKMARK_NAMESPACE"
abbreviation "protect_extension_sync_base k \<equiv> protect_base k EXTENSION_MANIFEST_NAMESPACE"
abbreviation "open_extension_sync_base k \<equiv> open_base k EXTENSION_MANIFEST_NAMESPACE"

definition upload_metadata :: "'s core \<Rightarrow> string \<Rightarrow> object_id \<Rightarrow> u64 option \<Rightarrow> nat \<Rightarrow> object_metadata" where
  "upload_metadata k namespace i base n =
     \<lparr>om_protocol = PROTOCOL_MAX, om_object_id = i, om_namespace = namespace, om_device_id = core_device k,
      om_revision = (case base of None \<Rightarrow> 1 | Some r \<Rightarrow> saturating_add_u64 r 1),
      om_modified_at = core_clock k n\<rparr>"

definition upload ::
  "'s core \<Rightarrow> string \<Rightarrow> bytes \<Rightarrow> object_id option \<Rightarrow> u64 option \<Rightarrow> ('s client, client_error, sync_proof) comp" where
  "upload k namespace plaintext object_id base_revision =
     bindS draw (\<lambda>n.
     let i = (case object_id of None \<Rightarrow> ObjectId (core_ids k n) | Some i \<Rightarrow> i);
         metadata = upload_metadata k namespace i base_revision n
     in bindS (liftS (encrypt (core_suite k) (core_nonces k n) (core_master k) metadata plaintext)) (\<lambda>envelope.
        bindS (call (api_put (core_api k) i
                 \<lparr>put_namespace = namespace, put_base_revision = base_revision, put_device_id = core_device k,
                  put_modified_at = core_clock k n, put_envelope = envelope\<rparr>)) (\<lambda>_.
        bindS (call (api_get (core_api k) i)) (\<lambda>stored.
        bindS (liftS (decrypt (core_suite k) (core_master k) stored)) (\<lambda>decrypted.
        if decrypted \<noteq> plaintext
        then liftS (Inl (CryptoError ''retrieved plaintext did not match the uploaded object''))
        else returnS \<lparr>sp_object_id = i, sp_namespace = namespace, sp_revision = so_revision stored,
                      sp_cursor = so_cursor stored, sp_plaintext_matches = True\<rparr>)))))"

definition download ::
  "'s core \<Rightarrow> string \<Rightarrow> object_id \<Rightarrow> ('s client, client_error, bytes \<times> sync_proof) comp" where
  "download k expected_namespace i =
     bindS (call (api_get (core_api k) i)) (\<lambda>stored.
       if so_namespace stored \<noteq> expected_namespace
       then liftS (Inl (Serialization (''server object has unexpected namespace '' @ so_namespace stored)))
       else bindS (liftS (decrypt (core_suite k) (core_master k) stored)) (\<lambda>plaintext.
            returnS (plaintext,
              \<lparr>sp_object_id = i, sp_namespace = so_namespace stored, sp_revision = so_revision stored,
               sp_cursor = so_cursor stored, sp_plaintext_matches = True\<rparr>)))"

fun delete_objects :: "'s core \<Rightarrow> (object_id \<times> u64) list \<Rightarrow> ('s client, client_error, unit) comp" where
  "delete_objects k [] = returnS ()"
| "delete_objects k ((i, revision) # rest) =
     bindS draw (\<lambda>n.
     bindS (call (api_delete (core_api k) i
              \<lparr>del_base_revision = revision, del_device_id = core_device k,
               del_modified_at = core_clock k n\<rparr>)) (\<lambda>_.
     delete_objects k rest))"

definition round_trip :: "'s core \<Rightarrow> string \<Rightarrow> bytes \<Rightarrow> ('s client, client_error, sync_proof) comp" where
  "round_trip k namespace plaintext = upload k namespace plaintext None None"

definition synthetic_round_trip :: "'s core \<Rightarrow> ('s client, client_error, sync_proof) comp" where
  "synthetic_round_trip k = round_trip k ''synthetic.v1'' (ascii SYNTHETIC_SENTINEL)"

section \<open>Bookmarks\<close>

definition save_bookmark_snapshot ::
  "'s core \<Rightarrow> bookmark_snapshot \<Rightarrow> object_id option \<Rightarrow> u64 option \<Rightarrow> ('s client, client_error, sync_proof) comp" where
  "save_bookmark_snapshot k snapshot object_id base_revision =
     (if (object_id \<noteq> None) \<noteq> (base_revision \<noteq> None)
      then liftS (Inl (StateError
             ''bookmark object ID and revision must either both exist or both be absent''))
      else bindS (liftS (ok_or (Serialization ''json'') (snapshot_json k snapshot))) (\<lambda>plaintext.
           upload k BOOKMARK_NAMESPACE plaintext object_id base_revision))"

text \<open>\<open>read_bookmarks\<close> of the profile is the argument.\<close>

definition save_bookmarks ::
  "'s core \<Rightarrow> profile_error + bookmark_snapshot \<Rightarrow> object_id option \<Rightarrow> u64 option \<Rightarrow>
     ('s client, client_error, sync_proof \<times> bookmark_snapshot) comp" where
  "save_bookmarks k read object_id base_revision =
     bindS (liftS (map_err ProfileFailure read)) (\<lambda>snapshot.
     bindS (save_bookmark_snapshot k snapshot object_id base_revision) (\<lambda>p. returnS (p, snapshot)))"

definition bookmark_round_trip ::
  "'s core \<Rightarrow> profile_error + bookmark_snapshot \<Rightarrow>
     ('s client, client_error, sync_proof \<times> bookmark_snapshot) comp" where
  "bookmark_round_trip k read =
     bindS (liftS (map_err ProfileFailure read)) (\<lambda>snapshot.
     bindS (liftS (ok_or (Serialization ''json'') (snapshot_json k snapshot))) (\<lambda>plaintext.
     bindS (upload k BOOKMARK_NAMESPACE plaintext None None) (\<lambda>p. returnS (p, snapshot))))"

definition load_bookmarks ::
  "'s core \<Rightarrow> object_id \<Rightarrow> ('s client, client_error, bookmark_snapshot \<times> sync_proof) comp" where
  "load_bookmarks k i =
     bindS (download k BOOKMARK_NAMESPACE i) (\<lambda>(plaintext, p).
     bindS (liftS (ok_or (Serialization ''json'') (snapshot_parse k plaintext))) (\<lambda>snapshot.
     returnS (snapshot, p)))"

section \<open>Discovery\<close>

type_synonym candidates = "(object_id \<times> u64 \<times> bool) list"

text \<open>\<open>HashMap::insert\<close> of every change of the namespace, the later one winning.\<close>

definition add_candidates :: "string \<Rightarrow> change list \<Rightarrow> candidates \<Rightarrow> candidates" where
  "add_candidates namespace chs cands =
     fold (\<lambda>ch. upsert_row fst (ch_object_id ch, ch_cursor ch, ch_deleted ch))
       (filter (\<lambda>ch. ch_namespace ch = namespace) chs) cands"

function candidate_pages ::
  "'s core \<Rightarrow> string \<Rightarrow> u64 \<Rightarrow> candidates \<Rightarrow> 's client \<Rightarrow> (client_error + candidates) \<times> 's client" where
  "candidate_pages k namespace after cands c =
     (case call (api_changes (core_api k) after) c of
        (Inl er, c') \<Rightarrow> (Inl er, c')
      | (Inr page, c') \<Rightarrow>
          (let cands' = add_candidates namespace (page_changes page) cands
           in if \<not> page_has_more page then (Inr cands', c')
              else if page_next_cursor page \<le> after
              then (Inl (Serialization ''server change cursor did not advance''), c')
              else candidate_pages k namespace (page_next_cursor page) cands' c'))"
  by pat_completeness auto

text \<open>The loop ends for every server: the cursor it follows grows at each round.\<close>

termination
proof (relation "measure (\<lambda>(k, namespace, after, cands, c). 2 ^ 64 - unat after)")
  fix k :: "'s core" and namespace after cands c x c' page cands'
  assume "\<not> page_next_cursor (page :: changes_response) \<le> after"
  then have "unat after < unat (page_next_cursor page)"
    by (simp add: word_less_nat_alt [symmetric])
  moreover have "unat (page_next_cursor page) < 2 ^ 64"
    using unsigned_less [of "page_next_cursor page", where 'a = nat] by simp
  ultimately show "((k, namespace, page_next_cursor page, cands', c'), (k, namespace, after, cands, c))
      \<in> measure (\<lambda>(k, namespace, after, cands, c). 2 ^ 64 - unat after)"
    by simp
qed simp

declare candidate_pages.simps [simp del]

text \<open>The live candidates, the latest change first.\<close>

definition live_candidates :: "candidates \<Rightarrow> object_id list" where
  "live_candidates cands =
     map fst (sort_key (\<lambda>(i, cursor, deleted). - uint cursor) (filter (\<lambda>(i, cursor, deleted). \<not> deleted) cands))"

fun try_candidates ::
  "(object_id \<Rightarrow> ('s client, client_error, 'a \<times> sync_proof) comp) \<Rightarrow> ('a \<Rightarrow> bool) \<Rightarrow> object_id list \<Rightarrow>
     ('s client, client_error, ('a \<times> sync_proof) option) comp" where
  "try_candidates load wanted [] = returnS None"
| "try_candidates load wanted (i # rest) = (\<lambda>c.
     case load i c of
       (Inr (x, p), c') \<Rightarrow> if wanted x then (Inr (Some (x, p)), c') else try_candidates load wanted rest c'
     | (Inl er, c') \<Rightarrow> if is_undecryptable_candidate er then try_candidates load wanted rest c' else (Inl er, c'))"

definition discover_bookmarks ::
  "'s core \<Rightarrow> string \<Rightarrow> ('s client, client_error, (bookmark_snapshot \<times> sync_proof) option) comp" where
  "discover_bookmarks k dir =
     bindS (candidate_pages k BOOKMARK_NAMESPACE 0 []) (\<lambda>cands.
     try_candidates (load_bookmarks k) (\<lambda>snapshot. bs_profile_directory snapshot = dir) (live_candidates cands))"

section \<open>Extension bundles\<close>

definition load_extension_manifest ::
  "'s core \<Rightarrow> object_id \<Rightarrow> ('s client, client_error, extension_manifest \<times> sync_proof) comp" where
  "load_extension_manifest k i =
     bindS (download k EXTENSION_MANIFEST_NAMESPACE i) (\<lambda>(plaintext, p).
     bindS (liftS (ok_or (Serialization ''json'') (manifest_parse k plaintext))) (\<lambda>manifest.
     returnS (manifest, p)))"

definition discover_extension_bundle ::
  "'s core \<Rightarrow> string \<Rightarrow> ('s client, client_error, (extension_manifest \<times> sync_proof) option) comp" where
  "discover_extension_bundle k dir =
     bindS (candidate_pages k EXTENSION_MANIFEST_NAMESPACE 0 []) (\<lambda>cands.
     try_candidates (load_extension_manifest k) (\<lambda>manifest. em_profile_directory manifest = dir)
       (live_candidates cands))"

function chunks_of :: "nat \<Rightarrow> 'a list \<Rightarrow> 'a list list" where
  "chunks_of n xs = (if xs = [] \<or> n = 0 then [] else take n xs # chunks_of n (drop n xs))"
  by pat_completeness auto
termination by (relation "measure (\<lambda>(n, xs). length xs)") auto

declare chunks_of.simps [simp del]

type_synonym uploaded = "sync_proof \<times> string \<times> u64"

definition uploaded_objects :: "uploaded list \<Rightarrow> (object_id \<times> u64) list" where
  "uploaded_objects us = map (\<lambda>(p, sha, n). (sp_object_id p, sp_revision p)) us"

text \<open>On a failure the new chunks are deleted again; a failed clean-up is reported with it.\<close>

definition clean_up ::
  "'s core \<Rightarrow> string \<Rightarrow> string \<Rightarrow> uploaded list \<Rightarrow> client_error \<Rightarrow> ('s client, client_error, 'a) comp" where
  "clean_up k what cleanup_text us er c =
     (case delete_objects k (uploaded_objects us) c of
        (Inr _, c') \<Rightarrow> (Inl er, c')
      | (Inl cleanup_error, c') \<Rightarrow>
          (Inl (StateError (what @ '' ('' @ error_text k er @ ''); '' @ cleanup_text @ '' ('' @
             error_text k cleanup_error @ '')'')), c'))"

fun upload_chunks ::
  "'s core \<Rightarrow> uploaded list \<Rightarrow> bytes list \<Rightarrow> ('s client, client_error, uploaded list) comp" where
  "upload_chunks k us [] = returnS us"
| "upload_chunks k us (chunk # rest) = (\<lambda>c.
     case upload k EXTENSION_CHUNK_NAMESPACE chunk None None c of
       (Inr p, c') \<Rightarrow> upload_chunks k (us @ [(p, sha256_bytes (core_suite k) chunk, len_u64 chunk)]) rest c'
     | (Inl er, c') \<Rightarrow>
         clean_up k ''extension chunk upload failed'' ''cleanup also failed'' us er c')"

definition manifest_for :: "extension_descriptor \<Rightarrow> uploaded list \<Rightarrow> extension_manifest" where
  "manifest_for d us =
     \<lparr>em_format = ed_format d, em_profile_directory = ed_profile_directory d,
      em_archive_sha256 = ed_archive_sha256 d, em_archive_bytes = ed_archive_bytes d, em_stats = ed_stats d,
      em_chunks = map (\<lambda>(p, sha, n). \<lparr>ec_object_id = sp_object_id p, ec_revision = sp_revision p,
                                       ec_sha256 = sha, ec_bytes = n\<rparr>) us\<rparr>"

definition old_chunks :: "extension_manifest option \<Rightarrow> (object_id \<times> u64) list" where
  "old_chunks m = (case m of None \<Rightarrow> [] | Some m \<Rightarrow> map (\<lambda>ch. (ec_object_id ch, ec_revision ch)) (em_chunks m))"

definition delete_old_chunks :: "'s core \<Rightarrow> extension_manifest option \<Rightarrow> ('s client, client_error, unit) comp" where
  "delete_old_chunks k m c =
     (case delete_objects k (old_chunks m) c of
        (Inr _, c') \<Rightarrow> (Inr (), c')
      | (Inl er, c') \<Rightarrow>
          (Inl (StateError (''the new extension snapshot is active, but old chunk cleanup failed: '' @
             error_text k er)), c'))"

definition save_extension_bundle ::
  "'s core \<Rightarrow> extension_descriptor \<Rightarrow> bytes \<Rightarrow> object_id option \<Rightarrow> u64 option \<Rightarrow>
     ('s client, client_error, sync_proof \<times> extension_manifest) comp" where
  "save_extension_bundle k d archive object_id base_revision =
     (if (object_id \<noteq> None) \<noteq> (base_revision \<noteq> None)
      then liftS (Inl (StateError
             ''extension manifest object ID and revision must either both exist or both be absent''))
      else if ed_archive_bytes d \<noteq> len_u64 archive \<or> ed_archive_sha256 d \<noteq> sha256_bytes (core_suite k) archive
      then liftS (Inl (Serialization ''extension archive does not match its descriptor''))
      else bindS (case object_id of
                    None \<Rightarrow> returnS None
                  | Some i \<Rightarrow> bindS (load_extension_manifest k i) (\<lambda>(m, p). returnS (Some m))) (\<lambda>old_manifest.
           bindS (upload_chunks k [] (chunks_of EXTENSION_CHUNK_BYTES archive)) (\<lambda>us.
           bindS (liftS (ok_or (Serialization ''json'') (manifest_json k (manifest_for d us)))) (\<lambda>plaintext.
           bindS (\<lambda>c. case upload k EXTENSION_MANIFEST_NAMESPACE plaintext object_id base_revision c of
                        (Inr p, c') \<Rightarrow> (Inr p, c')
                      | (Inl er, c') \<Rightarrow>
                          clean_up k ''extension manifest upload failed'' ''new chunk cleanup also failed'' us er c') (\<lambda>p.
           bindS (delete_old_chunks k old_manifest) (\<lambda>_.
           returnS (p, manifest_for d us)))))))"

fun load_chunks ::
  "'s core \<Rightarrow> extension_chunk list \<Rightarrow> bytes \<Rightarrow> ('s client, client_error, bytes) comp" where
  "load_chunks k [] archive = returnS archive"
| "load_chunks k (chunk # rest) archive =
     bindS (download k EXTENSION_CHUNK_NAMESPACE (ec_object_id chunk)) (\<lambda>(plaintext, p).
       if sp_revision p \<noteq> ec_revision chunk \<or> len_u64 plaintext \<noteq> ec_bytes chunk
          \<or> sha256_bytes (core_suite k) plaintext \<noteq> ec_sha256 chunk
       then liftS (Inl (CryptoError (''extension chunk '' @ core_id_text k (object_uuid (ec_object_id chunk)) @
                '' failed manifest verification'')))
       else load_chunks k rest (archive @ plaintext))"

definition load_extension_bundle ::
  "'s core \<Rightarrow> object_id \<Rightarrow> ('s client, client_error, extension_manifest \<times> bytes \<times> sync_proof) comp" where
  "load_extension_bundle k i =
     bindS (load_extension_manifest k i) (\<lambda>(manifest, p).
     bindS (load_chunks k (em_chunks manifest) []) (\<lambda>archive.
       if len_u64 archive \<noteq> em_archive_bytes manifest
          \<or> sha256_bytes (core_suite k) archive \<noteq> em_archive_sha256 manifest
       then liftS (Inl (CryptoError ''reassembled extension archive failed manifest verification''))
       else returnS (manifest, archive, p)))"

end
