(* ===== verification/ObjectStore.thy ===== *)
theory ObjectStore
  imports Orchestration ServerProps
begin

text \<open>
  The contract between the client core and a server, as a locale: \<open>rep w s\<close> says that the
  remote state \<open>w\<close> holds the store \<open>s\<close>, \<open>others\<close> is what other clients may do to it before
  a call is served. A call that answers does what the store says; a write that reports an error
  may or may not have happened, since the answer itself can be lost. The client's lemmas are
  proved inside it. \<open>store_api\<close> is the reference server: the store itself, whose \<open>n\<close>-th
  call is dropped, answered or answered and lost as \<open>fate n\<close> says.
\<close>

text \<open>The limit of a changes request that names none.\<close>

definition default_changes_limit :: u32 where "default_changes_limit = 100"

text \<open>What holds of every store a server represents: the log is in cursor order and an object is the
  one its last change announced.\<close>

definition changes_of :: "object_id \<Rightarrow> store \<Rightarrow> change list" where
  "changes_of i s = filter (\<lambda>ch. ch_object_id ch = i) (st_log s)"

definition store_ok :: "store \<Rightarrow> bool" where
  "store_ok s \<longleftrightarrow>
     sorted_wrt (<) (map ch_cursor (st_log s)) \<and> (\<forall>ch \<in> set (st_log s). 0 < ch_cursor ch) \<and>
     (\<forall>i ob. st_objects s i = Some ob \<longrightarrow>
        so_id ob = i \<and> changes_of i s \<noteq> [] \<and> last (changes_of i s) = change_of_object ob)"

lemma sim_store_ok:
  assumes codec: "codec_ok e" and sim: "sim e d s"
  shows "store_ok s"
proof -
  note inv = simD(1) [OF sim]
  have cursors: "map cr_cursor (db_changes d) = map (\<lambda>ch. uint (ch_cursor ch)) (st_log s)"
    using simD(5) [OF sim] by (induction rule: list_all2_induct) (simp_all add: change_enc_def)
  with db_invD(5) [OF inv] have sorted: "sorted_wrt (<) (map ch_cursor (st_log s))"
    by (simp add: sorted_wrt_map word_less_def)
  have pos: "0 < ch_cursor ch" if "ch \<in> set (st_log s)" for ch
  proof -
    have "uint (ch_cursor ch) \<in> set (map cr_cursor (db_changes d))" unfolding cursors using that by auto
    then show ?thesis using db_invD(6) [OF inv] by (auto simp: change_ok_def word_less_def)
  qed
  have "changes_of i s \<noteq> [] \<and> last (changes_of i s) = change_of_object ob" if ob: "st_objects s i = Some ob" for i ob
  proof -
    from simD(3) [OF sim, of i] ob obtain r where r: "current_row e i d = Some r" "object_enc e r ob"
      by (auto simp: option_rel_Some2)
    note row = current_row_object [OF inv r(1)]
    have enc: "list_all2 (change_enc e) (history (or_id r) d) (changes_of i s)"
      unfolding history_def changes_of_def
      by (rule list_all2_filter [OF simD(5) [OF sim]])
        (simp add: change_enc_def row(2) codec_ok_uuid_inj [OF codec])
    have h: "history (or_id r) d \<noteq> []" "last (history (or_id r) d) = change_of_row r"
      using row(3) by (auto simp: object_ok_def)
    then have "changes_of i s \<noteq> []" using enc by auto
    moreover have "change_enc e (change_of_row r) (last (changes_of i s))"
      using enc h by (metis list_all2_Nil list_all2_conv_all_nth last_conv_nth length_greater_0_conv diff_less zero_less_one)
    then have "last (changes_of i s) = change_of_object ob"
      using row_to_change_enc [OF codec] change_enc_of_object [OF r(2)] by (metis sum.inject(2))
    ultimately show ?thesis ..
  qed
  with sorted pos simD(4) [OF sim] show ?thesis by (auto simp: store_ok_def)
qed

lemma store_okD:
  assumes "store_ok s"
  shows "sorted_wrt (<) (map ch_cursor (st_log s))" "ch \<in> set (st_log s) \<Longrightarrow> 0 < ch_cursor ch"
    "st_objects s i = Some ob \<Longrightarrow> so_id ob = i"
    "st_objects s i = Some ob \<Longrightarrow> changes_of i s \<noteq> []"
    "st_objects s i = Some ob \<Longrightarrow> last (changes_of i s) = change_of_object ob"
  using assms unfolding store_ok_def by auto

section \<open>Following the change feed\<close>

definition later :: "u64 \<Rightarrow> store \<Rightarrow> change list" where
  "later after s = filter (\<lambda>ch. after < ch_cursor ch) (st_log s)"

lemma spec_changes_fields:
  "page_changes (spec_changes after n s) = take n (later after s)"
  "page_has_more (spec_changes after n s) = (n < length (later after s))"
  "page_next_cursor (spec_changes after n s) =
     (if take n (later after s) = [] then after else ch_cursor (last (take n (later after s))))"
  by (simp_all add: spec_changes_def later_def Let_def)

lemma later_after_page:
  assumes "store_ok s" and "0 < n" and "n < length (later after s)"
  shows "after < page_next_cursor (spec_changes after n s)"
    and "later (page_next_cursor (spec_changes after n s)) s = drop n (later after s)"
proof -
  let ?l = "later after s" and ?nxt = "page_next_cursor (spec_changes after n s)"
  have sorted: "sorted_wrt (\<lambda>a b. ch_cursor a < ch_cursor b) ?l"
    using store_okD(1) [OF assms(1)] by (simp add: later_def sorted_wrt_map sorted_wrt_filter)
  from assms(2,3) have nxt: "?nxt = ch_cursor (?l ! (n - 1))"
    by (auto simp: spec_changes_fields last_conv_nth min_def)
  have "?l ! (n - 1) \<in> set ?l" using assms(2,3) by simp
  then show "after < ?nxt" unfolding nxt by (simp add: later_def)
  have before: "\<not> ?nxt < ch_cursor x" if x: "x \<in> set (take n ?l)" for x
  proof -
    obtain j where j: "j < n" "x = ?l ! j" using x assms(3) by (auto simp: in_set_conv_nth)
    show ?thesis
    proof (cases "j = n - 1")
      case False
      then have "ch_cursor (?l ! j) < ch_cursor (?l ! (n - 1))"
        using sorted j assms(2,3) by (auto intro: sorted_wrt_nth_less)
      then show ?thesis using j nxt by auto
    qed (use j nxt in simp)
  qed
  have after': "?nxt < ch_cursor x" if x: "x \<in> set (drop n ?l)" for x
  proof -
    obtain j where j: "n \<le> j" "j < length ?l" "x = ?l ! j"
      using x by (auto simp: in_set_conv_nth) (metis add.commute le_add1 less_diff_conv)
    then show ?thesis
      using sorted assms(2) unfolding nxt by (auto intro: sorted_wrt_nth_less)
  qed
  have "later ?nxt s = filter (\<lambda>ch. ?nxt < ch_cursor ch) ?l"
    using \<open>after < ?nxt\<close> by (auto simp: later_def intro!: filter_cong)
  also have "\<dots> = filter (\<lambda>ch. ?nxt < ch_cursor ch) (take n ?l @ drop n ?l)" by simp
  also have "\<dots> = drop n ?l"
    unfolding filter_append using before after' by (simp add: filter_False filter_True)
  finally show "later ?nxt s = drop n ?l" .
qed

lemma add_candidates_append:
  "add_candidates namespace (xs @ ys) cands = add_candidates namespace ys (add_candidates namespace xs cands)"
  by (simp add: add_candidates_def)

lemma add_candidates_key: "key_ok fst cands \<Longrightarrow> key_ok fst (add_candidates namespace xs cands)"
proof (induction xs arbitrary: cands)
  case (Cons ch xs)
  then show ?case by (simp add: add_candidates_def key_ok_upsert)
qed (simp add: add_candidates_def)

lemma add_candidates_lookup:
  "find_row fst i (add_candidates namespace xs cands) =
     (let own = filter (\<lambda>ch. ch_namespace ch = namespace \<and> ch_object_id ch = i) xs
      in if own = [] then find_row fst i cands else Some (i, ch_cursor (last own), ch_deleted (last own)))"
proof (induction xs rule: rev_induct)
  case (snoc ch xs)
  then show ?case
    by (simp add: add_candidates_append Let_def) (auto simp: add_candidates_def find_row_upsert)
qed (simp add: add_candidates_def)

lemma live_candidates_iff:
  assumes "key_ok fst cands"
  shows "i \<in> set (live_candidates cands) \<longleftrightarrow> (\<exists>cursor. find_row fst i cands = Some (i, cursor, False))"
  unfolding live_candidates_def find_row_Some_iff [OF assms] by force

text \<open>A live object of the namespace is among the candidates.\<close>

lemma live_object_candidate:
  assumes "store_ok s" and "st_objects s i = Some ob" and "so_namespace ob = namespace" and "\<not> so_deleted ob"
  shows "i \<in> set (live_candidates (add_candidates namespace (later 0 s) []))"
proof -
  let ?own = "filter (\<lambda>ch. ch_namespace ch = namespace \<and> ch_object_id ch = i) (later 0 s)"
  have "later 0 s = st_log s"
    using store_okD(2) [OF assms(1)] by (simp add: later_def filter_True)
  then have own: "?own = filter (\<lambda>ch. ch_namespace ch = namespace) (changes_of i s)"
    by (simp add: changes_of_def conj_commute)
  have last: "changes_of i s \<noteq> []" "last (changes_of i s) = change_of_object ob"
    using store_okD(4,5) [OF assms(1,2)] .
  then obtain front where "changes_of i s = front @ [change_of_object ob]"
    by (metis append_butlast_last_id)
  moreover have "ch_namespace (change_of_object ob) = namespace" using assms(3) by (simp add: change_of_object_def)
  ultimately have "?own = filter (\<lambda>ch. ch_namespace ch = namespace) front @ [change_of_object ob]"
    unfolding own by simp
  then have "?own \<noteq> []" "last ?own = change_of_object ob" by simp_all
  then have "find_row fst i (add_candidates namespace (later 0 s) []) = Some (i, so_cursor ob, False)"
    using assms(4) unfolding add_candidates_lookup by (simp add: Let_def change_of_object_def)
  then show ?thesis
    by (subst live_candidates_iff) (auto intro: add_candidates_key)
qed

text \<open>What the store holds of a snapshot: an object of the bookmark namespace whose plaintext reads
  back as it.\<close>

definition holds_bookmarks :: "'s core \<Rightarrow> store \<Rightarrow> object_id \<Rightarrow> bookmark_snapshot \<Rightarrow> bool" where
  "holds_bookmarks k s i snapshot \<longleftrightarrow>
     (\<exists>ob plaintext. st_objects s i = Some ob \<and> so_namespace ob = BOOKMARK_NAMESPACE \<and>
        decrypt (core_suite k) (core_master k) ob = Inr plaintext \<and> snapshot_parse k plaintext = Some snapshot)"

definition other_profile :: "'s core \<Rightarrow> store \<Rightarrow> string \<Rightarrow> object_id \<Rightarrow> bool" where
  "other_profile k s dir i \<longleftrightarrow>
     (\<exists>ob. st_objects s i = Some ob \<and> decrypt (core_suite k) (core_master k) ob = Inl authentication_failed) \<or>
     (\<exists>snapshot. holds_bookmarks k s i snapshot \<and> bs_profile_directory snapshot \<noteq> dir)"

section \<open>The contract\<close>

locale object_store =
  fixes api :: "'s api" and rep :: "'s \<Rightarrow> store \<Rightarrow> bool" and others :: "store \<Rightarrow> store \<Rightarrow> bool"
  assumes others_refl: "others s s"
    and others_trans: "others s t \<Longrightarrow> others t u \<Longrightarrow> others s u"
    and rep_ok: "rep w s \<Longrightarrow> store_ok s"
    and get_law: "rep w s \<Longrightarrow> api_get api i w = (r, w') \<Longrightarrow>
      \<exists>s1. others s s1 \<and> rep w' s1 \<and> (\<forall>ob. r = Inr ob \<longrightarrow> st_objects s1 i = Some ob)"
    and get_error: "api_get api i w = (Inl er, w') \<Longrightarrow> er \<noteq> authentication_failed"
    and changes_law: "rep w s \<Longrightarrow> api_changes api after w = (pr, w') \<Longrightarrow>
      \<exists>s1. others s s1 \<and> rep w' s1 \<and>
        (\<forall>page. pr = Inr page \<longrightarrow> page = spec_changes after (nat (uint default_changes_limit)) s1)"
    and put_law: "rep w s \<Longrightarrow> api_put api i req w = (r, w') \<Longrightarrow>
      \<exists>s1 s2. others s s1 \<and> rep w' s2 \<and>
        (r \<in> range Inl \<and> s2 = s1 \<or> (\<exists>ob. spec_put i req s1 = Some (ob, s2) \<and> (r = Inr ob \<or> r \<in> range Inl)))"
    and delete_law: "rep w s \<Longrightarrow> api_delete api i dreq w = (r, w') \<Longrightarrow>
      \<exists>s1 s2. others s s1 \<and> rep w' s2 \<and>
        (r \<in> range Inl \<and> s2 = s1 \<or> (\<exists>ob. spec_delete i dreq s1 = Some (ob, s2) \<and> (r = Inr ob \<or> r \<in> range Inl)))"
begin

lemma get_Inr:
  assumes "rep w s" and "api_get api i w = (Inr ob, w')"
  obtains s1 where "others s s1" "rep w' s1" "st_objects s1 i = Some ob"
  using get_law [OF assms] by auto

lemma put_Inr:
  assumes "rep w s" and "api_put api i req w = (Inr ob, w')"
  obtains s1 s2 where "others s s1" "spec_put i req s1 = Some (ob, s2)" "rep w' s2"
  using put_law [OF assms] by auto

lemma delete_Inr:
  assumes "rep w s" and "api_delete api i req w = (Inr ob, w')"
  obtains s1 s2 where "others s s1" "spec_delete i req s1 = Some (ob, s2)" "rep w' s2"
  using delete_law [OF assms] by auto

text \<open>A successful upload put the object and read it back with the same plaintext.\<close>

lemma upload_Inr:
  assumes api: "core_api k = api" and rep: "rep (cl_remote c) s"
    and run: "upload k namespace plaintext oid base c = (Inr p, c')"
  obtains s1 req ob1 s2 s3 ob where "others s s1" "spec_put (sp_object_id p) req s1 = Some (ob1, s2)"
    "put_namespace req = namespace" "put_base_revision req = base" "put_device_id req = core_device k"
    "others s2 s3" "rep (cl_remote c') s3" "st_objects s3 (sp_object_id p) = Some ob"
    "decrypt (core_suite k) (core_master k) ob = Inr plaintext"
    "sp_revision p = so_revision ob" "sp_cursor p = so_cursor ob"
    "oid = None \<or> oid = Some (sp_object_id p)"
proof -
  let ?i = "case oid of None \<Rightarrow> ObjectId (core_ids k (cl_draws c)) | Some i \<Rightarrow> i"
  from run api obtain envelope ob1 w1 w2 ob where
    step: "api_put api ?i \<lparr>put_namespace = namespace, put_base_revision = base, put_device_id = core_device k,
        put_modified_at = core_clock k (cl_draws c), put_envelope = envelope\<rparr> (cl_remote c) = (Inr ob1, w1)"
      (is "api_put api ?i ?req (cl_remote c) = (Inr ob1, w1)")
    "api_get api ?i w1 = (Inr ob, w2)" "cl_remote c' = w2"
    "decrypt (core_suite k) (core_master k) ob = Inr plaintext"
    "p = \<lparr>sp_object_id = ?i, sp_namespace = namespace, sp_revision = so_revision ob,
          sp_cursor = so_cursor ob, sp_plaintext_matches = True\<rparr>"
    by (auto simp: upload_def Let_def result_simps split: if_splits)
  obtain s1 s2 where s1: "others s s1" "spec_put ?i ?req s1 = Some (ob1, s2)" "rep w1 s2"
    using put_Inr [OF rep step(1)] .
  obtain s3 where s3: "others s2 s3" "rep w2 s3" "st_objects s3 ?i = Some ob"
    using get_Inr [OF s1(3) step(2)] .
  show ?thesis
    by (rule that [of s1 ?req ob1 s2 s3 ob]) (use s1 s3 step in \<open>auto split: option.splits\<close>)
qed

lemma download_Inr:
  assumes api: "core_api k = api" and rep: "rep (cl_remote c) s"
    and run: "download k namespace i c = (Inr (plaintext, p), c')"
  obtains s1 ob where "others s s1" "rep (cl_remote c') s1" "st_objects s1 i = Some ob"
    "so_namespace ob = namespace" "decrypt (core_suite k) (core_master k) ob = Inr plaintext"
    "p = \<lparr>sp_object_id = i, sp_namespace = namespace, sp_revision = so_revision ob,
          sp_cursor = so_cursor ob, sp_plaintext_matches = True\<rparr>"
proof -
  from run api obtain ob w1 where
    step: "api_get api i (cl_remote c) = (Inr ob, w1)" "cl_remote c' = w1" "so_namespace ob = namespace"
    "decrypt (core_suite k) (core_master k) ob = Inr plaintext"
    "p = \<lparr>sp_object_id = i, sp_namespace = namespace, sp_revision = so_revision ob,
          sp_cursor = so_cursor ob, sp_plaintext_matches = True\<rparr>"
    by (auto simp: download_def result_simps split: if_splits)
  from get_Inr [OF rep step(1)] obtain s1 where "others s s1" "rep w1 s1" "st_objects s1 i = Some ob" .
  with step that show ?thesis by blast
qed

lemma load_bookmarks_Inr:
  assumes "core_api k = api" and "rep (cl_remote c) s" and "load_bookmarks k i c = (Inr (snapshot, p), c')"
  obtains s1 where "others s s1" "rep (cl_remote c') s1" "holds_bookmarks k s1 i snapshot"
proof -
  from assms(3) obtain plaintext where d: "download k BOOKMARK_NAMESPACE i c = (Inr (plaintext, p), c')"
    "snapshot_parse k plaintext = Some snapshot"
    by (auto simp: load_bookmarks_def result_simps split: prod.splits)
  from download_Inr [OF assms(1,2) d(1)] obtain s1 ob where "others s s1" "rep (cl_remote c') s1"
    "st_objects s1 i = Some ob" "so_namespace ob = BOOKMARK_NAMESPACE"
    "decrypt (core_suite k) (core_master k) ob = Inr plaintext" .
  with d(2) that show ?thesis unfolding holds_bookmarks_def by blast
qed

lemma spec_put_object: "spec_put i req s = Some (ob, s') \<Longrightarrow> st_objects s' i = Some ob \<and> so_namespace ob = put_namespace req"
  by (auto simp: spec_put_def Let_def record_object_def put_result_def split: if_splits)

lemma save_bookmarks_Inr:
  assumes "core_api k = api" and "rep (cl_remote c) s"
    and parse: "\<And>b. snapshot_json k snapshot = Some b \<Longrightarrow> snapshot_parse k b = Some snapshot"
    and run: "save_bookmark_snapshot k snapshot oid base c = (Inr p, c')"
    and alone: "\<And>s t. others s t \<Longrightarrow> s = t"
  obtains s1 where "rep (cl_remote c') s1" "holds_bookmarks k s1 (sp_object_id p) snapshot"
proof -
  from run obtain b where t: "snapshot_json k snapshot = Some b"
    "upload k BOOKMARK_NAMESPACE b oid base c = (Inr p, c')"
    by (auto simp: save_bookmark_snapshot_def result_simps split: if_splits)
  obtain s1 req ob1 s2 s3 ob where
    u: "spec_put (sp_object_id p) req s1 = Some (ob1, s2)" "put_namespace req = BOOKMARK_NAMESPACE"
    "others s2 s3" "rep (cl_remote c') s3" "st_objects s3 (sp_object_id p) = Some ob"
    "decrypt (core_suite k) (core_master k) ob = Inr b"
    by (rule upload_Inr [OF assms(1,2) t(2)])
  from spec_put_object [OF u(1)] u(2,5) alone [OF u(3)] have "so_namespace ob = BOOKMARK_NAMESPACE" by simp
  with u(4-6) parse [OF t(1)] that show ?thesis unfolding holds_bookmarks_def by blast
qed

text \<open>With no other client writing, discovery sees exactly the changes after its cursor; the only
  errors are those of the calls: an honest server's cursor always advances.\<close>

lemma candidate_pages_sees_all:
  assumes api: "core_api k = api" and alone: "\<And>s t. others s t \<Longrightarrow> s = t"
  shows "rep (cl_remote c) s \<Longrightarrow> candidate_pages k namespace after cands c = (r, c') \<Longrightarrow>
    rep (cl_remote c') s \<and>
    (r = Inr (add_candidates namespace (later after s) cands) \<or>
     (\<exists>er a w w'. r = Inl er \<and> api_changes api a w = (Inl er, w')))"
proof (induction "2 ^ 64 - unat after" arbitrary: after cands c r c' rule: less_induct)
  case less
  let ?n = "nat (uint default_changes_limit)"
  obtain pr w where w: "api_changes api after (cl_remote c) = (pr, w)"
    by (cases "api_changes api after (cl_remote c)")
  from changes_law [OF less.prems(1) w] alone
  have law: "rep w s" "\<And>page. pr = Inr page \<Longrightarrow> page = spec_changes after ?n s"
    by blast+
  have step: "call (api_changes (core_api k) after) c = (pr, c\<lparr>cl_remote := w\<rparr>)"
    using w api by (simp add: call_def)
  show ?case
  proof (cases pr)
    case (Inl er)
    with less.prems(2) step w law(1) show ?thesis by (auto simp: candidate_pages.simps [of k])
  next
    case (Inr page)
    note page = law(2) [OF Inr]
    have n: "0 < ?n" by (simp add: default_changes_limit_def)
    show ?thesis
    proof (cases "?n < length (later after s)")
      case False
      then have "\<not> page_has_more page" "page_changes page = later after s"
        unfolding page spec_changes_fields by simp_all
      with less.prems(2) step Inr law(1) show ?thesis
        by (auto simp: candidate_pages.simps [of k] Let_def)
    next
      case True
      let ?nxt = "page_next_cursor page"
      note adv = later_after_page [OF rep_ok [OF law(1)] n True, folded page]
      have lt: "unat after < unat ?nxt" using adv(1) by (simp add: word_less_nat_alt)
      have "unat ?nxt < 2 ^ 64" using unsigned_less [of ?nxt, where 'a = nat] by simp
      with lt have m: "2 ^ 64 - unat ?nxt < 2 ^ 64 - unat after" by simp
      have fields: "page_has_more page" "page_changes page = take ?n (later after s)"
        unfolding page spec_changes_fields using True by simp_all
      then have rest: "candidate_pages k namespace ?nxt (add_candidates namespace (page_changes page) cands)
          (c\<lparr>cl_remote := w\<rparr>) = (r, c')"
        using less.prems(2) step Inr adv(1) [unfolded not_le [symmetric]] by (simp add: candidate_pages.simps [of k _ after] Let_def)
      have "add_candidates namespace (later ?nxt s) (add_candidates namespace (page_changes page) cands)
          = add_candidates namespace (later after s) cands"
        unfolding adv(2) fields(2) by (simp add: add_candidates_append [symmetric])
      with less.hyps [OF m _ rest] law(1) show ?thesis by simp
    qed
  qed
qed

lemma load_bookmarks_undecryptable:
  assumes api: "core_api k = api" and rep: "rep (cl_remote c) s" and alone: "\<And>s t. others s t \<Longrightarrow> s = t"
    and run: "load_bookmarks k i c = (Inl authentication_failed, c')"
  shows "rep (cl_remote c') s \<and>
    (\<exists>ob. st_objects s i = Some ob \<and> decrypt (core_suite k) (core_master k) ob = Inl authentication_failed)"
proof -
  have "download k BOOKMARK_NAMESPACE i c = (Inl authentication_failed, c')"
    using run by (auto simp: load_bookmarks_def result_simps authentication_failed_def split: prod.splits)
  moreover note get_error [folded api, unfolded authentication_failed_def]
  ultimately obtain ob w where g: "api_get (core_api k) i (cl_remote c) = (Inr ob, w)" "cl_remote c' = w"
    "decrypt (core_suite k) (core_master k) ob = Inl authentication_failed"
    by (auto simp: download_def result_simps authentication_failed_def split: if_splits)
  from get_Inr [OF rep g(1) [unfolded api]] alone g(2,3) show ?thesis by metis
qed

lemma try_candidates_result:
  assumes api: "core_api k = api" and alone: "\<And>s t. others s t \<Longrightarrow> s = t"
  shows "rep (cl_remote c) s \<Longrightarrow>
    try_candidates (load_bookmarks k) (\<lambda>snapshot. bs_profile_directory snapshot = dir) ids c = (Inr res, c') \<Longrightarrow>
    rep (cl_remote c') s \<and>
    (case res of
       Some (snapshot, p) \<Rightarrow> bs_profile_directory snapshot = dir \<and> (\<exists>i \<in> set ids. holds_bookmarks k s i snapshot)
     | None \<Rightarrow> (\<forall>i \<in> set ids. other_profile k s dir i))"
proof (induction ids arbitrary: c)
  case Nil
  then show ?case by (auto simp: result_simps)
next
  case (Cons i ids)
  obtain r c1 where load: "load_bookmarks k i c = (r, c1)" by (cases "load_bookmarks k i c")
  show ?case
  proof (cases r)
    case (Inl er)
    with Cons.prems(2) load have er: "er = authentication_failed"
      "try_candidates (load_bookmarks k) (\<lambda>snapshot. bs_profile_directory snapshot = dir) ids c1 = (Inr res, c')"
      by (auto simp: is_undecryptable_candidate_def split: if_splits)
    have u: "rep (cl_remote c1) s" "other_profile k s dir i"
      using load_bookmarks_undecryptable [OF api Cons.prems(1) alone] load Inl er(1)
      unfolding other_profile_def by blast+
    from Cons.IH [OF u(1) er(2)] u(2) show ?thesis by (auto split: option.splits)
  next
    case (Inr x)
    then obtain snapshot p where x: "r = Inr (snapshot, p)" by (cases x) auto
    obtain s1 where s1: "others s s1" "rep (cl_remote c1) s1" "holds_bookmarks k s1 i snapshot"
      by (rule load_bookmarks_Inr [OF api Cons.prems(1)]) (use load x in auto)
    with alone have h: "rep (cl_remote c1) s" "holds_bookmarks k s i snapshot" by metis+
    show ?thesis
    proof (cases "bs_profile_directory snapshot = dir")
      case True
      with Cons.prems(2) load x h show ?thesis by auto
    next
      case False
      with Cons.prems(2) load x have
        "try_candidates (load_bookmarks k) (\<lambda>snapshot. bs_profile_directory snapshot = dir) ids c1 = (Inr res, c')"
        by simp
      from Cons.IH [OF h(1) this] False h(2) show ?thesis
        by (auto simp: other_profile_def split: option.splits)
    qed
  qed
qed

lemma discover_bookmarks_result:
  assumes api: "core_api k = api" and alone: "\<And>s t. others s t \<Longrightarrow> s = t"
    and rep: "rep (cl_remote c) s" and run: "discover_bookmarks k dir c = (Inr res, c')"
  shows "rep (cl_remote c') s \<and>
    (case res of
       Some (snapshot, p) \<Rightarrow> bs_profile_directory snapshot = dir \<and> (\<exists>i. holds_bookmarks k s i snapshot)
     | None \<Rightarrow> (\<forall>i ob. st_objects s i = Some ob \<and> so_namespace ob = BOOKMARK_NAMESPACE \<and> \<not> so_deleted ob \<longrightarrow>
         other_profile k s dir i))"
proof -
  from run obtain cands c1 where
    d: "candidate_pages k BOOKMARK_NAMESPACE 0 [] c = (Inr cands, c1)"
    "try_candidates (load_bookmarks k) (\<lambda>snapshot. bs_profile_directory snapshot = dir)
       (live_candidates cands) c1 = (Inr res, c')"
    by (auto simp: discover_bookmarks_def result_simps)
  from candidate_pages_sees_all [OF api alone rep d(1)]
  have c1: "rep (cl_remote c1) s" "cands = add_candidates BOOKMARK_NAMESPACE (later 0 s) []" by auto
  note result = try_candidates_result [OF api alone c1(1) d(2)]
  show ?thesis
  proof (cases res)
    case None
    with result c1(2) live_object_candidate [OF rep_ok [OF rep]] show ?thesis by auto
  next
    case (Some x)
    with result show ?thesis by (cases x) auto
  qed
qed

end

section \<open>The reference server\<close>

datatype fate = Dropped | Answered | AnswerLost

record ref_world =
  rw_store :: store
  rw_tick :: nat

definition ref_call ::
  "(nat \<Rightarrow> fate) \<Rightarrow> (store \<Rightarrow> (client_error + 'a) \<times> store) \<Rightarrow> (ref_world, client_error, 'a) comp" where
  "ref_call fate f w =
     (let w' = w\<lparr>rw_tick := Suc (rw_tick w)\<rparr>; (r, s) = f (rw_store w)
      in case fate (rw_tick w) of
           Dropped \<Rightarrow> (Inl (Connect ''''), w')
         | Answered \<Rightarrow> (r, w'\<lparr>rw_store := s\<rparr>)
         | AnswerLost \<Rightarrow> (Inl Timeout, w'\<lparr>rw_store := s\<rparr>))"

definition ref_write :: "(store \<Rightarrow> (sync_object \<times> store) option) \<Rightarrow> store \<Rightarrow> (client_error + sync_object) \<times> store" where
  "ref_write f s =
     (case (if st_seq s < i64_max then f s else None) of
        None \<Rightarrow> (Inl (ApiFailure 409 ''revision_conflict'' ''''), s)
      | Some (ob, s') \<Rightarrow> (Inr ob, s'))"

definition store_api :: "(nat \<Rightarrow> fate) \<Rightarrow> ref_world api" where
  "store_api fate =
     \<lparr>api_register = (\<lambda>req. ref_call fate (\<lambda>s.
        let v = \<lparr>dev_id = reg_id req, dev_name = reg_name req, dev_created_at = Timestamp 0, dev_revoked_at = None\<rparr>
        in (Inr v, s\<lparr>st_devices := st_devices s @ [v]\<rparr>))),
      api_put = (\<lambda>i req. ref_call fate (ref_write (spec_put i req))),
      api_get = (\<lambda>i. ref_call fate (\<lambda>s. (ok_or (ApiFailure 404 ''object_not_found'' '''') (st_objects s i), s))),
      api_delete = (\<lambda>i req. ref_call fate (ref_write (spec_delete i req))),
      api_changes = (\<lambda>after. ref_call fate (\<lambda>s.
        (Inr (spec_changes after (nat (uint default_changes_limit)) s), s)))\<rparr>"

definition ref_rep :: "ref_world \<Rightarrow> store \<Rightarrow> bool" where
  "ref_rep w s \<longleftrightarrow> rw_store w = s \<and> store_ok s \<and> 0 \<le> st_seq s \<and> (\<forall>ch \<in> set (st_log s). uint (ch_cursor ch) \<le> st_seq s)"

lemma record_object_ok:
  assumes "ref_rep w s" and "st_seq s < i64_max" and "so_cursor ob = word_of_int (st_seq s + 1)"
  shows "ref_rep (w'\<lparr>rw_store := record_object ob s\<rparr>) (record_object ob s)"
proof -
  have old: "store_ok s" "0 \<le> st_seq s" "\<And>c. c \<in> set (st_log s) \<Longrightarrow> uint (ch_cursor c) \<le> st_seq s"
    using assms(1) by (auto simp: ref_rep_def)
  have cur: "uint (so_cursor ob) = st_seq s + 1"
    unfolding assms(3) by (rule uint_of_i64) (use assms(2) old(2) in auto)
  have log: "st_log (record_object ob s) = st_log s @ [change_of_object ob]"
    and objects: "st_objects (record_object ob s) = (st_objects s)(so_id ob \<mapsto> ob)"
    and seq: "st_seq (record_object ob s) = st_seq s + 1"
    by (simp_all add: record_object_def)
  have ch: "ch_cursor (change_of_object ob) = so_cursor ob" "ch_object_id (change_of_object ob) = so_id ob"
    by (simp_all add: change_of_object_def)
  have of: "changes_of i (record_object ob s) = changes_of i s @ (if so_id ob = i then [change_of_object ob] else [])" for i
    by (simp add: changes_of_def log ch)
  have "sorted_wrt (<) (map ch_cursor (st_log (record_object ob s)))"
    unfolding log using store_okD(1) [OF old(1)] old(3) cur
    by (auto simp: sorted_wrt_append ch word_less_def)
  moreover have "0 < so_cursor ob" using cur old(2) by (simp add: word_less_def)
  ultimately have "store_ok (record_object ob s)"
    using old(1) by (auto simp: store_ok_def log of objects ch)
  moreover have "uint (ch_cursor c) \<le> st_seq s + 1" if "c \<in> set (st_log s)" for c
    using old(3) [OF that] by simp
  ultimately show ?thesis
    using old(2) cur by (auto simp: ref_rep_def log ch seq)
qed

lemma ref_write_ok:
  assumes "ref_rep w s" and "\<And>ob s'. f s = Some (ob, s') \<Longrightarrow> s' = record_object ob s \<and> so_cursor ob = word_of_int (st_seq s + 1)"
    and "ref_write f s = (r, s')"
  shows "ref_rep (w'\<lparr>rw_store := s'\<rparr>) s' \<and> (r \<in> range Inl \<and> s' = s \<or> (\<exists>ob. f s = Some (ob, s') \<and> r = Inr ob))"
proof (cases "st_seq s < i64_max \<and> f s \<noteq> None")
  case True
  then obtain ob where "f s = Some (ob, s')" "r = Inr ob"
    using assms(3) by (auto simp: ref_write_def)
  with assms(2) record_object_ok [OF assms(1)] True show ?thesis by auto
next
  case False
  then have "(if st_seq s < i64_max then f s else None) = None" by (cases "f s") auto
  with assms(3) have "r \<in> range Inl" "s' = s" by (auto simp: ref_write_def)
  with assms(1) show ?thesis by (simp add: ref_rep_def)
qed

lemma ref_call_cases:
  "ref_call fate f w = (r, w') \<Longrightarrow> f (rw_store w) = (q, s) \<Longrightarrow>
     (r = q \<or> r \<in> range Inl) \<and> (rw_store w' = s \<or> r \<in> range Inl \<and> rw_store w' = rw_store w)"
  by (auto simp: ref_call_def Let_def split: fate.splits)

lemma ref_rep_store: "rw_store w' = s \<Longrightarrow> ref_rep (w\<lparr>rw_store := s\<rparr>) s \<Longrightarrow> ref_rep w' s"
  by (simp add: ref_rep_def)

lemma spec_put_record:
  "spec_put i req s = Some (ob, s') \<Longrightarrow> s' = record_object ob s \<and> so_cursor ob = word_of_int (st_seq s + 1)"
  by (auto simp: spec_put_def Let_def put_result_def split: if_splits)

lemma spec_delete_record:
  "spec_delete i req s = Some (ob, s') \<Longrightarrow> s' = record_object ob s \<and> so_cursor ob = word_of_int (st_seq s + 1)"
  by (auto simp: spec_delete_def Let_def delete_result_def split: if_splits option.splits)

lemma ref_write_law:
  assumes rep: "ref_rep w s" and f: "\<And>ob s'. f s = Some (ob, s') \<Longrightarrow> s' = record_object ob s \<and> so_cursor ob = word_of_int (st_seq s + 1)"
    and run: "ref_call fate (ref_write f) w = (r, w')"
  shows "\<exists>s1 s2. s = s1 \<and> ref_rep w' s2 \<and>
    (r \<in> range Inl \<and> s2 = s1 \<or> (\<exists>ob. f s1 = Some (ob, s2) \<and> (r = Inr ob \<or> r \<in> range Inl)))"
proof -
  have s: "rw_store w = s" using rep by (simp add: ref_rep_def)
  obtain q s2 where q: "ref_write f s = (q, s2)" by (cases "ref_write f s")
  note call = ref_call_cases [OF run, of q s2, unfolded s, OF q]
  note ok = ref_write_ok [where f = f, OF rep f q]
  have rq: "r = q \<or> r \<in> range Inl" using call by blast
  consider (served) "rw_store w' = s2" | (dropped) "rw_store w' = s" "r \<in> range Inl" using call by blast
  then show ?thesis
  proof cases
    case served
    with ok ref_rep_store rq show ?thesis by metis
  next
    case dropped
    then have "ref_rep w' s" using rep by (simp add: ref_rep_def)
    with dropped(2) show ?thesis by blast
  qed
qed

interpretation ref: object_store "store_api fate" ref_rep "(=)" for fate
proof
  fix w s i r w' after pr er
  show "ref_rep w s \<Longrightarrow> store_ok s" by (simp add: ref_rep_def)
  show "api_get (store_api fate) i w = (Inl er, w') \<Longrightarrow> er \<noteq> authentication_failed"
    by (auto simp: store_api_def ref_call_def Let_def authentication_failed_def ok_or_def split: fate.splits option.splits)
  show "ref_rep w s \<Longrightarrow> api_get (store_api fate) i w = (r, w') \<Longrightarrow>
      \<exists>s1. s = s1 \<and> ref_rep w' s1 \<and> (\<forall>ob. r = Inr ob \<longrightarrow> st_objects s1 i = Some ob)"
    by (auto simp: store_api_def ref_call_def Let_def ref_rep_def ok_or_Inr split: fate.splits)
  show "ref_rep w s \<Longrightarrow> api_changes (store_api fate) after w = (pr, w') \<Longrightarrow>
      \<exists>s1. s = s1 \<and> ref_rep w' s1 \<and>
        (\<forall>page. pr = Inr page \<longrightarrow> page = spec_changes after (nat (uint default_changes_limit)) s1)"
    by (auto simp: store_api_def ref_call_def Let_def ref_rep_def split: fate.splits)
next
  fix w s i req r w'
  assume "ref_rep w s" "api_put (store_api fate) i req w = (r, w')"
  then show "\<exists>s1 s2. s = s1 \<and> ref_rep w' s2 \<and>
      (r \<in> range Inl \<and> s2 = s1 \<or> (\<exists>ob. spec_put i req s1 = Some (ob, s2) \<and> (r = Inr ob \<or> r \<in> range Inl)))"
    by (intro ref_write_law [where f = "spec_put i req"]) (auto simp: store_api_def dest: spec_put_record)
next
  fix w s i dreq r w'
  assume "ref_rep w s" "api_delete (store_api fate) i dreq w = (r, w')"
  then show "\<exists>s1 s2. s = s1 \<and> ref_rep w' s2 \<and>
      (r \<in> range Inl \<and> s2 = s1 \<or> (\<exists>ob. spec_delete i dreq s1 = Some (ob, s2) \<and> (r = Inr ob \<or> r \<in> range Inl)))"
    by (intro ref_write_law [where f = "spec_delete i dreq"]) (auto simp: store_api_def dest: spec_delete_record)
qed auto

end
