(* ===== verification/Network.thy ===== *)
theory Network
  imports ObjectStore
begin

text \<open>
  The API client connected to the server: a transport that carries each request, with its headers
  and JSON body, to the routes of \<open>router\<close> (\<open>helium-sync-server/src/api.rs\<close>) and the
  handlers behind them. Before a request is served other clients may be (\<open>site_visitors\<close>), the
  request can be lost before the server or its answer after it (\<open>site_fate\<close>), and every database
  call can fail. Over it the API client fulfils the contract \<open>object_store\<close>.
\<close>

section \<open>Errors carry an error status\<close>

definition errors_ok :: "'a handler \<Rightarrow> bool" where
  "errors_ok m \<longleftrightarrow> (\<forall>c er c'. m c = (Inl er, c') \<longrightarrow> 400 \<le> ae_status er)"

definition error_result :: "api_error + 'a \<Rightarrow> bool" where
  "error_result r \<longleftrightarrow> (\<forall>er. r = Inl er \<longrightarrow> 400 \<le> ae_status er)"

named_theorems status_intros "every error of a handler has an error status"

lemma errors_ok_bindS [status_intros]: "errors_ok m \<Longrightarrow> (\<And>x. errors_ok (f x)) \<Longrightarrow> errors_ok (bindS m f)"
  unfolding errors_ok_def bindS_Inl by metis

lemma errors_ok_liftS [status_intros]: "error_result r \<Longrightarrow> errors_ok (liftS r)"
  by (simp add: errors_ok_def error_result_def liftS_iff)

lemma errors_ok_returnS [status_intros]: "errors_ok (returnS x)"
  by (simp add: errors_ok_def returnS_iff)

lemma errors_ok_now [status_intros]: "errors_ok (now_utc e)"
  by (simp add: errors_ok_def now_utc_iff)

lemma errors_ok_sql [status_intros]: "errors_ok (sql e q)"
  by (simp add: errors_ok_def sql_Inl database_error_def api_error_new_def)

lemma errors_ok_transaction [status_intros]:
  assumes "errors_ok body"
  shows "errors_ok (transaction e body)"
  using assms
  by (auto simp: errors_ok_def transaction_def sql_Inl database_error_def api_error_new_def
      split: prod.splits sum.splits)

lemma error_result_andThen [status_intros]:
  "error_result r \<Longrightarrow> (\<And>x. error_result (f x)) \<Longrightarrow> error_result (andThen r f)"
  unfolding error_result_def andThen_Inl by metis

lemma error_result_basic [status_intros]:
  "error_result (Inr x)" "400 \<le> n \<Longrightarrow> error_result (Inl (api_error_new n code message))"
  "error_result (Inl serialization_error)" "error_result (Inl (api_conflict a b))"
  "400 \<le> ae_status er \<Longrightarrow> error_result (ok_or er m)"
  by (auto simp: error_result_def api_error_new_def serialization_error_def api_conflict_def Let_def ok_or_Inl)

lemma error_constants [simp]:
  "ae_status serialization_error = 500" "ae_status revision_exhausted = 409"
  "ae_status object_not_found = 404" "ae_status (numeric_range label) = 422"
  by (simp_all add: serialization_error_def revision_exhausted_def object_not_found_def numeric_range_def
      api_error_new_def)

lemma error_result_conversions [status_intros]:
  "error_result (u64_from_i64 i)" "error_result (i64_from_u64 v label)" "error_result (timestamp_string e t)"
  "error_result (parse_timestamp e s)" "error_result (parse_uuid e s)"
  by (auto simp: u64_from_i64_def i64_from_u64_def timestamp_string_def parse_timestamp_def parse_uuid_def
      intro!: error_result_basic(5))

lemma error_result_collect [status_intros]:
  "(\<And>x. error_result (f x)) \<Longrightarrow> error_result (collect_results f xs)"
  by (induction xs) (auto intro!: status_intros)

lemma error_result_conflict [status_intros]: "error_result (conflict_with a b)"
  unfolding conflict_with_def by (intro status_intros)

lemma error_result_put_revision [status_intros]: "error_result (put_revision cur base)"
  by (cases "(cur, base)" rule: put_revision.cases) (auto intro!: status_intros)

lemma error_result_rows [status_intros]:
  "error_result (row_to_object e r)" "error_result (row_to_change e cr)" "error_result (row_to_device e dr)"
  unfolding row_to_object_def row_to_change_def row_to_device_def
  by (auto intro!: status_intros split: option.split)

lemma error_result_validate [status_intros]: "error_result (validate_put req)"
  unfolding validate_put_def by (auto intro!: status_intros)

lemma errors_ok_device [status_intros]: "errors_ok (ensure_active_device e i)"
  unfolding ensure_active_device_def by (auto intro!: status_intros split: option.split)

lemma errors_ok_put [status_intros]: "errors_ok (put_object_tx e i req)"
  unfolding put_object_tx_def by (intro status_intros) auto

lemma errors_ok_delete [status_intros]: "errors_ok (delete_object_tx e i req)"
  unfolding delete_object_tx_def by (auto intro!: status_intros)

lemma errors_ok_batch_tx [status_intros]: "errors_ok (batch_tx e operations)"
proof (induction operations)
  case (Cons operation rest)
  then show ?case by (cases operation) (auto intro!: status_intros)
qed (simp add: status_intros)

lemma errors_ok_route: "errors_ok (handle_route e pkg rt)"
  by (cases rt)
    (auto simp: reply_with_def put_object_def delete_object_def status_def list_devices_def changes_def Let_def
      get_object_def register_device_def revoke_device_def batch_def
      intro!: status_intros split: option.split)

lemma serve_request_status: "serve_request e sha256 st pkg req c = (Inl er, c') \<Longrightarrow> 400 \<le> ae_status er"
  using errors_ok_route [of e pkg "hr_route req"]
  by (auto simp: serve_request_def bindS_Inl liftS_iff errors_ok_def dest: require_auth_status require_protocol_status
      split: if_splits)

section \<open>Routes\<close>

definition object_route :: "body_codec \<Rightarrow> http_method \<Rightarrow> bytes \<Rightarrow> uuid \<Rightarrow> route option" where
  "object_route j m payload i =
     (case m of
        GET \<Rightarrow> Some (RouteGet i)
      | PUT \<Rightarrow> (case body_parse j KPut payload of Some (BodyPut r) \<Rightarrow> Some (RoutePut i r) | _ \<Rightarrow> None)
      | DELETE \<Rightarrow> (case body_parse j KDelete payload of Some (BodyDelete r) \<Rightarrow> Some (RouteDelete i r) | _ \<Rightarrow> None)
      | POST \<Rightarrow> None)"

definition decode_route :: "env \<Rightarrow> body_codec \<Rightarrow> http_method \<Rightarrow> string \<Rightarrow> bytes \<Rightarrow> route option" where
  "decode_route e j m path payload =
     (case strip_prefix ''/v1/objects/'' path of
        Some i \<Rightarrow> Option.bind (uuid_parse e i) (object_route j m payload)
      | None \<Rightarrow>
          (case strip_prefix ''/v1/changes?after='' path of
             Some n \<Rightarrow>
               (if m = GET
                then map_option (\<lambda>k. RouteChanges (word_of_nat k) default_changes_limit)
                       (parse_unsigned 10 (2 ^ 64 - 1) n)
                else None)
           | None \<Rightarrow>
               (if path = ''/v1/version'' \<and> m = GET then Some RouteVersion
                else if path = ''/v1/status'' \<and> m = GET then Some RouteStatus
                else if path = ''/v1/devices'' \<and> m = GET then Some RouteListDevices
                else if path = ''/v1/devices'' \<and> m = POST
                then (case body_parse j KRegister payload of
                        Some (BodyRegister r) \<Rightarrow> Some (RouteRegister r) | _ \<Rightarrow> None)
                else if path = ''/v1/batch'' \<and> m = POST
                then (case body_parse j KOperations payload of
                        Some (BodyOperations r) \<Rightarrow> Some (RouteBatch r) | _ \<Rightarrow> None)
                else if m = DELETE
                then Option.bind (strip_prefix ''/v1/devices/'' path)
                       (\<lambda>i. map_option RouteRevoke (uuid_parse e i))
                else None)))"

fun reply_message :: "reply \<Rightarrow> nat \<times> body option" where
  "reply_message (VersionReply r) = (200, Some (BodyVersion r))"
| "reply_message (StatusReply r) = (200, Some (BodyStatus r))"
| "reply_message (DevicesReply vs) = (200, Some (BodyDevices vs))"
| "reply_message (DeviceReply code v) = (code, Some (BodyDevice v))"
| "reply_message (RevokedReply code) = (code, None)"
| "reply_message (ChangesReply page) = (200, Some (BodyChanges page))"
| "reply_message (ObjectReply ob) = (200, Some (BodyObject ob))"
| "reply_message (BatchReply r) = (200, Some (BodyBatch r))"

definition respond :: "body_codec \<Rightarrow> nat \<times> body option \<Rightarrow> transport_response" where
  "respond j message =
     (case snd message of
        None \<Rightarrow> \<lparr>ts_status = fst message, ts_body = []\<rparr>
      | Some b \<Rightarrow>
          (case body_text j b of
             None \<Rightarrow> \<lparr>ts_status = 500, ts_body = []\<rparr>
           | Some t \<Rightarrow> \<lparr>ts_status = fst message, ts_body = t\<rparr>))"

section \<open>A server behind a network\<close>

record site =
  site_env :: env
  site_sha :: "bytes \<Rightarrow> bytes"
  site_app :: app_state
  site_version :: string
  site_json :: body_codec
  site_fate :: "nat \<Rightarrow> fate"
  site_visitors :: "nat \<Rightarrow> http_request list"
  site_refusal :: "transport_request \<Rightarrow> transport_response"

record net_world =
  nw_conn :: conn
  nw_tick :: nat

definition MAX_BODY_BYTES :: nat where "MAX_BODY_BYTES = MAX_PAYLOAD_BYTES + 64 * 1024"

text \<open>A request whose path, method, body or length the framework refuses reaches no handler, and is
  answered with what the framework says (\<open>site_refusal\<close>); the authentication layer is outside
  that. The length matters only to the handlers that read a body.\<close>

definition http_serve :: "site \<Rightarrow> transport_request \<Rightarrow> conn \<Rightarrow> transport_response \<times> conn" where
  "http_serve t req c =
     (let headers = map_of (tr_headers req);
          routed = (if tr_method req \<noteq> GET \<and> length (tr_body req) > MAX_BODY_BYTES then None
                    else decode_route (site_env t) (site_json t) (tr_method req) (tr_path req) (tr_body req))
      in case routed of
           None \<Rightarrow>
             (case require_auth (site_sha t) (site_app t) (headers ''authorization'') of
                Inl er \<Rightarrow> (respond (site_json t) (ae_status er, Some (BodyError (ae_body er))), c)
              | Inr _ \<Rightarrow> (site_refusal t req, c))
         | Some rt \<Rightarrow>
             (case serve_request (site_env t) (site_sha t) (site_app t) (site_version t)
                \<lparr>hr_authorization = headers ''authorization'', hr_protocol = headers PROTOCOL_HEADER, hr_route = rt\<rparr> c of
                (Inl er, c') \<Rightarrow> (respond (site_json t) (ae_status er, Some (BodyError (ae_body er))), c')
              | (Inr x, c') \<Rightarrow> (respond (site_json t) (reply_message x), c')))"

definition site_transport :: "site \<Rightarrow> net_world transport" where
  "site_transport t req w =
     (let n = nw_tick w;
          c0 = snd (serve_all (site_env t) (site_sha t) (site_app t) (site_version t) (site_visitors t n) (nw_conn w));
          (response, c1) = http_serve t req c0;
          w0 = w\<lparr>nw_tick := Suc n\<rparr>
      in case site_fate t n of
           Dropped \<Rightarrow> (Inl (Connect ''''), w0\<lparr>nw_conn := c0\<rparr>)
         | Answered \<Rightarrow> (Inr response, w0\<lparr>nw_conn := c1\<rparr>)
         | AnswerLost \<Rightarrow> (Inl Timeout, w0\<lparr>nw_conn := c1\<rparr>))"

definition api_client :: "body_codec \<Rightarrow> string \<Rightarrow> 's transport \<Rightarrow> 's api_state api" where
  "api_client j token execute =
     \<lparr>api_register = client_register_device j token execute, api_put = client_put_object j token execute,
      api_get = client_get_object j token execute, api_delete = client_delete_object j token execute,
      api_changes = client_changes j token execute\<rparr>"

section \<open>What one exchange does\<close>

definition site_ok :: "site \<Rightarrow> bool" where
  "site_ok t \<longleftrightarrow> codec_ok (site_env t) \<and> body_codec_ok (site_json t) \<and> id_text (site_json t) = uuid_text (site_env t) \<and>
     (\<forall>req. \<not> is_success (ts_status (site_refusal t req)))"

definition visited :: "site \<Rightarrow> store \<Rightarrow> store \<Rightarrow> bool" where
  "visited t s s' \<longleftrightarrow> (\<exists>log. spec_run (site_version t) s log s') \<and> ((\<forall>n. site_visitors t n = []) \<longrightarrow> s' = s)"

lemma spec_run_append: "spec_run pkg s xs s1 \<Longrightarrow> spec_run pkg s1 ys s2 \<Longrightarrow> spec_run pkg s (xs @ ys) s2"
  by (induction rule: spec_run.induct) (auto intro: spec_run.intros)

lemma visited_refl: "visited t s s"
  unfolding visited_def by (blast intro: run_Nil)

lemma visited_trans: "visited t s s1 \<Longrightarrow> visited t s1 s2 \<Longrightarrow> visited t s s2"
  unfolding visited_def using spec_run_append by blast

definition net_sim :: "site \<Rightarrow> net_world \<Rightarrow> store \<Rightarrow> bool" where
  "net_sim t w s \<longleftrightarrow> sim (site_env t) (c_db (nw_conn w)) s"

lemma respond_success:
  assumes "body_codec_ok j" and "is_success (ts_status (respond j message))"
    and "body_parse j k (ts_body (respond j message)) = Some b" and "snd message = Some b'" and "kind_of b' = k"
  shows "b = b'"
  using assms body_codec_okD(1) [OF assms(1), of b']
  by (auto simp: respond_def is_success_def split: option.splits)

text \<open>An exchange is a visit of other clients, then at most one step of the store; when a response
  comes back with a success status it is the reply of that step.\<close>

lemma exchange:
  assumes ok: "site_ok t" and rep: "net_sim t w s" and run: "site_transport t req w = (r, w')"
  obtains s1 s2 where "visited t s s1" "net_sim t w' s2"
    "(s2 = s1 \<and> (\<forall>resp. r = Inr resp \<longrightarrow> \<not> is_success (ts_status resp))) \<or>
     (\<exists>rt x. decode_route (site_env t) (site_json t) (tr_method req) (tr_path req) (tr_body req) = Some rt \<and>
        spec_route (site_version t) s1 rt x s2 \<and> (\<forall>resp. r = Inr resp \<longrightarrow> resp = respond (site_json t) (reply_message x)))"
    "\<And>er. r = Inl er \<Longrightarrow> er \<noteq> authentication_failed"
proof -
  let ?e = "site_env t" and ?n = "nw_tick w"
  have codec: "codec_ok ?e" and refusal: "\<not> is_success (ts_status (site_refusal t req))"
    using ok by (simp_all add: site_ok_def)
  obtain rs c0 where c0: "serve_all ?e (site_sha t) (site_app t) (site_version t) (site_visitors t ?n) (nw_conn w) = (rs, c0)"
    by (cases "serve_all ?e (site_sha t) (site_app t) (site_version t) (site_visitors t ?n) (nw_conn w)")
  from serve_all_simulates [OF codec rep [unfolded net_sim_def] c0] obtain s1 where
    run1: "spec_run (site_version t) s (zip (map hr_route (site_visitors t ?n)) rs) s1" and sim1: "sim ?e (c_db c0) s1"
    by blast
  have s1: "visited t s s1" "sim ?e (c_db c0) s1"
    using run1 sim1 by (auto simp: visited_def elim: spec_run.cases)
  obtain resp c1 where http: "http_serve t req c0 = (resp, c1)" by (cases "http_serve t req c0")
  have w': "(r = Inl (Connect '''') \<and> nw_conn w' = c0) \<or> (r = Inr resp \<and> nw_conn w' = c1) \<or> (r = Inl Timeout \<and> nw_conn w' = c1)"
    using run c0 http by (auto simp: site_transport_def Let_def split: fate.splits)
  have err: "er \<noteq> authentication_failed" if "r = Inl er" for er
    using w' that by (auto simp: authentication_failed_def)
  have step: "\<exists>s2. sim ?e (c_db c1) s2 \<and>
      ((s2 = s1 \<and> \<not> is_success (ts_status resp)) \<or>
       (\<exists>rt x. decode_route ?e (site_json t) (tr_method req) (tr_path req) (tr_body req) = Some rt \<and>
          spec_route (site_version t) s1 rt x s2 \<and> resp = respond (site_json t) (reply_message x)))"
  proof -
    let ?headers = "map_of (tr_headers req)"
    define routed where "routed = (if tr_method req \<noteq> GET \<and> length (tr_body req) > MAX_BODY_BYTES then None
        else decode_route ?e (site_json t) (tr_method req) (tr_path req) (tr_body req))"
    show ?thesis
    proof (cases routed)
      case None
      with http refusal have "c1 = c0 \<and> \<not> is_success (ts_status resp)"
        unfolding http_serve_def Let_def routed_def [symmetric]
        by (auto simp: respond_def is_success_def dest!: require_auth_status split: sum.splits option.splits)
      with s1(2) show ?thesis by blast
    next
      case (Some rt)
      let ?req = "\<lparr>hr_authorization = ?headers ''authorization'', hr_protocol = ?headers PROTOCOL_HEADER, hr_route = rt\<rparr>"
      obtain q c2 where q: "serve_request ?e (site_sha t) (site_app t) (site_version t) ?req c0 = (q, c2)"
        by (cases "serve_request ?e (site_sha t) (site_app t) (site_version t) ?req c0")
      have decoded: "decode_route ?e (site_json t) (tr_method req) (tr_path req) (tr_body req) = Some rt"
        using Some by (simp add: routed_def split: if_splits)
      show ?thesis
      proof (cases q)
        case (Inl er)
        have "400 \<le> ae_status er" using serve_request_status q Inl by blast
        moreover have "c1 = c2" "resp = respond (site_json t) (ae_status er, Some (BodyError (ae_body er)))"
          using http q Inl Some unfolding http_serve_def Let_def routed_def [symmetric] by auto
        moreover have "c_db c2 = c_db c0" using serve_request_simulates [OF codec s1(2) q] Inl by auto
        ultimately show ?thesis using s1(2)
          by (auto simp: respond_def is_success_def split: option.split)
      next
        case (Inr x)
        have "c1 = c2" "resp = respond (site_json t) (reply_message x)"
          using http q Inr Some unfolding http_serve_def Let_def routed_def [symmetric] by auto
        with serve_request_simulates [OF codec s1(2) q] Inr decoded show ?thesis by auto
      qed
    qed
  qed
  then obtain s2 where s2: "sim ?e (c_db c1) s2"
    "(s2 = s1 \<and> \<not> is_success (ts_status resp)) \<or>
       (\<exists>rt x. decode_route ?e (site_json t) (tr_method req) (tr_path req) (tr_body req) = Some rt \<and>
          spec_route (site_version t) s1 rt x s2 \<and> resp = respond (site_json t) (reply_message x))" by blast
  show ?thesis
  proof (cases "r = Inl (Connect '''') \<and> nw_conn w' = c0")
    case True
    then show ?thesis using that [of s1 s1] s1 err by (simp add: net_sim_def)
  next
    case False
    with w' have "nw_conn w' = c1" "r = Inr resp \<or> r = Inl Timeout" by auto
    with that [of s1 s2] s1(1) s2 err show ?thesis by (auto simp: net_sim_def)
  qed
qed


section \<open>What the API client's calls do\<close>

definition net_rep :: "site \<Rightarrow> net_world api_state \<Rightarrow> store \<Rightarrow> bool" where
  "net_rep t a s \<longleftrightarrow> site_ok t \<and> net_sim t (as_remote a) s"

lemma site_transport_error: "site_transport t req w = (Inl er, w') \<Longrightarrow> er \<noteq> authentication_failed"
  by (auto simp: site_transport_def Let_def authentication_failed_def split: prod.splits fate.splits)

lemma parse_response_error: "parse_response j k resp = Inl er \<Longrightarrow> er \<noteq> authentication_failed"
  by (auto simp: parse_response_def authentication_failed_def Let_def ok_or_Inl split: if_splits)

lemma json_request_error:
  "json_request j token (site_transport t) m path payload kind incl a = (Inl er, a') \<Longrightarrow> er \<noteq> authentication_failed"
  by (auto simp: json_request_def result_simps authentication_failed_def
      dest: site_transport_error parse_response_error split: if_splits option.splits)

lemma expect_cases [result_simps]:
  "(case b of BodyVersion r \<Rightarrow> Inr r | _ \<Rightarrow> Inl e) = Inl er \<longleftrightarrow> er = e \<and> kind_of b \<noteq> KVersion"
  "(case b of BodyVersion r \<Rightarrow> Inr r | _ \<Rightarrow> Inl e) = Inr v \<longleftrightarrow> b = BodyVersion v"
  "(case b of BodyChanges r \<Rightarrow> Inr r | _ \<Rightarrow> Inl e) = Inl er \<longleftrightarrow> er = e \<and> kind_of b \<noteq> KChanges"
  "(case b of BodyChanges r \<Rightarrow> Inr r | _ \<Rightarrow> Inl e) = Inr page \<longleftrightarrow> b = BodyChanges page"
  "expect_object b = Inl er \<longleftrightarrow> er = Serialization ''json'' \<and> kind_of b \<noteq> KObject"
  "expect_object b = Inr ob \<longleftrightarrow> b = BodyObject ob"
  by (cases b; auto simp: expect_object_def)+

lemma ensure_negotiated_error:
  "ensure_negotiated j token (site_transport t) a = (Inl er, a') \<Longrightarrow> er \<noteq> authentication_failed"
  by (auto simp: ensure_negotiated_def negotiate_version_def result_simps authentication_failed_def
      dest: json_request_error split: option.splits)

lemma negotiated_request_error:
  "negotiated_request j token (site_transport t) m path payload kind a = (Inl er, a') \<Longrightarrow> er \<noteq> authentication_failed"
  by (auto simp: negotiated_request_def result_simps dest: json_request_error ensure_negotiated_error)

definition payload_bytes :: "body_codec \<Rightarrow> body option \<Rightarrow> bytes option" where
  "payload_bytes j payload = (case payload of None \<Rightarrow> Some [] | Some b \<Rightarrow> body_text j b)"

text \<open>A request of the client: at most one step of the store, and an answer is that step's reply.\<close>

lemma json_request_exchange:
  assumes rep: "net_rep t a s" and run: "json_request (site_json t) token (site_transport t) m path payload kind incl a = (r, a')"
  obtains s1 s2 where "visited t s s1" "net_rep t a' s2"
    "(s2 = s1 \<and> r \<in> range Inl) \<or>
     (\<exists>bytes rt x. payload_bytes (site_json t) payload = Some bytes \<and>
        decode_route (site_env t) (site_json t) m path bytes = Some rt \<and> spec_route (site_version t) s1 rt x s2 \<and>
        (\<forall>b b'. r = Inr b \<and> snd (reply_message x) = Some b' \<and> kind_of b' = kind \<longrightarrow> b = b'))"
proof (cases "payload_bytes (site_json t) payload = None \<or> \<not> header_value_ok (''Bearer '' @ token)")
  case True
  with run have "a' = a" "r \<in> range Inl"
    by (auto simp: json_request_def result_simps payload_bytes_def bindS_def liftS_def get_protocol_def split: option.splits if_splits)
  with that [of s s] visited_refl rep show ?thesis by blast
next
  case False
  then obtain bytes where bytes: "payload_bytes (site_json t) payload = Some bytes" by auto
  let ?req = "\<lparr>tr_method = m, tr_path = path,
     tr_headers = request_headers token (as_protocol a) incl (payload \<noteq> None), tr_body = bytes\<rparr>"
  obtain q w' where q: "site_transport t ?req (as_remote a) = (q, w')" by (cases "site_transport t ?req (as_remote a)")
  from run False bytes q have r: "a' = a\<lparr>as_remote := w'\<rparr>"
    "r = (case q of Inl er \<Rightarrow> Inl er | Inr resp \<Rightarrow> parse_response (site_json t) kind resp)"
    by (auto simp: json_request_def payload_bytes_def bindS_def liftS_def get_protocol_def remote_def Let_def ok_or_def
        split: option.splits sum.splits)
  have ok: "site_ok t" "net_sim t (as_remote a) s" using rep by (auto simp: net_rep_def)
  obtain s1 s2 where e: "visited t s s1" "net_sim t w' s2"
    "(s2 = s1 \<and> (\<forall>resp. q = Inr resp \<longrightarrow> \<not> is_success (ts_status resp))) \<or>
     (\<exists>rt x. decode_route (site_env t) (site_json t) m path bytes = Some rt \<and>
        spec_route (site_version t) s1 rt x s2 \<and> (\<forall>resp. q = Inr resp \<longrightarrow> resp = respond (site_json t) (reply_message x)))"
    by (rule exchange [OF ok q]) auto
  have rep': "net_rep t a' s2" using r(1) e(2) ok(1) by (simp add: net_rep_def)
  from e(3) show ?thesis
  proof
    assume h: "s2 = s1 \<and> (\<forall>resp. q = Inr resp \<longrightarrow> \<not> is_success (ts_status resp))"
    then have "r \<in> range Inl" unfolding r(2) by (auto simp: parse_response_def Let_def split: sum.splits)
    with h that e(1) rep' show ?thesis by blast
  next
    assume "\<exists>rt x. decode_route (site_env t) (site_json t) m path bytes = Some rt \<and>
        spec_route (site_version t) s1 rt x s2 \<and> (\<forall>resp. q = Inr resp \<longrightarrow> resp = respond (site_json t) (reply_message x))"
    then obtain rt x where x: "decode_route (site_env t) (site_json t) m path bytes = Some rt"
      "spec_route (site_version t) s1 rt x s2" "\<And>resp. q = Inr resp \<Longrightarrow> resp = respond (site_json t) (reply_message x)"
      by blast
    have "b = b'" if b: "r = Inr b" "snd (reply_message x) = Some b'" "kind_of b' = kind" for b b'
    proof -
      from b(1) r(2) obtain resp where resp: "q = Inr resp" "parse_response (site_json t) kind resp = Inr b"
        by (auto split: sum.splits)
      then have "is_success (ts_status resp)" "body_parse (site_json t) kind (ts_body resp) = Some b"
        by (auto simp: parse_response_def Let_def ok_or_Inr split: if_splits)
      with x(3) [OF resp(1)] b(2,3) ok(1) show ?thesis
        using respond_success [of "site_json t" "reply_message x" kind b b'] by (simp add: site_ok_def)
    qed
    with x(1,2) bytes that e(1) rep' show ?thesis by blast
  qed
qed

inductive_cases spec_route_versionE: "spec_route pkg s RouteVersion r s'"
inductive_cases spec_route_getE: "spec_route pkg s (RouteGet i) r s'"
inductive_cases spec_route_deleteE: "spec_route pkg s (RouteDelete i req) r s'"
inductive_cases spec_route_changesE: "spec_route pkg s (RouteChanges after limit) r s'"

lemma ensure_negotiated_visit:
  assumes rep: "net_rep t a s" and run: "ensure_negotiated (site_json t) token (site_transport t) a = (r, a')"
  shows "\<exists>s1. visited t s s1 \<and> net_rep t a' s1"
proof (cases "as_protocol a")
  case (Some v)
  with run have "a' = a" by (simp add: ensure_negotiated_def bindS_def get_protocol_def returnS_def)
  with rep visited_refl show ?thesis by blast
next
  case None
  obtain q b where q: "json_request (site_json t) token (site_transport t) GET ''/v1/version'' None KVersion False a = (q, b)"
    by (cases "json_request (site_json t) token (site_transport t) GET ''/v1/version'' None KVersion False a")
  have "as_remote a' = as_remote b"
    using run None q
    by (auto simp: ensure_negotiated_def negotiate_version_def bindS_def get_protocol_def set_protocol_def liftS_def
        returnS_def split: sum.splits)
  moreover obtain s1 s2 where v: "visited t s s1" "net_rep t b s2"
    "(s2 = s1 \<and> q \<in> range Inl) \<or>
     (\<exists>bytes rt x. payload_bytes (site_json t) None = Some bytes \<and>
        decode_route (site_env t) (site_json t) GET ''/v1/version'' bytes = Some rt \<and> spec_route (site_version t) s1 rt x s2 \<and>
        (\<forall>b b'. q = Inr b \<and> snd (reply_message x) = Some b' \<and> kind_of b' = KVersion \<longrightarrow> b = b'))"
    by (rule json_request_exchange [OF rep q])
  moreover have "decode_route (site_env t) (site_json t) GET ''/v1/version'' bytes = Some RouteVersion" for bytes
    by (simp add: decode_route_def strip_prefix_def)
  ultimately have "s2 = s1" by (auto elim: spec_route_versionE)
  with v \<open>as_remote a' = as_remote b\<close> show ?thesis by (auto simp: net_rep_def)
qed

text \<open>The same for a request after negotiation, whatever requests negotiation made first.\<close>

lemma negotiated_request_exchange:
  assumes rep: "net_rep t a s"
    and run: "negotiated_request (site_json t) token (site_transport t) m path payload kind a = (r, a')"
  obtains s1 s2 where "visited t s s1" "net_rep t a' s2"
    "(s2 = s1 \<and> r \<in> range Inl) \<or>
     (\<exists>bytes rt x. payload_bytes (site_json t) payload = Some bytes \<and>
        decode_route (site_env t) (site_json t) m path bytes = Some rt \<and> spec_route (site_version t) s1 rt x s2 \<and>
        (\<forall>b b'. r = Inr b \<and> snd (reply_message x) = Some b' \<and> kind_of b' = kind \<longrightarrow> b = b'))"
proof -
  obtain q b where q: "ensure_negotiated (site_json t) token (site_transport t) a = (q, b)"
    by (cases "ensure_negotiated (site_json t) token (site_transport t) a")
  obtain s0 where s0: "visited t s s0" "net_rep t b s0" using ensure_negotiated_visit [OF rep q] by blast
  show ?thesis
  proof (cases q)
    case (Inl er)
    with run q have "a' = b" "r \<in> range Inl" by (auto simp: negotiated_request_def bindS_def)
    with s0 that [of s0 s0] show ?thesis by blast
  next
    case (Inr v)
    with run q have r: "json_request (site_json t) token (site_transport t) m path payload kind True b = (r, a')"
      by (simp add: negotiated_request_def bindS_def)
    obtain s1 s2 where "visited t s0 s1" "net_rep t a' s2"
      "(s2 = s1 \<and> r \<in> range Inl) \<or>
       (\<exists>bytes rt x. payload_bytes (site_json t) payload = Some bytes \<and>
          decode_route (site_env t) (site_json t) m path bytes = Some rt \<and> spec_route (site_version t) s1 rt x s2 \<and>
          (\<forall>b b'. r = Inr b \<and> snd (reply_message x) = Some b' \<and> kind_of b' = kind \<longrightarrow> b = b'))"
      by (rule json_request_exchange [OF s0(2) r])
    with that visited_trans [OF s0(1)] show ?thesis by blast
  qed
qed

text \<open>The paths the client writes are the routes the server reads.\<close>

lemma decode_objects_path:
  assumes "site_ok t"
  shows "decode_route (site_env t) (site_json t) m (objects_path (site_json t) i) payload =
    object_route (site_json t) m payload (object_uuid i)"
  using assms unfolding decode_route_def objects_path_def strip_prefix_append
  by (simp add: site_ok_def codec_ok_uuid)

lemma decode_changes_path:
  "decode_route e j GET (''/v1/changes?after='' @ show_nat (unat after)) payload =
     Some (RouteChanges after default_changes_limit)"
proof -
  have "unat after < 2 ^ LENGTH(64)" by (rule unsigned_less)
  then have "parse_unsigned 10 (2 ^ 64 - 1) (show_nat (unat after)) = Some (unat after)"
    by (intro parse_show_nat) simp
  moreover have "strip_prefix ''/v1/objects/'' (''/v1/changes?after='' @ r) = None" for r
    by (simp add: strip_prefix_def)
  ultimately show ?thesis unfolding decode_route_def strip_prefix_append by simp
qed

text \<open>A call on an object: a visit, then at most the step of its route.\<close>

lemma object_call:
  assumes rep: "net_rep t a s"
    and run: "bindS (negotiated_request (site_json t) token (site_transport t) m (objects_path (site_json t) i) payload KObject)
      (\<lambda>b. liftS (expect_object b)) a = (r, a')"
    and route: "\<And>bytes. body_codec_ok (site_json t) \<Longrightarrow> payload_bytes (site_json t) payload = Some bytes \<Longrightarrow>
      object_route (site_json t) m bytes (object_uuid i) = Some rt"
  obtains s1 s2 where "visited t s s1" "net_rep t a' s2"
    "(s2 = s1 \<and> r \<in> range Inl) \<or>
     (\<exists>x. spec_route (site_version t) s1 rt x s2 \<and> (\<forall>ob. x = ObjectReply ob \<longrightarrow> r = Inr ob \<or> r \<in> range Inl))"
proof -
  have ok: "site_ok t" "body_codec_ok (site_json t)" using rep by (simp_all add: net_rep_def site_ok_def)
  obtain q where q: "negotiated_request (site_json t) token (site_transport t) m (objects_path (site_json t) i)
      payload KObject a = (q, a')" "r = andThen q expect_object"
    using run by (auto simp: bindS_def liftS_def split: prod.splits sum.splits)
  obtain s1 s2 where e: "visited t s s1" "net_rep t a' s2"
    "(s2 = s1 \<and> q \<in> range Inl) \<or>
     (\<exists>bytes rt x. payload_bytes (site_json t) payload = Some bytes \<and>
        decode_route (site_env t) (site_json t) m (objects_path (site_json t) i) bytes = Some rt \<and>
        spec_route (site_version t) s1 rt x s2 \<and>
        (\<forall>b b'. q = Inr b \<and> snd (reply_message x) = Some b' \<and> kind_of b' = KObject \<longrightarrow> b = b'))"
    by (rule negotiated_request_exchange [OF rep q(1)])
  from e(3) show ?thesis
  proof
    assume "s2 = s1 \<and> q \<in> range Inl"
    then have "s2 = s1 \<and> r \<in> range Inl" using q(2) by auto
    with e(1,2) that show ?thesis by blast
  next
    assume "\<exists>bytes rt x. payload_bytes (site_json t) payload = Some bytes \<and>
        decode_route (site_env t) (site_json t) m (objects_path (site_json t) i) bytes = Some rt \<and>
        spec_route (site_version t) s1 rt x s2 \<and>
        (\<forall>b b'. q = Inr b \<and> snd (reply_message x) = Some b' \<and> kind_of b' = KObject \<longrightarrow> b = b')"
    then obtain x where x: "spec_route (site_version t) s1 rt x s2"
      "\<And>b b'. q = Inr b \<Longrightarrow> snd (reply_message x) = Some b' \<Longrightarrow> kind_of b' = KObject \<Longrightarrow> b = b'"
      using route [OF ok(2)] by (auto simp: decode_objects_path [OF ok(1)])
    have "r = Inr ob \<or> r \<in> range Inl" if "x = ObjectReply ob" for ob
      using x(2) [of _ "BodyObject ob"] that q(2) by (cases q) (auto simp: expect_object_def)
    with x(1) e(1,2) that show ?thesis by blast
  qed
qed

section \<open>The API client and the server keep the contract\<close>

lemma net_get_law:
  assumes rep: "net_rep t w s" and run: "api_get (api_client (site_json t) token (site_transport t)) i w = (r, w')"
  shows "\<exists>s1. visited t s s1 \<and> net_rep t w' s1 \<and> (\<forall>ob. r = Inr ob \<longrightarrow> st_objects s1 i = Some ob)"
proof -
  obtain s1 s2 where e: "visited t s s1" "net_rep t w' s2"
    "(s2 = s1 \<and> r \<in> range Inl) \<or>
     (\<exists>x. spec_route (site_version t) s1 (RouteGet (object_uuid i)) x s2 \<and>
        (\<forall>ob. x = ObjectReply ob \<longrightarrow> r = Inr ob \<or> r \<in> range Inl))"
    by (rule object_call [OF rep run [unfolded api_client_def client_get_object_def, simplified]])
      (auto simp: object_route_def)
  from e(3) show ?thesis
    by (cases i) (use e(1,2) in \<open>auto elim!: spec_route_getE\<close>)
qed

lemma net_put_law:
  assumes rep: "net_rep t w s" and run: "api_put (api_client (site_json t) token (site_transport t)) i req w = (r, w')"
  shows "\<exists>s1 s2. visited t s s1 \<and> net_rep t w' s2 \<and>
      (r \<in> range Inl \<and> s2 = s1 \<or> (\<exists>ob. spec_put i req s1 = Some (ob, s2) \<and> (r = Inr ob \<or> r \<in> range Inl)))"
proof -
  obtain s1 s2 where e: "visited t s s1" "net_rep t w' s2"
    "(s2 = s1 \<and> r \<in> range Inl) \<or>
     (\<exists>x. spec_route (site_version t) s1 (RoutePut (object_uuid i) req) x s2 \<and>
        (\<forall>ob. x = ObjectReply ob \<longrightarrow> r = Inr ob \<or> r \<in> range Inl))"
    by (rule object_call [OF rep run [unfolded api_client_def client_put_object_def, simplified]])
      (auto simp: object_route_def payload_bytes_def body_codec_okD(1))
  have "ObjectId (object_uuid i) = i" by (cases i) simp
  with e(3) have "r \<in> range Inl \<and> s2 = s1 \<or> (\<exists>ob. spec_put i req s1 = Some (ob, s2) \<and> (r = Inr ob \<or> r \<in> range Inl))"
    by (auto elim!: spec_route_putE)
  with e(1,2) show ?thesis by blast
qed

lemma net_delete_law:
  assumes rep: "net_rep t w s" and run: "api_delete (api_client (site_json t) token (site_transport t)) i req w = (r, w')"
  shows "\<exists>s1 s2. visited t s s1 \<and> net_rep t w' s2 \<and>
      (r \<in> range Inl \<and> s2 = s1 \<or> (\<exists>ob. spec_delete i req s1 = Some (ob, s2) \<and> (r = Inr ob \<or> r \<in> range Inl)))"
proof -
  obtain s1 s2 where e: "visited t s s1" "net_rep t w' s2"
    "(s2 = s1 \<and> r \<in> range Inl) \<or>
     (\<exists>x. spec_route (site_version t) s1 (RouteDelete (object_uuid i) req) x s2 \<and>
        (\<forall>ob. x = ObjectReply ob \<longrightarrow> r = Inr ob \<or> r \<in> range Inl))"
    by (rule object_call [OF rep run [unfolded api_client_def client_delete_object_def, simplified]])
      (auto simp: object_route_def payload_bytes_def body_codec_okD(1))
  have "ObjectId (object_uuid i) = i" by (cases i) simp
  with e(3) have "r \<in> range Inl \<and> s2 = s1 \<or> (\<exists>ob. spec_delete i req s1 = Some (ob, s2) \<and> (r = Inr ob \<or> r \<in> range Inl))"
    by (auto elim!: spec_route_deleteE)
  with e(1,2) show ?thesis by blast
qed

lemma net_changes_law:
  assumes rep: "net_rep t w s" and run: "api_changes (api_client (site_json t) token (site_transport t)) after w = (r, w')"
  shows "\<exists>s1. visited t s s1 \<and> net_rep t w' s1 \<and>
      (\<forall>page. r = Inr page \<longrightarrow> page = spec_changes after (nat (uint default_changes_limit)) s1)"
proof -
  let ?path = "''/v1/changes?after='' @ show_nat (unat after)"
  obtain q where q: "negotiated_request (site_json t) token (site_transport t) GET ?path None KChanges w = (q, w')"
    "r = andThen q (\<lambda>b. case b of BodyChanges page \<Rightarrow> Inr page | _ \<Rightarrow> Inl (Serialization ''json''))"
    using run by (auto simp: api_client_def client_changes_def bindS_def liftS_def split: prod.splits sum.splits)
  obtain s1 s2 where e: "visited t s s1" "net_rep t w' s2"
    "(s2 = s1 \<and> q \<in> range Inl) \<or>
     (\<exists>bytes rt x. payload_bytes (site_json t) None = Some bytes \<and>
        decode_route (site_env t) (site_json t) GET ?path bytes = Some rt \<and> spec_route (site_version t) s1 rt x s2 \<and>
        (\<forall>b b'. q = Inr b \<and> snd (reply_message x) = Some b' \<and> kind_of b' = KChanges \<longrightarrow> b = b'))"
    by (rule negotiated_request_exchange [OF rep q(1)])
  from e(3) show ?thesis
  proof
    assume "s2 = s1 \<and> q \<in> range Inl" with e(1,2) q(2) show ?thesis by auto
  next
    assume "\<exists>bytes rt x. payload_bytes (site_json t) None = Some bytes \<and>
        decode_route (site_env t) (site_json t) GET ?path bytes = Some rt \<and> spec_route (site_version t) s1 rt x s2 \<and>
        (\<forall>b b'. q = Inr b \<and> snd (reply_message x) = Some b' \<and> kind_of b' = KChanges \<longrightarrow> b = b')"
    then obtain x where x: "spec_route (site_version t) s1 (RouteChanges after default_changes_limit) x s2"
      "\<And>b b'. q = Inr b \<Longrightarrow> snd (reply_message x) = Some b' \<Longrightarrow> kind_of b' = KChanges \<Longrightarrow> b = b'"
      unfolding decode_changes_path by auto
    from x(1) have page: "x = ChangesReply (spec_changes after (nat (uint default_changes_limit)) s1)" "s2 = s1"
      by (auto elim: spec_route_changesE)
    have "page = spec_changes after (nat (uint default_changes_limit)) s1" if "r = Inr page" for page
      using that q(2) page(1) x(2) [of "BodyChanges page" "BodyChanges (spec_changes after (nat (uint default_changes_limit)) s1)"]
      by (auto simp: result_simps)
    with e(1,2) page(2) show ?thesis by blast
  qed
qed

interpretation net: object_store "api_client (site_json t) token (site_transport t)" "net_rep t" "visited t" for t token
proof
  show "net_rep t w s \<Longrightarrow> store_ok s" for w s
    using sim_store_ok by (auto simp: net_rep_def net_sim_def site_ok_def)
  show "api_get (api_client (site_json t) token (site_transport t)) i w = (Inl er, w') \<Longrightarrow> er \<noteq> authentication_failed"
    for i w er w'
    by (auto simp: api_client_def client_get_object_def result_simps authentication_failed_def dest: negotiated_request_error)
qed (fact visited_refl visited_trans net_get_law net_changes_law net_put_law net_delete_law)+

end
