(* ===== verification/CryptoProps.thy ===== *)
theory CryptoProps
  imports Crypto
begin

text \<open>
  The properties of the encryption layer: decryption accepts exactly the envelopes encryption makes
  for the object's own metadata, the associated data determines every authenticated field, the
  inputs of the key derivations are distinct for distinct purposes, and a recovery code is
  accepted exactly when it is the code of the key it gives.
\<close>

section \<open>A concrete suite\<close>

definition demo_suite :: suite where
  "demo_suite = \<lparr>hkdf_expand = (\<lambda>salt ikm info. Some (salt @ ikm @ info)),
     aead_encrypt = (\<lambda>k n a m. Some m), aead_decrypt = (\<lambda>k n a ct. Some ct),
     digest256 = (\<lambda>b. replicate 32 0), base64_encode = map (\<lambda>w. char_of (unat w)), base64_decode = (\<lambda>s. Some (ascii s)),
     rfc3339 = (\<lambda>t. if 0 \<le> instant t then Some (replicate (nat (instant t)) CHR ''t'') else None),
     envelope_text = (\<lambda>v. if env_algorithm v = ''XCHACHA20-POLY1305-LOCAL-STATE'' \<and> env_version v = 1 \<and>
        env_key_version v = 1 \<and> length (env_nonce v) = 24
        then Some (env_nonce v @ env_ciphertext v) else None),
     envelope_read = (\<lambda>b. Some \<lparr>env_version = 1, env_algorithm = ''XCHACHA20-POLY1305-LOCAL-STATE'',
        env_key_version = 1, env_nonce = take 24 b, env_ciphertext = drop 24 b\<rparr>)\<rparr>"

lemma demo_base64: "map (\<lambda>w. char_of (unat (w :: u8))) b = s \<longleftrightarrow> ascii s = b"
proof -
  have 1: "word_of_nat (code_of (char_of (unat w))) = (w :: u8)" for w
  proof -
    have "unat w < 256" using unsigned_less [of w, where 'a = nat] by simp
    then show ?thesis by (simp add: code_of_def)
  qed
  have 2: "char_of (unat (word_of_nat (code_of ch) :: u8)) = ch" for ch
    by (simp add: code_of_def unat_of_nat)
  show ?thesis
    unfolding ascii_def by (auto simp: 1 2 comp_def)
qed

lemma demo_suite_ok: "suite_ok demo_suite"
proof -
  have "envelope_read demo_suite t = Some v" if "envelope_text demo_suite v = Some t" for v t
    using that by (cases v) (auto simp: demo_suite_def split: if_splits)
  then show ?thesis
    unfolding suite_ok_def using demo_base64 by (auto simp: demo_suite_def)
qed

section \<open>Properties\<close>

text \<open>C11. Object encryption: decryption accepts exactly the envelopes that encryption makes, under the
  same master key, from that plaintext for that object's id, namespace, device, revision and
  timestamp; in particular it inverts encryption, and whatever was encrypted for other metadata
  or changed afterwards is refused unless it equals such an envelope.\<close>

theorem decrypt_iff_encrypted:
  assumes "suite_ok c"
  shows "decrypt c master ob = Inr plaintext \<longleftrightarrow>
    (\<exists>v. so_envelope ob = Some v \<and> length (env_nonce v) = 24 \<and>
       encrypt c (env_nonce v) master (object_metadata_of ob) plaintext = Inr v)"
proof -
  have v: "\<lparr>env_version = 1, env_algorithm = ''XCHACHA20-POLY1305'', env_key_version = 1,
      env_nonce = env_nonce v, env_ciphertext = ct\<rparr> = v \<longleftrightarrow>
    env_version v = 1 \<and> env_algorithm v = ''XCHACHA20-POLY1305'' \<and> env_key_version v = 1 \<and>
    env_ciphertext v = ct" for v ct
    by (cases v) auto
  have om: "om_object_id (object_metadata_of ob) = so_id ob" "om_namespace (object_metadata_of ob) = so_namespace ob"
    by (simp_all add: object_metadata_of_def)
  have enc: "encrypt c (env_nonce v) master (object_metadata_of ob) plaintext = Inr v \<longleftrightarrow>
      (\<exists>key aad ct. derive_key c master (so_id ob) (so_namespace ob) 1 = Inr key \<and>
         associated_data c (object_metadata_of ob) 1 = Inr aad \<and>
         aead_encrypt c key (env_nonce v) aad plaintext = Some ct \<and>
         env_version v = 1 \<and> env_algorithm v = ''XCHACHA20-POLY1305'' \<and> env_key_version v = 1 \<and>
         env_ciphertext v = ct)" for v
    unfolding encrypt_def om by (auto simp: result_simps v)
  show ?thesis
    unfolding enc decrypt_def
    by (cases "so_envelope ob") (auto simp: result_simps suite_okD(1) [OF assms] split: if_splits)
qed

definition demo_master :: bytes where "demo_master = replicate 32 7"

definition demo_metadata :: object_metadata where
  "demo_metadata = \<lparr>om_protocol = PROTOCOL_MAX, om_object_id = ObjectId 1, om_namespace = ''n'',
     om_device_id = DeviceId 2, om_revision = 1, om_modified_at = Timestamp 3\<rparr>"

definition demo_nonce :: bytes where "demo_nonce = replicate 24 9"

definition demo_encrypted :: envelope where
  "demo_encrypted = \<lparr>env_version = 1, env_algorithm = ''XCHACHA20-POLY1305'', env_key_version = 1,
     env_nonce = demo_nonce, env_ciphertext = [4, 5]\<rparr>"

definition demo_stored :: sync_object where
  "demo_stored = \<lparr>so_id = ObjectId 1, so_namespace = ''n'', so_revision = 1, so_cursor = 1,
     so_device_id = DeviceId 2, so_modified_at = Timestamp 3, so_deleted = False,
     so_envelope = Some demo_encrypted\<rparr>"

lemma demo_suite_simps [simp]:
  "hkdf_expand demo_suite salt ikm info = Some (salt @ ikm @ info)"
  "aead_encrypt demo_suite k n a m = Some m" "digest256 demo_suite b = replicate 32 0"
  "rfc3339 demo_suite (Timestamp t) = (if 0 \<le> t then Some (replicate (nat t) CHR ''t'') else None)"
  by (simp_all add: demo_suite_def)

lemma demo_encrypts: "encrypt demo_suite demo_nonce demo_master demo_metadata [4, 5] = Inr demo_encrypted"
  by (simp add: encrypt_def derive_key_def object_key_info_def append_field_def associated_data_def Let_def
      demo_metadata_def demo_encrypted_def ascii_def uuid_bytes_def)

lemma decrypt_iff_encrypted_witness: "decrypt demo_suite demo_master demo_stored = Inr [4, 5]"
proof -
  have "object_metadata_of demo_stored = demo_metadata"
    by (simp add: object_metadata_of_def demo_stored_def demo_metadata_def)
  then show ?thesis
    using decrypt_iff_encrypted [OF demo_suite_ok, of demo_master demo_stored "[4, 5]"] demo_encrypts
    by (auto simp: demo_stored_def demo_encrypted_def demo_nonce_def)
qed

text \<open>C35. Authenticated metadata: two objects have the same associated data only if they agree on
  protocol, object id, namespace, device, revision, the text of the timestamp and the envelope
  version; no field can be moved into another.\<close>

theorem associated_data_binds_metadata:
  assumes "associated_data c m v = Inr a" and "associated_data c m' v' = Inr a"
  shows "om_protocol m = om_protocol m' \<and> om_object_id m = om_object_id m' \<and>
    om_namespace m = om_namespace m' \<and> om_device_id m = om_device_id m' \<and>
    om_revision m = om_revision m' \<and> rfc3339 c (om_modified_at m) = rfc3339 c (om_modified_at m') \<and> v = v'"
  by (rule associated_data_inj [OF assms])

lemma demo_aad: "\<exists>a. associated_data demo_suite demo_metadata v = Inr a"
  by (simp add: append_field_def associated_data_def Let_def demo_metadata_def ascii_def uuid_bytes_def)

lemma associated_data_binds_metadata_witness:
  "\<exists>a b. associated_data demo_suite demo_metadata 1 = Inr a \<and> associated_data demo_suite demo_metadata 2 = Inr b \<and> a \<noteq> b"
proof -
  obtain a b where "associated_data demo_suite demo_metadata 1 = Inr a"
    "associated_data demo_suite demo_metadata 2 = Inr b"
    using demo_aad by blast
  moreover from this have "a \<noteq> b"
    using associated_data_binds_metadata [of demo_suite demo_metadata 1 a demo_metadata 2] by auto
  ultimately show ?thesis by blast
qed

text \<open>The uses the client derives keys for, and the salt and info HKDF is asked with for each.\<close>

datatype key_use = Object_key object_id string u32 | Local_key string

fun derived :: "suite \<Rightarrow> bytes \<Rightarrow> key_use \<Rightarrow> client_error + bytes" where
  "derived c master (Object_key i namespace version) = derive_key c master i namespace version"
| "derived c master (Local_key purpose) = derive_local_state_key c master purpose"

definition framed :: "string \<Rightarrow> string \<Rightarrow> bytes" where
  "framed label text = ascii label @ be_bytes 4 (length text) @ ascii text"

fun hkdf_question :: "key_use \<Rightarrow> bytes \<times> bytes" where
  "hkdf_question (Object_key i namespace version) =
     (uuid_bytes (object_uuid i), framed ''helium-sync/object-key/'' namespace @ be_bytes 4 (unat version))"
| "hkdf_question (Local_key purpose) =
     (ascii ''helium-sync/local-state-salt/v1'', framed ''helium-sync/local-state-key/v1'' purpose)"

lemma append_field_framed:
  "append_field (ascii label) (ascii text) = Inr a \<longleftrightarrow> length text < 2 ^ 32 \<and> a = framed label text"
  by (auto simp: append_field_def framed_def ascii_def)

text \<open>Distinct uses ask distinct questions.\<close>

lemma hkdf_question_inj:
  assumes "derived c master u = Inr key" and "derived c master v = Inr key'" and "hkdf_question u = hkdf_question v"
  shows "u = v"
proof (cases u; cases v)
  fix i n w j m x
  assume uv: "u = Object_key i n w" "v = Object_key j m x"
  from assms(1,2) uv have f: "append_field (ascii ''helium-sync/object-key/'') (ascii n) = Inr (framed ''helium-sync/object-key/'' n)"
    "append_field (ascii ''helium-sync/object-key/'') (ascii m) = Inr (framed ''helium-sync/object-key/'' m)"
    by (auto simp: derive_key_def object_key_info_def result_simps append_field_framed)
  from assms(3) uv have q: "uuid_bytes (object_uuid i) = uuid_bytes (object_uuid j)"
    "framed ''helium-sync/object-key/'' n @ be_bytes 4 (unat w) = framed ''helium-sync/object-key/'' m @ be_bytes 4 (unat x)"
    by simp_all
  from append_field_inj [OF f q(2)] have "ascii n = ascii m" "be_bytes 4 (unat w) = be_bytes 4 (unat x)" by simp_all
  with q(1) show "u = v" using be_word_inj [of 4 w x] by (simp add: uv ascii_inj uuid_bytes_inj)
next
  fix p q
  assume uv: "u = Local_key p" "v = Local_key q"
  from assms(1,2) uv have f: "append_field (ascii ''helium-sync/local-state-key/v1'') (ascii p) = Inr (framed ''helium-sync/local-state-key/v1'' p)"
    "append_field (ascii ''helium-sync/local-state-key/v1'') (ascii q) = Inr (framed ''helium-sync/local-state-key/v1'' q)"
    by (auto simp: derive_local_state_key_def result_simps append_field_framed)
  from append_field_inj [OF f, of "[]" "[]"] assms(3) show "u = v" by (simp add: uv ascii_inj)
next
  fix i n w p
  have "length (uuid_bytes (object_uuid i)) \<noteq> length (ascii ''helium-sync/local-state-salt/v1'')"
    by (simp add: uuid_bytes_def ascii_def)
  then have "uuid_bytes (object_uuid i) \<noteq> ascii ''helium-sync/local-state-salt/v1''" by metis
  then show "u = Object_key i n w \<Longrightarrow> v = Local_key p \<Longrightarrow> u = v" "u = Local_key p \<Longrightarrow> v = Object_key i n w \<Longrightarrow> u = v"
    using assms(3) by (metis fst_conv hkdf_question.simps)+
qed

lemma derived_asks:
  "derived c master u = Inr key \<Longrightarrow>
     hkdf_expand c (fst (hkdf_question u)) master (snd (hkdf_question u)) = Some key"
  by (cases u)
    (auto simp: derive_key_def derive_local_state_key_def object_key_info_def result_simps append_field_framed local_state_salt_def)

text \<open>C36. Key separation: every key the client derives from a master key is HKDF's answer to a question
  that determines its use, an object with its namespace and key version, or a purpose of local
  state; so two different uses get the same key only if HKDF answers the two different questions
  named here alike.\<close>

theorem derived_keys_separate:
  assumes "derived c master u = Inr key" and "derived c master v = Inr key" and "u \<noteq> v"
  shows "hkdf_question u \<noteq> hkdf_question v
    \<and> hkdf_expand c (fst (hkdf_question u)) master (snd (hkdf_question u)) = Some key
    \<and> hkdf_expand c (fst (hkdf_question v)) master (snd (hkdf_question v)) = Some key"
  using hkdf_question_inj [OF assms(1,2)] derived_asks [OF assms(1)] derived_asks [OF assms(2)] assms(3) by blast

text \<open>Two objects under an HKDF that forgets the salt: same key, different questions.\<close>

definition saltless_suite :: suite where
  "saltless_suite = demo_suite\<lparr>hkdf_expand := (\<lambda>salt ikm info. Some info)\<rparr>"

lemma derived_keys_separate_witness:
  "\<exists>key. derived saltless_suite demo_master (Object_key (ObjectId 1) ''n'' 1) = Inr key \<and>
     derived saltless_suite demo_master (Object_key (ObjectId 2) ''n'' 1) = Inr key \<and>
     hkdf_question (Object_key (ObjectId 1) ''n'' 1) \<noteq> hkdf_question (Object_key (ObjectId 2) ''n'' 1)"
proof -
  obtain key where "derived saltless_suite demo_master (Object_key (ObjectId 1) ''n'' 1) = Inr key"
    "derived saltless_suite demo_master (Object_key (ObjectId 2) ''n'' 1) = Inr key"
    by (simp add: derive_key_def object_key_info_def append_field_def ascii_def saltless_suite_def)
  from derived_keys_separate [OF this] this show ?thesis by auto
qed

lemma encrypt_local_state_run:
  assumes "encrypt_local_state c nonce master purpose plaintext = Inr encoded"
  obtains key aad ct where "derive_local_state_key c master purpose = Inr key"
    "local_state_aad purpose = Inr aad" "aead_encrypt c key nonce aad plaintext = Some ct"
    "envelope_text c \<lparr>env_version = 1, env_algorithm = ''XCHACHA20-POLY1305-LOCAL-STATE'',
       env_key_version = 1, env_nonce = nonce, env_ciphertext = ct\<rparr> = Some encoded"
  using assms by (auto simp: encrypt_local_state_def result_simps)

lemma decrypt_encrypted_local_state:
  assumes "suite_ok c" and "length nonce = 24" and "encrypt_local_state c nonce master purpose plaintext = Inr encoded"
  shows "decrypt_local_state c master purpose encoded = Inr plaintext"
proof -
  from assms(3) obtain key aad ct where e: "derive_local_state_key c master purpose = Inr key"
    "local_state_aad purpose = Inr aad" "aead_encrypt c key nonce aad plaintext = Some ct"
    "envelope_text c \<lparr>env_version = 1, env_algorithm = ''XCHACHA20-POLY1305-LOCAL-STATE'',
       env_key_version = 1, env_nonce = nonce, env_ciphertext = ct\<rparr> = Some encoded"
    by (rule encrypt_local_state_run)
  show ?thesis
    using e suite_okD(4) [OF assms(1) e(4)] assms(2)
    by (auto simp: decrypt_local_state_def result_simps suite_okD(1) [OF assms(1)])
qed

text \<open>Local state: what a device encrypts for one purpose it decrypts for that purpose, and
  decryption accepts only an envelope whose ciphertext is an encryption of the result under the
  purpose's own key and associated data.\<close>

theorem local_state_round_trip:
  assumes "suite_ok c" and "length nonce = 24" and "encrypt_local_state c nonce master purpose plaintext = Inr encoded"
  shows "decrypt_local_state c master purpose encoded = Inr plaintext \<and>
    (\<forall>other result. decrypt_local_state c master other encoded = Inr result \<longrightarrow>
       (\<exists>key aad ct. derive_local_state_key c master other = Inr key \<and> local_state_aad other = Inr aad \<and>
          aead_encrypt c key nonce aad result = Some ct \<and>
          envelope_text c \<lparr>env_version = 1, env_algorithm = ''XCHACHA20-POLY1305-LOCAL-STATE'',
            env_key_version = 1, env_nonce = nonce, env_ciphertext = ct\<rparr> = Some encoded))"
proof -
  from assms(3) obtain key aad ct where e: "derive_local_state_key c master purpose = Inr key"
    "local_state_aad purpose = Inr aad" "aead_encrypt c key nonce aad plaintext = Some ct"
    "envelope_text c \<lparr>env_version = 1, env_algorithm = ''XCHACHA20-POLY1305-LOCAL-STATE'',
       env_key_version = 1, env_nonce = nonce, env_ciphertext = ct\<rparr> = Some encoded"
    by (rule encrypt_local_state_run)
  note read = suite_okD(4) [OF assms(1) e(4)]
  show ?thesis
    using e read assms(2) by (auto simp: decrypt_local_state_def result_simps suite_okD(1) [OF assms(1)])
qed

lemma local_state_round_trip_witness:
  "\<exists>encoded. encrypt_local_state demo_suite demo_nonce demo_master ''p'' [1, 2] = Inr encoded \<and>
     decrypt_local_state demo_suite demo_master ''p'' encoded = Inr [1, 2]"
proof -
  have "\<exists>encoded. encrypt_local_state demo_suite demo_nonce demo_master ''p'' [1, 2] = Inr encoded"
    by (simp add: encrypt_local_state_def derive_local_state_key_def local_state_aad_def append_field_def
        ascii_def) (simp add: demo_suite_def demo_nonce_def)
  then show ?thesis
    using local_state_round_trip [OF demo_suite_ok, of demo_nonce] by (auto simp: demo_nonce_def)
qed

text \<open>C37. Recovery codes: a code is accepted, and gives a key, exactly when it is the code of that
  32-byte key; so a key survives the round trip and any other text, a wrong prefix, length,
  alphabet or checksum included, is refused.\<close>

theorem recovery_code_accepted_iff:
  assumes "suite_ok c"
  shows "from_recovery_code c code = Inr key \<longleftrightarrow> length key = MASTER_KEY_LENGTH \<and> code = recovery_code c key"
proof
  assume "from_recovery_code c code = Inr key"
  then obtain encoded decoded where d: "code = RECOVERY_PREFIX @ encoded" "base64_decode c encoded = Some decoded"
    "length decoded = MASTER_KEY_LENGTH + 4" "key = take MASTER_KEY_LENGTH decoded"
    "drop MASTER_KEY_LENGTH decoded = take 4 (digest256 c key)"
    by (auto simp: from_recovery_code_def result_simps Let_def split: if_splits)
  have "take MASTER_KEY_LENGTH decoded @ drop MASTER_KEY_LENGTH decoded = decoded"
    by (rule append_take_drop_id)
  then have "key @ take 4 (digest256 c key) = decoded" by (simp only: d(4) [symmetric] d(5))
  moreover have "base64_encode c decoded = encoded" using d(2) suite_okD(3) [OF assms] by simp
  moreover have "length key = MASTER_KEY_LENGTH" using d(3,4) by simp
  ultimately show "length key = MASTER_KEY_LENGTH \<and> code = recovery_code c key"
    using d(1) by (simp add: recovery_code_def)
next
  assume k: "length key = MASTER_KEY_LENGTH \<and> code = recovery_code c key"
  have "base64_decode c (base64_encode c (key @ take 4 (digest256 c key))) = Some (key @ take 4 (digest256 c key))"
    by (simp add: suite_okD(3) [OF assms])
  with k show "from_recovery_code c code = Inr key"
    by (simp add: from_recovery_code_def recovery_code_def suite_okD(2) [OF assms])
qed

lemma recovery_code_accepted_iff_witness:
  "from_recovery_code demo_suite (recovery_code demo_suite demo_master) = Inr demo_master"
  using recovery_code_accepted_iff [OF demo_suite_ok] by (simp add: demo_master_def MASTER_KEY_LENGTH_def)

end
