(* ===== verification/ClientDemo.thy ===== *)
theory ClientDemo
  imports Network CryptoProps
begin

text \<open>
  A site that answers: the calls of the API client over a network that loses nothing and a server
  without faults succeed (\<open>answered_request\<close>, \<open>negotiated_ok\<close>). On it a concrete site, with a JSON
  codec for a handful of bodies and a client core, whose runs the properties of the client are
  applied to.
\<close>

section \<open>A site that answers\<close>

definition answering :: "site \<Rightarrow> string \<Rightarrow> bool" where
  "answering t token \<longleftrightarrow>
     site_ok t \<and> (\<forall>n. site_fate t n = Answered \<and> site_visitors t n = []) \<and> no_faults (site_env t) \<and>
     header_value_ok (''Bearer '' @ token) \<and> site_sha t (bytes_of token) = app_token_digest (site_app t)"

lemma answered_request:
  assumes ok: "answering t token"
    and payload: "payload_bytes (site_json t) payload = Some b" "length b \<le> MAX_BODY_BYTES"
    and route: "decode_route (site_env t) (site_json t) m path b = Some rt"
    and protocol: "rt = RouteVersion \<or> (incl \<and> as_protocol a = Some PROTOCOL_MAX)"
    and handled: "handle_route (site_env t) (site_version t) rt (nw_conn (as_remote a)) = (Inr x, c')"
    and reply: "reply_message x = (code, Some b')" "is_success code" "kind_of b' = kind"
    and written: "body_text (site_json t) b' = Some out"
  shows "json_request (site_json t) token (site_transport t) m path payload kind incl a =
    (Inr b', a\<lparr>as_remote := \<lparr>nw_conn = c', nw_tick = Suc (nw_tick (as_remote a))\<rparr>\<rparr>)"
proof -
  have parse: "body_parse (site_json t) kind out = Some b'"
    using ok written reply(3) by (auto simp: answering_def site_ok_def body_codec_okD(1))
  have auth: "require_auth (site_sha t) (site_app t) (Some (''Bearer '' @ token)) = Inr ()"
    using ok by (simp add: require_auth_def answering_def strip_prefix_def)
  have "map_of (request_headers token (as_protocol a) incl (payload \<noteq> None)) ''authorization'' = Some (''Bearer '' @ token)"
    by (simp add: request_headers_def)
  moreover have "rt = RouteVersion \<or> require_protocol (map_of (request_headers token (as_protocol a) incl (payload \<noteq> None))
      PROTOCOL_HEADER) = Inr ()"
    using protocol by (auto simp: request_headers_def PROTOCOL_HEADER_def require_protocol_def protocol_text_def
        PROTOCOL_MAX_def parse_show_nat)
  ultimately have serve: "serve_request (site_env t) (site_sha t) (site_app t) (site_version t)
      \<lparr>hr_authorization = map_of (request_headers token (as_protocol a) incl (payload \<noteq> None)) ''authorization'',
       hr_protocol = map_of (request_headers token (as_protocol a) incl (payload \<noteq> None)) PROTOCOL_HEADER,
       hr_route = rt\<rparr> (nw_conn (as_remote a)) = (Inr x, c')"
    using auth handled by (auto simp: serve_request_def bindS_def liftS_def)
  have "site_transport t \<lparr>tr_method = m, tr_path = path,
      tr_headers = request_headers token (as_protocol a) incl (payload \<noteq> None), tr_body = b\<rparr> (as_remote a) =
      (Inr \<lparr>ts_status = code, ts_body = out\<rparr>, \<lparr>nw_conn = c', nw_tick = Suc (nw_tick (as_remote a))\<rparr>)"
    using ok payload(2) route serve reply(1) written
    by (simp add: site_transport_def http_serve_def answering_def Let_def respond_def)
  with ok payload(1) parse reply(2) show ?thesis
    by (simp add: json_request_def bindS_def liftS_def get_protocol_def remote_def Let_def payload_bytes_def
        parse_response_def answering_def split: option.splits)
qed

lemma negotiated_ok:
  assumes ok: "answering t token" and fresh: "as_protocol a = None"
    and written: "body_text (site_json t) (BodyVersion (version (site_version t))) = Some out"
  shows "ensure_negotiated (site_json t) token (site_transport t) a =
    (Inr PROTOCOL_MAX, a\<lparr>as_protocol := Some PROTOCOL_MAX,
       as_remote := \<lparr>nw_conn = nw_conn (as_remote a), nw_tick = Suc (nw_tick (as_remote a))\<rparr>\<rparr>)"
proof -
  have "json_request (site_json t) token (site_transport t) GET ''/v1/version'' None KVersion False a =
      (Inr (BodyVersion (version (site_version t))),
       a\<lparr>as_remote := \<lparr>nw_conn = nw_conn (as_remote a), nw_tick = Suc (nw_tick (as_remote a))\<rparr>\<rparr>)"
    by (rule answered_request [OF ok, where b = "[]" and rt = RouteVersion and x = "VersionReply (version (site_version t))"
          and code = 200 and out = out])
      (simp_all add: payload_bytes_def decode_route_def strip_prefix_def returnS_def is_success_def written)
  moreover have "negotiate default_range (vr_protocol (version (site_version t))) = Some PROTOCOL_MAX"
    by (simp add: version_def negotiate_def default_range_def PROTOCOL_MAX_def PROTOCOL_MIN_def)
  ultimately show ?thesis
    using fresh by (simp add: ensure_negotiated_def negotiate_version_def bindS_def get_protocol_def set_protocol_def
        liftS_def returnS_def)
qed

text \<open>A site with one device, an answering network and a JSON codec for the bodies used below.\<close>

definition net_put :: put_object_request where
  "net_put = (demo_put None)\<lparr>put_namespace := BOOKMARK_NAMESPACE\<rparr>"

definition net_object :: sync_object where
  "net_object = put_result (ObjectId 3) net_put 1 1"

definition no_changes :: changes_response where
  "no_changes = \<lparr>page_changes = [], page_next_cursor = 0, page_has_more = False\<rparr>"

definition net_bodies :: "(body \<times> bytes) list" where
  "net_bodies = [(BodyVersion (version ''1.0''), [1]), (BodyPut net_put, [2]), (BodyObject net_object, [3]),
     (BodyChanges no_changes, [4])]"

definition net_json :: body_codec where
  "net_json = \<lparr>body_text = map_of net_bodies,
     body_parse = (\<lambda>k t. map_option fst (find_row (\<lambda>(b, u). (kind_of b, u)) (k, t) net_bodies)),
     id_text = uuid_text demo_env\<rparr>"

definition demo_site :: site where
  "demo_site = \<lparr>site_env = demo_env, site_sha = demo_digest, site_app = demo_app, site_version = ''1.0'',
     site_json = net_json, site_fate = (\<lambda>n. Answered), site_visitors = (\<lambda>n. []),
     site_refusal = (\<lambda>req. \<lparr>ts_status = 404, ts_body = []\<rparr>)\<rparr>"

lemma demo_site_simps [simp]:
  "site_env demo_site = demo_env" "site_sha demo_site = demo_digest" "site_app demo_site = demo_app"
  "site_version demo_site = ''1.0''" "site_json demo_site = net_json" "site_fate demo_site n = Answered"
  "site_visitors demo_site n = []" "site_refusal demo_site req = \<lparr>ts_status = 404, ts_body = []\<rparr>"
  by (simp_all add: demo_site_def)

lemma net_json_ok: "body_codec_ok net_json"
  unfolding body_codec_ok_def
proof (intro conjI allI impI)
  fix b t assume "body_text net_json b = Some t"
  then have "(b, t) \<in> set net_bodies" by (simp add: net_json_def map_of_SomeD)
  then show "body_parse net_json (kind_of b) t = Some b"
    by (auto simp: net_json_def net_bodies_def find_row_Cons)
next
  fix k t b assume "body_parse net_json k t = Some b"
  then show "kind_of b = k" by (auto simp: net_json_def dest!: find_row_SomeD)
qed

lemma demo_site_ok: "site_ok demo_site"
  using demo_codec net_json_ok by (simp add: site_ok_def net_json_def is_success_def)

lemma demo_answering: "answering demo_site ''secret''"
  using demo_site_ok demo_no_faults
  by (simp add: answering_def header_value_ok_def code_of_def demo_app_def app_state_new_def token_digest_def)

definition net0 :: "net_world api_state" where
  "net0 = \<lparr>as_protocol = None, as_remote = \<lparr>nw_conn = demo_conn0, nw_tick = 0\<rparr>\<rparr>"

lemma net0_rep: "net_rep demo_site net0 demo_store0"
  using demo_site_ok demo_sim0 by (simp add: net_rep_def net_sim_def net0_def)

definition demo_snapshot :: bookmark_snapshot where
  "demo_snapshot = \<lparr>bs_format = ''helium-bookmarks-v1'', bs_source_browser = ''helium'',
     bs_profile_directory = ''Default'', bs_chromium_version = 1, bs_roots = []\<rparr>"

definition demo_core :: "'s api \<Rightarrow> 's core" where
  "demo_core a = \<lparr>core_api = a, core_suite = demo_suite, core_master = demo_master, core_device = demo_device,
     core_ids = (\<lambda>n. 3), core_nonces = (\<lambda>n. replicate 24 0), core_clock = (\<lambda>n. Timestamp 5),
     snapshot_json = (\<lambda>s. if s = demo_snapshot then Some [1, 2, 3] else None),
     snapshot_parse = (\<lambda>b. if b = [1, 2, 3] then Some demo_snapshot else None),
     manifest_json = (\<lambda>m. None), manifest_parse = (\<lambda>b. None), error_text = (\<lambda>er. ''''), core_id_text = (\<lambda>u. '''')\<rparr>"

lemma demo_core_simps [simp]:
  "core_api (demo_core a) = a" "core_suite (demo_core a) = demo_suite" "core_master (demo_core a) = demo_master"
  "core_device (demo_core a) = demo_device" "core_ids (demo_core a) n = 3"
  "core_nonces (demo_core a) n = replicate 24 0" "core_clock (demo_core a) n = Timestamp 5"
  "snapshot_json (demo_core a) demo_snapshot = Some [1, 2, 3]"
  "snapshot_parse (demo_core a) [1, 2, 3] = Some demo_snapshot"
  by (simp_all add: demo_core_def)

abbreviation net_core :: "net_world api_state core" where
  "net_core \<equiv> demo_core (api_client net_json ''secret'' (site_transport demo_site))"

definition net_store1 :: store where
  "net_store1 = record_object net_object demo_store0"

lemma net_put_handled:
  obtains c1 where "handle_route demo_env ''1.0'' (RoutePut 3 net_put) demo_conn0 = (Inr (ObjectReply net_object), c1)"
    "sim demo_env (c_db c1) net_store1"
proof -
  have fields: "put_device_id net_put = demo_device" "put_base_revision net_put = None"
    "put_modified_at net_put = Timestamp 5" "put_envelope net_put = demo_envelope"
    by (simp_all add: net_put_def)
  have "validate_put net_put = Inr ()"
    by (simp add: validate_put_def net_put_def demo_put_def demo_envelope_def MAX_PAYLOAD_BYTES_def BOOKMARK_NAMESPACE_def)
  then have spec: "spec_put (ObjectId 3) net_put demo_store0 = Some (net_object, net_store1)"
    using demo_active(1) fields by (simp add: spec_put_def net_store1_def net_object_def Let_def)
  have room: "put_room demo_env (ObjectId 3) net_put demo_store0"
    by (simp add: put_room_def fields i64_max_def)
  from put_complete [OF demo_codec demo_no_faults demo_sim0 room spec] obtain c2 where
    c2: "put_object_tx demo_env (ObjectId 3) net_put demo_conn0 = (Inr net_object, c2)" "sim demo_env (c_db c2) net_store1"
    by blast
  from transaction_ok [OF demo_no_faults tick_free_tx(1) [OF demo_no_faults] refl c2(1)] obtain c1 where
    "put_object demo_env 3 net_put demo_conn0 = (Inr net_object, c1)" "c_db c1 = c_db c2"
    unfolding put_object_def by blast
  with c2(2) that [of c1] show ?thesis by (simp add: reply_with_def bindS_def returnS_def)
qed

lemma net_get_handled:
  assumes "sim demo_env (c_db c1) net_store1"
  obtains c2 where "handle_route demo_env ''1.0'' (RouteGet 3) c1 = (Inr (ObjectReply net_object), c2)"
    "sim demo_env (c_db c2) net_store1"
proof -
  have "st_objects net_store1 (ObjectId 3) = Some net_object"
    by (simp add: net_store1_def record_object_def net_object_def put_result_def)
  with simD(3) [OF assms, of "ObjectId 3"] obtain r where
    r: "current_row demo_env (ObjectId 3) (c_db c1) = Some r" "object_enc demo_env r net_object"
    by (auto simp: option_rel_Some2)
  then have "handle_route demo_env ''1.0'' (RouteGet 3) c1 = (Inr (ObjectReply net_object), c1\<lparr>c_tick := Suc (c_tick c1)\<rparr>)"
    using row_to_object_enc [OF demo_codec r(2)]
    by (simp add: reply_with_def get_object_def bindS_def liftS_def returnS_def sql_def select_object_def current_row_def)
  with that assms show ?thesis by simp
qed

lemma net_texts:
  "body_text net_json (BodyVersion (version ''1.0'')) = Some [1]" "body_text net_json (BodyPut net_put) = Some [2]"
  "body_text net_json (BodyObject net_object) = Some [3]" "body_text net_json (BodyChanges no_changes) = Some [4]"
  by (simp_all add: net_json_def net_bodies_def)

lemma net_routes:
  "decode_route demo_env net_json PUT (objects_path net_json (ObjectId 3)) [2] = Some (RoutePut 3 net_put)"
  "decode_route demo_env net_json GET (objects_path net_json (ObjectId 3)) [] = Some (RouteGet 3)"
  using decode_objects_path [OF demo_site_ok] body_codec_okD(1) [OF net_json_ok net_texts(2), of KPut]
  by (simp_all add: object_route_def)

lemma net_put_call:
  obtains a1 where "api_put (api_client net_json ''secret'' (site_transport demo_site)) (ObjectId 3) net_put net0 = (Inr net_object, a1)"
    "as_protocol a1 = Some PROTOCOL_MAX" "sim demo_env (c_db (nw_conn (as_remote a1))) net_store1"
proof -
  obtain c1 where c1: "handle_route demo_env ''1.0'' (RoutePut 3 net_put) demo_conn0 = (Inr (ObjectReply net_object), c1)"
    "sim demo_env (c_db c1) net_store1" by (rule net_put_handled)
  let ?a = "net0\<lparr>as_protocol := Some PROTOCOL_MAX, as_remote := \<lparr>nw_conn = demo_conn0, nw_tick = 1\<rparr>\<rparr>"
  have n: "ensure_negotiated net_json ''secret'' (site_transport demo_site) net0 = (Inr PROTOCOL_MAX, ?a)"
    using negotiated_ok [OF demo_answering, of net0] net_texts(1) by (simp add: net0_def)
  have "json_request (site_json demo_site) ''secret'' (site_transport demo_site) PUT (objects_path net_json (ObjectId 3))
      (Some (BodyPut net_put)) KObject True ?a = (Inr (BodyObject net_object),
      ?a\<lparr>as_remote := \<lparr>nw_conn = c1, nw_tick = Suc (nw_tick (as_remote ?a))\<rparr>\<rparr>)"
    by (rule answered_request [OF demo_answering, where b = "[2]" and rt = "RoutePut 3 net_put"
          and x = "ObjectReply net_object" and code = 200 and out = "[3]"])
      (use c1(1) in \<open>simp_all add: payload_bytes_def net_texts net_routes is_success_def MAX_BODY_BYTES_def MAX_PAYLOAD_BYTES_def\<close>)
  with n c1(2) that show ?thesis
    by (simp add: api_client_def client_put_object_def negotiated_request_def bindS_def liftS_def expect_object_def)
qed

lemma net_get_call:
  assumes "as_protocol a = Some PROTOCOL_MAX \<or> as_protocol a = None" and "sim demo_env (c_db (nw_conn (as_remote a))) net_store1"
  obtains a1 where "api_get (api_client net_json ''secret'' (site_transport demo_site)) (ObjectId 3) a = (Inr net_object, a1)"
    "as_protocol a1 = Some PROTOCOL_MAX" "sim demo_env (c_db (nw_conn (as_remote a1))) net_store1"
proof -
  obtain c1 where c1: "handle_route demo_env ''1.0'' (RouteGet 3) (nw_conn (as_remote a)) = (Inr (ObjectReply net_object), c1)"
    "sim demo_env (c_db c1) net_store1" by (rule net_get_handled [OF assms(2)])
  obtain a0 where a0: "ensure_negotiated net_json ''secret'' (site_transport demo_site) a = (Inr PROTOCOL_MAX, a0)"
    "as_protocol a0 = Some PROTOCOL_MAX" "nw_conn (as_remote a0) = nw_conn (as_remote a)"
  proof (cases "as_protocol a")
    case None
    with negotiated_ok [OF demo_answering, of a] net_texts(1) that show ?thesis by simp
  next
    case (Some v)
    with assms(1) that [of a] show ?thesis by (simp add: ensure_negotiated_def bindS_def get_protocol_def returnS_def)
  qed
  have "json_request (site_json demo_site) ''secret'' (site_transport demo_site) GET (objects_path net_json (ObjectId 3))
      None KObject True a0 = (Inr (BodyObject net_object),
      a0\<lparr>as_remote := \<lparr>nw_conn = c1, nw_tick = Suc (nw_tick (as_remote a0))\<rparr>\<rparr>)"
    by (rule answered_request [OF demo_answering, where b = "[]" and rt = "RouteGet 3"
          and x = "ObjectReply net_object" and code = 200 and out = "[3]"])
      (use c1(1) a0 in \<open>simp_all add: payload_bytes_def net_texts net_routes is_success_def\<close>)
  with a0 c1(2) that show ?thesis
    by (simp add: api_client_def client_get_object_def negotiated_request_def bindS_def liftS_def expect_object_def)
qed

lemma demo_core_encrypts:
  "encrypt demo_suite (replicate 24 0) demo_master (upload_metadata (demo_core a) BOOKMARK_NAMESPACE (ObjectId 3) None n)
     [1, 2, 3] = Inr demo_envelope"
  "decrypt demo_suite demo_master net_object = Inr [1, 2, 3]"
proof -
  let ?m = "upload_metadata (demo_core a) BOOKMARK_NAMESPACE (ObjectId 3) None n"
  show e: "encrypt demo_suite (replicate 24 0) demo_master ?m [1, 2, 3] = Inr demo_envelope"
    by (simp add: encrypt_def derive_key_def object_key_info_def append_field_def associated_data_def Let_def
        upload_metadata_def demo_envelope_def ascii_def uuid_bytes_def BOOKMARK_NAMESPACE_def)
  have "object_metadata_of net_object = ?m"
    by (simp add: object_metadata_of_def net_object_def put_result_def net_put_def upload_metadata_def demo_device_def)
  moreover have "om_object_id (object_metadata_of net_object) = so_id net_object"
    "om_namespace (object_metadata_of net_object) = so_namespace net_object" by (simp_all add: object_metadata_of_def)
  ultimately have om: "object_metadata_of net_object = ?m" "so_id net_object = om_object_id ?m" "so_namespace net_object = om_namespace ?m"
    by simp_all
  moreover have "so_envelope net_object = Some demo_envelope" by (simp add: net_object_def put_result_def net_put_def)
  moreover have "aead_decrypt demo_suite key nonce aad b = Some b" for key nonce aad b by (simp add: demo_suite_def)
  ultimately show "decrypt demo_suite demo_master net_object = Inr [1, 2, 3]"
    using e by (auto simp: decrypt_def encrypt_def demo_envelope_def result_simps)
qed

end
