(* ===== verification/ClientProps.thy ===== *)
theory ClientProps
  imports ClientDemo
begin

text \<open>
  Properties of the client core over the API client, the network and the server of \<open>Network\<close>:
  what one device saves every device loads, discovery is complete and takes a bounded number of
  requests, and nothing but a version request precedes negotiation.
\<close>

section \<open>Bookmarks over the network\<close>

definition client0 :: "net_world api_state client" where
  "client0 = \<lparr>cl_remote = net0, cl_draws = 0\<rparr>"

lemma demo_save:
  obtains p c1 where "save_bookmark_snapshot net_core demo_snapshot None None client0 = (Inr p, c1)"
    "sp_object_id p = ObjectId 3" "sp_revision p = 1" "sim demo_env (c_db (nw_conn (as_remote (cl_remote c1)))) net_store1"
    "as_protocol (cl_remote c1) = Some PROTOCOL_MAX"
proof -
  obtain a1 where a1: "api_put (api_client net_json ''secret'' (site_transport demo_site)) (ObjectId 3) net_put net0 = (Inr net_object, a1)"
    "as_protocol a1 = Some PROTOCOL_MAX" "sim demo_env (c_db (nw_conn (as_remote a1))) net_store1" by (rule net_put_call)
  obtain a2 where a2: "api_get (api_client net_json ''secret'' (site_transport demo_site)) (ObjectId 3) a1 = (Inr net_object, a2)"
    "as_protocol a2 = Some PROTOCOL_MAX" "sim demo_env (c_db (nw_conn (as_remote a2))) net_store1"
    by (rule net_get_call [of a1]) (use a1 in auto)
  have req: "\<lparr>put_namespace = BOOKMARK_NAMESPACE, put_base_revision = None, put_device_id = demo_device,
      put_modified_at = Timestamp 5, put_envelope = demo_envelope\<rparr> = net_put"
    by (simp add: net_put_def demo_put_def)
  show ?thesis
    by (rule that [of "\<lparr>sp_object_id = ObjectId 3, sp_namespace = BOOKMARK_NAMESPACE, sp_revision = so_revision net_object,
          sp_cursor = so_cursor net_object, sp_plaintext_matches = True\<rparr>" "\<lparr>cl_remote = a2, cl_draws = 1\<rparr>"])
      (use a1 a2 req demo_core_encrypts(1) [of "api_client net_json ''secret'' (site_transport demo_site)" 0] demo_core_encrypts(2)
       in \<open>simp_all add: save_bookmark_snapshot_def upload_def bindS_def liftS_def draw_def call_def client0_def Let_def
         returnS_def\<close>, simp add: net_object_def put_result_def)
qed

lemma demo_load:
  assumes "sim demo_env (c_db (nw_conn (as_remote (cl_remote c)))) net_store1"
    and "as_protocol (cl_remote c) = Some PROTOCOL_MAX \<or> as_protocol (cl_remote c) = None"
  obtains p c1 where "load_bookmarks net_core (ObjectId 3) c = (Inr (demo_snapshot, p), c1)"
proof -
  obtain a1 where "api_get (api_client net_json ''secret'' (site_transport demo_site)) (ObjectId 3) (cl_remote c) = (Inr net_object, a1)"
    using net_get_call [OF assms(2,1)] by blast
  moreover have "so_namespace net_object = BOOKMARK_NAMESPACE" by (simp add: net_object_def put_result_def net_put_def)
  ultimately show ?thesis
    using that demo_core_encrypts(2)
    by (simp add: load_bookmarks_def download_def bindS_def liftS_def call_def returnS_def)
qed

text \<open>C4. End to end: over the network and the server, without other writers, what one device saved
  is what any device holding the same master key loads under the id and revision the save
  reported, whichever requests and answers are lost and whichever database calls fail on the way.\<close>

theorem saved_bookmarks_reach_devices:
  assumes rep: "net_rep t (cl_remote c) s" and alone: "\<forall>n. site_visitors t n = []"
    and cores: "core_api k = api_client (site_json t) token (site_transport t)"
      "core_api k' = api_client (site_json t) token' (site_transport t)"
    and same: "core_suite k' = core_suite k" "core_master k' = core_master k"
    and parse: "\<And>b. snapshot_json k snapshot = Some b \<Longrightarrow> snapshot_parse k' b = Some snapshot"
    and save: "save_bookmark_snapshot k snapshot oid base c = (Inr p, c1)"
    and later: "as_remote (cl_remote c2) = as_remote (cl_remote c1)"
    and load: "load_bookmarks k' (sp_object_id p) c2 = (Inr (loaded, q), c3)"
  shows "loaded = snapshot \<and> sp_revision q = sp_revision p \<and> sp_cursor q = sp_cursor p"
proof -
  have quiet: "s' = s''" if "visited t s'' s'" for s' s'' using that alone by (simp add: visited_def)
  from save obtain b where b: "snapshot_json k snapshot = Some b" "upload k BOOKMARK_NAMESPACE b oid base c = (Inr p, c1)"
    by (auto simp: save_bookmark_snapshot_def result_simps split: if_splits)
  obtain s1 req ob1 s2 s3 ob where u: "visited t s2 s3" "net_rep t (cl_remote c1) s3" "st_objects s3 (sp_object_id p) = Some ob"
    "decrypt (core_suite k) (core_master k) ob = Inr b" "sp_revision p = so_revision ob" "sp_cursor p = so_cursor ob"
    by (rule net.upload_Inr [OF cores(1) rep b(2)])
  have rep2: "net_rep t (cl_remote c2) s3" using u(2) later by (simp add: net_rep_def)
  from load obtain plaintext where d: "download k' BOOKMARK_NAMESPACE (sp_object_id p) c2 = (Inr (plaintext, q), c3)"
    "snapshot_parse k' plaintext = Some loaded"
    by (auto simp: load_bookmarks_def result_simps split: prod.splits)
  obtain s4 ob' where o: "visited t s3 s4" "st_objects s4 (sp_object_id p) = Some ob'"
    "decrypt (core_suite k') (core_master k') ob' = Inr plaintext"
    "q = \<lparr>sp_object_id = sp_object_id p, sp_namespace = BOOKMARK_NAMESPACE, sp_revision = so_revision ob',
       sp_cursor = so_cursor ob', sp_plaintext_matches = True\<rparr>"
    by (rule net.download_Inr [OF cores(2) rep2 d(1)])
  from quiet [OF o(1)] o(2) u(3) have "ob' = ob" by simp
  with o(3,4) u(4-6) d(2) parse [OF b(1)] same show ?thesis by simp
qed

lemma saved_bookmarks_reach_devices_witness:
  "\<exists>p c1 q c3. save_bookmark_snapshot net_core demo_snapshot None None client0 = (Inr p, c1) \<and>
     load_bookmarks net_core (sp_object_id p) (c1\<lparr>cl_remote := (cl_remote c1)\<lparr>as_protocol := None\<rparr>\<rparr>) = (Inr (demo_snapshot, q), c3) \<and>
     sp_revision q = sp_revision p"
proof -
  obtain p c1 where s: "save_bookmark_snapshot net_core demo_snapshot None None client0 = (Inr p, c1)"
    "sp_object_id p = ObjectId 3" "sim demo_env (c_db (nw_conn (as_remote (cl_remote c1)))) net_store1"
    using demo_save by metis
  let ?c2 = "c1\<lparr>cl_remote := (cl_remote c1)\<lparr>as_protocol := None\<rparr>\<rparr>"
  obtain q c3 where l: "load_bookmarks net_core (sp_object_id p) ?c2 = (Inr (demo_snapshot, q), c3)"
    using demo_load [of ?c2] s by auto
  have "net_rep demo_site (cl_remote client0) demo_store0" using net0_rep by (simp add: client0_def)
  from saved_bookmarks_reach_devices [OF this _ _ _ _ _ _ s(1) _ l, of "''secret''" "''secret''"] s(1) l show ?thesis by auto
qed

text \<open>C25. Discovery: over the network and the server, without other writers, discovery gives a
  snapshot of the wanted profile that the server holds, and answers that there is none only when
  every live bookmark object of the server belongs to another profile or cannot be decrypted; no
  page of the change feed, however long, hides one.\<close>

theorem discovery_complete:
  assumes "net_rep t (cl_remote c) s" and "\<forall>n. site_visitors t n = []"
    and "core_api k = api_client (site_json t) token (site_transport t)"
    and "discover_bookmarks k dir c = (Inr res, c')"
  shows "case res of
      Some (snapshot, p) \<Rightarrow> bs_profile_directory snapshot = dir \<and> (\<exists>i. holds_bookmarks k s i snapshot)
    | None \<Rightarrow> (\<forall>i ob. st_objects s i = Some ob \<and> so_namespace ob = BOOKMARK_NAMESPACE \<and> \<not> so_deleted ob \<longrightarrow>
        other_profile k s dir i)"
proof -
  have "s' = s''" if "visited t s'' s'" for s' s'' using that assms(2) by (simp add: visited_def)
  from net.discover_bookmarks_result [OF assms(3) this [symmetric] assms(1,4)] show ?thesis by simp
qed

lemma demo_discover:
  obtains c1 where "discover_bookmarks net_core dir client0 = (Inr None, c1)"
proof -
  let ?a = "net0\<lparr>as_protocol := Some PROTOCOL_MAX, as_remote := \<lparr>nw_conn = demo_conn0, nw_tick = 1\<rparr>\<rparr>"
  have n: "ensure_negotiated net_json ''secret'' (site_transport demo_site) net0 = (Inr PROTOCOL_MAX, ?a)"
    using negotiated_ok [OF demo_answering, of net0] net_texts(1) by (simp add: net0_def)
  have handled: "handle_route demo_env ''1.0'' (RouteChanges 0 default_changes_limit) demo_conn0 =
      (Inr (ChangesReply no_changes), demo_conn0\<lparr>c_tick := Suc (c_tick demo_conn0)\<rparr>)"
    by (simp add: reply_with_def changes_def default_changes_limit_def MAX_CHANGES_LIMIT_def bindS_def liftS_def returnS_def
        i64_from_u64_def u64_to_i64_def i64_max_def sql_def select_changes_def demo_conn0_def demo_conn_def
        empty_database_def no_changes_def)
  have "json_request (site_json demo_site) ''secret'' (site_transport demo_site) GET (''/v1/changes?after='' @ show_nat (unat (0 :: u64)))
      None KChanges True ?a = (Inr (BodyChanges no_changes),
      ?a\<lparr>as_remote := \<lparr>nw_conn = demo_conn0\<lparr>c_tick := Suc (c_tick demo_conn0)\<rparr>, nw_tick = Suc (nw_tick (as_remote ?a))\<rparr>\<rparr>)"
    by (rule answered_request [OF demo_answering, where b = "[]" and rt = "RouteChanges 0 default_changes_limit"
          and x = "ChangesReply no_changes" and code = 200 and out = "[4]"])
      (use handled in \<open>simp_all only: decode_changes_path demo_site_simps, simp_all add: payload_bytes_def net_texts is_success_def\<close>)
  with n have "\<exists>a. api_changes (api_client net_json ''secret'' (site_transport demo_site)) 0 net0 = (Inr no_changes, a)"
    by (simp add: api_client_def client_changes_def negotiated_request_def bindS_def liftS_def)
  then obtain a where "api_changes (api_client net_json ''secret'' (site_transport demo_site)) 0 net0 = (Inr no_changes, a)" ..
  then have "candidate_pages net_core BOOKMARK_NAMESPACE 0 [] client0 = (Inr [], client0\<lparr>cl_remote := a\<rparr>)"
    by (subst candidate_pages.simps) (simp add: call_def client0_def no_changes_def add_candidates_def)
  with that show ?thesis
    by (simp add: discover_bookmarks_def bindS_def live_candidates_def returnS_def)
qed

lemma discovery_complete_witness:
  "\<exists>c1. discover_bookmarks net_core ''Default'' client0 = (Inr None, c1) \<and>
    (\<forall>i ob. st_objects demo_store0 i = Some ob \<and> so_namespace ob = BOOKMARK_NAMESPACE \<and> \<not> so_deleted ob \<longrightarrow>
        other_profile net_core demo_store0 ''Default'' i)"
proof -
  obtain c1 where "discover_bookmarks net_core ''Default'' client0 = (Inr None, c1)" by (rule demo_discover)
  moreover have "net_rep demo_site (cl_remote client0) demo_store0" using net0_rep by (simp add: client0_def)
  ultimately show ?thesis using discovery_complete [of demo_site client0 demo_store0 net_core "''secret''"] by fastforce
qed

section \<open>How many requests\<close>

text \<open>Requests made so far, and one more while negotiation is still to come.\<close>

definition requests_due :: "net_world api_state \<Rightarrow> nat" where
  "requests_due a = nw_tick (as_remote a) + (if as_protocol a = None then 1 else 0)"

lemma site_transport_tick: "site_transport t req w = (r, w') \<Longrightarrow> nw_tick w' = Suc (nw_tick w)"
  by (auto simp: site_transport_def Let_def split: prod.splits fate.splits)

lemma json_request_tick:
  assumes "json_request j token (site_transport t) m path payload kind incl a = (r, a')"
  shows "as_protocol a' = as_protocol a \<and> nw_tick (as_remote a') \<le> Suc (nw_tick (as_remote a))"
  using assms
  by (auto simp: json_request_def bindS_def liftS_def get_protocol_def remote_def Let_def
      dest!: site_transport_tick split: if_splits sum.splits prod.splits)

lemma ensure_negotiated_due:
  assumes "ensure_negotiated j token (site_transport t) a = (r, a')"
  shows "requests_due a' \<le> Suc (requests_due a) \<and> (r \<in> range Inr \<longrightarrow> requests_due a' \<le> requests_due a)"
proof (cases "as_protocol a")
  case (Some v)
  with assms show ?thesis by (auto simp: ensure_negotiated_def bindS_def get_protocol_def returnS_def)
next
  case None
  obtain q b where q: "json_request j token (site_transport t) GET ''/v1/version'' None KVersion False a = (q, b)"
    by (cases "json_request j token (site_transport t) GET ''/v1/version'' None KVersion False a")
  from json_request_tick [OF q] assms q None show ?thesis
    by (auto simp: ensure_negotiated_def negotiate_version_def bindS_def get_protocol_def set_protocol_def liftS_def
        returnS_def requests_due_def ok_or_def split: sum.splits body.splits option.splits)
qed

lemma negotiated_request_due:
  assumes "negotiated_request j token (site_transport t) m path payload kind a = (r, a')"
  shows "requests_due a' \<le> Suc (requests_due a)"
proof -
  obtain q b where q: "ensure_negotiated j token (site_transport t) a = (q, b)"
    by (cases "ensure_negotiated j token (site_transport t) a")
  with ensure_negotiated_due [OF q] assms show ?thesis
    by (cases q) (fastforce simp: negotiated_request_def bindS_def requests_due_def dest!: json_request_tick)+
qed

lemma changes_due:
  "api_changes (api_client j token (site_transport t)) after a = (r, a') \<Longrightarrow> requests_due a' \<le> Suc (requests_due a)"
  by (auto simp: api_client_def client_changes_def bindS_def liftS_def dest!: negotiated_request_due
      split: prod.splits sum.splits)

lemma discovery_due:
  assumes api: "core_api k = api_client (site_json t) token (site_transport t)" and alone: "\<forall>n. site_visitors t n = []"
  shows "net_rep t (cl_remote c) s \<Longrightarrow> candidate_pages k namespace after cands c = (r, c') \<Longrightarrow>
    requests_due (cl_remote c') \<le> requests_due (cl_remote c) + length (later after s) div 100 + 1"
proof (induction "2 ^ 64 - unat after" arbitrary: after cands c r c' rule: less_induct)
  case less
  let ?api = "api_client (site_json t) token (site_transport t)"
  have n: "nat (uint default_changes_limit) = 100" by (simp add: default_changes_limit_def)
  obtain pr w where w: "api_changes ?api after (cl_remote c) = (pr, w)" by (cases "api_changes ?api after (cl_remote c)")
  note due = changes_due [OF w]
  from net.changes_law [OF less.prems(1) w] alone
  have law: "net_rep t w s" "\<And>page. pr = Inr page \<Longrightarrow> page = spec_changes after 100 s"
    unfolding n by (auto simp: visited_def)
  have step: "call (api_changes (core_api k) after) c = (pr, c\<lparr>cl_remote := w\<rparr>)"
    using w api by (simp add: call_def)
  show ?case
  proof (cases "pr \<in> range Inr \<and> 100 < length (later after s)")
    case False
    then have "cl_remote c' = w"
      using less.prems(2) step law(2) by (auto simp: candidate_pages.simps [of k] Let_def spec_changes_fields split: sum.splits)
    with due show ?thesis by simp
  next
    case True
    then obtain page where pr: "pr = Inr page" by blast
    note page = law(2) [OF pr]
    have more: "page_has_more page" unfolding page spec_changes_fields using True by simp
    let ?nxt = "page_next_cursor page"
    note adv = later_after_page [OF net.rep_ok [OF law(1)], of 100 after, folded page]
    have nxt: "after < ?nxt" "later ?nxt s = drop 100 (later after s)" using adv True by simp_all
    have lt: "unat after < unat ?nxt" using nxt(1) by (simp add: word_less_nat_alt)
    have "unat ?nxt < 2 ^ 64" using unsigned_less [of ?nxt, where 'a = nat] by simp
    with lt have m: "2 ^ 64 - unat ?nxt < 2 ^ 64 - unat after" by simp
    have rest: "candidate_pages k namespace ?nxt (add_candidates namespace (page_changes page) cands)
        (c\<lparr>cl_remote := w\<rparr>) = (r, c')"
      using less.prems(2) step pr more nxt(1) [unfolded not_le [symmetric]] by (simp add: candidate_pages.simps [of k _ after] Let_def)
    have "requests_due (cl_remote c') \<le> requests_due w + length (later ?nxt s) div 100 + 1"
      using less.hyps [OF m _ rest] law(1) by simp
    moreover have "length (later ?nxt s) div 100 + 1 = length (later after s) div 100"
      using True unfolding nxt(2) by (simp add: le_div_geq)
    ultimately show ?thesis using due by simp
  qed
qed

text \<open>C26. Termination of discovery: following the change feed of a server with a log of \<open>n\<close> changes
  takes at most \<open>n div 100 + 2\<close> requests, the version request included, whatever the network does;
  and the loop ends for every server, since it is a total function.\<close>

theorem discovery_requests_bounded:
  assumes "net_rep t (cl_remote c) s" and "\<forall>n. site_visitors t n = []"
    and "core_api k = api_client (site_json t) token (site_transport t)"
    and "candidate_pages k namespace 0 [] c = (r, c')"
  shows "nw_tick (as_remote (cl_remote c')) \<le> nw_tick (as_remote (cl_remote c)) + length (st_log s) div 100 + 2"
proof -
  have "length (later 0 s) div 100 \<le> length (st_log s) div 100"
    unfolding later_def by (intro div_le_mono length_filter_le)
  with discovery_due [OF assms(3,2,1,4)] show ?thesis by (simp add: requests_due_def split: if_splits)
qed

lemma discovery_requests_bounded_witness:
  "nw_tick (as_remote (cl_remote (snd (candidate_pages net_core BOOKMARK_NAMESPACE 0 [] client0)))) \<le> 2"
proof -
  have "net_rep demo_site (cl_remote client0) demo_store0" using net0_rep by (simp add: client0_def)
  then show ?thesis
    using discovery_requests_bounded [of demo_site client0 demo_store0 net_core "''secret''" BOOKMARK_NAMESPACE
        "fst (candidate_pages net_core BOOKMARK_NAMESPACE 0 [] client0)"
        "snd (candidate_pages net_core BOOKMARK_NAMESPACE 0 [] client0)"]
    by (simp add: client0_def net0_def demo_store0_def empty_store_def)
qed

section \<open>Negotiation comes first\<close>

text \<open>A transport that records what it is asked to carry.\<close>

definition recorded :: "'s transport \<Rightarrow> ('s \<times> transport_request list) transport" where
  "recorded execute req w = (let (r, s) = execute req (fst w) in (r, (s, snd w @ [req])))"

definition version_request :: "string \<Rightarrow> transport_request" where
  "version_request token =
     \<lparr>tr_method = GET, tr_path = ''/v1/version'', tr_headers = [(''authorization'', ''Bearer '' @ token)], tr_body = []\<rparr>"

definition versioned_request :: "string \<Rightarrow> protocol_version \<Rightarrow> transport_request \<Rightarrow> bool" where
  "versioned_request token v req \<longleftrightarrow>
     (\<exists>more. tr_headers req = (''authorization'', ''Bearer '' @ token) # (PROTOCOL_HEADER, protocol_text v) # more)"

lemma json_request_recorded:
  assumes "json_request j token (recorded execute) m path payload kind incl a = (r, a')" and "as_remote a = (w, log)"
  obtains w' b new where "as_remote a' = (w', log @ new)" "as_protocol a' = as_protocol a"
    "new = [] \<and> r \<in> range Inl \<or> new = [\<lparr>tr_method = m, tr_path = path,
       tr_headers = request_headers token (as_protocol a) incl (payload \<noteq> None), tr_body = b\<rparr>]"
    "payload_bytes j payload = Some b \<or> new = []"
proof (cases "payload_bytes j payload = None \<or> \<not> header_value_ok (''Bearer '' @ token)")
  case True
  then have "a' = a" "r \<in> range Inl"
    using assms(1) by (auto simp: json_request_def bindS_def liftS_def get_protocol_def payload_bytes_def ok_or_def
        split: if_splits option.splits)
  with assms(2) that [of w "[]"] show ?thesis by simp
next
  case False
  then obtain b where b: "payload_bytes j payload = Some b" by auto
  let ?req = "\<lparr>tr_method = m, tr_path = path, tr_headers = request_headers token (as_protocol a) incl (payload \<noteq> None), tr_body = b\<rparr>"
  obtain q w' where q: "execute ?req w = (q, w')" by (cases "execute ?req w")
  have "as_remote a' = (w', log @ [?req])" "as_protocol a' = as_protocol a"
    using assms False b q
    by (auto simp: json_request_def bindS_def liftS_def get_protocol_def payload_bytes_def ok_or_def remote_def recorded_def Let_def
        split: if_splits option.splits sum.splits)
  with that [of w' "[?req]" b] b show ?thesis by simp
qed

lemma ensure_negotiated_recorded:
  assumes run: "ensure_negotiated j token (recorded execute) a = (r, a')" and log: "as_remote a = (w, log)"
  obtains w' new where "as_remote a' = (w', log @ new)"
    "new = [] \<or> as_protocol a = None \<and> new = [version_request token]"
    "\<And>v. r = Inr v \<Longrightarrow> as_protocol a' = Some v" "as_protocol a \<noteq> None \<Longrightarrow> a' = a"
    "\<And>v. as_protocol a = None \<Longrightarrow> as_protocol a' = Some v \<Longrightarrow> in_range v default_range \<and> new \<noteq> []"
proof (cases "as_protocol a")
  case (Some v)
  with run log that [of w "[]"] show ?thesis
    by (auto simp: ensure_negotiated_def bindS_def get_protocol_def returnS_def)
next
  case None
  obtain q b where q: "json_request j token (recorded execute) GET ''/v1/version'' None KVersion False a = (q, b)"
    by (cases "json_request j token (recorded execute) GET ''/v1/version'' None KVersion False a")
  obtain w' body new where n: "as_remote b = (w', log @ new)" "as_protocol b = None"
    "new = [] \<and> q \<in> range Inl \<or> new = [\<lparr>tr_method = GET, tr_path = ''/v1/version'',
       tr_headers = request_headers token (as_protocol a) False False, tr_body = body\<rparr>]"
    "payload_bytes j None = Some body \<or> new = []"
    by (rule json_request_recorded [OF q log]) (use None in auto)
  have new: "new = [] \<and> q \<in> range Inl \<or> new = [version_request token]"
    using n(3,4) by (auto simp: version_request_def request_headers_def payload_bytes_def)
  have remote: "as_remote a' = as_remote b"
    using run None q by (auto simp: ensure_negotiated_def negotiate_version_def bindS_def get_protocol_def set_protocol_def
        liftS_def returnS_def split: sum.splits)
  have range: "in_range v default_range \<and> q \<in> range Inr" if "as_protocol a' = Some v" for v
    using run None q n(2) that
    by (auto simp: ensure_negotiated_def negotiate_version_def bindS_def get_protocol_def set_protocol_def liftS_def returnS_def
        ok_or_def negotiate_def in_range_def Let_def split: sum.splits option.splits if_splits body.splits)
  have result: "as_protocol a' = Some v" if "r = Inr v" for v
    using run None q that
    by (auto simp: ensure_negotiated_def negotiate_version_def bindS_def get_protocol_def set_protocol_def liftS_def returnS_def
        ok_or_def split: sum.splits option.splits)
  show ?thesis
    by (rule that [of w' new]) (use n(1) new remote range result None in auto)
qed

text \<open>C24. Protocol order: over any transport and any server, a call makes at most two requests; before
  a protocol version is agreed on only the version request leaves the client, the agreed version
  is within the client's range, and every other request carries the bearer token and that version.\<close>

theorem negotiation_comes_first:
  assumes run: "negotiated_request j token (recorded execute) m path payload kind a = (r, a')"
    and log: "as_remote a = (w, log)"
  shows "\<exists>w' new. as_remote a' = (w', log @ new) \<and>
    (new = [] \<or> new = [version_request token] \<and> as_protocol a = None \<or>
     (\<exists>v req. as_protocol a' = Some v \<and> versioned_request token v req \<and> tr_method req = m \<and> tr_path req = path \<and>
        (as_protocol a = Some v \<and> new = [req] \<or>
         as_protocol a = None \<and> in_range v default_range \<and> new = [version_request token, req])))"
proof -
  obtain q b where q: "ensure_negotiated j token (recorded execute) a = (q, b)"
    by (cases "ensure_negotiated j token (recorded execute) a")
  obtain w1 new1 where n: "as_remote b = (w1, log @ new1)" "new1 = [] \<or> as_protocol a = None \<and> new1 = [version_request token]"
    "\<And>v. q = Inr v \<Longrightarrow> as_protocol b = Some v" "as_protocol a \<noteq> None \<Longrightarrow> b = a"
    "\<And>v. as_protocol a = None \<Longrightarrow> as_protocol b = Some v \<Longrightarrow> in_range v default_range \<and> new1 \<noteq> []"
    by (rule ensure_negotiated_recorded [OF q log]) blast
  show ?thesis
  proof (cases q)
    case (Inl er)
    with run q n(1,2) show ?thesis by (auto simp: negotiated_request_def bindS_def)
  next
    case (Inr v)
    with run q have r: "json_request j token (recorded execute) m path payload kind True b = (r, a')"
      by (simp add: negotiated_request_def bindS_def)
    obtain w2 body new2 where s: "as_remote a' = (w2, (log @ new1) @ new2)" "as_protocol a' = as_protocol b"
      "new2 = [] \<and> r \<in> range Inl \<or> new2 = [\<lparr>tr_method = m, tr_path = path,
         tr_headers = request_headers token (as_protocol b) True (payload \<noteq> None), tr_body = body\<rparr>]"
      by (rule json_request_recorded [OF r n(1)]) blast
    have v: "as_protocol b = Some v" using n(3) Inr by blast
    show ?thesis
    proof (cases "new2 = []")
      case True
      with s(1) n(2) show ?thesis by auto
    next
      case False
      then obtain req where req: "new2 = [req]" "versioned_request token v req" "tr_method req = m" "tr_path req = path"
        using s(3) v by (auto simp: versioned_request_def request_headers_def)
      have "as_protocol a = Some v \<and> new1 = [] \<or>
          as_protocol a = None \<and> in_range v default_range \<and> new1 = [version_request token]"
        using n(2,4,5) v by (cases "as_protocol a") auto
      with s(1,2) req v show ?thesis by (intro exI [of _ w2] exI [of _ "new1 @ new2"]) auto
    qed
  qed
qed

lemma negotiation_comes_first_witness:
  "\<exists>w' new. as_remote (snd (negotiated_request net_json ''secret'' (recorded (\<lambda>req s. (Inl Timeout, s))) GET ''/v1/status'' None KStatus
      \<lparr>as_protocol = None, as_remote = (0 :: nat, [])\<rparr>)) = (w', new) \<and> length new \<le> 2"
  using negotiation_comes_first [of net_json "''secret''" "\<lambda>req s. (Inl Timeout, s)" GET "''/v1/status''" None KStatus
      "\<lparr>as_protocol = None, as_remote = (0, [])\<rparr>" _ _ "0 :: nat" "[]", OF surjective_pairing]
  by auto

end
