(* ===== verification/BundleFacts.thy ===== *)
theory BundleFacts
  imports Network
begin

text \<open>
  What a failed save of an extension bundle leaves on a server that keeps the contract
  \<open>object_store\<close> when nobody else writes: the clean-up deletes the chunks of this save and nothing
  else, whether or not the manifest that names them was stored.
\<close>

section \<open>Stores that only gained chunks\<close>

text \<open>Every object is as it was, or is a chunk that was not there.\<close>

definition chunks_added :: "store \<Rightarrow> store \<Rightarrow> bool" where
  "chunks_added s s' \<longleftrightarrow> (\<forall>i. st_objects s' i = st_objects s i
     \<or> st_objects s i = None \<and> (\<exists>ob. st_objects s' i = Some ob \<and> so_namespace ob = EXTENSION_CHUNK_NAMESPACE))"

lemma chunks_added_refl: "chunks_added s s"
  by (simp add: chunks_added_def)

lemma chunks_added_None: "chunks_added s s' \<Longrightarrow> st_objects s' i = None \<Longrightarrow> st_objects s i = None"
  by (metis chunks_added_def)

text \<open>The chunks of a save: absent before it, present now.\<close>

definition new_since :: "store \<Rightarrow> store \<Rightarrow> uploaded list \<Rightarrow> bool" where
  "new_since s0 s us \<longleftrightarrow> chunks_added s0 s
     \<and> (\<forall>i \<in> fst ` set (uploaded_objects us). st_objects s0 i = None \<and> st_objects s i \<noteq> None)"

lemma spec_put_objects:
  assumes "spec_put i req s = Some (ob, s')"
  shows "st_objects s' = (st_objects s)(i \<mapsto> ob)" "put_base_revision req = map_option so_revision (st_objects s i)"
    "ob = put_result i req (case st_objects s i of None \<Rightarrow> 1 | Some old \<Rightarrow> so_revision old + 1) (so_cursor ob)"
  using assms by (auto simp: spec_put_def Let_def record_object_def put_result_def split: if_splits)

lemma spec_delete_objects:
  "spec_delete i req s = Some (ob, s') \<Longrightarrow> st_objects s' = (st_objects s)(i \<mapsto> ob) \<and> so_envelope ob = None
     \<and> (\<exists>old. st_objects s i = Some old \<and> so_namespace ob = so_namespace old)"
  by (auto simp: spec_delete_def Let_def record_object_def delete_result_def split: if_splits option.splits)

text \<open>A namespace is for life.\<close>

definition same_namespaces :: "store \<Rightarrow> store \<Rightarrow> bool" where
  "same_namespaces s s' \<longleftrightarrow>
     (\<forall>i. map_option so_namespace (st_objects s' i) = map_option so_namespace (st_objects s i))"

text \<open>What a put of a fresh encryption stores can be read with the key it was made with.\<close>

lemma stored_upload_decrypts:
  assumes suite: "suite_ok (core_suite k)" "length (core_nonces k n) = 24" and base: "base \<noteq> Some (- 1)"
    and enc: "encrypt (core_suite k) (core_nonces k n) (core_master k) (upload_metadata k namespace i base n) m = Inr v"
    and ob: "put_base_revision req = map_option so_revision old" "put_base_revision req = base"
      "ob = put_result i req (case old of None \<Rightarrow> 1 | Some x \<Rightarrow> so_revision x + 1) cursor"
      "put_namespace req = namespace" "put_device_id req = core_device k" "put_modified_at req = core_clock k n" "put_envelope req = v"
  shows "decrypt (core_suite k) (core_master k) ob = Inr m"
proof -
  have "saturating_add_u64 r 1 = r + 1" if "r \<noteq> - 1" for r :: u64
  proof -
    have "uint r \<noteq> 2 ^ 64 - 1"
    proof
      assume "uint r = 2 ^ 64 - 1"
      then have "r = word_of_int (2 ^ 64 - 1)" by (metis word_of_int_uint)
      then have "r = - 1" by simp
      with that show False ..
    qed
    moreover have "uint r < 2 ^ 64" using uint_lt2p [of r] by simp
    ultimately have "uint r + uint (1 :: u64) < 2 ^ 64" by simp
    then show ?thesis by (simp add: saturating_add_u64_def)
  qed
  with base ob(1,2) have rev: "(case base of None \<Rightarrow> 1 | Some r \<Rightarrow> saturating_add_u64 r 1)
      = (case old of None \<Rightarrow> 1 | Some x \<Rightarrow> so_revision x + 1)"
    by (cases old) auto
  have meta: "object_metadata_of ob = upload_metadata k namespace i base n"
    by (simp add: ob object_metadata_of_def put_result_def upload_metadata_def rev del: ob(2))
  have fields: "so_envelope ob = Some v" "so_id ob = i" "so_namespace ob = namespace"
    by (simp_all add: ob put_result_def)
  have "om_object_id (upload_metadata k namespace i base n) = i" "om_namespace (upload_metadata k namespace i base n) = namespace"
    by (simp_all add: upload_metadata_def)
  with enc suite show ?thesis
    by (auto simp: encrypt_def decrypt_def fields meta result_simps suite_okD(1) [OF suite(1)])
qed

section \<open>Over the contract\<close>

text \<open>The errors that say a clean-up did not finish.\<close>

definition clean_up_reported :: "client_error \<Rightarrow> bool" where
  "clean_up_reported er \<longleftrightarrow>
     (\<exists>t. er = StateError (''extension manifest upload failed'' @ t)
        \<or> er = StateError (''the new extension snapshot is active, but old chunk cleanup failed: '' @ t))"

text \<open>A manifest of \<open>d\<close> is stored and cannot be loaded.\<close>

definition manifest_lost :: "'s core \<Rightarrow> extension_descriptor \<Rightarrow> object_id option \<Rightarrow> store \<Rightarrow> 's client \<Rightarrow> bool" where
  "manifest_lost k d oid s c \<longleftrightarrow>
     (\<exists>i ob us plaintext. (oid = None \<or> oid = Some i) \<and> st_objects s i = Some ob
        \<and> so_namespace ob = EXTENSION_MANIFEST_NAMESPACE
        \<and> manifest_json k (manifest_for d us) = Some plaintext
        \<and> decrypt (core_suite k) (core_master k) ob = Inr plaintext
        \<and> fst (load_extension_bundle k i c) \<in> range Inl)"

context object_store
begin

text \<open>An upload fails without effect, or has put the object, whatever it answers.\<close>

lemma upload_effect:
  assumes api: "core_api k = api" and rep: "rep (cl_remote c) s" and alone: "\<forall>s t. others s t \<longrightarrow> s = t"
    and run: "upload k namespace m oid base c = (r, c')"
  obtains (none) "rep (cl_remote c') s" "r \<in> range Inl"
    | (put) i v ob s' where "rep (cl_remote c') s'" "i = (case oid of None \<Rightarrow> ObjectId (core_ids k (cl_draws c)) | Some i \<Rightarrow> i)"
      "encrypt (core_suite k) (core_nonces k (cl_draws c)) (core_master k)
         (upload_metadata k namespace i base (cl_draws c)) m = Inr v"
      "spec_put i \<lparr>put_namespace = namespace, put_base_revision = base, put_device_id = core_device k,
         put_modified_at = core_clock k (cl_draws c), put_envelope = v\<rparr> s = Some (ob, s')"
      "\<And>p. r = Inr p \<Longrightarrow> sp_object_id p = i"
proof -
  let ?n = "cl_draws c"
  let ?i = "case oid of None \<Rightarrow> ObjectId (core_ids k ?n) | Some i \<Rightarrow> i"
  let ?enc = "encrypt (core_suite k) (core_nonces k ?n) (core_master k) (upload_metadata k namespace ?i base ?n) m"
  show thesis
  proof (cases ?enc)
    case (Inl er)
    with run have "cl_remote c' = cl_remote c" "r = Inl er"
      by (auto simp: upload_def Let_def bindS_def draw_def liftS_def)
    with rep none show thesis by simp
  next
    case (Inr v)
    let ?req = "\<lparr>put_namespace = namespace, put_base_revision = base, put_device_id = core_device k,
         put_modified_at = core_clock k ?n, put_envelope = v\<rparr>"
    obtain q w where q: "api_put api ?i ?req (cl_remote c) = (q, w)" by (cases "api_put api ?i ?req (cl_remote c)")
    from put_law [OF rep q] alone obtain s' where s': "rep w s'"
      "q \<in> range Inl \<and> s' = s \<or> (\<exists>ob. spec_put ?i ?req s = Some (ob, s'))" by blast
    have after: "rep (cl_remote c') s'" "q \<in> range Inl \<Longrightarrow> r \<in> range Inl" "\<And>p. r = Inr p \<Longrightarrow> sp_object_id p = ?i"
    proof -
      obtain g w2 where g: "api_get api ?i w = (g, w2)" by (cases "api_get api ?i w")
      from get_law [OF s'(1) g] alone have "rep w2 s'" by blast
      moreover have "cl_remote c' = (if q \<in> range Inl then w else w2)"
        using run Inr q g by (cases q; cases g)
          (auto simp: upload_def Let_def bindS_def draw_def liftS_def call_def api returnS_def split: sum.splits if_splits)
      ultimately show "rep (cl_remote c') s'" using s'(1) by simp
      show "q \<in> range Inl \<Longrightarrow> r \<in> range Inl"
        using run Inr q by (auto simp: upload_def Let_def bindS_def draw_def liftS_def call_def api)
      show "sp_object_id p = ?i" if "r = Inr p" for p
        using run that by (auto simp: upload_def Let_def result_simps split: if_splits)
    qed
    from s'(2) show thesis
    proof
      assume "q \<in> range Inl \<and> s' = s"
      with after none show thesis by blast
    next
      assume "\<exists>ob. spec_put ?i ?req s = Some (ob, s')"
      then obtain ob where "spec_put ?i ?req s = Some (ob, s')" ..
      from put [OF after(1) refl Inr this after(3)] show thesis .
    qed
  qed
qed

lemma delete_objects_effect:
  assumes api: "core_api k = api" and alone: "\<forall>s t. others s t \<longrightarrow> s = t"
  shows "rep (cl_remote c) s \<Longrightarrow> delete_objects k xs c = (r, c') \<Longrightarrow>
    \<exists>s'. rep (cl_remote c') s' \<and> same_namespaces s s' \<and> (\<forall>i. i \<notin> fst ` set xs \<longrightarrow> st_objects s' i = st_objects s i)
      \<and> (r = Inr () \<longrightarrow> (\<forall>i \<in> fst ` set xs. \<exists>ob. st_objects s' i = Some ob \<and> so_envelope ob = None))"
proof (induction xs arbitrary: c s)
  case Nil
  then show ?case by (auto simp: returnS_def same_namespaces_def)
next
  case (Cons x xs)
  obtain i revision where x: "x = (i, revision)" by (cases x)
  let ?req = "\<lparr>del_base_revision = revision, del_device_id = core_device k, del_modified_at = core_clock k (cl_draws c)\<rparr>"
  obtain q w where q: "api_delete api i ?req (cl_remote c) = (q, w)" by (cases "api_delete api i ?req (cl_remote c)")
  from delete_law [OF Cons.prems(1) q] alone obtain s1 where s1: "rep w s1"
    "q \<in> range Inl \<and> s1 = s \<or> (\<exists>ob. spec_delete i ?req s = Some (ob, s1))" by blast
  then have step: "\<And>j. j \<noteq> i \<Longrightarrow> st_objects s1 j = st_objects s j"
    and gone: "q \<notin> range Inl \<Longrightarrow> \<exists>ob. st_objects s1 i = Some ob \<and> so_envelope ob = None"
    and named: "same_namespaces s s1"
    using spec_delete_objects [of i ?req s] by (auto simp: same_namespaces_def)
  show ?case
  proof (cases q)
    case (Inl er)
    with Cons.prems(2) q have "cl_remote c' = w" "r = Inl er"
      by (auto simp: x bindS_def draw_def call_def api)
    with s1(1) step named show ?thesis by (intro exI [of _ s1]) (auto simp: x)
  next
    case (Inr y)
    with Cons.prems(2) q have "delete_objects k xs (c\<lparr>cl_draws := Suc (cl_draws c), cl_remote := w\<rparr>) = (r, c')"
      by (auto simp: x bindS_def draw_def call_def api)
    moreover have "rep (cl_remote (c\<lparr>cl_draws := Suc (cl_draws c), cl_remote := w\<rparr>)) s1" using s1(1) by simp
    ultimately obtain s' where s': "rep (cl_remote c') s'" "same_namespaces s1 s'"
      "\<And>j. j \<notin> fst ` set xs \<Longrightarrow> st_objects s' j = st_objects s1 j"
      "r = Inr () \<Longrightarrow> \<forall>j \<in> fst ` set xs. \<exists>ob. st_objects s' j = Some ob \<and> so_envelope ob = None"
      using Cons.IH by blast
    have "\<exists>ob. st_objects s' i = Some ob \<and> so_envelope ob = None" if "r = Inr ()"
      using s'(3,4) gone Inr that by (cases "i \<in> fst ` set xs") auto
    moreover have "same_namespaces s s'" using named s'(2) by (simp add: same_namespaces_def)
    ultimately show ?thesis using s' step by (intro exI [of _ s']) (auto simp: x)
  qed
qed

text \<open>Deleting new chunks touches nothing that was there before.\<close>

lemma delete_new_extends:
  assumes "core_api k = api" and "\<forall>s t. others s t \<longrightarrow> s = t" and "rep (cl_remote c) s" and "new_since s0 s us"
    and "delete_objects k (uploaded_objects us) c = (r, c')"
  shows "\<exists>s'. rep (cl_remote c') s' \<and> chunks_added s0 s'"
proof -
  from delete_objects_effect [OF assms(1,2,3,5)] obtain s' where s': "rep (cl_remote c') s'" "same_namespaces s s'"
    "\<And>i. i \<notin> fst ` set (uploaded_objects us) \<Longrightarrow> st_objects s' i = st_objects s i" by blast
  moreover have "st_objects s' i = st_objects s0 i
      \<or> st_objects s0 i = None \<and> (\<exists>ob. st_objects s' i = Some ob \<and> so_namespace ob = EXTENSION_CHUNK_NAMESPACE)" for i
  proof (cases "i \<in> fst ` set (uploaded_objects us)")
    case True
    with assms(4) have "st_objects s0 i = None" "st_objects s i \<noteq> None" by (auto simp: new_since_def)
    with assms(4) obtain ob where "st_objects s i = Some ob" "so_namespace ob = EXTENSION_CHUNK_NAMESPACE"
      unfolding new_since_def chunks_added_def by metis
    with s'(2) have "map_option so_namespace (st_objects s' i) = Some EXTENSION_CHUNK_NAMESPACE"
      by (simp add: same_namespaces_def)
    with \<open>st_objects s0 i = None\<close> show ?thesis by auto
  next
    case False
    with s'(3) assms(4) show ?thesis by (simp add: new_since_def chunks_added_def)
  qed
  ultimately show ?thesis unfolding chunks_added_def by blast
qed

lemma clean_up_run:
  "clean_up k what also us er c = (r, c') \<Longrightarrow>
     \<exists>q. delete_objects k (uploaded_objects us) c = (q, c')
       \<and> (r = Inl er \<and> q = Inr () \<or> (\<exists>t. r = Inl (StateError (what @ t))))"
  by (cases "delete_objects k (uploaded_objects us) c") (auto simp: clean_up_def split: sum.splits)

lemma upload_chunks_effect:
  assumes api: "core_api k = api" and alone: "\<forall>s t. others s t \<longrightarrow> s = t"
  shows "rep (cl_remote c) s \<Longrightarrow> new_since s0 s us \<Longrightarrow> upload_chunks k us chunks c = (r, c') \<Longrightarrow>
    \<exists>s'. rep (cl_remote c') s' \<and> chunks_added s0 s'
      \<and> (\<forall>us'. r = Inr us' \<longrightarrow> new_since s0 s' us' \<and> length us' = length us + length chunks)"
proof (induction chunks arbitrary: us c s)
  case Nil
  then show ?case by (auto simp: returnS_def new_since_def)
next
  case (Cons chunk chunks)
  obtain q c1 where q: "upload k EXTENSION_CHUNK_NAMESPACE chunk None None c = (q, c1)"
    by (cases "upload k EXTENSION_CHUNK_NAMESPACE chunk None None c")
  obtain s1 where s1: "rep (cl_remote c1) s1" "new_since s0 s1 us"
    "\<And>p sha n. q = Inr p \<Longrightarrow> new_since s0 s1 (us @ [(p, sha, n)])"
  proof (cases rule: upload_effect [OF api Cons.prems(1) alone q])
    case 1
    with Cons.prems(2) that show thesis by blast
  next
    case (2 i v ob s')
    have i: "st_objects s i = None" "st_objects s' = (st_objects s)(i \<mapsto> ob)"
      using spec_put_objects(1,2) [OF 2(4)] by simp_all
    have chunk: "so_namespace ob = EXTENSION_CHUNK_NAMESPACE"
      by (subst spec_put_objects(3) [OF 2(4)]) (simp add: put_result_def)
    have grown: "chunks_added s0 s" using Cons.prems(2) by (simp add: new_since_def)
    have "new_since s0 s' us"
      using Cons.prems(2) i chunk chunks_added_None [OF grown i(1)] by (auto simp: new_since_def chunks_added_def)
    moreover have "new_since s0 s' (us @ [(p, sha, n)])" if "q = Inr p" for p sha n
    proof -
      have "uploaded_objects (us @ [(p, sha, n)]) = uploaded_objects us @ [(i, sp_revision p)]"
        using 2(5) [OF that] by (simp add: uploaded_objects_def)
      moreover have "st_objects s0 i = None" "st_objects s' i \<noteq> None"
        using chunks_added_None [OF grown i(1)] i(2) by simp_all
      ultimately show ?thesis using \<open>new_since s0 s' us\<close> by (simp add: new_since_def)
    qed
    ultimately show thesis using that 2(1) by blast
  qed
  show ?case
  proof (cases q)
    case (Inl er)
    with Cons.prems(3) q have run: "clean_up k ''extension chunk upload failed'' ''cleanup also failed'' us er c1 = (r, c')"
      by simp
    from clean_up_run [OF this] obtain x where "delete_objects k (uploaded_objects us) c1 = (x, c')" "r \<in> range Inl"
      by auto
    with delete_new_extends [OF api alone s1(1,2)] show ?thesis by auto
  next
    case (Inr p)
    with Cons.prems(3) q have
      "upload_chunks k (us @ [(p, sha256_bytes (core_suite k) chunk, len_u64 chunk)]) chunks c1 = (r, c')" by simp
    from Cons.IH [OF s1(1) s1(3) [OF Inr] this] show ?thesis by auto
  qed
qed

lemma load_manifest_effect:
  assumes "core_api k = api" and "rep (cl_remote c) s" and "\<forall>s t. others s t \<longrightarrow> s = t"
    and "load_extension_manifest k i c = (r, c')"
  shows "rep (cl_remote c') s" "r = Inr (m, p) \<Longrightarrow> \<exists>ob plaintext. st_objects s i = Some ob
    \<and> decrypt (core_suite k) (core_master k) ob = Inr plaintext \<and> manifest_parse k plaintext = Some m"
proof -
  obtain g w where g: "api_get api i (cl_remote c) = (g, w)" by (cases "api_get api i (cl_remote c)")
  from get_law [OF assms(2) g] assms(3) have s: "rep w s" "\<And>ob. g = Inr ob \<Longrightarrow> st_objects s i = Some ob" by blast+
  have "cl_remote c' = w"
    using assms(4) g by (cases g) (auto simp: load_extension_manifest_def download_def bindS_def liftS_def call_def assms(1)
      returnS_def split: sum.splits if_splits)
  with s(1) show "rep (cl_remote c') s" by simp
  show "r = Inr (m, p) \<Longrightarrow> \<exists>ob plaintext. st_objects s i = Some ob
    \<and> decrypt (core_suite k) (core_master k) ob = Inr plaintext \<and> manifest_parse k plaintext = Some m"
    using assms(4) g s(2) by (auto simp: load_extension_manifest_def download_def result_simps assms(1) split: if_splits)
qed

lemma old_manifest_effect:
  assumes api: "core_api k = api" and rep: "rep (cl_remote c) s" and alone: "\<forall>s t. others s t \<longrightarrow> s = t"
    and run: "(case oid of None \<Rightarrow> returnS None
      | Some i \<Rightarrow> bindS (load_extension_manifest k i) (\<lambda>(m, p). returnS (Some m))) c = (q, c')"
  shows "rep (cl_remote c') s" "q = Inr m \<Longrightarrow> oid = Some i \<Longrightarrow> st_objects s i \<noteq> None"
proof -
  have "rep (cl_remote c') s \<and> (q = Inr m \<longrightarrow> oid = Some i \<longrightarrow> st_objects s i \<noteq> None)"
  proof (cases oid)
    case (Some j)
    obtain r c1 where r: "load_extension_manifest k j c = (r, c1)" by (cases "load_extension_manifest k j c")
    from run Some r have "c' = c1" "\<And>m. q = Inr m \<Longrightarrow> \<exists>n p. r = Inr (n, p)"
      by (auto simp: bindS_def returnS_def split: sum.splits prod.splits)
    with load_manifest_effect [OF api rep alone r] Some show ?thesis by (metis option.distinct(1) option.inject)
  qed (use run rep in \<open>simp add: returnS_def\<close>)
  then show "rep (cl_remote c') s" "q = Inr m \<Longrightarrow> oid = Some i \<Longrightarrow> st_objects s i \<noteq> None" by blast+
qed

text \<open>A manifest whose first chunk is deleted does not load.\<close>

lemma load_without_chunk:
  assumes api: "core_api k = api" and rep: "rep (cl_remote c) s" and alone: "\<forall>s t. others s t \<longrightarrow> s = t"
    and ob: "st_objects s i = Some ob" "decrypt (core_suite k) (core_master k) ob = Inr plaintext"
      "manifest_parse k plaintext = Some m" "em_chunks m = ch # cs"
    and gone: "st_objects s (ec_object_id ch) = Some old" "so_envelope old = None"
  shows "fst (load_extension_bundle k i c) \<in> range Inl"
proof -
  obtain r c1 where r: "load_extension_manifest k i c = (r, c1)" by (cases "load_extension_manifest k i c")
  note loaded = load_manifest_effect [OF api rep alone r]
  show ?thesis
  proof (cases r)
    case (Inl e)
    with r show ?thesis by (simp add: load_extension_bundle_def bindS_def)
  next
    case (Inr x)
    then obtain m' p where x: "r = Inr (m', p)" by (cases x) auto
    with loaded(2) ob have "m' = m" by auto
    obtain g w where g: "api_get api (ec_object_id ch) (cl_remote c1) = (g, w)"
      by (cases "api_get api (ec_object_id ch) (cl_remote c1)")
    from get_law [OF loaded(1) g] alone have "\<And>ob. g = Inr ob \<Longrightarrow> st_objects s (ec_object_id ch) = Some ob" by blast
    with gone(1) have "g = Inr old \<or> g \<in> range Inl"
      by (cases g) auto
    then have "fst (load_chunks k (em_chunks m) [] c1) \<in> range Inl"
      using gone(2) g by (auto simp: ob(4) download_def call_def bindS_def liftS_def api decrypt_def split: sum.splits)
    with r x \<open>m' = m\<close> show ?thesis
      by (auto simp: load_extension_bundle_def bindS_def split: prod.splits sum.splits)
  qed
qed

text \<open>The step of a save that stores the manifest.\<close>

lemma manifest_upload_effect:
  assumes api: "core_api k = api" and alone: "\<forall>s t. others s t \<longrightarrow> s = t"
    and suite: "suite_ok (core_suite k)" "\<And>n. length (core_nonces k n) = 24" and base: "base \<noteq> Some (- 1)"
    and codec: "\<And>m b. manifest_json k m = Some b \<Longrightarrow> manifest_parse k b = Some m"
    and both: "oid \<noteq> None \<longleftrightarrow> base \<noteq> None" and old: "\<And>i. oid = Some i \<Longrightarrow> st_objects s0 i \<noteq> None"
    and rep: "rep (cl_remote c) s" and new: "new_since s0 s us" "us \<noteq> []"
    and json: "manifest_json k (manifest_for d us) = Some plaintext"
    and up: "upload k EXTENSION_MANIFEST_NAMESPACE plaintext oid base c = (Inl er1, c1)"
    and clean: "clean_up k ''extension manifest upload failed'' also us er1 c1 = (Inl er, c')"
  shows "\<exists>s'. rep (cl_remote c') s' \<and> (chunks_added s0 s' \<or> clean_up_reported er \<or> manifest_lost k d oid s' c')"
proof -
  from clean_up_run [OF clean] obtain x where x: "delete_objects k (uploaded_objects us) c1 = (x, c')"
    "x = Inr () \<or> clean_up_reported er"
    by (auto simp: clean_up_reported_def)
  show ?thesis
  proof (cases rule: upload_effect [OF api rep alone up])
    case 1
    from delete_new_extends [OF api alone 1(1) new(1) x(1)] show ?thesis by blast
  next
    case (2 i v ob s1)
    note put = spec_put_objects [OF 2(4)]
    from delete_objects_effect [OF api alone 2(1) x(1)] obtain s' where s': "rep (cl_remote c') s'"
      "\<And>j. j \<notin> fst ` set (uploaded_objects us) \<Longrightarrow> st_objects s' j = st_objects s1 j"
      "x = Inr () \<Longrightarrow> \<forall>j \<in> fst ` set (uploaded_objects us). \<exists>ob. st_objects s' j = Some ob \<and> so_envelope ob = None"
      by blast
    have mine: "oid = None \<or> oid = Some i" using 2(2) by (cases oid) simp_all
    have "i \<notin> fst ` set (uploaded_objects us)"
    proof (cases oid)
      case None
      then have "st_objects s i = None" using put(2) both by simp
      with new(1) show ?thesis by (auto simp: new_since_def)
    next
      case (Some j)
      with 2(2) old [OF Some] new(1) show ?thesis by (auto simp: new_since_def)
    qed
    then have live: "st_objects s' i = Some ob" using s'(2) put(1) by simp
    have opened: "decrypt (core_suite k) (core_master k) ob = Inr plaintext"
      by (rule stored_upload_decrypts [OF suite base 2(3) put(2) _ put(3)]) simp_all
    have "so_namespace ob = EXTENSION_MANIFEST_NAMESPACE" by (subst put(3)) (simp add: put_result_def)
    moreover have "fst (load_extension_bundle k i c') \<in> range Inl" if ok: "x = Inr ()"
    proof -
      from new(2) obtain u us' where u: "us = u # us'" by (cases us) auto
      obtain ch cs where ch: "em_chunks (manifest_for d us) = ch # cs" "ec_object_id ch \<in> fst ` set (uploaded_objects us)"
        by (cases u) (auto simp: u manifest_for_def uploaded_objects_def)
      from s'(3) [OF ok] ch(2) obtain gone where "st_objects s' (ec_object_id ch) = Some gone" "so_envelope gone = None"
        by blast
      from load_without_chunk [OF api s'(1) alone live opened codec [OF json] ch(1) this] show ?thesis .
    qed
    ultimately show ?thesis using x(2) s'(1) live opened json mine unfolding manifest_lost_def by blast
  qed
qed

text \<open>A save that fails: the server still holds all it held, or the error says that a clean-up did not
  finish, or the new manifest is stored and does not load.\<close>

lemma failed_save_effect:
  assumes api: "core_api k = api" and alone: "\<forall>s t. others s t \<longrightarrow> s = t"
    and suite: "suite_ok (core_suite k)" "\<And>n. length (core_nonces k n) = 24" and base: "base \<noteq> Some (- 1)"
    and codec: "\<And>m b. manifest_json k m = Some b \<Longrightarrow> manifest_parse k b = Some m"
    and some: "archive \<noteq> []" and rep: "rep (cl_remote c) s"
    and run: "save_extension_bundle k d archive oid base c = (Inl er, c')"
  shows "\<exists>s'. rep (cl_remote c') s' \<and> (chunks_added s s' \<or> clean_up_reported er \<or> manifest_lost k d oid s' c')"
proof (cases "((oid \<noteq> None) \<noteq> (base \<noteq> None)) \<or> ed_archive_bytes d \<noteq> len_u64 archive
    \<or> ed_archive_sha256 d \<noteq> sha256_bytes (core_suite k) archive")
  case True
  with run have "c' = c" by (auto simp: save_extension_bundle_def liftS_def split: if_splits)
  with rep chunks_added_refl show ?thesis by blast
next
  case False
  then have guards: "((oid \<noteq> None) \<noteq> (base \<noteq> None)) = False"
    "(ed_archive_bytes d \<noteq> len_u64 archive \<or> ed_archive_sha256 d \<noteq> sha256_bytes (core_suite k) archive) = False" by blast+
  note run = run [unfolded save_extension_bundle_def guards if_False]
  let ?first = "case oid of None \<Rightarrow> returnS None | Some i \<Rightarrow> bindS (load_extension_manifest k i) (\<lambda>(m, p). returnS (Some m))"
  let ?chunks = "chunks_of EXTENSION_CHUNK_BYTES archive"
  obtain q0 c0 where q0: "?first c = (q0, c0)" by (cases "?first c")
  note first = old_manifest_effect [OF api rep alone q0]
  show ?thesis
  proof (cases q0)
    case (Inl x)
    with run q0 have "c' = c0" by (simp add: bindS_def)
    with first(1) chunks_added_refl show ?thesis by blast
  next
    case m: (Inr old)
    obtain q1 c1 where q1: "upload_chunks k [] ?chunks c0 = (q1, c1)" by (cases "upload_chunks k [] ?chunks c0")
    have "new_since s s []" by (simp add: new_since_def chunks_added_refl uploaded_objects_def)
    from upload_chunks_effect [OF api alone first(1) this q1] obtain s1 where s1: "rep (cl_remote c1) s1" "chunks_added s s1"
      "\<And>us. q1 = Inr us \<Longrightarrow> new_since s s1 us \<and> length us = length ?chunks" by auto
    show ?thesis
    proof (cases q1)
      case (Inl x)
      with run q0 m q1 have "c' = c1" by (simp add: bindS_def)
      with s1(1,2) show ?thesis by blast
    next
      case us: (Inr us)
      have "?chunks \<noteq> []" using some by (subst chunks_of.simps) (simp add: EXTENSION_CHUNK_BYTES_def)
      with s1(3) [OF us] have new: "new_since s s1 us" "us \<noteq> []" by auto
      show ?thesis
      proof (cases "manifest_json k (manifest_for d us)")
        case None
        with run q0 m q1 us have "c' = c1" by (simp add: bindS_def liftS_def)
        with s1(1,2) show ?thesis by blast
      next
        case json: (Some plaintext)
        obtain q2 c2 where q2: "upload k EXTENSION_MANIFEST_NAMESPACE plaintext oid base c1 = (q2, c2)"
          by (cases "upload k EXTENSION_MANIFEST_NAMESPACE plaintext oid base c1")
        show ?thesis
        proof (cases q2)
          case (Inl er1)
          with run q0 m q1 us json q2 have
            "clean_up k ''extension manifest upload failed'' ''new chunk cleanup also failed'' us er1 c2
               = (Inl er :: client_error + sync_proof, c')"
            by (auto simp: bindS_def liftS_def split: prod.splits sum.splits dest!: clean_up_run)
          from manifest_upload_effect [OF api alone suite base codec _ first(2) [OF m] s1(1) new json q2 [unfolded Inl] this]
          show ?thesis using False by blast
        next
          case (Inr p)
          with run q0 m q1 us json q2 have "delete_old_chunks k old c2 = (Inl er, c')"
            by (auto simp: bindS_def liftS_def returnS_def split: prod.splits sum.splits)
          then obtain x where x: "delete_objects k (old_chunks old) c2 = (x, c')" "clean_up_reported er"
            by (cases "delete_objects k (old_chunks old) c2")
              (auto simp: delete_old_chunks_def clean_up_reported_def split: sum.splits)
          obtain s2 where "rep (cl_remote c2) s2"
            by (cases rule: upload_effect [OF api s1(1) alone q2]) blast+
          from delete_objects_effect [OF api alone this x(1)] x(2) show ?thesis by blast
        qed
      qed
    qed
  qed
qed

end

end
