(* ===== verification/BundleProps.thy ===== *)
theory BundleProps
  imports ClientDemo BundleFacts
begin

text \<open>
  Properties of extension bundles: chunks are within what the server accepts, an archive is given
  back only when it is the one its manifest describes, and what a save that fails leaves behind,
  also when the server stored the manifest but the client did not learn of it.
\<close>

section \<open>Extension bundles\<close>

lemma concat_chunks_of: "0 < n \<Longrightarrow> concat (chunks_of n xs) = xs"
proof (induction n xs rule: chunks_of.induct)
  case (1 n xs)
  then show ?case by (subst chunks_of.simps) auto
qed

lemma chunks_of_length: "0 < n \<Longrightarrow> ch \<in> set (chunks_of n xs) \<Longrightarrow> 0 < length ch \<and> length ch \<le> n"
proof (induction n xs rule: chunks_of.induct)
  case (1 n xs)
  from "1.prems"(2) have "xs \<noteq> []" by (subst (asm) chunks_of.simps) (auto split: if_splits)
  with "1.prems" have "ch = take n xs \<or> ch \<in> set (chunks_of n (drop n xs))"
    by (subst (asm) chunks_of.simps) auto
  with "1.IH" "1.prems"(1) \<open>xs \<noteq> []\<close> show ?case by auto
qed

text \<open>C38. Chunk size: an archive is the concatenation of its chunks, none is empty, and every chunk,
  sealed by a cipher that adds a 16-byte tag, is within what the server accepts, so no upload of a
  chunk is refused for its size or its shape; its base64 text leaves 64 KiB of the body limit free.\<close>

theorem chunk_uploads_accepted:
  assumes tag: "\<And>key n aad m ct. aead_encrypt suite key n aad m = Some ct \<Longrightarrow> length ct = length m + 16"
    and nonce: "length nonce = 24" and chunk: "ch \<in> set (chunks_of EXTENSION_CHUNK_BYTES archive)"
    and enc: "encrypt suite nonce master metadata ch = Inr v"
  shows "concat (chunks_of EXTENSION_CHUNK_BYTES archive) = archive \<and> ch \<noteq> [] \<and>
    validate_put \<lparr>put_namespace = EXTENSION_CHUNK_NAMESPACE, put_base_revision = base, put_device_id = i,
      put_modified_at = modified, put_envelope = v\<rparr> = Inr () \<and>
    4 * ((length (env_ciphertext v) + 2) div 3) + 64 * 1024 < MAX_BODY_BYTES"
proof -
  have len: "0 < length ch" "length ch \<le> 2900000"
    using chunks_of_length [OF _ chunk] by (simp_all add: EXTENSION_CHUNK_BYTES_def)
  from enc have "length (env_ciphertext v) = length ch + 16" "env_version v = 1"
    "env_algorithm v = ''XCHACHA20-POLY1305''" "env_nonce v = nonce"
    by (auto simp: encrypt_def result_simps dest: tag)
  with len nonce concat_chunks_of [of EXTENSION_CHUNK_BYTES archive] show ?thesis
    by (auto simp: validate_put_def EXTENSION_CHUNK_NAMESPACE_def MAX_PAYLOAD_BYTES_def MAX_BODY_BYTES_def EXTENSION_CHUNK_BYTES_def)
qed

definition tag_suite :: suite where
  "tag_suite = demo_suite\<lparr>aead_encrypt := (\<lambda>k n a m. Some (m @ replicate 16 0))\<rparr>"

lemma chunk_uploads_accepted_witness:
  "\<exists>v. encrypt tag_suite demo_nonce demo_master demo_metadata [1, 2] = Inr v \<and>
     validate_put \<lparr>put_namespace = EXTENSION_CHUNK_NAMESPACE, put_base_revision = None, put_device_id = demo_device,
       put_modified_at = Timestamp 5, put_envelope = v\<rparr> = Inr ()"
proof -
  obtain v where v: "encrypt tag_suite demo_nonce demo_master demo_metadata [1, 2] = Inr v"
    by (simp add: encrypt_def derive_key_def object_key_info_def append_field_def associated_data_def Let_def tag_suite_def
        demo_metadata_def ascii_def uuid_bytes_def)
  have "[1, 2 :: u8] \<in> set (chunks_of EXTENSION_CHUNK_BYTES [1, 2])"
    by (subst chunks_of.simps) (simp add: EXTENSION_CHUNK_BYTES_def)
  with v chunk_uploads_accepted [of tag_suite demo_nonce "[1, 2]" "[1, 2]" demo_master demo_metadata v] show ?thesis
    by (auto simp: tag_suite_def demo_nonce_def)
qed

lemma load_chunks_verified:
  assumes "load_chunks k cs acc c = (Inr archive, c')"
  shows "\<exists>parts. archive = acc @ concat parts \<and>
    list_all2 (\<lambda>ch b. sha256_bytes (core_suite k) b = ec_sha256 ch \<and> len_u64 b = ec_bytes ch) cs parts"
  using assms
proof (induction cs arbitrary: acc c)
  case Nil
  then show ?case by (simp add: returnS_iff)
next
  case (Cons ch cs)
  then obtain b c1 where b: "len_u64 b = ec_bytes ch" "sha256_bytes (core_suite k) b = ec_sha256 ch"
    "load_chunks k cs (acc @ b) c1 = (Inr archive, c')"
    by (auto simp: result_simps split: if_splits prod.splits)
  from Cons.IH [OF b(3)] obtain parts where "archive = (acc @ b) @ concat parts"
    "list_all2 (\<lambda>ch b. sha256_bytes (core_suite k) b = ec_sha256 ch \<and> len_u64 b = ec_bytes ch) cs parts" by blast
  with b(1,2) show ?case by (intro exI [of _ "b # parts"]) simp
qed

text \<open>C19. Verified archives: whatever the server answers, a loaded extension archive is the
  concatenation, in the order of its manifest, of parts with exactly the hashes and lengths the
  manifest lists, has the hash and length the manifest states as a whole, and the manifest is the
  decryption, under the device's own key, of an object the server gave for the requested id.\<close>

theorem extension_archive_verified:
  assumes run: "load_extension_bundle k i c = (Inr (manifest, archive, p), c')"
  shows "(\<exists>parts. archive = concat parts \<and>
      list_all2 (\<lambda>ch b. sha256_bytes (core_suite k) b = ec_sha256 ch \<and> len_u64 b = ec_bytes ch) (em_chunks manifest) parts) \<and>
    sha256_bytes (core_suite k) archive = em_archive_sha256 manifest \<and> len_u64 archive = em_archive_bytes manifest \<and>
    (\<exists>ob w plaintext. api_get (core_api k) i (cl_remote c) = (Inr ob, w) \<and> so_namespace ob = EXTENSION_MANIFEST_NAMESPACE \<and>
       decrypt (core_suite k) (core_master k) ob = Inr plaintext \<and> manifest_parse k plaintext = Some manifest)"
proof -
  from run obtain c1 c2 where l: "load_extension_manifest k i c = (Inr (manifest, p), c1)"
    "load_chunks k (em_chunks manifest) [] c1 = (Inr archive, c2)"
    "sha256_bytes (core_suite k) archive = em_archive_sha256 manifest" "len_u64 archive = em_archive_bytes manifest"
    by (auto simp: load_extension_bundle_def result_simps split: if_splits)
  from l(1) have "\<exists>ob w plaintext. api_get (core_api k) i (cl_remote c) = (Inr ob, w) \<and> so_namespace ob = EXTENSION_MANIFEST_NAMESPACE \<and>
       decrypt (core_suite k) (core_master k) ob = Inr plaintext \<and> manifest_parse k plaintext = Some manifest"
    by (auto simp: load_extension_manifest_def download_def result_simps split: if_splits)
  with l(3,4) load_chunks_verified [OF l(2)] show ?thesis by simp
qed

section \<open>A save that fails\<close>

text \<open>C39. A failed save of extensions, when nobody else writes, on any server that keeps the contract
  \<open>object_store\<close> (the API client over the network and the server do): every object is as it was,
  apart from chunks that were not there; or the error says that deleting chunks failed; or the
  server has stored the new manifest although the client saw an error, and since the clean-up has
  deleted the chunks it names, the bundle it announces does not load any more.\<close>

theorem failed_save_outcome:
  assumes "object_store (core_api k) rep others" and "\<forall>s t. others s t \<longrightarrow> s = t"
    and "suite_ok (core_suite k)" and "\<forall>n. length (core_nonces k n) = 24" and "base \<noteq> Some (- 1)"
    and "\<forall>m b. manifest_json k m = Some b \<longrightarrow> manifest_parse k b = Some m"
    and "archive \<noteq> []" and "rep (cl_remote c) s"
    and "save_extension_bundle k d archive oid base c = (Inl er, c')"
  shows "\<exists>s'. rep (cl_remote c') s' \<and> (chunks_added s s' \<or> clean_up_reported er \<or> manifest_lost k d oid s' c')"
  by (rule object_store.failed_save_effect [OF assms(1) refl assms(2,3) _ assms(5) _ assms(7-9)])
    (use assms(4,6) in blast)+

text \<open>The same over the network and the server.\<close>

lemma failed_save_over_network:
  assumes "core_api k = api_client (site_json t) token (site_transport t)" and "\<forall>n. site_visitors t n = []"
    and "suite_ok (core_suite k)" and "\<And>n. length (core_nonces k n) = 24" and "base \<noteq> Some (- 1)"
    and "\<And>m b. manifest_json k m = Some b \<Longrightarrow> manifest_parse k b = Some m"
    and "archive \<noteq> []" and "net_rep t (cl_remote c) s"
    and "save_extension_bundle k d archive oid base c = (Inl er, c')"
  shows "\<exists>s'. net_rep t (cl_remote c') s' \<and> (chunks_added s s' \<or> clean_up_reported er \<or> manifest_lost k d oid s' c')"
  by (rule net.failed_save_effect [OF assms(1) _ assms(3) _ assms(5) _ assms(7-9)])
    (use assms(2,4,6) in \<open>auto simp: visited_def\<close>)

text \<open>A run of \<open>save_extension_bundle\<close> whose third call, the put of the manifest, loses its answer.\<close>

definition sealed :: "bytes \<Rightarrow> envelope" where
  "sealed b = \<lparr>env_version = 1, env_algorithm = ''XCHACHA20-POLY1305'', env_key_version = 1,
     env_nonce = replicate 24 0, env_ciphertext = b\<rparr>"

lemma demo_seal:
  assumes "length (om_namespace m) < 2 ^ 32" and "om_modified_at m = Timestamp 5"
  shows "encrypt demo_suite (replicate 24 0) demo_master m b = Inr (sealed b)"
  using assms
  by (simp add: encrypt_def derive_key_def object_key_info_def append_field_def associated_data_def Let_def sealed_def
      ascii_def uuid_bytes_def)

lemma demo_open:
  assumes "so_envelope ob = Some (sealed b)" and "length (so_namespace ob) < 2 ^ 32" and "so_modified_at ob = Timestamp 5"
  shows "decrypt demo_suite demo_master ob = Inr b"
proof -
  have "aead_decrypt demo_suite key nonce aad b = Some b" for key nonce aad b by (simp add: demo_suite_def)
  with assms show ?thesis
    by (simp add: decrypt_def sealed_def derive_key_def object_key_info_def append_field_def associated_data_def Let_def
        ascii_def uuid_bytes_def object_metadata_of_def)
qed

definition lossy :: "nat \<Rightarrow> fate" where
  "lossy n = (if n = 2 then AnswerLost else Answered)"

definition bundle_descriptor :: extension_descriptor where
  "bundle_descriptor = \<lparr>ed_format = ''helium-extensions-v1'', ed_profile_directory = ''Default'',
     ed_archive_sha256 = sha256_bytes demo_suite [1, 2], ed_archive_bytes = 2,
     ed_stats = \<lparr>es_extensions = 1, es_files = 1, es_bytes = 2\<rparr>\<rparr>"

lemma bundle_descriptor_fields:
  "ed_archive_bytes bundle_descriptor = 2" "ed_archive_sha256 bundle_descriptor = sha256_bytes demo_suite [1, 2]"
  by (simp_all add: bundle_descriptor_def)

definition bundle_proof :: sync_proof where
  "bundle_proof = \<lparr>sp_object_id = ObjectId 3, sp_namespace = EXTENSION_CHUNK_NAMESPACE, sp_revision = 1, sp_cursor = 1,
     sp_plaintext_matches = True\<rparr>"

definition bundle_uploaded :: "uploaded list" where
  "bundle_uploaded = [(bundle_proof, sha256_bytes demo_suite [1, 2], 2)]"

definition bundle_core :: "ref_world core" where
  "bundle_core = (demo_core (store_api lossy))\<lparr>core_ids := (\<lambda>n. word_of_nat n + 3), manifest_json := (\<lambda>m. if m = manifest_for bundle_descriptor bundle_uploaded then Some [9] else None),
     manifest_parse := (\<lambda>b. if b = [9] then Some (manifest_for bundle_descriptor bundle_uploaded) else None)\<rparr>"

lemma bundle_core_simps [simp]:
  "core_api bundle_core = store_api lossy" "core_suite bundle_core = demo_suite" "core_master bundle_core = demo_master"
  "core_device bundle_core = demo_device" "core_ids bundle_core n = word_of_nat n + 3"
  "core_nonces bundle_core n = replicate 24 0" "core_clock bundle_core n = Timestamp 5"
  "manifest_json bundle_core (manifest_for bundle_descriptor bundle_uploaded) = Some [9]"
  "manifest_json bundle_core m = Some b \<Longrightarrow> manifest_parse bundle_core b = Some m"
  "manifest_parse bundle_core [9] = Some (manifest_for bundle_descriptor bundle_uploaded)"
  by (auto simp: bundle_core_def demo_core_def split: if_splits)

definition bundle_object :: "uuid \<Rightarrow> string \<Rightarrow> bytes \<Rightarrow> u64 \<Rightarrow> sync_object" where
  "bundle_object i namespace b cursor = put_result (ObjectId i)
     \<lparr>put_namespace = namespace, put_base_revision = None, put_device_id = demo_device, put_modified_at = Timestamp 5,
      put_envelope = sealed b\<rparr> 1 cursor"

lemma bundle_object_fields [simp]:
  "so_envelope (bundle_object i namespace b cursor) = Some (sealed b)" "so_namespace (bundle_object i namespace b cursor) = namespace"
  "so_modified_at (bundle_object i namespace b cursor) = Timestamp 5" "so_revision (bundle_object i namespace b cursor) = 1"
  "so_cursor (bundle_object i namespace b cursor) = cursor" "so_id (bundle_object i namespace b cursor) = ObjectId i"
  by (simp_all add: bundle_object_def put_result_def)

definition bundle_store1 :: store where
  "bundle_store1 = record_object (bundle_object 3 EXTENSION_CHUNK_NAMESPACE [1, 2] 1) demo_store0"

definition bundle_store2 :: store where
  "bundle_store2 = record_object (bundle_object 4 EXTENSION_MANIFEST_NAMESPACE [9] 2) bundle_store1"

lemma bundle_puts:
  "spec_put (ObjectId 3) \<lparr>put_namespace = EXTENSION_CHUNK_NAMESPACE, put_base_revision = None, put_device_id = demo_device,
     put_modified_at = Timestamp 5, put_envelope = sealed [1, 2]\<rparr> demo_store0 =
     Some (bundle_object 3 EXTENSION_CHUNK_NAMESPACE [1, 2] 1, bundle_store1)"
  "spec_put (ObjectId 4) \<lparr>put_namespace = EXTENSION_MANIFEST_NAMESPACE, put_base_revision = None, put_device_id = demo_device,
     put_modified_at = Timestamp 5, put_envelope = sealed [9]\<rparr> bundle_store1 =
     Some (bundle_object 4 EXTENSION_MANIFEST_NAMESPACE [9] 2, bundle_store2)"
proof -
  have valid: "validate_put \<lparr>put_namespace = namespace, put_base_revision = None, put_device_id = demo_device,
      put_modified_at = Timestamp 5, put_envelope = sealed b\<rparr> = Inr ()"
    if "namespace = EXTENSION_CHUNK_NAMESPACE \<or> namespace = EXTENSION_MANIFEST_NAMESPACE" "length b < 3" for namespace b
    using that by (auto simp: validate_put_def sealed_def EXTENSION_CHUNK_NAMESPACE_def EXTENSION_MANIFEST_NAMESPACE_def
        MAX_PAYLOAD_BYTES_def)
  show "spec_put (ObjectId 3) \<lparr>put_namespace = EXTENSION_CHUNK_NAMESPACE, put_base_revision = None, put_device_id = demo_device,
     put_modified_at = Timestamp 5, put_envelope = sealed [1, 2]\<rparr> demo_store0 =
     Some (bundle_object 3 EXTENSION_CHUNK_NAMESPACE [1, 2] 1, bundle_store1)"
    using demo_active(1) by (simp add: spec_put_def valid bundle_object_def bundle_store1_def Let_def)
  have "st_active demo_device bundle_store1" using demo_active(1) by (simp add: bundle_store1_def st_active_def record_object_def)
  moreover have "st_objects bundle_store1 (ObjectId 4) = None" "st_seq bundle_store1 = 1"
    by (simp_all add: bundle_store1_def record_object_def)
  ultimately show "spec_put (ObjectId 4) \<lparr>put_namespace = EXTENSION_MANIFEST_NAMESPACE, put_base_revision = None, put_device_id = demo_device,
     put_modified_at = Timestamp 5, put_envelope = sealed [9]\<rparr> bundle_store1 =
     Some (bundle_object 4 EXTENSION_MANIFEST_NAMESPACE [9] 2, bundle_store2)"
    by (simp add: spec_put_def valid bundle_object_def bundle_store2_def Let_def)
qed

definition bundle_client :: "store \<Rightarrow> nat \<Rightarrow> nat \<Rightarrow> ref_world client" where
  "bundle_client s n draws = \<lparr>cl_remote = \<lparr>rw_store = s, rw_tick = n\<rparr>, cl_draws = draws\<rparr>"

lemma bundle_namespaces:
  "length EXTENSION_CHUNK_NAMESPACE < 2 ^ 32" "length EXTENSION_MANIFEST_NAMESPACE < 2 ^ 32"
  by (simp_all add: EXTENSION_CHUNK_NAMESPACE_def EXTENSION_MANIFEST_NAMESPACE_def)

lemma bundle_chunk_uploaded:
  "upload bundle_core EXTENSION_CHUNK_NAMESPACE [1, 2] None None (bundle_client demo_store0 0 0) =
     (Inr bundle_proof, bundle_client bundle_store1 2 1)"
proof -
  have "st_objects bundle_store1 (ObjectId 3) = Some (bundle_object 3 EXTENSION_CHUNK_NAMESPACE [1, 2] 1)"
    by (simp add: bundle_store1_def record_object_def)
  then show ?thesis
    using bundle_puts(1) bundle_namespaces
    by (simp add: upload_def bindS_def liftS_def draw_def call_def Let_def returnS_def demo_seal upload_metadata_def
        store_api_def ref_call_def ref_write_def lossy_def bundle_client_def i64_max_def demo_open bundle_proof_def)
qed

lemma bundle_manifest_lost:
  "upload bundle_core EXTENSION_MANIFEST_NAMESPACE [9] None None (bundle_client bundle_store1 2 1) =
     (Inl Timeout, bundle_client bundle_store2 3 2)"
proof -
  have "st_seq bundle_store1 = 1" by (simp add: bundle_store1_def record_object_def)
  then show ?thesis
    using bundle_puts(2) bundle_namespaces
    by (simp add: upload_def bindS_def liftS_def draw_def call_def Let_def demo_seal upload_metadata_def
        store_api_def ref_call_def ref_write_def lossy_def bundle_client_def i64_max_def)
qed

lemma bundle_chunk_deleted:
  obtains c2 where "delete_objects bundle_core (uploaded_objects bundle_uploaded) (bundle_client bundle_store2 3 2) = (Inr (), c2)"
    "st_objects (rw_store (cl_remote c2)) (ObjectId 4) = Some (bundle_object 4 EXTENSION_MANIFEST_NAMESPACE [9] 2)"
proof -
  have "st_objects bundle_store2 (ObjectId 3) = Some (bundle_object 3 EXTENSION_CHUNK_NAMESPACE [1, 2] 1)" "st_seq bundle_store2 = 2"
    by (simp_all add: bundle_store2_def bundle_store1_def record_object_def)
  moreover have "st_active demo_device bundle_store2"
    using demo_active(1) by (simp add: bundle_store2_def bundle_store1_def st_active_def record_object_def)
  ultimately show ?thesis
    using that by (simp add: uploaded_objects_def bundle_uploaded_def bundle_proof_def bindS_def draw_def call_def returnS_def
        store_api_def ref_call_def ref_write_def spec_delete_def lossy_def bundle_client_def i64_max_def Let_def)
      (simp add: record_object_def delete_result_def bundle_store2_def)
qed

lemma bundle_save_lost:
  obtains c2 where "save_extension_bundle bundle_core bundle_descriptor [1, 2] None None (bundle_client demo_store0 0 0) = (Inl Timeout, c2)"
    "st_objects (rw_store (cl_remote c2)) (ObjectId 4) = Some (bundle_object 4 EXTENSION_MANIFEST_NAMESPACE [9] 2)"
proof -
  obtain c2 where c2: "delete_objects bundle_core (uploaded_objects bundle_uploaded) (bundle_client bundle_store2 3 2) = (Inr (), c2)"
    "st_objects (rw_store (cl_remote c2)) (ObjectId 4) = Some (bundle_object 4 EXTENSION_MANIFEST_NAMESPACE [9] 2)"
    by (rule bundle_chunk_deleted)
  have chunks: "chunks_of EXTENSION_CHUNK_BYTES [1, 2 :: u8] = [[1, 2]]"
    by (simp add: chunks_of.simps EXTENSION_CHUNK_BYTES_def)
  have "upload_chunks bundle_core [] [[1, 2]] (bundle_client demo_store0 0 0) = (Inr bundle_uploaded, bundle_client bundle_store1 2 1)"
    using bundle_chunk_uploaded by (simp add: bundle_uploaded_def returnS_def len_u64_def)
  then have "save_extension_bundle bundle_core bundle_descriptor [1, 2] None None (bundle_client demo_store0 0 0) = (Inl Timeout, c2)"
    using chunks bundle_manifest_lost c2(1)
    by (simp add: save_extension_bundle_def bundle_descriptor_fields len_u64_def bindS_def returnS_def liftS_def clean_up_def)
  with c2(2) that show ?thesis by blast
qed

lemma failed_save_outcome_witness:
  "\<exists>c2. save_extension_bundle bundle_core bundle_descriptor [1, 2] None None (bundle_client demo_store0 0 0) = (Inl Timeout, c2) \<and>
     manifest_lost bundle_core bundle_descriptor None (rw_store (cl_remote c2)) c2"
proof -
  obtain c2 where c2: "save_extension_bundle bundle_core bundle_descriptor [1, 2] None None (bundle_client demo_store0 0 0) = (Inl Timeout, c2)"
    "st_objects (rw_store (cl_remote c2)) (ObjectId 4) = Some (bundle_object 4 EXTENSION_MANIFEST_NAMESPACE [9] 2)"
    by (rule bundle_save_lost)
  have contract: "object_store (core_api bundle_core) ref_rep (=)"
    unfolding bundle_core_simps(1) by (rule ref.object_store_axioms)
  have start: "ref_rep (cl_remote (bundle_client demo_store0 0 0)) demo_store0"
    by (simp add: ref_rep_def bundle_client_def store_ok_def demo_store0_def empty_store_def)
  from failed_save_outcome [OF contract _ _ _ _ _ _ start c2(1)] demo_suite_ok bundle_core_simps(9)
  have "chunks_added demo_store0 (rw_store (cl_remote c2)) \<or> clean_up_reported Timeout
      \<or> manifest_lost bundle_core bundle_descriptor None (rw_store (cl_remote c2)) c2"
    by (auto simp: ref_rep_def)
  moreover have "\<not> clean_up_reported Timeout" by (simp add: clean_up_reported_def)
  moreover have "\<not> chunks_added demo_store0 (rw_store (cl_remote c2))"
  proof
    assume "chunks_added demo_store0 (rw_store (cl_remote c2))"
    then have "st_objects (rw_store (cl_remote c2)) (ObjectId 4) = st_objects demo_store0 (ObjectId 4)
      \<or> (\<exists>ob. st_objects (rw_store (cl_remote c2)) (ObjectId 4) = Some ob \<and> so_namespace ob = EXTENSION_CHUNK_NAMESPACE)"
      unfolding chunks_added_def by blast
    with c2(2) show False
      by (simp add: EXTENSION_CHUNK_NAMESPACE_def EXTENSION_MANIFEST_NAMESPACE_def)
  qed
  ultimately show ?thesis using c2(1) by blast
qed

lemma extension_archive_verified_witness:
  "\<exists>m p c'. load_extension_bundle bundle_core (ObjectId 4) (bundle_client bundle_store2 5 9) = (Inr (m, [1, 2], p), c') \<and>
     sha256_bytes demo_suite [1, 2] = em_archive_sha256 m"
proof -
  have st: "st_objects bundle_store2 (ObjectId 3) = Some (bundle_object 3 EXTENSION_CHUNK_NAMESPACE [1, 2] 1)"
    "st_objects bundle_store2 (ObjectId 4) = Some (bundle_object 4 EXTENSION_MANIFEST_NAMESPACE [9] 2)"
    by (simp_all add: bundle_store2_def bundle_store1_def record_object_def)
  have opened: "decrypt demo_suite demo_master (bundle_object 3 EXTENSION_CHUNK_NAMESPACE [1, 2] 1) = Inr [1, 2]"
    "decrypt demo_suite demo_master (bundle_object 4 EXTENSION_MANIFEST_NAMESPACE [9] 2) = Inr [9]"
    using bundle_namespaces by (simp_all add: demo_open)
  have chunks: "em_chunks (manifest_for bundle_descriptor bundle_uploaded) =
      [\<lparr>ec_object_id = ObjectId 3, ec_revision = 1, ec_sha256 = sha256_bytes demo_suite [1, 2], ec_bytes = 2\<rparr>]"
    "em_archive_sha256 (manifest_for bundle_descriptor bundle_uploaded) = sha256_bytes demo_suite [1, 2]"
    "em_archive_bytes (manifest_for bundle_descriptor bundle_uploaded) = 2"
    by (simp_all add: manifest_for_def bundle_uploaded_def bundle_proof_def bundle_descriptor_def)
  have "\<exists>m p c'. load_extension_bundle bundle_core (ObjectId 4) (bundle_client bundle_store2 5 9) = (Inr (m, [1, 2], p), c')"
    using st opened chunks
    by (simp add: load_extension_bundle_def load_extension_manifest_def download_def bindS_def liftS_def call_def returnS_def
        store_api_def ref_call_def lossy_def bundle_client_def Let_def len_u64_def)
  then obtain m p c' where l: "load_extension_bundle bundle_core (ObjectId 4) (bundle_client bundle_store2 5 9) = (Inr (m, [1, 2], p), c')"
    by blast
  from extension_archive_verified [OF l] l show ?thesis by auto
qed

end
