(* ===== verification/LocalState.thy ===== *)
theory LocalState
  imports Orchestration
begin

text \<open>
  The client's local database, \<open>helium-sync-client-core/src/state.rs\<close> and its migrations:
  the device id, cursors, connections, object mappings, synchronization bases, profile
  preferences and profile archives. As on the server a call to the database may fail at any time
  (\<open>le_fault\<close>), a statement the schema refuses fails, and a transaction without a commit is
  rolled back. The \<open>updated_at\<close> columns are never read and are left out.
\<close>

section \<open>Tables\<close>

record mapping_row =
  mp_key :: "string \<times> string \<times> string"
  mp_object_id :: string
  mp_revision :: int

record base_row =
  sb_key :: "string \<times> string \<times> string"
  sb_snapshot :: bytes

record preference_row =
  pr_directory :: string
  pr_display_name :: string
  pr_is_default :: int
  pr_auto_sync :: int

record archive_row =
  ar_id :: string
  ar_directory :: string
  ar_archive_directory :: string
  ar_display_name :: string
  ar_archived_at :: string

record local_db =
  ld_metadata :: "(string \<times> string) list"
  ld_cursors :: "(string \<times> int) list"
  ld_connections :: "(string \<times> string \<times> string) list"
  ld_mappings :: "mapping_row list"
  ld_bases :: "base_row list"
  ld_preferences :: "preference_row list"
  ld_archives :: "archive_row list"

definition empty_local_db :: local_db where
  "empty_local_db =
     \<lparr>ld_metadata = [], ld_cursors = [], ld_connections = [], ld_mappings = [], ld_bases = [],
      ld_preferences = [], ld_archives = []\<rparr>"

record local_env =
  le_fault :: "nat \<Rightarrow> bool"
  le_uuid_text :: "uuid \<Rightarrow> string"
  le_uuid_parse :: "string \<Rightarrow> uuid option"
  le_random :: "nat \<Rightarrow> uuid"
  le_now :: "nat \<Rightarrow> string"
  le_error :: string

definition local_env_ok :: "local_env \<Rightarrow> bool" where
  "local_env_ok e \<longleftrightarrow> (\<forall>u. le_uuid_parse e (le_uuid_text e u) = Some u)"

record lconn =
  lc_db :: local_db
  lc_tick :: nat

type_synonym 'a local_statement = "local_db \<Rightarrow> ('a \<times> local_db) option"
type_synonym 'a local_handler = "(lconn, client_error, 'a) comp"

definition state_error :: "local_env \<Rightarrow> client_error" where
  "state_error e = StateError (le_error e)"

definition lsql :: "local_env \<Rightarrow> 'a local_statement \<Rightarrow> 'a local_handler" where
  "lsql e q c =
     (let c' = c\<lparr>lc_tick := Suc (lc_tick c)\<rparr>
      in if le_fault e (lc_tick c) then (Inl (state_error e), c')
         else (case q (lc_db c) of
                 None \<Rightarrow> (Inl (state_error e), c')
               | Some (x, d) \<Rightarrow> (Inr x, c'\<lparr>lc_db := d\<rparr>)))"

text \<open>Random ids and \<open>CURRENT_TIMESTAMP\<close> are indexed by the number of calls made so far.\<close>

definition tick :: "nat local_handler" where
  "tick c = (Inr (lc_tick c), c)"

definition lno_op :: "unit local_statement" where
  "lno_op d = Some ((), d)"

definition ltransaction :: "local_env \<Rightarrow> 'a local_handler \<Rightarrow> 'a local_handler" where
  "ltransaction e body c =
     (case lsql e lno_op c of
        (Inl er, c1) \<Rightarrow> (Inl er, c1)
      | (Inr _, c1) \<Rightarrow>
          (case body c1 of
             (Inl er, c2) \<Rightarrow> (Inl er, c2\<lparr>lc_db := lc_db c1\<rparr>)
           | (Inr x, c2) \<Rightarrow>
               (case lsql e lno_op c2 of
                  (Inl er, c3) \<Rightarrow> (Inl er, c3\<lparr>lc_db := lc_db c1\<rparr>)
                | (Inr _, c3) \<Rightarrow> (Inr x, c3))))"

section \<open>Statements\<close>

text \<open>\<open>CHECK (length(trim(display_name)) > 0)\<close>: SQLite trims spaces, and its length ends at a
  NUL character.\<close>

definition display_name_check :: "string \<Rightarrow> bool" where
  "display_name_check s \<longleftrightarrow>
     (case dropWhile (\<lambda>c. c = CHR '' '') s of [] \<Rightarrow> False | c # cs \<Rightarrow> code_of c \<noteq> 0)"

text \<open>\<open>COLLATE NOCASE\<close> folds the ASCII letters only.\<close>

definition nocase :: "string \<Rightarrow> string" where
  "nocase s = map (\<lambda>c. if 65 \<le> code_of c \<and> code_of c \<le> 90 then char_of (code_of c + 32) else c) s"

definition one_default_profile :: "preference_row list \<Rightarrow> bool" where
  "one_default_profile rows \<longleftrightarrow> length (filter (\<lambda>r. pr_is_default r = 1) rows) \<le> 1"

definition select_metadata :: "string \<Rightarrow> string option local_statement" where
  "select_metadata k d = Some (map_option snd (find_row fst k (ld_metadata d)), d)"

definition insert_metadata :: "string \<Rightarrow> string \<Rightarrow> unit local_statement" where
  "insert_metadata k v d =
     map_option (\<lambda>rows. ((), d\<lparr>ld_metadata := rows\<rparr>)) (insert_row fst (k, v) (ld_metadata d))"

definition select_cursor :: "string \<Rightarrow> int option local_statement" where
  "select_cursor server d = Some (map_option snd (find_row fst server (ld_cursors d)), d)"

definition upsert_cursor :: "string \<Rightarrow> int \<Rightarrow> unit local_statement" where
  "upsert_cursor server cur d =
     (if 0 \<le> cur then Some ((), d\<lparr>ld_cursors := upsert_row fst (server, cur) (ld_cursors d)\<rparr>) else None)"

definition upsert_connection :: "string \<Rightarrow> string \<Rightarrow> string \<Rightarrow> unit local_statement" where
  "upsert_connection server kind endpoint d =
     Some ((), d\<lparr>ld_connections := upsert_row fst (server, kind, endpoint) (ld_connections d)\<rparr>)"

definition upsert_mapping :: "mapping_row \<Rightarrow> unit local_statement" where
  "upsert_mapping r d = Some ((), d\<lparr>ld_mappings := upsert_row mp_key r (ld_mappings d)\<rparr>)"

definition select_mapping :: "string \<times> string \<times> string \<Rightarrow> mapping_row option local_statement" where
  "select_mapping k d = Some (find_row mp_key k (ld_mappings d), d)"

definition upsert_base :: "base_row \<Rightarrow> unit local_statement" where
  "upsert_base r d = Some ((), d\<lparr>ld_bases := upsert_row sb_key r (ld_bases d)\<rparr>)"

definition select_base :: "string \<times> string \<times> string \<Rightarrow> bytes option local_statement" where
  "select_base k d = Some (map_option sb_snapshot (find_row sb_key k (ld_bases d)), d)"

definition insert_preference :: "string \<Rightarrow> string \<Rightarrow> unit local_statement" where
  "insert_preference dir name d =
     (if \<not> display_name_check name then None
      else if find_row pr_directory dir (ld_preferences d) \<noteq> None then Some ((), d)
      else Some ((), d\<lparr>ld_preferences := ld_preferences d @
             [\<lparr>pr_directory = dir, pr_display_name = name, pr_is_default = 0, pr_auto_sync = 1\<rparr>]\<rparr>))"

definition select_preference :: "string \<Rightarrow> preference_row option local_statement" where
  "select_preference dir d = Some (find_row pr_directory dir (ld_preferences d), d)"

definition select_preferences :: "preference_row list local_statement" where
  "select_preferences d =
     Some (sort_key (\<lambda>r. (nocase (pr_display_name r), pr_directory r)) (ld_preferences d), d)"

text \<open>An \<open>UPDATE\<close> of preferences, refused when a changed row breaks a check or the partial unique
  index; it gives the number of rows.\<close>

definition preference_checks :: "preference_row \<Rightarrow> bool" where
  "preference_checks r \<longleftrightarrow>
     display_name_check (pr_display_name r) \<and> pr_is_default r \<in> {0, 1} \<and> pr_auto_sync r \<in> {0, 1}"

definition update_preferences ::
  "(preference_row \<Rightarrow> bool) \<Rightarrow> (preference_row \<Rightarrow> preference_row) \<Rightarrow> nat local_statement" where
  "update_preferences p f d =
     (let (n, rows) = update_rows p f (ld_preferences d)
      in if (\<forall>r \<in> set rows. preference_checks r) \<and> one_default_profile rows
         then Some (n, d\<lparr>ld_preferences := rows\<rparr>) else None)"

definition insert_archive :: "archive_row \<Rightarrow> unit local_statement" where
  "insert_archive r d =
     (if display_name_check (ar_display_name r)
         \<and> find_row ar_id (ar_id r) (ld_archives d) = None
         \<and> find_row ar_directory (ar_directory r) (ld_archives d) = None
         \<and> find_row ar_archive_directory (ar_archive_directory r) (ld_archives d) = None
      then Some ((), d\<lparr>ld_archives := ld_archives d @ [r]\<rparr>) else None)"

text \<open>\<open>ORDER BY archived_at DESC, display_name COLLATE NOCASE\<close>, both sorts stable.\<close>

definition select_archives :: "archive_row list local_statement" where
  "select_archives d =
     Some (rev (sort_key ar_archived_at (rev (sort_key (\<lambda>r. nocase (ar_display_name r)) (ld_archives d)))), d)"

definition delete_archive :: "string \<Rightarrow> nat local_statement" where
  "delete_archive i d =
     (let (n, rows) = delete_rows (\<lambda>r. ar_id r = i) (ld_archives d) in Some (n, d\<lparr>ld_archives := rows\<rparr>))"

section \<open>Operations of \<open>LocalState\<close>\<close>

record profile_preference =
  pp_directory :: string
  pp_display_name :: string
  pp_is_default :: bool
  pp_auto_sync :: bool

record object_mapping =
  om_object :: object_id
  om_rev :: u64

definition int_column :: "local_env \<Rightarrow> u64 \<Rightarrow> client_error + int" where
  "int_column e v = ok_or (state_error e) (u64_to_i64 v)"

definition parse_id :: "local_env \<Rightarrow> string \<Rightarrow> client_error + uuid" where
  "parse_id e s = ok_or (state_error e) (le_uuid_parse e s)"

definition local_device_id :: "local_env \<Rightarrow> device_id local_handler" where
  "local_device_id e =
     bindS (lsql e (select_metadata ''device_id'')) (\<lambda>row.
       case row of
         Some v \<Rightarrow> liftS (map_sum id DeviceId (parse_id e v))
       | None \<Rightarrow>
           bindS tick (\<lambda>n.
           let i = le_random e n
           in bindS (lsql e (insert_metadata ''device_id'' (le_uuid_text e i))) (\<lambda>_. returnS (DeviceId i))))"

definition local_cursor :: "local_env \<Rightarrow> string \<Rightarrow> u64 local_handler" where
  "local_cursor e server =
     bindS (lsql e (select_cursor server)) (\<lambda>row.
       case row of None \<Rightarrow> returnS 0 | Some n \<Rightarrow> liftS (ok_or (state_error e) (i64_to_u64 n)))"

definition set_cursor :: "local_env \<Rightarrow> string \<Rightarrow> u64 \<Rightarrow> unit local_handler" where
  "set_cursor e server cur =
     bindS (liftS (int_column e cur)) (\<lambda>n. lsql e (upsert_cursor server n))"

definition save_connection :: "local_env \<Rightarrow> string \<Rightarrow> string \<Rightarrow> string \<Rightarrow> unit local_handler" where
  "save_connection e server kind endpoint = lsql e (upsert_connection server kind endpoint)"

definition mapping_for :: "local_env \<Rightarrow> string \<Rightarrow> string \<Rightarrow> string \<Rightarrow> object_id \<Rightarrow> int \<Rightarrow> mapping_row" where
  "mapping_for e server namespace local_key i rv =
     \<lparr>mp_key = (server, namespace, local_key), mp_object_id = le_uuid_text e (object_uuid i), mp_revision = rv\<rparr>"

definition save_mapping ::
  "local_env \<Rightarrow> string \<Rightarrow> string \<Rightarrow> string \<Rightarrow> object_id \<Rightarrow> u64 \<Rightarrow> unit local_handler" where
  "save_mapping e server namespace local_key i revision =
     bindS (liftS (int_column e revision)) (\<lambda>rv.
     lsql e (upsert_mapping (mapping_for e server namespace local_key i rv)))"

definition save_sync_state ::
  "local_env \<Rightarrow> string \<Rightarrow> string \<Rightarrow> string \<Rightarrow> object_id \<Rightarrow> u64 \<Rightarrow> bytes \<Rightarrow> unit local_handler" where
  "save_sync_state e server namespace local_key i revision json =
     bindS (liftS (int_column e revision)) (\<lambda>rv.
     ltransaction e
       (bindS (lsql e (upsert_mapping (mapping_for e server namespace local_key i rv))) (\<lambda>_.
        lsql e (upsert_base \<lparr>sb_key = (server, namespace, local_key), sb_snapshot = json\<rparr>))))"

definition sync_base :: "local_env \<Rightarrow> string \<Rightarrow> string \<Rightarrow> string \<Rightarrow> bytes option local_handler" where
  "sync_base e server namespace local_key = lsql e (select_base (server, namespace, local_key))"

definition local_mapping :: "local_env \<Rightarrow> string \<Rightarrow> string \<Rightarrow> string \<Rightarrow> object_mapping option local_handler" where
  "local_mapping e server namespace local_key =
     bindS (lsql e (select_mapping (server, namespace, local_key))) (\<lambda>row.
       case row of
         None \<Rightarrow> returnS None
       | Some r \<Rightarrow>
           bindS (liftS (parse_id e (mp_object_id r))) (\<lambda>i.
           bindS (liftS (ok_or (state_error e) (i64_to_u64 (mp_revision r)))) (\<lambda>rv.
           returnS (Some \<lparr>om_object = ObjectId i, om_rev = rv\<rparr>))))"

definition ensure_profile :: "local_env \<Rightarrow> string \<Rightarrow> string \<Rightarrow> unit local_handler" where
  "ensure_profile e dir name = lsql e (insert_preference dir name)"

definition preference_of :: "preference_row \<Rightarrow> profile_preference" where
  "preference_of r =
     \<lparr>pp_directory = pr_directory r, pp_display_name = pr_display_name r,
      pp_is_default = (pr_is_default r = 1), pp_auto_sync = (pr_auto_sync r = 1)\<rparr>"

definition profile_preferences :: "local_env \<Rightarrow> profile_preference list local_handler" where
  "profile_preferences e =
     bindS (lsql e select_preferences) (\<lambda>rows. returnS (map preference_of rows))"

definition expect_one :: "string \<Rightarrow> nat \<Rightarrow> client_error + unit" where
  "expect_one message n = (if n \<noteq> 1 then Inl (StateError message) else Inr ())"

definition rename_profile :: "local_env \<Rightarrow> string \<Rightarrow> string \<Rightarrow> unit local_handler" where
  "rename_profile e dir display_name =
     (let name = rust_trim display_name
      in if name = [] \<or> chars_count name > 128
         then liftS (Inl (StateError ''profile name must contain 1 to 128 characters''))
         else bindS (lsql e (update_preferences (\<lambda>r. pr_directory r = dir) (\<lambda>r. r\<lparr>pr_display_name := name\<rparr>)))
                (\<lambda>n. liftS (expect_one ''profile is not registered'' n)))"

definition set_default_profile :: "local_env \<Rightarrow> string \<Rightarrow> unit local_handler" where
  "set_default_profile e dir =
     ltransaction e
       (bindS (lsql e (select_preference dir)) (\<lambda>row.
        if row = None then liftS (Inl (StateError ''profile is not registered''))
        else bindS (lsql e (update_preferences (\<lambda>r. pr_is_default r = 1) (\<lambda>r. r\<lparr>pr_is_default := 0\<rparr>))) (\<lambda>_.
             bindS (lsql e (update_preferences (\<lambda>r. pr_directory r = dir) (\<lambda>r. r\<lparr>pr_is_default := 1\<rparr>))) (\<lambda>_.
             returnS ()))))"

definition set_auto_sync :: "local_env \<Rightarrow> string \<Rightarrow> bool \<Rightarrow> unit local_handler" where
  "set_auto_sync e dir enabled =
     bindS (lsql e (update_preferences (\<lambda>r. pr_directory r = dir)
              (\<lambda>r. r\<lparr>pr_auto_sync := (if enabled then 1 else 0)\<rparr>)))
       (\<lambda>n. liftS (expect_one ''profile is not registered'' n))"

definition default_profile :: "local_env \<Rightarrow> profile_preference option local_handler" where
  "default_profile e = bindS (profile_preferences e) (\<lambda>ps. returnS (List.find pp_is_default ps))"

definition record_profile_archive ::
  "local_env \<Rightarrow> string \<Rightarrow> string \<Rightarrow> string \<Rightarrow> string \<Rightarrow> unit local_handler" where
  "record_profile_archive e i dir archive_dir name =
     ltransaction e
       (bindS tick (\<lambda>n.
        bindS (lsql e (insert_archive \<lparr>ar_id = i, ar_directory = dir, ar_archive_directory = archive_dir,
                 ar_display_name = name, ar_archived_at = le_now e n\<rparr>)) (\<lambda>_.
        bindS (lsql e (update_preferences (\<lambda>r. pr_directory r = dir) (\<lambda>r. r\<lparr>pr_is_default := 0\<rparr>))) (\<lambda>_.
        returnS ()))))"

definition profile_archives :: "local_env \<Rightarrow> archive_row list local_handler" where
  "profile_archives e = lsql e select_archives"

definition remove_profile_archive :: "local_env \<Rightarrow> string \<Rightarrow> unit local_handler" where
  "remove_profile_archive e i =
     bindS (lsql e (delete_archive i)) (\<lambda>n. liftS (expect_one ''profile archive is not registered'' n))"

section \<open>Calls and transactions\<close>

lemma lsql_Inr [result_simps]:
  "lsql e q c = (Inr x, c') \<longleftrightarrow>
     \<not> le_fault e (lc_tick c) \<and>
     (\<exists>d. q (lc_db c) = Some (x, d) \<and> c' = c\<lparr>lc_tick := Suc (lc_tick c), lc_db := d\<rparr>)"
  by (auto simp: lsql_def Let_def split: option.splits)

lemma lsql_Inl [result_simps]:
  "lsql e q c = (Inl er, c') \<longleftrightarrow>
     (le_fault e (lc_tick c) \<or> q (lc_db c) = None) \<and> er = state_error e \<and> c' = c\<lparr>lc_tick := Suc (lc_tick c)\<rparr>"
  by (auto simp: lsql_def Let_def split: option.splits)

lemma tick_iff [result_simps]: "tick c = (r, c') \<longleftrightarrow> r = Inr (lc_tick c) \<and> c' = c"
  by (auto simp: tick_def)

lemma lno_op_iff [simp]: "lno_op d = Some (x, d') \<longleftrightarrow> d' = d" "lno_op d \<noteq> None"
  by (auto simp: lno_op_def)

lemma ltransaction_Inl: "ltransaction e body c = (Inl er, c') \<Longrightarrow> lc_db c' = lc_db c"
  by (auto simp: ltransaction_def result_simps split: prod.splits sum.splits)

lemma ltransaction_Inr:
  "ltransaction e body c = (Inr x, c') \<Longrightarrow>
     \<exists>c2. body (c\<lparr>lc_tick := Suc (lc_tick c)\<rparr>) = (Inr x, c2) \<and> lc_db c' = lc_db c2"
  by (auto simp: ltransaction_def result_simps split: prod.splits sum.splits)

text \<open>Without faults a transaction succeeds when its body does.\<close>

lemma ltransaction_no_fault:
  assumes "\<And>n. \<not> le_fault e n" and "body (c\<lparr>lc_tick := Suc (lc_tick c)\<rparr>) = (Inr x, c2)"
  shows "ltransaction e body c = (Inr x, c2\<lparr>lc_tick := Suc (lc_tick c2)\<rparr>)"
  using assms by (simp add: ltransaction_def lsql_def lno_op_def)

text \<open>What a successful save leaves.\<close>

lemma save_sync_state_Inr:
  assumes "save_sync_state e server namespace local_key i revision json c = (Inr x, c')"
  shows "uint revision \<le> i64_max"
    "lc_db c' = (lc_db c)
      \<lparr>ld_mappings := upsert_row mp_key (mapping_for e server namespace local_key i (uint revision)) (ld_mappings (lc_db c)),
       ld_bases := upsert_row sb_key \<lparr>sb_key = (server, namespace, local_key), sb_snapshot = json\<rparr> (ld_bases (lc_db c))\<rparr>"
proof -
  from assms have t: "uint revision \<le> i64_max"
    "ltransaction e
       (bindS (lsql e (upsert_mapping (mapping_for e server namespace local_key i (uint revision)))) (\<lambda>_.
        lsql e (upsert_base \<lparr>sb_key = (server, namespace, local_key), sb_snapshot = json\<rparr>))) c = (Inr x, c')"
    by (auto simp: save_sync_state_def int_column_def result_simps)
  then show "uint revision \<le> i64_max" by simp
  from ltransaction_Inr [OF t(2)] show "lc_db c' = (lc_db c)
      \<lparr>ld_mappings := upsert_row mp_key (mapping_for e server namespace local_key i (uint revision)) (ld_mappings (lc_db c)),
       ld_bases := upsert_row sb_key \<lparr>sb_key = (server, namespace, local_key), sb_snapshot = json\<rparr> (ld_bases (lc_db c))\<rparr>"
    by (auto simp: result_simps upsert_mapping_def upsert_base_def)
qed

section \<open>The invariant of the database\<close>

definition local_inv :: "local_db \<Rightarrow> bool" where
  "local_inv d \<longleftrightarrow>
     key_ok fst (ld_metadata d) \<and> key_ok fst (ld_cursors d) \<and> (\<forall>r \<in> set (ld_cursors d). 0 \<le> snd r) \<and>
     key_ok fst (ld_connections d) \<and> key_ok mp_key (ld_mappings d) \<and> key_ok sb_key (ld_bases d) \<and>
     key_ok pr_directory (ld_preferences d) \<and> (\<forall>r \<in> set (ld_preferences d). preference_checks r) \<and>
     one_default_profile (ld_preferences d) \<and>
     key_ok ar_id (ld_archives d) \<and> key_ok ar_directory (ld_archives d) \<and> key_ok ar_archive_directory (ld_archives d)"

definition inv_kept :: "lconn \<Rightarrow> lconn \<Rightarrow> bool" where
  "inv_kept c c' \<longleftrightarrow> (local_inv (lc_db c) \<longrightarrow> local_inv (lc_db c'))"

lemma inv_kept_order: "reflp inv_kept" "transp inv_kept"
  by (auto simp: inv_kept_def intro!: reflpI transpI)

named_theorems local_keeps "operations that keep the invariant of the local database"

lemma keeps_basic [local_keeps]: "keeps inv_kept (returnS x)" "keeps inv_kept (liftS r)" "keeps inv_kept tick"
  by (rule keeps_returnS [OF inv_kept_order(1)], rule keeps_liftS [OF inv_kept_order(1)])
    (simp add: keeps_def inv_kept_def tick_def)

lemmas keeps_bind [local_keeps] = keeps_bindS [OF inv_kept_order(2)]

lemma keeps_lsql [local_keeps]:
  "(\<And>d x d'. local_inv d \<Longrightarrow> q d = Some (x, d') \<Longrightarrow> local_inv d') \<Longrightarrow> keeps inv_kept (lsql e q)"
  by (auto simp: keeps_def inv_kept_def lsql_def Let_def split: option.splits)

lemma keeps_ltransaction [local_keeps]:
  assumes "keeps inv_kept body"
  shows "keeps inv_kept (ltransaction e body)"
  unfolding keeps_def
proof
  fix c
  obtain r c' where r: "ltransaction e body c = (r, c')" by (cases "ltransaction e body c")
  show "inv_kept c (snd (ltransaction e body c))"
  proof (cases r)
    case (Inl er)
    with r ltransaction_Inl show ?thesis by (fastforce simp: inv_kept_def)
  next
    case (Inr x)
    with r ltransaction_Inr [of e body c x c'] obtain c2 where
      "body (c\<lparr>lc_tick := Suc (lc_tick c)\<rparr>) = (Inr x, c2)" "lc_db c' = lc_db c2" by blast
    then show ?thesis
      using assms [unfolded keeps_def, rule_format, of "c\<lparr>lc_tick := Suc (lc_tick c)\<rparr>"] r by (simp add: inv_kept_def)
  qed
qed

lemma select_keeps:
  "select_metadata k d = Some (x, d') \<Longrightarrow> d' = d" "select_cursor k d = Some (y, d') \<Longrightarrow> d' = d"
  "select_mapping m d = Some (z, d') \<Longrightarrow> d' = d" "select_base m d = Some (u, d') \<Longrightarrow> d' = d"
  "select_preference k d = Some (v, d') \<Longrightarrow> d' = d" "select_preferences d = Some (w, d') \<Longrightarrow> d' = d"
  "select_archives d = Some (t, d') \<Longrightarrow> d' = d"
  by (auto simp: select_metadata_def select_cursor_def select_mapping_def select_base_def select_preference_def
      select_preferences_def select_archives_def)

lemma local_inv_metadata: "local_inv d \<Longrightarrow> insert_metadata k v d = Some (x, d') \<Longrightarrow> local_inv d'"
  by (auto simp: local_inv_def insert_metadata_def)

lemma local_inv_upserts:
  "local_inv d \<Longrightarrow> upsert_cursor server n d = Some (x, d') \<Longrightarrow> local_inv d'"
  "local_inv d \<Longrightarrow> upsert_connection server kind endpoint d = Some (x, d') \<Longrightarrow> local_inv d'"
  "local_inv d \<Longrightarrow> upsert_mapping m d = Some (x, d') \<Longrightarrow> local_inv d'"
  "local_inv d \<Longrightarrow> upsert_base b d = Some (x, d') \<Longrightarrow> local_inv d'"
  by (auto simp: local_inv_def upsert_cursor_def upsert_connection_def upsert_mapping_def upsert_base_def
      dest!: set_upsert_row split: if_splits)

lemma local_inv_insert_preference: "local_inv d \<Longrightarrow> insert_preference dir name d = Some (x, d') \<Longrightarrow> local_inv d'"
  by (auto simp: local_inv_def insert_preference_def key_ok_def find_row_None preference_checks_def
      one_default_profile_def split: if_splits)

lemma local_inv_update:
  assumes "\<And>r. pr_directory (f r) = pr_directory r"
  shows "local_inv d \<Longrightarrow> update_preferences p f d = Some (x, d') \<Longrightarrow> local_inv d'"
  using assms key_ok_update [where f = f and key = pr_directory and p = p and rows = "ld_preferences d"]
  by (auto simp: local_inv_def update_preferences_def Let_def split: prod.splits if_splits)

lemma local_inv_update_preferences:
  "local_inv d \<Longrightarrow> update_preferences p (\<lambda>r. r\<lparr>pr_is_default := n\<rparr>) d = Some (x, d') \<Longrightarrow> local_inv d'"
  "local_inv d \<Longrightarrow> update_preferences p (\<lambda>r. r\<lparr>pr_auto_sync := n\<rparr>) d = Some (x, d') \<Longrightarrow> local_inv d'"
  "local_inv d \<Longrightarrow> update_preferences p (\<lambda>r. r\<lparr>pr_display_name := name\<rparr>) d = Some (x, d') \<Longrightarrow> local_inv d'"
  by (erule (1) local_inv_update [rotated], simp)+

lemma local_inv_archives:
  "local_inv d \<Longrightarrow> insert_archive r d = Some (x, d') \<Longrightarrow> local_inv d'"
  "local_inv d \<Longrightarrow> delete_archive i d = Some (n, d') \<Longrightarrow> local_inv d'"
  using key_ok_delete [where p = "\<lambda>r. ar_id r = i" and rows = "ld_archives d"]
  by (auto simp: local_inv_def insert_archive_def delete_archive_def key_ok_def find_row_None Let_def
      split: prod.splits if_splits)

text \<open>Every operation, with any arguments; the state of a client is what a sequence of them leaves.\<close>

datatype local_op =
    DeviceIdOp
  | CursorOp string
  | SetCursorOp string u64
  | SaveConnectionOp string string string
  | SaveMappingOp string string string object_id u64
  | SaveSyncStateOp string string string object_id u64 bytes
  | SyncBaseOp string string string
  | MappingOp string string string
  | EnsureProfileOp string string
  | PreferencesOp
  | RenameProfileOp string string
  | SetDefaultProfileOp string
  | SetAutoSyncOp string bool
  | DefaultProfileOp
  | RecordArchiveOp string string string string
  | ArchivesOp
  | RemoveArchiveOp string

definition discard :: "'a local_handler \<Rightarrow> unit local_handler" where
  "discard m = bindS m (\<lambda>_. returnS ())"

fun local_step :: "local_env \<Rightarrow> local_op \<Rightarrow> unit local_handler" where
  "local_step e DeviceIdOp = discard (local_device_id e)"
| "local_step e (CursorOp s) = discard (local_cursor e s)"
| "local_step e (SetCursorOp s n) = set_cursor e s n"
| "local_step e (SaveConnectionOp s t p) = save_connection e s t p"
| "local_step e (SaveMappingOp s n k i r) = save_mapping e s n k i r"
| "local_step e (SaveSyncStateOp s n k i r b) = save_sync_state e s n k i r b"
| "local_step e (SyncBaseOp s n k) = discard (sync_base e s n k)"
| "local_step e (MappingOp s n k) = discard (local_mapping e s n k)"
| "local_step e (EnsureProfileOp d n) = ensure_profile e d n"
| "local_step e PreferencesOp = discard (profile_preferences e)"
| "local_step e (RenameProfileOp d n) = rename_profile e d n"
| "local_step e (SetDefaultProfileOp d) = set_default_profile e d"
| "local_step e (SetAutoSyncOp d b) = set_auto_sync e d b"
| "local_step e DefaultProfileOp = discard (default_profile e)"
| "local_step e (RecordArchiveOp i d a n) = record_profile_archive e i d a n"
| "local_step e ArchivesOp = discard (profile_archives e)"
| "local_step e (RemoveArchiveOp i) = remove_profile_archive e i"

fun local_steps :: "local_env \<Rightarrow> local_op list \<Rightarrow> lconn \<Rightarrow> lconn" where
  "local_steps e [] c = c"
| "local_steps e (op # ops) c = local_steps e ops (snd (local_step e op c))"

lemma local_step_keeps: "keeps inv_kept (local_step e op)"
  by (cases op)
    (auto simp: discard_def local_device_id_def local_cursor_def set_cursor_def save_connection_def save_mapping_def
      save_sync_state_def sync_base_def local_mapping_def ensure_profile_def profile_preferences_def rename_profile_def
      set_default_profile_def set_auto_sync_def default_profile_def record_profile_archive_def profile_archives_def
      remove_profile_archive_def Let_def
      intro!: local_keeps dest: select_keeps local_inv_metadata local_inv_upserts local_inv_insert_preference
      local_inv_archives local_inv_update_preferences split: option.split)

end
