(* ===== verification/LocalStateProps.thy ===== *)
theory LocalStateProps
  imports LocalState
begin

text \<open>
  Properties of the client's local database: its invariant in every state a client can reach,
  that a synchronization state is saved as a whole or not at all and read back, that a device
  keeps its identity, and what making a profile the default does.
\<close>

definition demo_local_env :: local_env where
  "demo_local_env =
     \<lparr>le_fault = (\<lambda>n. n = 5), le_uuid_text = (\<lambda>u. replicate (unat u) CHR ''x''),
      le_uuid_parse = (\<lambda>s. Some (word_of_nat (length s))), le_random = (\<lambda>n. 7), le_now = (\<lambda>n. ''now''),
      le_error = ''database is locked''\<rparr>"

definition fresh_local :: lconn where
  "fresh_local = \<lparr>lc_db = empty_local_db, lc_tick = 0\<rparr>"

lemma demo_local_env_ok: "local_env_ok demo_local_env"
  by (simp add: local_env_ok_def demo_local_env_def)

section \<open>The invariant\<close>

lemma local_steps_inv: "local_inv (lc_db c) \<Longrightarrow> local_inv (lc_db (local_steps e ops c))"
proof (induction ops arbitrary: c)
  case (Cons op ops)
  then have "local_inv (lc_db (snd (local_step e op c)))"
    using local_step_keeps [of e op] by (simp add: keeps_def inv_kept_def)
  from Cons.IH [OF this] show ?case by simp
qed simp

lemma empty_local_inv: "local_inv empty_local_db"
  by (simp add: local_inv_def empty_local_db_def one_default_profile_def)

text \<open>Whatever operations a client runs, with whatever arguments and database
  faults, at most one profile is the default, no profile, mapping, base or archive is stored twice,
  flags are 0 or 1, names are not blank and cursors are not negative.\<close>

lemma local_database_sound:
  "\<exists>d. lc_db (local_steps e ops \<lparr>lc_db = empty_local_db, lc_tick = n\<rparr>) = d \<and>
     length (filter (\<lambda>r. pr_is_default r = 1) (ld_preferences d)) \<le> 1 \<and>
     distinct (map pr_directory (ld_preferences d)) \<and> distinct (map mp_key (ld_mappings d)) \<and>
     distinct (map sb_key (ld_bases d)) \<and> distinct (map ar_id (ld_archives d)) \<and>
     distinct (map ar_directory (ld_archives d)) \<and> distinct (map ar_archive_directory (ld_archives d)) \<and>
     list_all preference_checks (ld_preferences d) \<and> list_all (\<lambda>r. 0 \<le> snd r) (ld_cursors d)"
proof -
  let ?d = "lc_db (local_steps e ops \<lparr>lc_db = empty_local_db, lc_tick = n\<rparr>)"
  have "local_inv ?d"
    by (rule local_steps_inv) (simp add: empty_local_inv)
  then show ?thesis
    by (intro exI [of _ ?d]) (simp add: local_inv_def one_default_profile_def key_ok_def list_all_iff)
qed

section \<open>The synchronization state\<close>

text \<open>C16. Synchronization state: a failed save, a revision beyond the column included, leaves the
  database as it was; a successful one is what the mapping and the base then read back, and touches
  no other profile, namespace or server.\<close>

theorem sync_state_saved_together:
  assumes "local_env_ok e" and "save_sync_state e server namespace local_key i revision json c = (r, c')"
  shows "(\<forall>er. r = Inl er \<longrightarrow> lc_db c' = lc_db c) \<and>
    (r = Inr () \<longrightarrow>
       (\<forall>q c2. local_mapping e server namespace local_key c' = (Inr q, c2) \<longrightarrow> q = Some \<lparr>om_object = i, om_rev = revision\<rparr>) \<and>
       (\<forall>b c2. sync_base e server namespace local_key c' = (Inr b, c2) \<longrightarrow> b = Some json) \<and>
       (\<forall>k. k \<noteq> (server, namespace, local_key) \<longrightarrow>
          find_row mp_key k (ld_mappings (lc_db c')) = find_row mp_key k (ld_mappings (lc_db c)) \<and>
          find_row sb_key k (ld_bases (lc_db c')) = find_row sb_key k (ld_bases (lc_db c))))"
proof (cases r)
  case (Inl er)
  with assms(2) have "lc_db c' = lc_db c"
    by (auto simp: save_sync_state_def result_simps dest: ltransaction_Inl)
  with Inl show ?thesis by simp
next
  case (Inr x)
  with assms(2) have t: "uint revision \<le> i64_max" and db: "lc_db c' = (lc_db c)
      \<lparr>ld_mappings := upsert_row mp_key (mapping_for e server namespace local_key i (uint revision)) (ld_mappings (lc_db c)),
       ld_bases := upsert_row sb_key \<lparr>sb_key = (server, namespace, local_key), sb_snapshot = json\<rparr> (ld_bases (lc_db c))\<rparr>"
    using save_sync_state_Inr by blast+
  have id: "ObjectId (object_uuid i) = i" by (cases i) simp
  have "q = Some \<lparr>om_object = i, om_rev = revision\<rparr>"
    if "local_mapping e server namespace local_key c' = (Inr q, c2)" for q c2
    using that assms(1) id unfolding local_env_ok_def
    by (auto simp: local_mapping_def result_simps select_mapping_def db row_simps mapping_for_def parse_id_def)
  moreover have "b = Some json" if "sync_base e server namespace local_key c' = (Inr b, c2)" for b c2
    using that by (auto simp: sync_base_def result_simps select_base_def db row_simps)
  moreover have "mp_key (mapping_for e server namespace local_key i (uint revision)) = (server, namespace, local_key)"
    by (simp add: mapping_for_def)
  ultimately show ?thesis using Inr by (simp add: db row_simps)
qed

definition demo_saved :: "(client_error + unit) \<times> lconn" where
  "demo_saved = save_sync_state demo_local_env ''srv'' ''helium.bookmarks.v1'' ''Default'' (ObjectId 3) 4 [1, 2] fresh_local"

definition demo_mapping :: mapping_row where
  "demo_mapping = mapping_for demo_local_env ''srv'' ''helium.bookmarks.v1'' ''Default'' (ObjectId 3) 4"

definition demo_saved_db :: local_db where
  "demo_saved_db = empty_local_db
     \<lparr>ld_mappings := [demo_mapping],
      ld_bases := [\<lparr>sb_key = (''srv'', ''helium.bookmarks.v1'', ''Default''), sb_snapshot = [1, 2]\<rparr>]\<rparr>"

lemma demo_saved_state: "demo_saved = (Inr (), \<lparr>lc_db = demo_saved_db, lc_tick = 4\<rparr>)"
  by (simp add: demo_saved_def save_sync_state_def int_column_def bindS_def liftS_def ltransaction_def lsql_def
      demo_local_env_def fresh_local_def empty_local_db_def lno_op_def upsert_mapping_def upsert_base_def
      u64_to_i64_def i64_max_def upsert_row_def demo_saved_db_def demo_mapping_def)

lemma demo_local_env_simps [simp]:
  "le_fault demo_local_env n = (n = 5)" "le_uuid_parse demo_local_env s = Some (word_of_nat (length s))"
  by (simp_all add: demo_local_env_def)

lemma demo_mapping_simps:
  "mp_key demo_mapping = (''srv'', ''helium.bookmarks.v1'', ''Default'')" "mp_revision demo_mapping = 4"
  by (simp_all add: demo_mapping_def mapping_for_def)

lemma demo_mapping_read:
  "fst (local_mapping demo_local_env ''srv'' ''helium.bookmarks.v1'' ''Default'' (snd demo_saved)) =
     Inr (Some \<lparr>om_object = ObjectId (word_of_nat (length (mp_object_id demo_mapping))), om_rev = 4\<rparr>)"
proof -
  have "lsql demo_local_env (select_mapping (''srv'', ''helium.bookmarks.v1'', ''Default'')) (snd demo_saved) =
      (Inr (Some demo_mapping), \<lparr>lc_db = demo_saved_db, lc_tick = 5\<rparr>)"
    by (simp add: demo_saved_state lsql_def select_mapping_def demo_saved_db_def find_row_Cons demo_mapping_simps)
  moreover have "parse_id demo_local_env (mp_object_id demo_mapping) = Inr (word_of_nat (length (mp_object_id demo_mapping)))"
    by (simp add: parse_id_def)
  ultimately show ?thesis
    by (simp add: local_mapping_def bindS_def liftS_def returnS_def demo_mapping_simps i64_to_u64_def)
qed

lemma sync_state_saved_together_witness:
  "fst (local_mapping demo_local_env ''srv'' ''helium.bookmarks.v1'' ''Default'' (snd demo_saved)) =
     Inr (Some \<lparr>om_object = ObjectId 3, om_rev = 4\<rparr>)"
proof -
  obtain q c2 where q: "local_mapping demo_local_env ''srv'' ''helium.bookmarks.v1'' ''Default'' (snd demo_saved) = (Inr q, c2)"
    using demo_mapping_read by (metis prod.collapse)
  have "demo_saved = (Inr (), snd demo_saved)" by (simp add: demo_saved_state)
  from sync_state_saved_together [OF demo_local_env_ok this [unfolded demo_saved_def]] q
  have "q = Some \<lparr>om_object = ObjectId 3, om_rev = 4\<rparr>" unfolding demo_saved_def by blast
  with q show ?thesis by simp
qed

section \<open>The device\<close>

definition device_kept :: "lconn \<Rightarrow> lconn \<Rightarrow> bool" where
  "device_kept c c' \<longleftrightarrow>
     (\<forall>v. find_row fst ''device_id'' (ld_metadata (lc_db c)) = Some v \<longrightarrow>
          find_row fst ''device_id'' (ld_metadata (lc_db c')) = Some v)"

lemma device_kept_order: "reflp device_kept" "transp device_kept"
  by (auto simp: device_kept_def intro!: reflpI transpI)

lemma device_keeps_basic:
  "keeps device_kept (returnS x)" "keeps device_kept (liftS r)" "keeps device_kept tick"
  by (rule keeps_returnS [OF device_kept_order(1)], rule keeps_liftS [OF device_kept_order(1)])
    (simp add: keeps_def device_kept_def tick_def)

lemma device_keeps_lsql:
  "(\<And>d x d' v. q d = Some (x, d') \<Longrightarrow> find_row fst ''device_id'' (ld_metadata d) = Some v \<Longrightarrow>
     find_row fst ''device_id'' (ld_metadata d') = Some v) \<Longrightarrow> keeps device_kept (lsql e q)"
  by (auto simp: keeps_def device_kept_def lsql_def Let_def split: option.splits)

lemma device_keeps_ltransaction:
  assumes "keeps device_kept body"
  shows "keeps device_kept (ltransaction e body)"
  unfolding keeps_def
proof
  fix c
  obtain r c' where r: "ltransaction e body c = (r, c')" by (cases "ltransaction e body c")
  show "device_kept c (snd (ltransaction e body c))"
  proof (cases r)
    case (Inl er)
    with r ltransaction_Inl show ?thesis by (fastforce simp: device_kept_def)
  next
    case (Inr x)
    with r ltransaction_Inr [of e body c x c'] obtain c2 where
      "body (c\<lparr>lc_tick := Suc (lc_tick c)\<rparr>) = (Inr x, c2)" "lc_db c' = lc_db c2" by blast
    then show ?thesis
      using assms [unfolded keeps_def, rule_format, of "c\<lparr>lc_tick := Suc (lc_tick c)\<rparr>"] r by (simp add: device_kept_def)
  qed
qed

lemma insert_metadata_device:
  "insert_metadata k v d = Some (x, d') \<Longrightarrow> find_row fst ''device_id'' (ld_metadata d) = Some w \<Longrightarrow>
     find_row fst ''device_id'' (ld_metadata d') = Some w"
  by (auto simp: insert_metadata_def insert_row_def find_row_append split: if_splits)

lemma metadata_unchanged:
  "upsert_cursor s n d = Some (x, d') \<Longrightarrow> ld_metadata d' = ld_metadata d"
  "upsert_connection s k path d = Some (x, d') \<Longrightarrow> ld_metadata d' = ld_metadata d"
  "upsert_mapping m d = Some (x, d') \<Longrightarrow> ld_metadata d' = ld_metadata d"
  "upsert_base b d = Some (x, d') \<Longrightarrow> ld_metadata d' = ld_metadata d"
  "insert_preference dir name d = Some (x, d') \<Longrightarrow> ld_metadata d' = ld_metadata d"
  "update_preferences p f d = Some (y, d') \<Longrightarrow> ld_metadata d' = ld_metadata d"
  "insert_archive r d = Some (x, d') \<Longrightarrow> ld_metadata d' = ld_metadata d"
  "delete_archive i d = Some (y, d') \<Longrightarrow> ld_metadata d' = ld_metadata d"
  by (auto simp: upsert_cursor_def upsert_connection_def upsert_mapping_def upsert_base_def insert_preference_def
      update_preferences_def insert_archive_def delete_archive_def Let_def split: if_splits prod.splits)

lemma local_step_keeps_device: "keeps device_kept (local_step e op)"
  by (cases op)
    (auto simp: discard_def local_device_id_def local_cursor_def set_cursor_def save_connection_def save_mapping_def
      save_sync_state_def sync_base_def local_mapping_def ensure_profile_def profile_preferences_def rename_profile_def
      set_default_profile_def set_auto_sync_def default_profile_def record_profile_archive_def profile_archives_def
      remove_profile_archive_def Let_def
      intro!: device_keeps_basic keeps_bindS [OF device_kept_order(2)] device_keeps_lsql device_keeps_ltransaction
      intro: insert_metadata_device dest: select_keeps dest!: metadata_unchanged split: option.split)

lemma local_steps_keep_device: "device_kept c (local_steps e ops c)"
proof (induction ops arbitrary: c)
  case Nil
  show ?case using device_kept_order(1) by (simp add: reflpD)
next
  case (Cons op ops)
  have "device_kept c (snd (local_step e op c))"
    using local_step_keeps_device [of e op] by (simp add: keeps_def)
  with Cons.IH device_kept_order(2) show ?case by (metis local_steps.simps(2) transpD)
qed

lemma local_device_id_stored:
  assumes "local_env_ok e" and "local_device_id e c = (Inr i, c')"
  shows "\<exists>v. find_row fst ''device_id'' (ld_metadata (lc_db c')) = Some (''device_id'', v) \<and>
    le_uuid_parse e v = Some (device_uuid i)"
proof -
  have fst: "fst x = k" if "find_row fst k rows = Some x" for x k and rows :: "(string \<times> string) list"
    using find_row_SomeD [OF that] by simp
  from assms(2) obtain row c1 where row: "lsql e (select_metadata ''device_id'') c = (Inr row, c1)"
    "(case row of Some v \<Rightarrow> liftS (map_sum id DeviceId (parse_id e v))
       | None \<Rightarrow> bindS tick (\<lambda>n. let i = le_random e n in
           bindS (lsql e (insert_metadata ''device_id'' (le_uuid_text e i))) (\<lambda>_. returnS (DeviceId i)))) c1 = (Inr i, c')"
    by (auto simp: local_device_id_def result_simps)
  show ?thesis
  proof (cases row)
    case None
    with row(2) assms(1) show ?thesis
      by (auto simp: result_simps Let_def insert_metadata_def insert_row_def find_row_append find_row_Cons local_env_ok_def
          split: if_splits option.splits)
  next
    case (Some v)
    with row(1) obtain x where x: "find_row fst ''device_id'' (ld_metadata (lc_db c1)) = Some x" "snd x = v"
      by (auto simp: result_simps select_metadata_def)
    with fst [OF x(1)] have "x = (''device_id'', v)" by (cases x) simp
    moreover from row(2) Some obtain u where "parse_id e v = Inr u" "i = DeviceId u" "c' = c1"
      by (cases "parse_id e v") (auto simp: liftS_iff)
    ultimately show ?thesis using x(1) by (auto simp: parse_id_def result_simps)
  qed
qed

text \<open>C34. Device identity: once a client has its device id, every later answer is the same id,
  whatever operations and database faults came in between.\<close>

theorem device_identity_stable:
  assumes "local_env_ok e" and "local_device_id e c = (Inr i, c1)"
    and "local_device_id e (local_steps e ops c1) = (Inr j, c2)"
  shows "j = i"
proof -
  from local_device_id_stored [OF assms(1,2)] obtain v where
    v: "find_row fst ''device_id'' (ld_metadata (lc_db c1)) = Some (''device_id'', v)" "le_uuid_parse e v = Some (device_uuid i)"
    by blast
  with local_steps_keep_device [of c1 e ops] have
    "find_row fst ''device_id'' (ld_metadata (lc_db (local_steps e ops c1))) = Some (''device_id'', v)"
    by (simp add: device_kept_def)
  with assms(3) v(2) show ?thesis
    by (cases i) (auto simp: local_device_id_def result_simps select_metadata_def parse_id_def split: option.splits)
qed

definition demo_ops :: "local_op list" where
  "demo_ops = [EnsureProfileOp ''Default'' ''Me'', SetCursorOp ''srv'' 9, SetDefaultProfileOp ''Default'']"

lemma device_identity_stable_witness:
  "\<exists>c1 c2. local_device_id demo_local_env fresh_local = (Inr (DeviceId 7), c1) \<and>
     local_device_id demo_local_env (local_steps demo_local_env demo_ops c1) = (Inr (DeviceId 7), c2)"
proof -
  let ?e = demo_local_env
  obtain c1 where c1: "local_device_id ?e fresh_local = (Inr (DeviceId 7), c1)"
    by (simp add: local_device_id_def bindS_def lsql_def select_metadata_def demo_local_env_def fresh_local_def
        empty_local_db_def tick_def Let_def insert_metadata_def insert_row_def returnS_def)
  moreover obtain j c2 where c2: "local_device_id ?e (local_steps ?e demo_ops c1) = (Inr j, c2)"
  proof -
    have "c1 = snd (local_device_id ?e fresh_local)" using c1 by simp
    then show ?thesis
      by (simp add: that local_device_id_def bindS_def lsql_def select_metadata_def demo_local_env_def fresh_local_def
        empty_local_db_def tick_def Let_def insert_metadata_def insert_row_def returnS_def demo_ops_def ensure_profile_def
        insert_preference_def display_name_check_def code_of_def set_cursor_def int_column_def liftS_def u64_to_i64_def
        i64_max_def upsert_cursor_def upsert_row_def set_default_profile_def ltransaction_def lno_op_def select_preference_def
        find_row_Cons parse_id_def)
  qed
  ultimately show ?thesis using device_identity_stable [OF demo_local_env_ok c1 c2] by blast
qed

section \<open>The default profile\<close>

definition with_default :: "string \<Rightarrow> preference_row list \<Rightarrow> preference_row list" where
  "with_default dir rows = map (\<lambda>r. r\<lparr>pr_is_default := (if pr_directory r = dir then 1 else 0)\<rparr>) rows"

lemma with_default_ok:
  assumes "key_ok pr_directory rows"
  shows "length (filter (\<lambda>r. pr_is_default r = 1) (with_default dir rows)) \<le> 1"
proof -
  have "filter (\<lambda>r. pr_is_default r = 1) (with_default dir rows) =
      map (\<lambda>r. r\<lparr>pr_is_default := 1\<rparr>) (filter (\<lambda>r. pr_directory r = dir) rows)"
    by (induction rows) (auto simp: with_default_def)
  moreover have "length (filter (\<lambda>r. pr_directory r = dir) rows) \<le> 1"
    using assms by (induction rows) (auto simp: key_ok_def filter_empty_conv image_iff)
  ultimately show ?thesis by simp
qed

lemma clear_default:
  assumes inv: "local_inv d"
  shows "\<exists>n. update_preferences (\<lambda>r. pr_is_default r = 1) (\<lambda>r. r\<lparr>pr_is_default := 0\<rparr>) d =
    Some (n, d\<lparr>ld_preferences := map (\<lambda>r. r\<lparr>pr_is_default := 0\<rparr>) (ld_preferences d)\<rparr>)"
proof -
  have flags: "pr_is_default r = 0 \<or> pr_is_default r = 1" if "r \<in> set (ld_preferences d)" for r
    using inv that by (auto simp: local_inv_def preference_checks_def)
  then have eq: "map (\<lambda>r. if pr_is_default r = 1 then r\<lparr>pr_is_default := 0\<rparr> else r) (ld_preferences d) =
      map (\<lambda>r. r\<lparr>pr_is_default := 0\<rparr>) (ld_preferences d)"
  proof (intro map_cong refl)
    fix r assume "r \<in> set (ld_preferences d)"
    from flags [OF this] show "(if pr_is_default r = 1 then r\<lparr>pr_is_default := 0\<rparr> else r) = r\<lparr>pr_is_default := 0\<rparr>"
      by (cases r) auto
  qed
  have "\<forall>r \<in> set (ld_preferences d). preference_checks (r\<lparr>pr_is_default := 0\<rparr>)"
    using inv by (auto simp: local_inv_def preference_checks_def)
  moreover have "one_default_profile (map (\<lambda>r. r\<lparr>pr_is_default := 0\<rparr>) rows)" for rows
    by (induction rows) (simp_all add: one_default_profile_def)
  ultimately show ?thesis by (simp add: update_preferences_def update_rows_def eq)
qed

lemma set_one_default:
  assumes inv: "local_inv d"
  shows "\<exists>n. update_preferences (\<lambda>r. pr_directory r = dir) (\<lambda>r. r\<lparr>pr_is_default := 1\<rparr>)
      (d\<lparr>ld_preferences := map (\<lambda>r. r\<lparr>pr_is_default := 0\<rparr>) (ld_preferences d)\<rparr>) =
    Some (n, d\<lparr>ld_preferences := with_default dir (ld_preferences d)\<rparr>)"
proof -
  have eq: "map (\<lambda>r. if pr_directory r = dir then r\<lparr>pr_is_default := 1\<rparr> else r)
      (map (\<lambda>r. r\<lparr>pr_is_default := 0\<rparr>) (ld_preferences d)) = with_default dir (ld_preferences d)"
    by (auto simp: with_default_def)
  have "\<forall>r \<in> set (with_default dir (ld_preferences d)). preference_checks r"
    using inv by (auto simp: local_inv_def preference_checks_def with_default_def)
  moreover have "one_default_profile (with_default dir (ld_preferences d))"
    using with_default_ok inv by (auto simp: one_default_profile_def local_inv_def)
  ultimately show ?thesis
    unfolding update_preferences_def update_rows_def using eq by (simp del: map_map)
qed

lemma default_profile_of:
  assumes "\<And>n. \<not> le_fault e n" and "dir \<in> pr_directory ` set rows" and "ld_preferences (lc_db c) = with_default dir rows"
  shows "\<exists>p c'. default_profile e c = (Inr (Some p), c') \<and> pp_directory p = dir"
proof -
  let ?sorted = "sort_key (\<lambda>r. (nocase (pr_display_name r), pr_directory r)) (with_default dir rows)"
  have "\<exists>r \<in> set ?sorted. pp_is_default (preference_of r)"
    using assms(2) by (auto simp: with_default_def preference_of_def)
  then obtain p where p: "List.find pp_is_default (map preference_of ?sorted) = Some p"
    by (cases "List.find pp_is_default (map preference_of ?sorted)") (auto simp: find_None_iff)
  then have "p \<in> set (map preference_of ?sorted)" "pp_is_default p"
    unfolding find_Some_iff by (metis nth_mem, blast)
  then have "pp_directory p = dir" by (auto simp: with_default_def preference_of_def split: if_splits)
  with p assms(1,3) show ?thesis
    by (simp add: default_profile_def profile_preferences_def bindS_def lsql_def returnS_def select_preferences_def)
qed

text \<open>Without faults.\<close>

lemma default_profile_set:
  assumes ok: "\<And>n. \<not> le_fault e n" and inv: "local_inv (lc_db c)"
  shows "if dir \<in> pr_directory ` set (ld_preferences (lc_db c))
    then \<exists>c'. set_default_profile e dir c = (Inr (), c') \<and>
      lc_db c' = (lc_db c)\<lparr>ld_preferences := with_default dir (ld_preferences (lc_db c))\<rparr>
    else \<exists>c'. set_default_profile e dir c = (Inl (StateError ''profile is not registered''), c') \<and> lc_db c' = lc_db c"
proof -
  let ?d = "lc_db c"
  obtain n where n: "update_preferences (\<lambda>r. pr_is_default r = 1) (\<lambda>r. r\<lparr>pr_is_default := 0\<rparr>) ?d =
      Some (n, ?d\<lparr>ld_preferences := map (\<lambda>r. r\<lparr>pr_is_default := 0\<rparr>) (ld_preferences ?d)\<rparr>)"
    using clear_default [OF inv] by blast
  obtain m where m: "update_preferences (\<lambda>r. pr_directory r = dir) (\<lambda>r. r\<lparr>pr_is_default := 1\<rparr>)
      (?d\<lparr>ld_preferences := map (\<lambda>r. r\<lparr>pr_is_default := 0\<rparr>) (ld_preferences ?d)\<rparr>) =
      Some (m, ?d\<lparr>ld_preferences := with_default dir (ld_preferences ?d)\<rparr>)"
    using set_one_default [OF inv] by blast
  show ?thesis
  proof (cases "dir \<in> pr_directory ` set (ld_preferences ?d)")
    case True
    then obtain row where "find_row pr_directory dir (ld_preferences ?d) = Some row"
      by (cases "find_row pr_directory dir (ld_preferences ?d)") (auto simp: find_row_None)
    with ok n m True show ?thesis
      by (simp add: set_default_profile_def ltransaction_def lsql_def lno_op_def bindS_def liftS_def returnS_def
          select_preference_def)
  next
    case False
    then have "find_row pr_directory dir (ld_preferences ?d) = None" by (simp add: find_row_None)
    with ok False show ?thesis
      by (simp add: set_default_profile_def ltransaction_def lsql_def lno_op_def bindS_def liftS_def select_preference_def)
  qed
qed

text \<open>A success under faults did what it does without them.\<close>

lemma set_default_profile_Inr:
  assumes inv: "local_inv (lc_db c)" and run: "set_default_profile e dir c = (Inr u, c')"
  shows "dir \<in> pr_directory ` set (ld_preferences (lc_db c))"
    "lc_db c' = (lc_db c)\<lparr>ld_preferences := with_default dir (ld_preferences (lc_db c))\<rparr>"
proof -
  obtain n where n: "update_preferences (\<lambda>r. pr_is_default r = 1) (\<lambda>r. r\<lparr>pr_is_default := 0\<rparr>) (lc_db c) =
      Some (n, (lc_db c)\<lparr>ld_preferences := map (\<lambda>r. r\<lparr>pr_is_default := 0\<rparr>) (ld_preferences (lc_db c))\<rparr>)"
    using clear_default [OF inv] by blast
  obtain m where m: "update_preferences (\<lambda>r. pr_directory r = dir) (\<lambda>r. r\<lparr>pr_is_default := 1\<rparr>)
      ((lc_db c)\<lparr>ld_preferences := map (\<lambda>r. r\<lparr>pr_is_default := 0\<rparr>) (ld_preferences (lc_db c))\<rparr>) =
      Some (m, (lc_db c)\<lparr>ld_preferences := with_default dir (ld_preferences (lc_db c))\<rparr>)"
    using set_one_default [OF inv] by blast
  from run obtain c2 where c2: "bindS (lsql e (select_preference dir)) (\<lambda>row.
        if row = None then liftS (Inl (StateError ''profile is not registered''))
        else bindS (lsql e (update_preferences (\<lambda>r. pr_is_default r = 1) (\<lambda>r. r\<lparr>pr_is_default := 0\<rparr>))) (\<lambda>_.
             bindS (lsql e (update_preferences (\<lambda>r. pr_directory r = dir) (\<lambda>r. r\<lparr>pr_is_default := 1\<rparr>))) (\<lambda>_.
             returnS ()))) (c\<lparr>lc_tick := Suc (lc_tick c)\<rparr>) = (Inr u, c2)" "lc_db c' = lc_db c2"
    unfolding set_default_profile_def by (auto dest: ltransaction_Inr)
  have "find_row pr_directory dir (ld_preferences (lc_db c)) \<noteq> None"
    using c2(1) by (auto simp: result_simps select_preference_def split: if_splits)
  then show "dir \<in> pr_directory ` set (ld_preferences (lc_db c))" by (simp add: find_row_None)
  show "lc_db c' = (lc_db c)\<lparr>ld_preferences := with_default dir (ld_preferences (lc_db c))\<rparr>"
    unfolding c2(2) using c2(1) n m by (auto simp: result_simps select_preference_def split: if_splits)
qed

lemma set_default_profile_cases:
  assumes inv: "local_inv (lc_db c)" and run: "set_default_profile e dir c = (r, c')"
  shows "case r of
      Inr u \<Rightarrow> dir \<in> pr_directory ` set (ld_preferences (lc_db c))
        \<and> lc_db c' = (lc_db c)\<lparr>ld_preferences := with_default dir (ld_preferences (lc_db c))\<rparr>
        \<and> (\<forall>e'. (\<forall>n. \<not> le_fault e' n) \<longrightarrow> (\<exists>p c''. default_profile e' c' = (Inr (Some p), c'') \<and> pp_directory p = dir))
    | Inl x \<Rightarrow> lc_db c' = lc_db c
        \<and> ((\<exists>n. le_fault e n)
           \<or> dir \<notin> pr_directory ` set (ld_preferences (lc_db c)) \<and> x = StateError ''profile is not registered'')"
proof (cases r)
  case (Inr u)
  note success = set_default_profile_Inr [OF inv run [unfolded Inr]]
  from success default_profile_of [of _ dir "ld_preferences (lc_db c)" c'] Inr show ?thesis by simp
next
  case (Inl x)
  have "lc_db c' = lc_db c"
    using run Inl ltransaction_Inl unfolding set_default_profile_def by blast
  moreover have "dir \<notin> pr_directory ` set (ld_preferences (lc_db c)) \<and> x = StateError ''profile is not registered''"
    if "\<forall>n. \<not> le_fault e n"
    using default_profile_set [of e c dir] that inv run Inl by (auto split: if_splits)
  ultimately show ?thesis using Inl by auto
qed

text \<open>C33. Default profile, in any database a client can reach: under any database faults, making a
  profile the default either fails and changes nothing, which it does only for a fault or because
  the profile is not registered; or that profile is from then on the one default and the one
  \<open>default_profile\<close> gives, every other profile's flag is cleared and nothing else has changed.\<close>

theorem default_profile_replaced:
  assumes "c = local_steps e0 ops \<lparr>lc_db = empty_local_db, lc_tick = n\<rparr>"
    and "set_default_profile e dir c = (r, c')"
  shows "case r of
      Inr u \<Rightarrow> dir \<in> pr_directory ` set (ld_preferences (lc_db c))
        \<and> lc_db c' = (lc_db c)\<lparr>ld_preferences := with_default dir (ld_preferences (lc_db c))\<rparr>
        \<and> (\<forall>e'. (\<forall>n. \<not> le_fault e' n) \<longrightarrow> (\<exists>p c''. default_profile e' c' = (Inr (Some p), c'') \<and> pp_directory p = dir))
    | Inl x \<Rightarrow> lc_db c' = lc_db c
        \<and> ((\<exists>n. le_fault e n)
           \<or> dir \<notin> pr_directory ` set (ld_preferences (lc_db c)) \<and> x = StateError ''profile is not registered'')"
proof (rule set_default_profile_cases [OF _ assms(2)])
  show "local_inv (lc_db c)" unfolding assms(1) by (rule local_steps_inv) (simp add: empty_local_inv)
qed

definition quiet_env :: local_env where
  "quiet_env = demo_local_env\<lparr>le_fault := (\<lambda>n. False)\<rparr>"

text \<open>Two profiles are registered and the first is made the default, then the second.\<close>

definition profile_ops :: "local_op list" where
  "profile_ops = [EnsureProfileOp ''Default'' ''Me'', EnsureProfileOp ''Profile 1'' ''Work'', SetDefaultProfileOp ''Default'']"

lemma default_profile_replaced_witness:
  "\<exists>c'. set_default_profile quiet_env ''Profile 1'' (local_steps quiet_env profile_ops fresh_local) = (Inr (), c') \<and>
     map pr_is_default (ld_preferences (lc_db c')) = [0, 1]"
proof -
  let ?c = "local_steps quiet_env profile_ops fresh_local"
  have rows: "map pr_directory (ld_preferences (lc_db ?c)) = [''Default'', ''Profile 1'']"
    by code_simp
  obtain r c' where run: "set_default_profile quiet_env ''Profile 1'' ?c = (r, c')"
    by (cases "set_default_profile quiet_env ''Profile 1'' ?c")
  have "''Profile 1'' \<in> pr_directory ` set (ld_preferences (lc_db ?c))"
    using rows by (simp flip: set_map)
  moreover have "\<not> le_fault quiet_env n" for n by (simp add: quiet_env_def)
  ultimately have "r = Inr ()"
    and "lc_db c' = (lc_db ?c)\<lparr>ld_preferences := with_default ''Profile 1'' (ld_preferences (lc_db ?c))\<rparr>"
    using default_profile_replaced [OF _ run, of quiet_env profile_ops 0] by (auto simp: fresh_local_def split: sum.splits)
  moreover have "map pr_is_default (with_default dir rs) = map (\<lambda>d. if d = dir then 1 else 0) (map pr_directory rs)" for dir rs
    by (simp add: with_default_def)
  ultimately show ?thesis using run rows by (simp del: map_map)
qed

end
