(* ===== verification/Paths.thy ===== *)
theory Paths
  imports Rust_Strings
begin

text \<open>
  \<open>std::path\<close> on Unix, as the code uses it. A \<open>path\<close> is the list of its components (equality,
  \<open>parent\<close>, \<open>join\<close>, \<open>file_name\<close>, \<open>extension\<close> of \<open>Path\<close> are defined on components);
  \<open>path_of\<close> splits a string at \<open>/\<close>, dropping empty parts and every \<open>.\<close> but a leading one.
  The empty path is the path of the empty string.
\<close>

datatype path_comp = RootDir | CurDir | ParentDir | Normal string

type_synonym path = "path_comp list"

fun split_on :: "char \<Rightarrow> string \<Rightarrow> string list" where
  "split_on c [] = [[]]"
| "split_on c (x # xs) =
     (if x = c then [] # split_on c xs
      else (case split_on c xs of [] \<Rightarrow> [[x]] | w # ws \<Rightarrow> (x # w) # ws))"

definition comp_of :: "string \<Rightarrow> path_comp" where
  "comp_of s = (if s = ''..'' then ParentDir else Normal s)"

definition path_of :: "string \<Rightarrow> path" where
  "path_of s =
     (let parts = split_on (CHR ''/'') s;
          body = map comp_of (filter (\<lambda>w. w \<noteq> [] \<and> w \<noteq> ''.'') parts)
      in if starts_with ''/'' s then RootDir # body
         else if hd parts = ''.'' then CurDir # body else body)"

definition is_absolute :: "path \<Rightarrow> bool" where
  "is_absolute p = (case p of RootDir # _ \<Rightarrow> True | _ \<Rightarrow> False)"

definition path_parent :: "path \<Rightarrow> path option" where
  "path_parent p = (if p = [] \<or> last p = RootDir then None else Some (butlast p))"

definition path_join :: "path \<Rightarrow> path \<Rightarrow> path" where
  "path_join p q =
     (if is_absolute q \<or> p = [] then q else p @ dropWhile (\<lambda>c. c = CurDir) q)"

definition file_name :: "path \<Rightarrow> string option" where
  "file_name p =
     (if p = [] then None else case last p of Normal s \<Rightarrow> Some s | _ \<Rightarrow> None)"

text \<open>The part after the last dot of the file name, when something precedes that dot.\<close>

definition path_extension :: "path \<Rightarrow> string option" where
  "path_extension p =
     (case file_name p of
        None \<Rightarrow> None
      | Some s \<Rightarrow>
          (let after = rev (takeWhile (\<lambda>c. c \<noteq> CHR ''.'') (rev s))
           in if length after < length s - 1 then Some after else None))"

lemma split_on_nonempty [simp]: "split_on c s \<noteq> []"
  by (induction s) (auto split: list.split)

lemma split_on_plain: "c \<notin> set s \<Longrightarrow> split_on c s = [s]"
  by (induction s) auto

text \<open>A single name: no separator, not empty, neither \<open>.\<close> nor \<open>..\<close>.\<close>

definition plain_name :: "string \<Rightarrow> bool" where
  "plain_name s \<longleftrightarrow> s \<noteq> [] \<and> CHR ''/'' \<notin> set s \<and> s \<noteq> ''.'' \<and> s \<noteq> ''..''"

lemma path_of_plain: "plain_name s \<Longrightarrow> path_of s = [Normal s]"
  by (auto simp: path_of_def plain_name_def split_on_plain comp_of_def starts_with_iff Let_def)

lemma path_join_name [simp]: "path_join p [Normal s] = p @ [Normal s]"
  by (simp add: path_join_def is_absolute_def)

lemma path_join_names:
  "path_join p (Normal s # q) = p @ Normal s # q"
  by (simp add: path_join_def is_absolute_def)

lemma path_parent_name [simp]: "path_parent (p @ [Normal s]) = Some p"
  by (simp add: path_parent_def)

lemma path_parent_shorter: "path_parent p = Some q \<Longrightarrow> length q < length p"
  by (auto simp: path_parent_def split: if_splits)

section \<open>Operating-system strings\<close>

text \<open>\<open>str::from_utf8\<close>: the byte sequences that are UTF-8, without surrogates, overlong forms
  and values above U+10FFFF.\<close>

definition cont :: "nat \<Rightarrow> bool" where
  "cont b \<longleftrightarrow> 128 \<le> b \<and> b \<le> 191"

fun utf8_ok :: "nat list \<Rightarrow> bool" where
  "utf8_ok [] = True"
| "utf8_ok (b # bs) =
     (if b < 128 then utf8_ok bs
      else if 194 \<le> b \<and> b \<le> 223
      then (case bs of c # r \<Rightarrow> cont c \<and> utf8_ok r | _ \<Rightarrow> False)
      else if 224 \<le> b \<and> b \<le> 239
      then (case bs of
              c # d # r \<Rightarrow> cont c \<and> cont d \<and> (b = 224 \<longrightarrow> 160 \<le> c) \<and> (b = 237 \<longrightarrow> c \<le> 159) \<and> utf8_ok r
            | _ \<Rightarrow> False)
      else if 240 \<le> b \<and> b \<le> 244
      then (case bs of
              c # d # f # r \<Rightarrow>
                cont c \<and> cont d \<and> cont f \<and> (b = 240 \<longrightarrow> 144 \<le> c) \<and> (b = 244 \<longrightarrow> c \<le> 143) \<and> utf8_ok r
            | _ \<Rightarrow> False)
      else False)"

definition valid_utf8 :: "string \<Rightarrow> bool" where
  "valid_utf8 s = utf8_ok (map code_of s)"

lemma utf8_ok_ascii: "(\<forall>b \<in> set bs. b < 128) \<Longrightarrow> utf8_ok bs"
  by (induction bs) auto

end
