(* ===== verification/Files.thy ===== *)
theory Files
  imports Paths
begin

text \<open>
  The file system as \<open>std::fs\<close> shows it to one process, with faults.
  \<^item> A \<open>node\<close> is a regular file with its bytes, a directory with its entries, or a Unix
    domain socket. There are no symbolic links and no other process changes the tree.
  \<^item> Every call that reads or changes a file consumes one tick: the \<open>n\<close>-th call fails when
    \<open>os_fault w n\<close> is \<open>Some k\<close>, and \<open>k\<close> says how far it got (bytes written by \<open>write_all\<close>,
    entries removed by \<open>remove_dir_all\<close>). \<open>exists\<close>, \<open>is_dir\<close> and \<open>is_file\<close> answer false
    when their \<open>stat\<close> fails and have a schedule of their own, \<open>os_blind w\<close>.
  \<^item> The errors the code distinguishes by \<open>ErrorKind\<close> are constructors of \<open>io_error\<close>.
\<close>

section \<open>The tree\<close>

datatype node =
    File bytes
  | Dir "(string \<times> node) list"
  | Socket bool u32 "nat option"

fun entry_at :: "node \<Rightarrow> string list \<Rightarrow> node option" where
  "entry_at n [] = Some n"
| "entry_at (Dir es) (x # xs) = (case map_of es x of None \<Rightarrow> None | Some n \<Rightarrow> entry_at n xs)"
| "entry_at _ (x # xs) = None"

fun put_entry :: "string \<Rightarrow> node \<Rightarrow> (string \<times> node) list \<Rightarrow> (string \<times> node) list" where
  "put_entry x n [] = [(x, n)]"
| "put_entry x n ((y, m) # es) = (if y = x then (x, n) # es else (y, m) # put_entry x n es)"

definition drop_entry :: "string \<Rightarrow> (string \<times> node) list \<Rightarrow> (string \<times> node) list" where
  "drop_entry x es = filter (\<lambda>e. fst e \<noteq> x) es"

text \<open>\<open>set_at t p v\<close> binds the entry at \<open>p\<close> to \<open>v\<close> or removes it; \<open>t\<close> is unchanged when the
  directory of the entry does not exist.\<close>

fun set_at :: "node \<Rightarrow> string list \<Rightarrow> node option \<Rightarrow> node" where
  "set_at t [] v = (case v of None \<Rightarrow> t | Some n \<Rightarrow> n)"
| "set_at (Dir es) [x] v =
     (case v of None \<Rightarrow> Dir (drop_entry x es) | Some n \<Rightarrow> Dir (put_entry x n es))"
| "set_at (Dir es) (x # y # ys) v =
     (case map_of es x of
        None \<Rightarrow> Dir es
      | Some n \<Rightarrow> Dir (put_entry x (set_at n (y # ys) v) es))"
| "set_at t (x # xs) v = t"

fun is_dir_node :: "node option \<Rightarrow> bool" where
  "is_dir_node (Some (Dir es)) = True"
| "is_dir_node _ = False"

fun is_file_node :: "node option \<Rightarrow> bool" where
  "is_file_node (Some (File b)) = True"
| "is_file_node _ = False"

lemma is_dir_node_iff: "is_dir_node v \<longleftrightarrow> (\<exists>es. v = Some (Dir es))"
  by (cases v rule: is_dir_node.cases) auto

lemma is_file_node_iff: "is_file_node v \<longleftrightarrow> (\<exists>b. v = Some (File b))"
  by (cases v rule: is_file_node.cases) auto

lemma map_of_put_entry [simp]: "map_of (put_entry x n es) = (map_of es)(x \<mapsto> n)"
  by (induction x n es rule: put_entry.induct) auto

lemma map_of_drop_entry [simp]: "map_of (drop_entry x es) = (map_of es)(x := None)"
  by (induction es) (auto simp: drop_entry_def)

lemma entry_at_append: "entry_at t (p @ q) = (case entry_at t p of None \<Rightarrow> None | Some n \<Rightarrow> entry_at n q)"
  by (induction t p rule: entry_at.induct) (auto split: option.split)

text \<open>Two places are apart when neither lies below the other.\<close>

definition apart :: "'a list \<Rightarrow> 'a list \<Rightarrow> bool" where
  "apart p q \<longleftrightarrow> (\<forall>r. q \<noteq> p @ r) \<and> (\<forall>r. p \<noteq> q @ r)"

lemma apart_sym: "apart p q \<Longrightarrow> apart q p"
  by (auto simp: apart_def)

lemma apart_Cons [simp]: "apart (x # p) (y # q) \<longleftrightarrow> x \<noteq> y \<or> apart p q"
  by (auto simp: apart_def)

lemma apart_Nil [simp]: "\<not> apart [] q" "\<not> apart p []"
  by (auto simp: apart_def)

lemma apart_code [code]:
  "apart [] q = False" "apart (x # p) [] = False" "apart (x # p) (y # q) = (x \<noteq> y \<or> apart p q)"
  by simp_all

lemma apart_append [simp]: "apart (r @ p) (r @ q) \<longleftrightarrow> apart p q"
  by (auto simp: apart_def)

lemma apart_below: "apart p q \<Longrightarrow> apart (p @ r) q"
  by (induction p q rule: list_induct2') auto

lemma apart_below2: "apart p q \<Longrightarrow> apart p (q @ r)"
  by (metis apart_below apart_sym)

text \<open>A change at one place is seen there and nowhere apart from it.\<close>

lemma entry_at_set_at_apart: "apart p q \<Longrightarrow> entry_at (set_at t p v) q = entry_at t q"
proof (induction t p v arbitrary: q rule: set_at.induct)
  case (2 es x v)
  then show ?case by (cases q) (auto split: option.split)
next
  case (3 es x y ys v)
  then show ?case by (cases q) (auto split: option.split)
qed auto

lemma entry_at_set_at_same:
  assumes "is_dir_node (entry_at t p)"
  shows "entry_at (set_at t (p @ [x]) v) (p @ [x]) = v"
  using assms
proof (induction p arbitrary: t)
  case Nil
  then obtain es where "t = Dir es" by (auto simp: is_dir_node_iff)
  then show ?case by (auto split: option.split)
next
  case (Cons y p)
  then obtain es n where "t = Dir es" "map_of es y = Some n"
    by (cases t) (auto split: option.splits)
  with Cons show ?case by (cases p) auto
qed

lemma entry_at_set_at_below:
  assumes "is_dir_node (entry_at t p)"
  shows "entry_at (set_at t (p @ [x]) v) (p @ [x] @ q) =
    (case v of None \<Rightarrow> None | Some n \<Rightarrow> entry_at n q)"
  using entry_at_set_at_same [OF assms, of x v] entry_at_append [of _ "p @ [x]" q]
  by (simp split: option.split)

text \<open>A directory on the way to the change stays one.\<close>

lemma entry_at_set_at_above:
  assumes "is_dir_node (entry_at t p)"
  shows "is_dir_node (entry_at (set_at t (p @ x # r) v) p)"
  using assms
proof (induction p arbitrary: t)
  case Nil
  then obtain es where "t = Dir es" by (auto simp: is_dir_node_iff)
  then show ?case by (cases r) (auto split: option.split)
next
  case (Cons y p)
  then obtain es n where "t = Dir es" "map_of es y = Some n"
    by (cases t) (auto split: option.splits)
  with Cons show ?case by (cases p) auto
qed

section \<open>System calls\<close>

datatype io_error =
    Os_fault nat
  | No_entry
  | Already_exists
  | Not_a_directory
  | Is_a_directory
  | Directory_not_empty
  | Invalid_input
  | Invalid_data
  | Connection_refused
  | Addr_in_use

record files =
  fs_root :: node
  fs_cwd :: "string list"
  fs_calls :: nat
  fs_stats :: nat

record os =
  os_fault :: "nat \<Rightarrow> nat option"
  os_blind :: "nat \<Rightarrow> bool"

text \<open>Where a path leads: an absolute one from the root, a relative one from the working
  directory; without links \<open>..\<close> is the directory above.\<close>

fun walk :: "string list \<Rightarrow> path \<Rightarrow> string list" where
  "walk at [] = at"
| "walk at (RootDir # p) = walk [] p"
| "walk at (CurDir # p) = walk at p"
| "walk at (ParentDir # p) = walk (butlast at) p"
| "walk at (Normal s # p) = walk (at @ [s]) p"

definition place :: "files \<Rightarrow> path \<Rightarrow> string list" where
  "place s p = walk (fs_cwd s) p"

lemma walk_append: "walk at (p @ q) = walk (walk at p) q"
  by (induction at p rule: walk.induct) auto

lemma place_name [simp]: "place s (p @ [Normal x]) = place s p @ [x]"
  by (simp add: place_def walk_append)

lemma walk_names: "walk at (map Normal xs) = at @ xs"
  by (induction xs arbitrary: at) simp_all

lemma place_names: "place s (p @ map Normal xs) = place s p @ xs"
  by (simp add: place_def walk_append walk_names)

definition node_of :: "files \<Rightarrow> path \<Rightarrow> node option" where
  "node_of s p = (if p = [] then None else entry_at (fs_root s) (place s p))"

text \<open>One call: it fails as scheduled, having done \<open>part k\<close>, or acts on the tree.\<close>

definition sys ::
  "os \<Rightarrow> (files \<Rightarrow> nat \<Rightarrow> node) \<Rightarrow> (files \<Rightarrow> io_error + 'a \<times> node) \<Rightarrow> (files, io_error, 'a) comp" where
  "sys w part act = (\<lambda>s.
     case os_fault w (fs_calls s) of
       Some k \<Rightarrow>
         (Inl (Os_fault (fs_calls s)), s\<lparr>fs_root := part s k, fs_calls := Suc (fs_calls s)\<rparr>)
     | None \<Rightarrow>
         (case act s of
            Inl e \<Rightarrow> (Inl e, s\<lparr>fs_calls := Suc (fs_calls s)\<rparr>)
          | Inr (x, t) \<Rightarrow> (Inr x, s\<lparr>fs_root := t, fs_calls := Suc (fs_calls s)\<rparr>)))"

definition untouched :: "files \<Rightarrow> nat \<Rightarrow> node" where
  "untouched s k = fs_root s"

text \<open>\<open>stat\<close> as \<open>Path::exists\<close>, \<open>is_dir\<close> and \<open>is_file\<close> use it: a failure is an absent path.\<close>

definition stat :: "os \<Rightarrow> path \<Rightarrow> (files, 'e, node option) comp" where
  "stat w p = (\<lambda>s.
     (Inr (if os_blind w (fs_stats s) then None else node_of s p), s\<lparr>fs_stats := Suc (fs_stats s)\<rparr>))"

definition path_exists :: "os \<Rightarrow> path \<Rightarrow> (files, 'e, bool) comp" where
  "path_exists w p = bindS (stat w p) (\<lambda>n. returnS (n \<noteq> None))"

definition path_is_dir :: "os \<Rightarrow> path \<Rightarrow> (files, 'e, bool) comp" where
  "path_is_dir w p = bindS (stat w p) (\<lambda>n. returnS (is_dir_node n))"

definition path_is_file :: "os \<Rightarrow> path \<Rightarrow> (files, 'e, bool) comp" where
  "path_is_file w p = bindS (stat w p) (\<lambda>n. returnS (is_file_node n))"

text \<open>The directory an entry is made in must be there.\<close>

definition entry_check :: "node \<Rightarrow> string list \<Rightarrow> io_error + unit" where
  "entry_check t at =
     (case entry_at t (butlast at) of
        None \<Rightarrow> Inl No_entry
      | Some n \<Rightarrow> if is_dir_node (Some n) then Inr () else Inl Not_a_directory)"

definition mkdir :: "os \<Rightarrow> path \<Rightarrow> (files, io_error, unit) comp" where
  "mkdir w p = sys w untouched (\<lambda>s.
     let t = fs_root s; at = place s p
     in if p = [] then Inl No_entry
        else if entry_at t at \<noteq> None then Inl Already_exists
        else andThen (entry_check t at) (\<lambda>_. Inr ((), set_at t at (Some (Dir [])))))"

definition read_file :: "os \<Rightarrow> path \<Rightarrow> (files, io_error, bytes) comp" where
  "read_file w p = sys w untouched (\<lambda>s.
     case node_of s p of
       None \<Rightarrow> Inl No_entry
     | Some (File b) \<Rightarrow> Inr (b, fs_root s)
     | Some (Dir es) \<Rightarrow> Inl Is_a_directory
     | Some (Socket a m g) \<Rightarrow> Inl Invalid_input)"

definition read_dir :: "os \<Rightarrow> path \<Rightarrow> (files, io_error, (string \<times> node) list) comp" where
  "read_dir w p = sys w untouched (\<lambda>s.
     case node_of s p of
       None \<Rightarrow> Inl No_entry
     | Some (Dir es) \<Rightarrow> Inr (es, fs_root s)
     | Some _ \<Rightarrow> Inl Not_a_directory)"

text \<open>\<open>OpenOptions::create_new\<close>, and \<open>write_all\<close> with \<open>sync_all\<close> on the open file.\<close>

definition create_new :: "os \<Rightarrow> path \<Rightarrow> (files, io_error, unit) comp" where
  "create_new w p = sys w untouched (\<lambda>s.
     let t = fs_root s; at = place s p
     in if p = [] then Inl No_entry
        else if entry_at t at \<noteq> None then Inl Already_exists
        else andThen (entry_check t at) (\<lambda>_. Inr ((), set_at t at (Some (File [])))))"

definition write_open :: "os \<Rightarrow> path \<Rightarrow> bytes \<Rightarrow> (files, io_error, unit) comp" where
  "write_open w p b = sys w
     (\<lambda>s k. set_at (fs_root s) (place s p) (Some (File (take k b))))
     (\<lambda>s. Inr ((), set_at (fs_root s) (place s p) (Some (File b))))"

text \<open>\<open>fs::write\<close> creates the file or truncates it, then writes.\<close>

definition open_truncate :: "os \<Rightarrow> path \<Rightarrow> (files, io_error, unit) comp" where
  "open_truncate w p = sys w untouched (\<lambda>s.
     let t = fs_root s; at = place s p
     in if p = [] then Inl No_entry
        else case entry_at t at of
               Some (Dir es) \<Rightarrow> Inl Is_a_directory
             | Some (Socket a m g) \<Rightarrow> Inl Invalid_input
             | _ \<Rightarrow> andThen (entry_check t at) (\<lambda>_. Inr ((), set_at t at (Some (File [])))))"

definition write_file :: "os \<Rightarrow> path \<Rightarrow> bytes \<Rightarrow> (files, io_error, unit) comp" where
  "write_file w p b = bindS (open_truncate w p) (\<lambda>_. write_open w p b)"

definition remove_file :: "os \<Rightarrow> path \<Rightarrow> (files, io_error, unit) comp" where
  "remove_file w p = sys w untouched (\<lambda>s.
     case node_of s p of
       None \<Rightarrow> Inl No_entry
     | Some (Dir es) \<Rightarrow> Inl Is_a_directory
     | Some _ \<Rightarrow>
         if place s p = [] then Inl Invalid_input
         else Inr ((), set_at (fs_root s) (place s p) None))"

definition remove_dir_all :: "os \<Rightarrow> path \<Rightarrow> (files, io_error, unit) comp" where
  "remove_dir_all w p = sys w
     (\<lambda>s k. case node_of s p of
              Some (Dir es) \<Rightarrow> set_at (fs_root s) (place s p) (Some (Dir (drop k es)))
            | _ \<Rightarrow> fs_root s)
     (\<lambda>s. case node_of s p of
            None \<Rightarrow> Inl No_entry
          | Some (Dir es) \<Rightarrow> Inr ((), set_at (fs_root s) (place s p) None)
          | Some _ \<Rightarrow> Inl Not_a_directory)"

text \<open>\<open>rename(2)\<close>: a file replaces a file, a directory an empty directory.\<close>

definition rename_check :: "node \<Rightarrow> node option \<Rightarrow> io_error + unit" where
  "rename_check old new =
     (case new of
        None \<Rightarrow> Inr ()
      | Some (Dir es) \<Rightarrow>
          if \<not> is_dir_node (Some old) then Inl Is_a_directory
          else if es = [] then Inr () else Inl Directory_not_empty
      | Some _ \<Rightarrow> if is_dir_node (Some old) then Inl Not_a_directory else Inr ())"

definition rename :: "os \<Rightarrow> path \<Rightarrow> path \<Rightarrow> (files, io_error, unit) comp" where
  "rename w p q = sys w untouched (\<lambda>s.
     let t = fs_root s; from = place s p; to = place s q
     in case node_of s p of
          None \<Rightarrow> Inl No_entry
        | Some n \<Rightarrow>
            if q = [] then Inl No_entry
            else if from = to then Inr ((), t)
            else if \<not> apart from to then Inl Invalid_input
            else andThen (entry_check t to) (\<lambda>_.
                 andThen (rename_check n (entry_at t to)) (\<lambda>_.
                 Inr ((), set_at (set_at t from None) to (Some n)))))"

text \<open>Ignoring an error, and turning it into one of the caller's.\<close>

definition attempt :: "('s, 'e, 'a) comp \<Rightarrow> ('s, 'f, 'e + 'a) comp" where
  "attempt m = (\<lambda>s. let (r, s') = m s in (Inr r, s'))"

definition with_err :: "('e \<Rightarrow> 'f) \<Rightarrow> ('s, 'e, 'a) comp \<Rightarrow> ('s, 'f, 'a) comp" where
  "with_err f m = (\<lambda>s. let (r, s') = m s in (map_err f r, s'))"

text \<open>\<open>DirBuilder::create\<close> with \<open>recursive\<close>: make the directory, or first the one above.\<close>

function create_dir_all :: "os \<Rightarrow> path \<Rightarrow> (files, io_error, unit) comp" where
  "create_dir_all w p =
     (if p = [] then returnS ()
      else bindS (attempt (mkdir w p)) (\<lambda>r.
           case r of
             Inr _ \<Rightarrow> returnS ()
           | Inl e \<Rightarrow>
               if e = No_entry
               then (case path_parent p of
                       None \<Rightarrow> liftS (Inl Invalid_input)
                     | Some up \<Rightarrow>
                         bindS (create_dir_all w up) (\<lambda>_.
                         bindS (attempt (mkdir w p)) (\<lambda>r2.
                         case r2 of
                           Inr _ \<Rightarrow> returnS ()
                         | Inl e2 \<Rightarrow> bindS (path_is_dir w p) (\<lambda>d. if d then returnS () else liftS (Inl e2)))))
               else bindS (path_is_dir w p) (\<lambda>d. if d then returnS () else liftS (Inl e))))"
  by pat_completeness auto
termination
  by (relation "measure (\<lambda>(w, p). length p)") (auto dest: path_parent_shorter)

declare create_dir_all.simps [simp del]

section \<open>What calls keep\<close>

lemma entry_check_Inr: "entry_check t at = Inr () \<longleftrightarrow> is_dir_node (entry_at t (butlast at))"
  by (auto simp: entry_check_def split: option.split)

lemma entry_at_parent: "at \<noteq> [] \<Longrightarrow> entry_at t at = Some n \<Longrightarrow> is_dir_node (entry_at t (butlast at))"
proof (induction t at rule: entry_at.induct)
  case (2 es x xs)
  then show ?case by (cases "xs = []") (auto split: option.splits)
qed auto

lemma entry_at_set_at_entry:
  assumes "at \<noteq> []" and "is_dir_node (entry_at t (butlast at))"
  shows "entry_at (set_at t at v) at = v"
  using entry_at_set_at_same [OF assms(2), of "last at" v] assms(1) by simp

lemma entry_at_set_at_exists:
  "entry_at t at = Some n \<Longrightarrow> entry_at (set_at t at (Some m)) at = Some m"
  by (cases "at = []") (auto intro: entry_at_set_at_entry entry_at_parent)

text \<open>A new entry leaves every file and socket as it was.\<close>

lemma entry_at_set_at_new:
  assumes "entry_at t at = None" and "is_dir_node (entry_at t (butlast at))"
    and "entry_at t q = Some n" and "\<not> is_dir_node (Some n)"
  shows "entry_at (set_at t at v) q = Some n"
proof (cases "apart at q")
  case True
  with assms(3) show ?thesis by (simp add: entry_at_set_at_apart)
next
  case False
  then consider r where "q = at @ r" | r where "at = q @ r" by (auto simp: apart_def)
  then have False
  proof cases
    case 1
    with assms(1,3) show False by (simp add: entry_at_append)
  next
    case 2
    with assms(1,3) have "r \<noteq> []" by auto
    with 2 assms(2,3) have "is_dir_node (entry_at n (butlast r))"
      by (simp add: butlast_append entry_at_append)
    with assms(4) show False by (cases n; cases "butlast r") auto
  qed
  then show ?thesis ..
qed

lemma attempt_simps [simp]:
  "attempt m s = (Inr (fst (m s)), snd (m s))"
  by (simp add: attempt_def split_beta)

lemma with_err_simps [simp]: "with_err f m s = (map_err f (fst (m s)), snd (m s))"
  by (simp add: with_err_def split_beta)

lemma keeps_attempt [intro]: "keeps R m \<Longrightarrow> keeps R (attempt m)"
  by (simp add: keeps_def)

lemma keeps_with_err [intro]: "keeps R m \<Longrightarrow> keeps R (with_err f m)"
  by (simp add: keeps_def)

text \<open>A relation between file systems that further calls and checks without effect do not end.\<close>

definition about_tree :: "(files \<Rightarrow> files \<Rightarrow> bool) \<Rightarrow> bool" where
  "about_tree R \<longleftrightarrow> reflp R \<and> transp R
     \<and> (\<forall>s s' c t. R s s' \<longrightarrow>
            R s (s'\<lparr>fs_calls := c\<rparr>) \<and> (fs_stats s' \<le> t \<longrightarrow> R s (s'\<lparr>fs_stats := t\<rparr>)))"

lemma about_treeI:
  assumes "\<And>s. R s s" "\<And>s s' s''. R s s' \<Longrightarrow> R s' s'' \<Longrightarrow> R s s''"
    "\<And>s s' c. R s s' \<Longrightarrow> R s (s'\<lparr>fs_calls := c\<rparr>)"
    "\<And>s s' c. R s s' \<Longrightarrow> fs_stats s' \<le> c \<Longrightarrow> R s (s'\<lparr>fs_stats := c\<rparr>)"
  shows "about_tree R"
  unfolding about_tree_def using assms by (blast intro: reflpI transpI)

lemma about_tree_trans: "about_tree R \<Longrightarrow> transp R"
  by (simp add: about_tree_def)

lemma about_tree_refl: "about_tree R \<Longrightarrow> reflp R"
  by (simp add: about_tree_def)

lemma about_treeD:
  assumes "about_tree R"
  shows "R s s" "R s s' \<Longrightarrow> R s (s'\<lparr>fs_calls := c\<rparr>)"
    "R s s' \<Longrightarrow> fs_stats s' \<le> c \<Longrightarrow> R s (s'\<lparr>fs_stats := c\<rparr>)"
  using assms by (auto simp: about_tree_def elim: reflpE)

text \<open>A relation between what is at one place before and after.\<close>

definition at_place ::
  "string list \<Rightarrow> (node option \<Rightarrow> node option \<Rightarrow> bool) \<Rightarrow> files \<Rightarrow> files \<Rightarrow> bool" where
  "at_place at P s s' \<longleftrightarrow>
     fs_cwd s' = fs_cwd s \<and> P (entry_at (fs_root s) at) (entry_at (fs_root s') at)"

lemma at_place_about_tree: "reflp P \<Longrightarrow> transp P \<Longrightarrow> about_tree (at_place at P)"
  by (rule about_treeI) (auto simp: at_place_def elim: reflpE transpE)

lemma at_place_mono: "at_place at P s s' \<Longrightarrow> (\<And>v v'. P v v' \<Longrightarrow> Q v v') \<Longrightarrow> at_place at Q s s'"
  by (simp add: at_place_def)

lemma keeps_sys:
  assumes "about_tree R" and "\<And>s k. R s (s\<lparr>fs_root := part s k\<rparr>)"
    and "\<And>s x t. act s = Inr (x, t) \<Longrightarrow> R s (s\<lparr>fs_root := t\<rparr>)"
  shows "keeps R (sys w part act)"
  unfolding keeps_def sys_def
  using about_treeD [OF assms(1)] assms(2,3)
  by (auto split: option.split sum.split)

lemma keeps_untouched:
  assumes "about_tree R" and "\<And>s x t. act s = Inr (x, t) \<Longrightarrow> R s (s\<lparr>fs_root := t\<rparr>)"
  shows "keeps R (sys w untouched act)"
  using assms by (auto intro!: keeps_sys simp: untouched_def about_treeD)

lemma keeps_looking:
  assumes "about_tree R" and "\<And>s x t. act s = Inr (x, t) \<Longrightarrow> t = fs_root s"
  shows "keeps R (sys w untouched act)"
proof (rule keeps_untouched [OF assms(1)])
  fix s x t
  assume "act s = Inr (x, t)"
  with assms(2) have "t = fs_root s" by blast
  then show "R s (s\<lparr>fs_root := t\<rparr>)" by (simp add: about_treeD [OF assms(1)])
qed

lemma keeps_stat: "about_tree R \<Longrightarrow> keeps R (stat w p)"
  by (simp add: keeps_def stat_def about_treeD)

lemma keeps_path_tests:
  assumes "about_tree R"
  shows "keeps R (path_exists w p)" "keeps R (path_is_dir w p)" "keeps R (path_is_file w p)"
  unfolding path_exists_def path_is_dir_def path_is_file_def
  using assms by (auto intro!: keeps_stat about_tree_trans about_tree_refl)

lemma sys_Inr:
  "sys w part act s = (Inr x, s') \<longleftrightarrow>
     os_fault w (fs_calls s) = None
     \<and> (\<exists>t. act s = Inr (x, t) \<and> s' = s\<lparr>fs_root := t, fs_calls := Suc (fs_calls s)\<rparr>)"
  by (auto simp: sys_def split: option.splits sum.splits)

lemma sys_Inl:
  "sys w part act s = (Inl e, s') \<longleftrightarrow>
     (\<exists>k. os_fault w (fs_calls s) = Some k \<and> e = Os_fault (fs_calls s)
        \<and> s' = s\<lparr>fs_root := part s k, fs_calls := Suc (fs_calls s)\<rparr>)
     \<or> os_fault w (fs_calls s) = None \<and> act s = Inl e \<and> s' = s\<lparr>fs_calls := Suc (fs_calls s)\<rparr>"
  by (auto simp: sys_def split: option.splits sum.splits)

lemma keeps_mono: "keeps R m \<Longrightarrow> (\<And>s s'. R s s' \<Longrightarrow> Q s s') \<Longrightarrow> keeps Q m"
  by (auto simp: keeps_def)

text \<open>A relation \<open>mkdir\<close> keeps on a path and its ancestors is kept by \<open>create_dir_all\<close>.\<close>

lemma keeps_create_dir_all_in:
  assumes R: "about_tree R" and "P p" and mk: "\<And>p. P p \<Longrightarrow> keeps R (mkdir w p)"
    and up: "\<And>p q. P p \<Longrightarrow> path_parent p = Some q \<Longrightarrow> P q"
  shows "keeps R (create_dir_all w p)"
  using mk \<open>P p\<close>
proof (induction w p rule: create_dir_all.induct)
  case (1 w p)
  note [intro] = about_tree_trans [OF R] about_tree_refl [OF R] keeps_path_tests [OF R]
  have made: "keeps R (mkdir w p)" using "1.prems" by blast
  have tested: "keeps R (bindS (path_is_dir w p) (\<lambda>d. if d then returnS () else liftS (Inl e)))" for e
    by (rule keeps_bindS) auto
  have again: "keeps R (bindS (attempt (mkdir w p)) (\<lambda>r2.
      case r2 of Inr x \<Rightarrow> returnS ()
      | Inl e2 \<Rightarrow> bindS (path_is_dir w p) (\<lambda>d. if d then returnS () else liftS (Inl e2))))"
    by (rule keeps_bindS) (use made tested in \<open>auto split: sum.split\<close>)
  have failed: "keeps R (case path_parent p of None \<Rightarrow> liftS (Inl Invalid_input)
      | Some up \<Rightarrow> bindS (create_dir_all w up) (\<lambda>_. bindS (attempt (mkdir w p)) (\<lambda>r2.
          case r2 of Inr x \<Rightarrow> returnS ()
          | Inl e2 \<Rightarrow> bindS (path_is_dir w p) (\<lambda>d. if d then returnS () else liftS (Inl e2)))))"
    if "p \<noteq> []"
  proof (cases "path_parent p")
    case (Some up)
    have "keeps R (create_dir_all w up)"
      using "1.IH" [OF that refl Some] "1.prems" up [OF "1.prems"(2) Some] by blast
    then show ?thesis
      unfolding Some option.case by (rule keeps_bindS [OF about_tree_trans [OF R] _ again])
  qed auto
  show ?case
  proof (cases "p = []")
    case False
    show ?thesis
      unfolding create_dir_all.simps [of w p] if_not_P [OF False]
    proof (rule keeps_bindS)
      fix r :: "io_error + unit"
      show "keeps R (case r of Inr x \<Rightarrow> returnS ()
        | Inl e \<Rightarrow> if e = No_entry then (case path_parent p of None \<Rightarrow> liftS (Inl Invalid_input)
              | Some up \<Rightarrow> bindS (create_dir_all w up) (\<lambda>_. bindS (attempt (mkdir w p)) (\<lambda>r2.
                  case r2 of Inr x \<Rightarrow> returnS ()
                  | Inl e2 \<Rightarrow> bindS (path_is_dir w p) (\<lambda>d. if d then returnS () else liftS (Inl e2)))))
            else bindS (path_is_dir w p) (\<lambda>d. if d then returnS () else liftS (Inl e)))"
        using failed [OF False] tested by (cases r) auto
    qed (use made in auto)
  qed (auto simp: create_dir_all.simps)
qed

lemma keeps_create_dir_all:
  assumes "about_tree R" and "\<And>p. keeps R (mkdir w p)"
  shows "keeps R (create_dir_all w p)"
  using keeps_create_dir_all_in [OF assms(1), of "\<lambda>p. True"] assms(2) by simp

section \<open>Effects of single calls\<close>

text \<open>A change confined to one place.\<close>

definition only_at :: "string list \<Rightarrow> files \<Rightarrow> files \<Rightarrow> bool" where
  "only_at at s s' \<longleftrightarrow> fs_cwd s' = fs_cwd s
     \<and> (\<forall>q. apart at q \<longrightarrow> entry_at (fs_root s') q = entry_at (fs_root s) q)"

definition same_tree :: "files \<Rightarrow> files \<Rightarrow> bool" where
  "same_tree s s' \<longleftrightarrow> fs_cwd s' = fs_cwd s \<and> fs_root s' = fs_root s"

lemma same_tree_node: "same_tree s s' \<Longrightarrow> node_of s' p = node_of s p"
  by (simp add: same_tree_def node_of_def place_def)

lemma only_at_node: "only_at (place s q) s s' \<Longrightarrow> apart (place s q) (place s p) \<Longrightarrow> node_of s' p = node_of s p"
  by (simp add: only_at_def node_of_def place_def)

lemma same_tree_place: "same_tree s s' \<Longrightarrow> place s' p = place s p"
  by (simp add: same_tree_def place_def)

lemma only_at_place: "only_at at s s' \<Longrightarrow> place s' p = place s p"
  by (simp add: only_at_def place_def)

lemma only_at_set:
  "only_at at s (s\<lparr>fs_root := set_at (fs_root s) at v, fs_calls := c\<rparr>)"
  by (simp add: only_at_def entry_at_set_at_apart)

lemma sys_Inl_tree: "sys w untouched act s = (Inl x, s') \<Longrightarrow> same_tree s s'"
  by (auto simp: sys_Inl untouched_def same_tree_def)

lemma node_of_entry: "p \<noteq> [] \<Longrightarrow> node_of s p = entry_at (fs_root s) (place s p)"
  by (simp add: node_of_def)

lemma node_of_Some: "node_of s p = Some n \<Longrightarrow> p \<noteq> [] \<and> entry_at (fs_root s) (place s p) = Some n"
  by (auto simp: node_of_def split: if_splits)

lemma create_new_Inl: "create_new w p s = (Inl x, s') \<Longrightarrow> same_tree s s'"
  unfolding create_new_def by (rule sys_Inl_tree)

lemma create_new_Inr:
  assumes "create_new w p s = (Inr (), s')"
  shows "node_of s p = None" "node_of s' p = Some (File [])" "only_at (place s p) s s'"
proof -
  from assms have c: "p \<noteq> []" "entry_at (fs_root s) (place s p) = None"
    "entry_check (fs_root s) (place s p) = Inr ()"
    and s': "s' = s\<lparr>fs_root := set_at (fs_root s) (place s p) (Some (File [])), fs_calls := Suc (fs_calls s)\<rparr>"
    by (simp_all add: create_new_def Let_def sys_Inr result_simps split: if_split_asm)
  from c have "place s p \<noteq> []" by auto
  with c show "node_of s p = None" "node_of s' p = Some (File [])" "only_at (place s p) s s'"
    unfolding s' by (simp_all add: node_of_entry only_at_set entry_check_Inr entry_at_set_at_entry place_def)
qed

lemma write_open_effect:
  assumes "write_open w p b s = (r, s')" and "node_of s p = Some n"
  shows "only_at (place s p) s s'" "\<exists>k. node_of s' p = Some (File (take k b))"
    "r = Inr () \<Longrightarrow> node_of s' p = Some (File b)"
proof -
  obtain k where s': "s' = s\<lparr>fs_root := set_at (fs_root s) (place s p) (Some (File (take k b))), fs_calls := Suc (fs_calls s)\<rparr>"
    and r: "r = Inr () \<Longrightarrow> take k b = b"
    using assms(1) unfolding write_open_def sys_def
    by (cases "os_fault w (fs_calls s)") (auto intro: that [of "length b"])
  note n = node_of_Some [OF assms(2)]
  have at: "node_of s' p = Some (File (take k b))"
    using n unfolding s' by (simp add: node_of_entry place_def entry_at_set_at_exists)
  then show "\<exists>k. node_of s' p = Some (File (take k b))" ..
  show "only_at (place s p) s s'" unfolding s' by (rule only_at_set)
  show "r = Inr () \<Longrightarrow> node_of s' p = Some (File b)" using at r by simp
qed

lemma remove_file_effect:
  assumes "remove_file w p s = (r, s')"
  shows "only_at (place s p) s s'" "r \<noteq> Inr () \<Longrightarrow> same_tree s s'" "r = Inr () \<Longrightarrow> node_of s' p = None"
proof -
  have "same_tree s s' \<and> r \<noteq> Inr () \<or> r = Inr () \<and> place s p \<noteq> [] \<and> node_of s p \<noteq> None
      \<and> s' = s\<lparr>fs_root := set_at (fs_root s) (place s p) None, fs_calls := Suc (fs_calls s)\<rparr>"
    using assms unfolding remove_file_def sys_def
    by (cases "os_fault w (fs_calls s)"; cases "node_of s p"; cases "the (node_of s p)"; cases "place s p = []")
      (auto simp: untouched_def same_tree_def)
  then consider "same_tree s s'" "r \<noteq> Inr ()"
    | n where "r = Inr ()" "place s p \<noteq> []" "node_of s p = Some n"
      "s' = s\<lparr>fs_root := set_at (fs_root s) (place s p) None, fs_calls := Suc (fs_calls s)\<rparr>"
    by auto
  then have "only_at (place s p) s s' \<and> (r \<noteq> Inr () \<longrightarrow> same_tree s s') \<and> (r = Inr () \<longrightarrow> node_of s' p = None)"
  proof cases
    case 1
    then show ?thesis by (simp add: only_at_def same_tree_def)
  next
    case 2
    note n = node_of_Some [OF 2(3)]
    have "is_dir_node (entry_at (fs_root s) (butlast (place s p)))"
      using entry_at_parent 2(2) n by blast
    with 2 n show ?thesis
      by (simp add: node_of_entry only_at_set entry_at_set_at_entry place_def)
  qed
  then show "only_at (place s p) s s'" "r \<noteq> Inr () \<Longrightarrow> same_tree s s'" "r = Inr () \<Longrightarrow> node_of s' p = None"
    by blast+
qed

lemma rename_Inl: "rename w p q s = (Inl x, s') \<Longrightarrow> same_tree s s'"
  unfolding rename_def by (rule sys_Inl_tree)

text \<open>The directory a name is moved to is not the one that is moved.\<close>

lemma dir_after_removal:
  assumes "apart from to" and "is_dir_node (entry_at t (butlast to))"
  shows "is_dir_node (entry_at (set_at t from None) (butlast to))"
proof -
  from assms(1) have to: "to = butlast to @ [last to]" by (cases to rule: rev_cases) auto
  consider "apart from (butlast to)" | r where "butlast to = from @ r"
    | x r where "from = butlast to @ x # r"
    by (auto simp: apart_def neq_Nil_conv) (metis append_Nil2 list.exhaust)
  then show ?thesis
  proof cases
    case 1
    with assms(2) show ?thesis by (simp add: entry_at_set_at_apart)
  next
    case 2
    with to assms(1) show ?thesis by (metis append_assoc apart_def)
  next
    case 3
    with assms(2) show ?thesis by (simp add: entry_at_set_at_above)
  qed
qed

lemma rename_Inr:
  assumes "rename w p q s = (Inr (), s')" and "apart (place s p) (place s q)"
  obtains n where "node_of s p = Some n" "node_of s' q = Some n" "node_of s' p = None" "fs_cwd s' = fs_cwd s"
    "\<And>r. apart (place s p) (place s r) \<Longrightarrow> apart (place s q) (place s r) \<Longrightarrow> node_of s' r = node_of s r"
proof -
  let ?t = "fs_root s" and ?from = "place s p" and ?to = "place s q"
  from assms(2) have ne: "?from \<noteq> ?to" "?from \<noteq> []" "?to \<noteq> []" by (auto simp: apart_def)
  obtain n where n: "node_of s p = Some n" "q \<noteq> []" "entry_check ?t ?to = Inr ()"
    and s': "s' = s\<lparr>fs_root := set_at (set_at ?t ?from None) ?to (Some n), fs_calls := Suc (fs_calls s)\<rparr>"
    using assms ne(1)
    by (auto simp: rename_def Let_def sys_Inr result_simps split: option.splits if_splits)
  note p = node_of_Some [OF n(1)]
  have "is_dir_node (entry_at (set_at ?t ?from None) (butlast ?to))"
    using dir_after_removal [OF assms(2)] n(3) by (simp add: entry_check_Inr)
  then have "node_of s' q = Some n"
    using n(2) ne(3) unfolding s' by (simp add: node_of_entry place_def entry_at_set_at_entry)
  moreover have "entry_at (set_at ?t ?from None) ?from = None"
    using entry_at_set_at_entry [OF ne(2)] entry_at_parent [OF ne(2)] p by blast
  then have "node_of s' p = None"
    using p apart_sym [OF assms(2)] unfolding s' by (simp add: node_of_entry place_def entry_at_set_at_apart)
  moreover have "node_of s' r = node_of s r" if "apart ?from (place s r)" "apart ?to (place s r)" for r
    using that unfolding s' by (simp add: node_of_def place_def entry_at_set_at_apart)
  ultimately show ?thesis using that [OF n(1)] s' by simp
qed

section \<open>What calls leave alone\<close>

text \<open>From the working directory \<open>cwd\<close>, the entry at \<open>q\<close> stays as it is.\<close>

definition spares :: "string list \<Rightarrow> string list \<Rightarrow> files \<Rightarrow> files \<Rightarrow> bool" where
  "spares cwd q s s' \<longleftrightarrow> fs_cwd s' = fs_cwd s
     \<and> (fs_cwd s = cwd \<longrightarrow> entry_at (fs_root s') q = entry_at (fs_root s) q)"

lemma spares_about_tree: "about_tree (spares cwd q)"
  by (rule about_treeI) (simp_all add: spares_def)

lemma spares_only_at: "only_at at s s' \<Longrightarrow> (fs_cwd s = cwd \<Longrightarrow> apart at q) \<Longrightarrow> spares cwd q s s'"
  by (simp add: only_at_def spares_def)

lemma keeps_spares_set:
  assumes "apart (walk cwd p) q" and "\<And>s k. \<exists>v. part s k = fs_root s \<or> part s k = set_at (fs_root s) (place s p) v"
    and "\<And>s x t. act s = Inr (x, t) \<Longrightarrow> \<exists>v. t = fs_root s \<or> t = set_at (fs_root s) (place s p) v"
  shows "keeps (spares cwd q) (sys w part act)"
proof (rule keeps_sys [OF spares_about_tree])
  have set: "spares cwd q s (s\<lparr>fs_root := t\<rparr>)"
    if "\<exists>v. t = fs_root s \<or> t = set_at (fs_root s) (place s p) v" for s t
    using that assms(1) by (auto simp: spares_def place_def entry_at_set_at_apart)
  show "spares cwd q s (s\<lparr>fs_root := part s k\<rparr>)" for s k
    by (rule set [OF assms(2)])
  show "spares cwd q s (s\<lparr>fs_root := t\<rparr>)" if "act s = Inr (x, t)" for s x t
    by (rule set [OF assms(3) [OF that]])
qed

lemma spares_file_calls:
  assumes "apart (walk cwd p) q"
  shows "keeps (spares cwd q) (create_new w p)" "keeps (spares cwd q) (write_open w p b)"
    "keeps (spares cwd q) (open_truncate w p)" "keeps (spares cwd q) (remove_file w p)"
    "keeps (spares cwd q) (remove_dir_all w p)"
  unfolding create_new_def write_open_def open_truncate_def remove_file_def remove_dir_all_def
  by (rule keeps_spares_set [OF assms];
      auto simp: untouched_def Let_def result_simps split: option.split node.split option.splits node.splits if_splits)+

lemma spares_write_file: "apart (walk cwd p) q \<Longrightarrow> keeps (spares cwd q) (write_file w p b)"
  unfolding write_file_def
  by (intro keeps_bindS spares_file_calls about_tree_trans spares_about_tree)

text \<open>Reading.\<close>

lemma keeps_reads:
  assumes "about_tree R"
  shows "keeps R (read_file w p)" "keeps R (read_dir w p)"
  unfolding read_file_def read_dir_def
  by (rule keeps_looking [OF assms]; auto split: option.splits node.splits)+

text \<open>A new directory does not change what is not on the way to it.\<close>

definition clear_of :: "string list \<Rightarrow> string list \<Rightarrow> path \<Rightarrow> bool" where
  "clear_of cwd q p \<longleftrightarrow> (\<forall>a b. p = a @ b \<longrightarrow> a \<noteq> [] \<longrightarrow> (\<forall>t. walk cwd a \<noteq> q @ t))"

lemma clear_of_parent: "clear_of cwd q p \<Longrightarrow> path_parent p = Some up \<Longrightarrow> clear_of cwd q up"
proof -
  assume "clear_of cwd q p" "path_parent p = Some up"
  moreover then have "p = up @ [last p]" by (auto simp: path_parent_def split: if_splits)
  ultimately show "clear_of cwd q up" unfolding clear_of_def by (metis append_assoc)
qed

lemma spares_mkdir:
  assumes "clear_of cwd q p"
  shows "keeps (spares cwd q) (mkdir w p)"
  unfolding mkdir_def
proof (rule keeps_untouched [OF spares_about_tree])
  fix s x t
  let ?at = "place s p"
  assume "(let t = fs_root s; at = ?at
     in if p = [] then Inl No_entry
        else if entry_at t at \<noteq> None then Inl Already_exists
        else andThen (entry_check t at) (\<lambda>_. Inr ((), set_at t at (Some (Dir []))))) = Inr (x, t)"
  then have new: "p \<noteq> []" "entry_at (fs_root s) ?at = None" "is_dir_node (entry_at (fs_root s) (butlast ?at))"
    and t: "t = set_at (fs_root s) ?at (Some (Dir []))"
    by (auto simp: Let_def result_simps entry_check_Inr split: if_splits)
  have "entry_at t q = entry_at (fs_root s) q" if "fs_cwd s = cwd"
  proof -
    have "\<forall>r. ?at \<noteq> q @ r" using assms new(1) that by (auto simp: place_def clear_of_def)
    then consider "apart ?at q" | r where "q = ?at @ r" "r \<noteq> []"
      by (auto simp: apart_def) (metis append_Nil2)
    then show ?thesis
    proof cases
      case 1
      then show ?thesis by (simp add: t entry_at_set_at_apart)
    next
      case 2
      have "?at \<noteq> []" using new(2) by auto
      then have "entry_at t ?at = Some (Dir [])" by (simp add: t entry_at_set_at_entry new(3))
      then have "entry_at t q = None" using 2 by (cases r) (auto simp: entry_at_append)
      moreover have "entry_at (fs_root s) q = None" using 2 new(2) by (simp add: entry_at_append)
      ultimately show ?thesis by simp
    qed
  qed
  then show "spares cwd q s (s\<lparr>fs_root := t\<rparr>)" by (simp add: spares_def)
qed

lemma spares_create_dir_all: "clear_of cwd q p \<Longrightarrow> keeps (spares cwd q) (create_dir_all w p)"
  using keeps_create_dir_all_in [OF spares_about_tree, of "clear_of cwd q"] spares_mkdir clear_of_parent by blast

text \<open>A path without \<open>..\<close> whose root, if any, comes first: its parents lie above it.\<close>

definition downward :: "path \<Rightarrow> bool" where
  "downward p \<longleftrightarrow> ParentDir \<notin> set p \<and> RootDir \<notin> set (tl p)"

lemma downward_names [simp]: "downward (p @ map Normal xs) \<longleftrightarrow> downward p"
  by (cases p; cases xs) (auto simp: downward_def)

lemma downward_name [simp]: "downward (p @ [Normal x]) \<longleftrightarrow> downward p"
  using downward_names [of p "[x]"] by simp

lemma walk_deeper: "ParentDir \<notin> set b \<Longrightarrow> RootDir \<notin> set b \<Longrightarrow> \<exists>r. walk at b = at @ r"
proof (induction b arbitrary: at)
  case (Cons c b)
  then have "\<exists>r. walk at b = at @ r" for at by simp
  with Cons.prems show ?case by (cases c) (auto, metis append_assoc)
qed simp

lemma clear_of_downward:
  assumes "downward p" and "\<And>t. walk cwd p \<noteq> q @ t"
  shows "clear_of cwd q p"
  unfolding clear_of_def
proof (intro allI impI notI)
  fix a b t
  assume p: "p = a @ b" "a \<noteq> []" and a: "walk cwd a = q @ t"
  from p assms(1) have "ParentDir \<notin> set b" "RootDir \<notin> set b" by (cases a; auto simp: downward_def)+
  from walk_deeper [OF this] obtain r where "walk cwd p = q @ t @ r"
    using p(1) a by (metis walk_append append_assoc)
  with assms(2) show False by blast
qed

lemma create_dir_all_elsewhere:
  assumes "create_dir_all w p s = (r, s')" and "downward p" and "\<And>t. place s p \<noteq> q @ t"
  shows "entry_at (fs_root s') q = entry_at (fs_root s) q" "fs_cwd s' = fs_cwd s"
proof -
  have "keeps (spares (fs_cwd s) q) (create_dir_all w p)"
    using assms(2,3) by (auto intro!: spares_create_dir_all clear_of_downward simp: place_def)
  then have "spares (fs_cwd s) q s s'" using assms(1) unfolding keeps_def by (metis snd_conv)
  then show "entry_at (fs_root s') q = entry_at (fs_root s) q" "fs_cwd s' = fs_cwd s"
    by (simp_all add: spares_def)
qed

lemma remove_dir_all_effect:
  assumes "remove_dir_all w p s = (r, s')" and "place s p \<noteq> []"
  shows "only_at (place s p) s s'" "r = Inr () \<Longrightarrow> node_of s' p = None"
proof -
  consider (none) "\<forall>es. node_of s p \<noteq> Some (Dir es)" "fs_root s' = fs_root s" "fs_cwd s' = fs_cwd s" "r \<noteq> Inr ()"
    | (part) es k where "node_of s p = Some (Dir es)" "r \<noteq> Inr ()"
      "s' = s\<lparr>fs_root := set_at (fs_root s) (place s p) (Some (Dir (drop k es))), fs_calls := Suc (fs_calls s)\<rparr>"
    | (gone) es where "node_of s p = Some (Dir es)" "r = Inr ()"
      "s' = s\<lparr>fs_root := set_at (fs_root s) (place s p) None, fs_calls := Suc (fs_calls s)\<rparr>"
    using assms(1) unfolding remove_dir_all_def sys_def
    by (cases "os_fault w (fs_calls s)"; cases "node_of s p"; cases "the (node_of s p)") auto
  then have "only_at (place s p) s s' \<and> (r = Inr () \<longrightarrow> node_of s' p = None)"
  proof cases
    case none
    then show ?thesis by (simp add: only_at_def)
  next
    case part
    then show ?thesis by (simp add: only_at_set)
  next
    case (gone es)
    note n = node_of_Some [OF gone(1)]
    have "is_dir_node (entry_at (fs_root s) (butlast (place s p)))"
      using entry_at_parent assms(2) n by blast
    with gone n assms(2) show ?thesis
      by (simp add: only_at_set node_of_entry place_def entry_at_set_at_entry)
  qed
  then show "only_at (place s p) s s'" "r = Inr () \<Longrightarrow> node_of s' p = None" by auto
qed

section \<open>Changes confined to a place\<close>

lemma only_at_refl: "only_at at s s"
  by (simp add: only_at_def)

lemma only_at_trans: "only_at at s s' \<Longrightarrow> only_at at s' s'' \<Longrightarrow> only_at at s s''"
  by (simp add: only_at_def)

lemma same_tree_only_at: "same_tree s s' \<Longrightarrow> only_at at s s'"
  by (simp add: same_tree_def only_at_def)

lemma same_tree_trans: "same_tree s s' \<Longrightarrow> same_tree s' s'' \<Longrightarrow> same_tree s s''"
  by (simp add: same_tree_def)

lemma stat_tree:
  "path_exists w p s = (Inr b, s') \<Longrightarrow>
     same_tree s s' \<and> b = (\<not> os_blind w (fs_stats s) \<and> node_of s p \<noteq> None)"
  "path_is_file w p s = (Inr b, s') \<Longrightarrow>
     same_tree s s' \<and> b = (\<not> os_blind w (fs_stats s) \<and> is_file_node (node_of s p))"
  "path_is_dir w p s = (Inr b, s') \<Longrightarrow>
     same_tree s s' \<and> b = (\<not> os_blind w (fs_stats s) \<and> is_dir_node (node_of s p))"
  by (auto simp: path_exists_def path_is_file_def path_is_dir_def stat_def bindS_def returnS_def same_tree_def split: if_splits)

lemma read_file_tree:
  assumes "read_file w p s = (r, s')"
  shows "same_tree s s'" "r = Inr b \<Longrightarrow> node_of s p = Some (File b)"
proof -
  have "same_tree s s' \<and> (r = Inr b \<longrightarrow> node_of s p = Some (File b))"
    using assms unfolding read_file_def sys_def
    by (cases "os_fault w (fs_calls s)"; cases "node_of s p"; cases "the (node_of s p)")
      (auto simp: untouched_def same_tree_def)
  then show "same_tree s s'" "r = Inr b \<Longrightarrow> node_of s p = Some (File b)" by auto
qed

lemma with_err_run: "with_err f m s = (r, s') \<longleftrightarrow> (\<exists>y. m s = (y, s') \<and> r = map_err f y)"
  by (cases "m s") auto

lemma read_dir_tree:
  assumes "read_dir w p s = (r, s')"
  shows "same_tree s s'" "r = Inr es \<Longrightarrow> node_of s p = Some (Dir es)"
proof -
  have "same_tree s s' \<and> (r = Inr es \<longrightarrow> node_of s p = Some (Dir es))"
    using assms unfolding read_dir_def sys_def
    by (cases "os_fault w (fs_calls s)"; cases "node_of s p"; cases "the (node_of s p)")
      (auto simp: untouched_def same_tree_def)
  then show "same_tree s s'" "r = Inr es \<Longrightarrow> node_of s p = Some (Dir es)" by auto
qed

end
