(* ===== verification/Tls.thy ===== *)
theory Tls
  imports Files
begin

text \<open>
  The server's TLS material (\<open>helium-sync-server/src/tls.rs\<close>): the two PEM files are read, the
  first certificate must be valid X.509 and in date, and the key must belong to it. The PEM,
  X.509 and \<open>rustls\<close> libraries are the fields of \<open>tls_env\<close>; each message is a constructor of
  \<open>tls_fault\<close>.
\<close>

datatype tls_fault =
    Cannot_open_certificate path io_error
  | Certificate_pem string
  | No_certificates
  | Cannot_open_key path io_error
  | Key_pem string
  | No_supported_key
  | Not_x509 string
  | Not_currently_valid
  | Key_algorithm string
  | Keys_differ string
  | Tls_versions string
  | Single_certificate string

record ('cert, 'key) tls_env =
  te_open :: "path \<Rightarrow> io_error + bytes"
  te_certs :: "bytes \<Rightarrow> string + 'cert list"
  te_private_key :: "bytes \<Rightarrow> string + 'key option"
  te_valid_now :: "'cert \<Rightarrow> string + bool"
  te_signing_key :: "'key \<Rightarrow> string + 'key"
  te_keys_match :: "'cert list \<Rightarrow> 'key \<Rightarrow> string + unit"
  te_tls13_only :: "string + unit"
  te_single_cert :: "'cert list \<Rightarrow> 'key \<Rightarrow> string + unit"

definition read_material ::
  "('cert, 'key) tls_env \<Rightarrow> path \<Rightarrow> path \<Rightarrow> tls_fault + 'cert list \<times> 'key" where
  "read_material te cert_path key_path =
     andThen (map_err (Cannot_open_certificate cert_path) (te_open te cert_path)) (\<lambda>cert_file.
     andThen (map_err Certificate_pem (te_certs te cert_file)) (\<lambda>certs.
     if certs = [] then Inl No_certificates
     else
       andThen (map_err (Cannot_open_key key_path) (te_open te key_path)) (\<lambda>key_file.
       andThen (map_err Key_pem (te_private_key te key_file)) (\<lambda>found.
       andThen (ok_or No_supported_key found) (\<lambda>key.
       Inr (certs, key))))))"

definition validate_material ::
  "('cert, 'key) tls_env \<Rightarrow> path \<Rightarrow> path \<Rightarrow> tls_fault + unit" where
  "validate_material te cert_path key_path =
     andThen (read_material te cert_path key_path) (\<lambda>(certs, key).
     andThen (map_err Not_x509 (te_valid_now te (hd certs))) (\<lambda>valid.
     if \<not> valid then Inl Not_currently_valid
     else
       andThen (map_err Key_algorithm (te_signing_key te key)) (\<lambda>signing_key.
       map_err Keys_differ (te_keys_match te certs signing_key))))"

definition load_rustls_config ::
  "('cert, 'key) tls_env \<Rightarrow> path \<Rightarrow> path \<Rightarrow> tls_fault + 'cert list \<times> 'key" where
  "load_rustls_config te cert_path key_path =
     andThen (validate_material te cert_path key_path) (\<lambda>_.
     andThen (read_material te cert_path key_path) (\<lambda>(certs, key).
     andThen (map_err Tls_versions (te_tls13_only te)) (\<lambda>_.
     andThen (map_err Single_certificate (te_single_cert te certs key)) (\<lambda>_.
     Inr (certs, key)))))"

text \<open>A loaded configuration presents the first certificate of the file, in date, with its key.\<close>

lemma load_rustls_config_Inr:
  assumes "load_rustls_config te cert_path key_path = Inr (certs, key)"
  shows "certs \<noteq> [] \<and> te_valid_now te (hd certs) = Inr True
    \<and> (\<exists>signing. te_signing_key te key = Inr signing \<and> te_keys_match te certs signing = Inr ())
    \<and> validate_material te cert_path key_path = Inr ()"
  using assms
  by (auto simp: load_rustls_config_def validate_material_def read_material_def result_simps
      split: if_splits)

end
