(* ===== verification/ServerConf.thy ===== *)
theory ServerConf
  imports Tls
begin

text \<open>
  The server's configuration (\<open>helium-sync-server/src/config.rs\<close>): \<open>ConfigOverrides\<close>,
  the TOML file's records, \<open>ServerConfig::load\<close> and \<open>validate\<close>, and the \<open>Debug\<close> form that
  is logged.
  \<^item> What the code asks its surroundings is the record \<open>conf_env\<close>: environment variables
    (any bytes), files, \<open>exists\<close> and \<open>metadata\<close> of a path (two calls, not assumed to agree),
    the \<open>toml\<close> parser, the standard library's socket addresses, and \<open>tls::validate_material\<close>.
  \<^item> The formatted messages are the constructors of \<open>config_error\<close> with what they report.
\<close>

unbundle bit_operations_syntax

section \<open>Data\<close>

datatype config_fault =
    Bad_listen string
  | Bad_mode_text string
  | Bad_token
  | Bad_socket_mode
  | Path_required string
  | Not_readable string path io_error
  | Not_a_file string path
  | No_existing_parent string path
  | Cannot_inspect string path io_error
  | Not_writable string path
  | Tls_material tls_fault
  | Refuse_to_replace path
  | Socket_active path
  | Group_unresolved string
  | Group_missing string
  | Group_not_set string

datatype config_error =
    Conf_read path io_error
  | Conf_parse path string
  | Conf_invalid config_fault

record 'addr config_overrides =
  ov_config :: "path option"
  ov_listen :: "'addr option"
  ov_unix_socket :: "path option"
  ov_unix_socket_group :: "string option"
  ov_data_dir :: "path option"
  ov_tls_certificate :: "path option"
  ov_tls_private_key :: "path option"
  ov_database :: "path option"
  ov_log_level :: "string option"
  ov_token_file :: "path option"

record 'addr server_config =
  sc_listen :: 'addr
  sc_unix_socket :: path
  sc_unix_socket_mode :: u32
  sc_unix_socket_group :: "string option"
  sc_data_dir :: path
  sc_tls_certificate :: path
  sc_tls_private_key :: path
  sc_token :: string
  sc_database :: path
  sc_log_level :: string

record file_server =
  fsv_listen :: "string option"
  fsv_unix_socket :: "path option"
  fsv_unix_socket_mode :: "string option"
  fsv_unix_socket_group :: "string option"
  fsv_data_dir :: "path option"

record file_tls =
  ftl_certificate :: "path option"
  ftl_private_key :: "path option"

record file_auth =
  fau_token :: "string option"

record file_storage =
  fst_database :: "path option"

record file_logging =
  flo_level :: "string option"

record file_config =
  fc_server :: "file_server option"
  fc_tls :: "file_tls option"
  fc_auth :: "file_auth option"
  fc_storage :: "file_storage option"
  fc_logging :: "file_logging option"

definition no_file :: file_config where
  "no_file = \<lparr>fc_server = None, fc_tls = None, fc_auth = None, fc_storage = None, fc_logging = None\<rparr>"

definition file_server_of :: "file_config \<Rightarrow> file_server" where
  "file_server_of f = (case fc_server f of Some x \<Rightarrow> x
     | None \<Rightarrow> \<lparr>fsv_listen = None, fsv_unix_socket = None, fsv_unix_socket_mode = None,
                fsv_unix_socket_group = None, fsv_data_dir = None\<rparr>)"

definition file_tls_of :: "file_config \<Rightarrow> file_tls" where
  "file_tls_of f = (case fc_tls f of Some x \<Rightarrow> x
     | None \<Rightarrow> \<lparr>ftl_certificate = None, ftl_private_key = None\<rparr>)"

definition file_token_of :: "file_config \<Rightarrow> string option" where
  "file_token_of f = (case fc_auth f of Some x \<Rightarrow> fau_token x | None \<Rightarrow> None)"

definition file_database_of :: "file_config \<Rightarrow> path option" where
  "file_database_of f = (case fc_storage f of Some x \<Rightarrow> fst_database x | None \<Rightarrow> None)"

definition file_level_of :: "file_config \<Rightarrow> string option" where
  "file_level_of f = (case fc_logging f of Some x \<Rightarrow> flo_level x | None \<Rightarrow> None)"

record metadata =
  md_is_file :: bool
  md_is_dir :: bool
  md_mode :: u32

text \<open>\<open>Permissions::readonly\<close> on Unix: no write bit is set.\<close>

definition md_readonly :: "metadata \<Rightarrow> bool" where
  "md_readonly m \<longleftrightarrow> md_mode m AND 146 = 0"

record 'addr conf_env =
  ce_var_os :: "string \<Rightarrow> string option"
  ce_read :: "path \<Rightarrow> io_error + string"
  ce_toml :: "string \<Rightarrow> string + file_config"
  ce_parse_addr :: "string \<Rightarrow> 'addr option"
  ce_show_addr :: "'addr \<Rightarrow> string"
  ce_exists :: "path \<Rightarrow> bool"
  ce_metadata :: "path \<Rightarrow> io_error + metadata"
  ce_tls :: "path \<Rightarrow> path \<Rightarrow> tls_fault + unit"

section \<open>Reading the sources\<close>

definition or_else :: "'a option \<Rightarrow> 'a option \<Rightarrow> 'a option" where
  "or_else a b = (case a of Some x \<Rightarrow> Some x | None \<Rightarrow> b)"

definition unwrap_or :: "'a \<Rightarrow> 'a option \<Rightarrow> 'a" where
  "unwrap_or d m = (case m of Some x \<Rightarrow> x | None \<Rightarrow> d)"

text \<open>\<open>env::var(..).ok()\<close> drops a value that is not UTF-8.\<close>

definition env_var :: "'addr conf_env \<Rightarrow> string \<Rightarrow> string option" where
  "env_var e name = (case ce_var_os e name of
     None \<Rightarrow> None | Some v \<Rightarrow> if valid_utf8 v then Some v else None)"

definition env_path :: "'addr conf_env \<Rightarrow> string \<Rightarrow> path option" where
  "env_path e name = (case ce_var_os e name of
     None \<Rightarrow> None | Some v \<Rightarrow> if v = [] then None else Some (path_of v))"

definition read_to_string :: "'addr conf_env \<Rightarrow> path \<Rightarrow> io_error + string" where
  "read_to_string e p =
     andThen (ce_read e p) (\<lambda>b. if valid_utf8 b then Inr b else Inl Invalid_data)"

definition read_config_file ::
  "'addr conf_env \<Rightarrow> 'addr config_overrides \<Rightarrow> config_error + file_config" where
  "read_config_file e ov =
     (case or_else (ov_config ov) (env_path e ''HELIUM_SYNC_CONFIG'') of
        Some p \<Rightarrow>
          andThen (map_err (Conf_read p) (read_to_string e p)) (\<lambda>v.
          map_err (Conf_parse p) (ce_toml e v))
      | None \<Rightarrow> Inr no_file)"

definition listen_text :: "'addr conf_env \<Rightarrow> 'addr config_overrides \<Rightarrow> file_config \<Rightarrow> string" where
  "listen_text e ov f =
     unwrap_or ''0.0.0.0:7500''
       (or_else (map_option (ce_show_addr e) (ov_listen ov))
       (or_else (env_var e ''HELIUM_SYNC_LISTEN'') (fsv_listen (file_server_of f))))"

definition config_token ::
  "'addr conf_env \<Rightarrow> 'addr config_overrides \<Rightarrow> file_config \<Rightarrow> config_error + string" where
  "config_token e ov f =
     (case ov_token_file ov of
        Some p \<Rightarrow> andThen (map_err (Conf_read p) (read_to_string e p)) (\<lambda>v. Inr (rust_trim v))
      | None \<Rightarrow> Inr (unwrap_or [] (or_else (env_var e ''HELIUM_SYNC_TOKEN'') (file_token_of f))))"

definition mode_digits :: "string \<Rightarrow> string" where
  "mode_digits text =
     (let ds = unwrap_or (dropWhile (\<lambda>c. c = CHR ''0'') text) (strip_prefix ''0o'' text)
      in if ds = [] then ''0'' else ds)"

definition socket_mode_of :: "string \<Rightarrow> config_error + u32" where
  "socket_mode_of text =
     (case parse_unsigned 8 (2 ^ 32 - 1) (mode_digits text) of
        Some n \<Rightarrow> Inr (of_nat n)
      | None \<Rightarrow> Inl (Conf_invalid (Bad_mode_text text)))"

section \<open>Validation\<close>

definition validate_file :: "'addr conf_env \<Rightarrow> path \<Rightarrow> string \<Rightarrow> config_error + unit" where
  "validate_file e p label =
     (if p = [] then Inl (Conf_invalid (Path_required label))
      else andThen (map_err (\<lambda>x. Conf_invalid (Not_readable label p x)) (ce_metadata e p)) (\<lambda>m.
           if md_is_file m then Inr () else Inl (Conf_invalid (Not_a_file label p))))"

text \<open>The loop of \<open>validate_parent\<close>: up to the first directory that exists.\<close>

function existing_ancestor :: "(path \<Rightarrow> bool) \<Rightarrow> path \<Rightarrow> path option" where
  "existing_ancestor ex p =
     (if ex p then Some p
      else case path_parent p of None \<Rightarrow> None | Some q \<Rightarrow> existing_ancestor ex q)"
  by pat_completeness auto
termination
  by (relation "measure (\<lambda>(ex, p). length p)") (auto dest: path_parent_shorter)

declare existing_ancestor.simps [simp del]

definition parent_start :: "path \<Rightarrow> path" where
  "parent_start p = (if path_extension p \<noteq> None then unwrap_or [CurDir] (path_parent p) else p)"

definition validate_parent :: "'addr conf_env \<Rightarrow> path \<Rightarrow> string \<Rightarrow> config_error + unit" where
  "validate_parent e p label =
     (case existing_ancestor (ce_exists e) (parent_start p) of
        None \<Rightarrow> Inl (Conf_invalid (No_existing_parent label p))
      | Some q \<Rightarrow>
          andThen (map_err (\<lambda>x. Conf_invalid (Cannot_inspect label q x)) (ce_metadata e q)) (\<lambda>m.
          if \<not> md_is_dir m \<or> md_readonly m then Inl (Conf_invalid (Not_writable label q))
          else Inr ()))"

definition validate_config :: "'addr conf_env \<Rightarrow> 'addr server_config \<Rightarrow> config_error + unit" where
  "validate_config e c =
     (if length (sc_token c) < 32 \<or> sc_token c = ''replace-me'' then Inl (Conf_invalid Bad_token)
      else if sc_unix_socket_mode c AND NOT 511 \<noteq> 0 \<or> sc_unix_socket_mode c = 0
      then Inl (Conf_invalid Bad_socket_mode)
      else andThen (validate_file e (sc_tls_certificate c) ''TLS certificate'') (\<lambda>_.
           andThen (validate_file e (sc_tls_private_key c) ''TLS private key'') (\<lambda>_.
           andThen (validate_parent e (sc_data_dir c) ''data directory'') (\<lambda>_.
           andThen (validate_parent e (sc_database c) ''database'') (\<lambda>_.
           andThen (validate_parent e (sc_unix_socket c) ''Unix socket'') (\<lambda>_.
           map_err (\<lambda>m. Conf_invalid (Tls_material m))
             (ce_tls e (sc_tls_certificate c) (sc_tls_private_key c))))))))"

section \<open>Loading\<close>

definition config_data_dir :: "'addr conf_env \<Rightarrow> 'addr config_overrides \<Rightarrow> file_config \<Rightarrow> path" where
  "config_data_dir e ov f =
     unwrap_or (path_of ''/var/lib/helium-sync'')
       (or_else (ov_data_dir ov)
       (or_else (env_path e ''HELIUM_SYNC_DATA_DIR'') (fsv_data_dir (file_server_of f))))"

definition load_config ::
  "'addr conf_env \<Rightarrow> 'addr config_overrides \<Rightarrow> config_error + 'addr server_config" where
  "load_config e ov =
     andThen (read_config_file e ov) (\<lambda>f.
     let data_dir = config_data_dir e ov f; listen = listen_text e ov f in
     andThen (ok_or (Conf_invalid (Bad_listen listen)) (ce_parse_addr e listen)) (\<lambda>addr.
     andThen (config_token e ov f) (\<lambda>token.
     andThen (socket_mode_of (unwrap_or ''0660''
                (or_else (env_var e ''HELIUM_SYNC_UNIX_SOCKET_MODE'')
                  (fsv_unix_socket_mode (file_server_of f))))) (\<lambda>mode.
     let c = \<lparr>sc_listen = addr,
              sc_unix_socket =
                unwrap_or (path_of ''/run/helium-sync/server.sock'')
                  (or_else (ov_unix_socket ov)
                  (or_else (env_path e ''HELIUM_SYNC_UNIX_SOCKET'') (fsv_unix_socket (file_server_of f)))),
              sc_unix_socket_mode = mode,
              sc_unix_socket_group =
                or_else (ov_unix_socket_group ov)
                (or_else (env_var e ''HELIUM_SYNC_UNIX_SOCKET_GROUP'')
                  (fsv_unix_socket_group (file_server_of f))),
              sc_data_dir = data_dir,
              sc_tls_certificate =
                unwrap_or [] (or_else (ov_tls_certificate ov)
                (or_else (env_path e ''HELIUM_SYNC_TLS_CERTIFICATE'') (ftl_certificate (file_tls_of f)))),
              sc_tls_private_key =
                unwrap_or [] (or_else (ov_tls_private_key ov)
                (or_else (env_path e ''HELIUM_SYNC_TLS_PRIVATE_KEY'') (ftl_private_key (file_tls_of f)))),
              sc_token = token,
              sc_database =
                unwrap_or (path_join data_dir (path_of ''server.sqlite3''))
                  (or_else (ov_database ov)
                  (or_else (env_path e ''HELIUM_SYNC_DATABASE'') (file_database_of f))),
              sc_log_level =
                unwrap_or ''info'' (or_else (ov_log_level ov)
                (or_else (env_var e ''HELIUM_SYNC_LOG_LEVEL'') (file_level_of f)))\<rparr>
     in andThen (validate_config e c) (\<lambda>_. Inr c)))))"

section \<open>The logged form\<close>

fun show_octal :: "nat \<Rightarrow> string" where
  "show_octal n =
     (if n < 8 then [char_of (48 + n)] else show_octal (n div 8) @ [char_of (48 + n mod 8)])"

declare show_octal.simps [simp del]

text \<open>The format \<open>{:04o}\<close>.\<close>

definition show_mode :: "u32 \<Rightarrow> string" where
  "show_mode m = (let ds = show_octal (unat m) in replicate (4 - length ds) (CHR ''0'') @ ds)"

datatype 'addr debug_value =
    Dbg_addr 'addr
  | Dbg_path path
  | Dbg_plain string
  | Dbg_optional "string option"
  | Dbg_text string

definition debug_config :: "'addr server_config \<Rightarrow> (string \<times> 'addr debug_value) list" where
  "debug_config c =
     [(''listen'', Dbg_addr (sc_listen c)),
      (''unix_socket'', Dbg_path (sc_unix_socket c)),
      (''unix_socket_mode'', Dbg_plain (show_mode (sc_unix_socket_mode c))),
      (''unix_socket_group'', Dbg_optional (sc_unix_socket_group c)),
      (''data_dir'', Dbg_path (sc_data_dir c)),
      (''tls_certificate'', Dbg_path (sc_tls_certificate c)),
      (''tls_private_key'', Dbg_path (sc_tls_private_key c)),
      (''token'', Dbg_text ''[REDACTED]''),
      (''database'', Dbg_path (sc_database c)),
      (''log_level'', Dbg_text (sc_log_level c))]"

end
