(* ===== verification/ServerMain.thy ===== *)
theory ServerMain
  imports ServerConf
begin

text \<open>
  How the server starts and stops (\<open>helium-sync-server/src/lib.rs\<close>): \<open>prepare\<close>, the check of
  the socket path, the two listeners, the socket's mode and group, the two tasks and the
  clean-up, over the file system of \<open>Files\<close> with its faults.
  \<^item> \<open>start_env\<close> holds what the start asks of the network, the TLS library, the group database,
    the database library and the tasks; the tasks' run is a change of the files by anyone.
  \<^item> \<open>sr_started\<close> records, when the tasks are spawned, the node at the socket path, and
    \<open>sr_tcp\<close> whether the TCP listener is held.
\<close>

datatype server_error =
    Serve_config config_error
  | Serve_storage string
  | Serve_io io_error
  | Serve_tls tls_fault
  | Serve_listener string

record server_run =
  sr_files :: files
  sr_tcp :: bool
  sr_started :: "node option list"

record 'addr start_env =
  se_os :: os
  se_conf :: "'addr conf_env"
  se_open_database :: "path \<Rightarrow> (files, string, unit) comp"
  se_load_tls :: "path \<Rightarrow> path \<Rightarrow> tls_fault + unit"
  se_bind_tcp :: "'addr \<Rightarrow> io_error + unit"
  se_set_nonblocking :: "io_error + unit"
  se_from_tcp :: "io_error + unit"
  se_bind_mode :: u32
  se_group :: "string \<Rightarrow> string + nat option"
  se_session :: "files \<Rightarrow> files"
  se_signal :: "io_error + unit"
  se_tcp_join :: "string + (string + unit)"
  se_unix_join :: "string + (io_error + unit)"

type_synonym 'a starting = "(server_run, server_error, 'a) comp"

definition on_files :: "(files, 'e, 'a) comp \<Rightarrow> (server_run, 'e, 'a) comp" where
  "on_files m = (\<lambda>r. let (x, f) = m (sr_files r) in (x, r\<lparr>sr_files := f\<rparr>))"

definition io :: "(files, io_error, 'a) comp \<Rightarrow> 'a starting" where
  "io m = on_files (with_err Serve_io m)"

section \<open>Sockets as files\<close>

text \<open>\<open>symlink_metadata\<close>: the node, or why there is none.\<close>

definition symlink_metadata :: "os \<Rightarrow> path \<Rightarrow> (files, io_error, node) comp" where
  "symlink_metadata w p = sys w untouched (\<lambda>s.
     case node_of s p of None \<Rightarrow> Inl No_entry | Some n \<Rightarrow> Inr (n, fs_root s))"

fun is_socket :: "node \<Rightarrow> bool" where
  "is_socket (Socket active mode owner) = True"
| "is_socket _ = False"

definition connect_unix :: "os \<Rightarrow> path \<Rightarrow> (files, io_error, unit) comp" where
  "connect_unix w p = sys w untouched (\<lambda>s.
     case node_of s p of
       None \<Rightarrow> Inl No_entry
     | Some (Socket active mode owner) \<Rightarrow> if active then Inr ((), fs_root s) else Inl Connection_refused
     | Some _ \<Rightarrow> Inl Connection_refused)"

text \<open>\<open>UnixListener::bind\<close> makes the socket file and then listens; it may fail in between.\<close>

definition bind_unix :: "os \<Rightarrow> u32 \<Rightarrow> path \<Rightarrow> (files, io_error, unit) comp" where
  "bind_unix w mode p =
     (let free = (\<lambda>s. p \<noteq> [] \<and> entry_at (fs_root s) (place s p) = None
                   \<and> entry_check (fs_root s) (place s p) = Inr ());
          bound = (\<lambda>s active. set_at (fs_root s) (place s p) (Some (Socket active mode None)))
      in sys w
           (\<lambda>s k. if k \<noteq> 0 \<and> free s then bound s False else fs_root s)
           (\<lambda>s. if free s then Inr ((), bound s True)
                else if p = [] then Inl Invalid_input
                else if entry_at (fs_root s) (place s p) \<noteq> None then Inl Addr_in_use else Inl No_entry))"

text \<open>\<open>chmod\<close>, \<open>chown\<close> and dropping the listener change the socket's node.\<close>

fun socket_node :: "(bool \<Rightarrow> u32 \<Rightarrow> nat option \<Rightarrow> node) \<Rightarrow> node \<Rightarrow> node" where
  "socket_node f (Socket active mode owner) = f active mode owner"
| "socket_node f n = n"

definition change_node :: "path \<Rightarrow> (node \<Rightarrow> node) \<Rightarrow> files \<Rightarrow> node" where
  "change_node p f s =
     (case node_of s p of
        None \<Rightarrow> fs_root s
      | Some n \<Rightarrow> set_at (fs_root s) (place s p) (Some (f n)))"

definition change_socket ::
  "os \<Rightarrow> path \<Rightarrow> (bool \<Rightarrow> u32 \<Rightarrow> nat option \<Rightarrow> node) \<Rightarrow> (files, io_error, unit) comp" where
  "change_socket w p f = sys w untouched (\<lambda>s.
     if node_of s p = None then Inl No_entry else Inr ((), change_node p (socket_node f) s))"

definition set_permissions :: "os \<Rightarrow> path \<Rightarrow> u32 \<Rightarrow> (files, io_error, unit) comp" where
  "set_permissions w p mode = change_socket w p (\<lambda>active old owner. Socket active mode owner)"

definition chown_group :: "os \<Rightarrow> path \<Rightarrow> nat \<Rightarrow> (files, io_error, unit) comp" where
  "chown_group w p gid = change_socket w p (\<lambda>active mode owner. Socket active mode (Some gid))"

definition drop_listener :: "path \<Rightarrow> (files, 'e, unit) comp" where
  "drop_listener p = (\<lambda>s.
     (Inr (), s\<lparr>fs_root := change_node p (socket_node (\<lambda>active. Socket False)) s\<rparr>))"

definition remove_owned_socket :: "os \<Rightarrow> path \<Rightarrow> (files, io_error, unit) comp" where
  "remove_owned_socket w p =
     bindS (attempt (symlink_metadata w p)) (\<lambda>found.
     case found of
       Inr n \<Rightarrow> if is_socket n then remove_file w p else returnS ()
     | Inl No_entry \<Rightarrow> returnS ()
     | Inl e \<Rightarrow> liftS (Inl e))"

section \<open>Starting and stopping\<close>

definition create_parent :: "os \<Rightarrow> path \<Rightarrow> (files, io_error, unit) comp" where
  "create_parent w p = (case path_parent p of None \<Rightarrow> returnS () | Some d \<Rightarrow> create_dir_all w d)"

definition prepare :: "'addr start_env \<Rightarrow> 'addr server_config \<Rightarrow> unit starting" where
  "prepare e c =
     bindS (liftS (map_err Serve_config (validate_config (se_conf e) c))) (\<lambda>_.
     bindS (io (create_dir_all (se_os e) (sc_data_dir c))) (\<lambda>_.
     bindS (io (create_parent (se_os e) (sc_database c))) (\<lambda>_.
     bindS (io (create_parent (se_os e) (sc_unix_socket c))) (\<lambda>_.
     on_files (with_err Serve_storage (se_open_database e (sc_database c)))))))"

text \<open>A path that exists must be a socket nobody listens on; any failure to connect counts as
  nobody listening.\<close>

definition replace_socket :: "'addr start_env \<Rightarrow> path \<Rightarrow> node \<Rightarrow> unit starting" where
  "replace_socket e p n =
     (if \<not> is_socket n then liftS (Inl (Serve_config (Conf_invalid (Refuse_to_replace p))))
      else
        bindS (on_files (attempt (connect_unix (se_os e) p))) (\<lambda>connected.
        case connected of
          Inr _ \<Rightarrow> liftS (Inl (Serve_config (Conf_invalid (Socket_active p))))
        | Inl _ \<Rightarrow> io (remove_file (se_os e) p)))"

definition clear_socket :: "'addr start_env \<Rightarrow> path \<Rightarrow> unit starting" where
  "clear_socket e p =
     bindS (on_files (path_exists (se_os e) p)) (\<lambda>there.
     if there then bindS (io (symlink_metadata (se_os e) p)) (replace_socket e p)
     else returnS ())"

definition bind_tcp_listener :: "'addr start_env \<Rightarrow> 'addr \<Rightarrow> unit starting" where
  "bind_tcp_listener e addr =
     bindS (liftS (map_err Serve_io (se_bind_tcp e addr))) (\<lambda>_.
     bindS (liftS (map_err Serve_io (se_set_nonblocking e))) (\<lambda>_.
     (\<lambda>r. (Inr (), r\<lparr>sr_tcp := True\<rparr>))))"

definition socket_setup :: "'addr start_env \<Rightarrow> 'addr server_config \<Rightarrow> unit starting" where
  "socket_setup e c =
     bindS (io (set_permissions (se_os e) (sc_unix_socket c) (sc_unix_socket_mode c))) (\<lambda>_.
     case sc_unix_socket_group c of
       None \<Rightarrow> returnS ()
     | Some name \<Rightarrow>
         bindS (liftS (map_err (\<lambda>m. Serve_config (Conf_invalid (Group_unresolved name))) (se_group e name))) (\<lambda>found.
         bindS (liftS (ok_or (Serve_config (Conf_invalid (Group_missing name))) found)) (\<lambda>gid.
         on_files (with_err (\<lambda>m. Serve_config (Conf_invalid (Group_not_set name)))
           (chown_group (se_os e) (sc_unix_socket c) gid)))))"

definition spawn_tasks :: "path \<Rightarrow> unit starting" where
  "spawn_tasks p = (\<lambda>r. (Inr (), r\<lparr>sr_started := sr_started r @ [node_of (sr_files r) p]\<rparr>))"

definition run_session :: "'addr start_env \<Rightarrow> unit starting" where
  "run_session e = (\<lambda>r. (map_err Serve_io (se_signal e), r\<lparr>sr_files := se_session e (sr_files r)\<rparr>))"

definition open_tcp :: "'addr start_env \<Rightarrow> 'addr server_config \<Rightarrow> unit starting" where
  "open_tcp e c =
     bindS (prepare e c) (\<lambda>_.
     bindS (liftS (map_err Serve_tls (se_load_tls e (sc_tls_certificate c) (sc_tls_private_key c)))) (\<lambda>_.
     bindS (clear_socket e (sc_unix_socket c)) (\<lambda>_.
     bindS (bind_tcp_listener e (sc_listen c)) (\<lambda>_.
     liftS (map_err Serve_io (se_from_tcp e))))))"

text \<open>From the signal to the removal of the socket.\<close>

definition session_end :: "'addr start_env \<Rightarrow> 'addr server_config \<Rightarrow> unit starting" where
  "session_end e c =
     bindS (run_session e) (\<lambda>_.
     bindS (on_files (drop_listener (sc_unix_socket c))) (\<lambda>_.
     bindS (liftS (map_err Serve_listener (se_tcp_join e))) (\<lambda>tcp_result.
     bindS (liftS (map_err Serve_listener (se_unix_join e))) (\<lambda>unix_result.
     bindS (liftS (map_err Serve_listener tcp_result)) (\<lambda>_.
     bindS (liftS (map_err Serve_io unix_result)) (\<lambda>_.
     io (remove_owned_socket (se_os e) (sc_unix_socket c))))))))"

definition serve :: "'addr start_env \<Rightarrow> 'addr server_config \<Rightarrow> unit starting" where
  "serve e c =
     bindS (open_tcp e c) (\<lambda>_.
     bindS (io (bind_unix (se_os e) (se_bind_mode e) (sc_unix_socket c))) (\<lambda>_.
     bindS (attempt (socket_setup e c)) (\<lambda>set_up.
     case set_up of
       Inl x \<Rightarrow>
         bindS (on_files (drop_listener (sc_unix_socket c))) (\<lambda>_.
         bindS (on_files (attempt (remove_owned_socket (se_os e) (sc_unix_socket c)))) (\<lambda>_.
         liftS (Inl x)))
     | Inr _ \<Rightarrow>
         bindS (spawn_tasks (sc_unix_socket c)) (\<lambda>_. session_end e c))))"

section \<open>The development certificate\<close>

datatype cert_error =
    Cert_io io_error
  | Partial_pair
  | Cert_generation string

text \<open>\<open>generate_dev_cert\<close>; the result says whether a pair was written. \<open>issue\<close> is the
  certificate library.\<close>

definition generate_dev_cert ::
  "os \<Rightarrow> (string list \<Rightarrow> string + bytes \<times> bytes) \<Rightarrow> path \<Rightarrow> string list \<Rightarrow> (files, cert_error, bool) comp" where
  "generate_dev_cert w issue dir hostnames =
     (let cert_path = path_join dir (path_of ''server.crt''); key_path = path_join dir (path_of ''server.key'') in
     bindS (with_err Cert_io (create_dir_all w dir)) (\<lambda>_.
     bindS (path_exists w cert_path) (\<lambda>cert_there.
     bindS (path_exists w key_path) (\<lambda>key_there.
     if cert_there \<and> key_there then returnS False
     else if cert_there \<or> key_there then liftS (Inl Partial_pair)
     else
       bindS (liftS (map_err Cert_generation (issue hostnames))) (\<lambda>(cert, key).
       bindS (with_err Cert_io (write_file w cert_path cert)) (\<lambda>_.
       bindS (with_err Cert_io (write_file w key_path key)) (\<lambda>_.
       returnS True)))))))"

end
