(* ===== verification/ConfProps.thy ===== *)
theory ConfProps
  imports ServerConf
begin

text \<open>
  What an accepted configuration guarantees: \<open>safe_config\<close> states it without the loop and the
  order of the checks, \<open>validate_config_exact\<close> shows that validation decides it, and the octal
  socket mode survives being logged and read back.
\<close>

section \<open>The loop of the parent check\<close>

lemma existing_ancestor_prefix:
  "existing_ancestor ex p = Some q \<Longrightarrow>
     \<exists>n \<le> length p. q = take n p \<and> ex q \<and> (\<forall>m. n < m \<and> m \<le> length p \<longrightarrow> \<not> ex (take m p))"
proof (induction ex p rule: existing_ancestor.induct)
  case (1 ex p)
  show ?case
  proof (cases "ex p")
    case True
    with "1.prems" have "q = p" by (simp add: existing_ancestor.simps [of ex p])
    with True show ?thesis by (intro exI [of _ "length p"]) simp
  next
    case False
    with "1.prems" obtain r where r: "path_parent p = Some r" "existing_ancestor ex r = Some q"
      by (auto simp: existing_ancestor.simps [of ex p] split: option.splits)
    then have p: "r = butlast p" "p \<noteq> []" by (auto simp: path_parent_def split: if_splits)
    from "1.IH" [OF False r] obtain n where n: "n \<le> length r" "q = take n r" "ex q"
      "\<forall>m. n < m \<and> m \<le> length r \<longrightarrow> \<not> ex (take m r)" by blast
    have "\<not> ex (take m p)" if "n < m" "m \<le> length p" for m
    proof (cases "m = length p")
      case True
      with False show ?thesis by simp
    next
      case False
      with that p have "m \<le> length r" "take m p = take m r"
        by (auto simp: butlast_conv_take)
      with n(4) that show ?thesis by simp
    qed
    moreover have "q = take n p" "n \<le> length p"
      using n(1,2) p by (auto simp: butlast_conv_take)
    ultimately show ?thesis using n(3) by blast
  qed
qed

text \<open>On a path with its root first the loop finds the longest existing prefix.\<close>

definition well_formed :: "path \<Rightarrow> bool" where
  "well_formed p \<longleftrightarrow> RootDir \<notin> set (tl p)"

lemma well_formed_butlast: "well_formed p \<Longrightarrow> well_formed (butlast p)"
  by (auto simp: well_formed_def dest: in_set_butlastD simp flip: butlast_tl)

lemma well_formed_parent:
  "well_formed p \<Longrightarrow> path_parent p = (if p = [] \<or> p = [RootDir] then None else Some (butlast p))"
  by (cases p) (auto simp: well_formed_def path_parent_def dest: last_in_set)

lemma existing_ancestor_found:
  assumes "well_formed p" "\<not> ex []" "n \<le> length p" "ex (take n p)"
    "\<forall>m. n < m \<and> m \<le> length p \<longrightarrow> \<not> ex (take m p)"
  shows "existing_ancestor ex p = Some (take n p)"
  using assms
proof (induction ex p rule: existing_ancestor.induct)
  case (1 ex p)
  show ?case
  proof (cases "n = length p")
    case True
    with "1.prems" show ?thesis by (simp add: existing_ancestor.simps [of ex p])
  next
    case False
    with "1.prems"(3) have n: "n \<le> length (butlast p)" by simp
    from "1.prems"(5) False "1.prems"(3) have no: "\<not> ex p" by (metis le_neq_implies_less order_refl take_all)
    have "p \<noteq> [] \<and> p \<noteq> [RootDir]"
      using False "1.prems"(2,3,4) by (cases n) auto
    then have par: "path_parent p = Some (butlast p)"
      using "1.prems"(1) by (auto simp: well_formed_parent)
    have same: "take m (butlast p) = take m p" if "m \<le> length (butlast p)" for m
    proof -
      have "m < length p" using that \<open>p \<noteq> [] \<and> p \<noteq> [RootDir]\<close> by (cases p) (auto split: if_splits)
      then show ?thesis by (simp add: take_butlast)
    qed
    have gap: "\<forall>m. n < m \<and> m \<le> length (butlast p) \<longrightarrow> \<not> ex (take m (butlast p))"
      using "1.prems"(5) same by (metis diff_le_self le_trans length_butlast)
    have "existing_ancestor ex (butlast p) = Some (take n (butlast p))"
      using "1.IH" [OF no par _ _ n _ gap] "1.prems"(1,2,4) same [OF n]
      by (simp add: well_formed_butlast)
    with no par same [OF n] show ?thesis by (simp add: existing_ancestor.simps [of ex p])
  qed
qed

section \<open>The safe configurations\<close>

text \<open>Of the ancestors of a path the longest that exists is a directory with a write bit.\<close>

definition usable_parent :: "'addr conf_env \<Rightarrow> path \<Rightarrow> bool" where
  "usable_parent e p \<longleftrightarrow>
     (\<exists>n \<le> length p. ce_exists e (take n p)
        \<and> (\<forall>m. n < m \<and> m \<le> length p \<longrightarrow> \<not> ce_exists e (take m p))
        \<and> (\<exists>d. ce_metadata e (take n p) = Inr d \<and> md_is_dir d \<and> md_mode d AND 146 \<noteq> 0))"

definition regular_file :: "'addr conf_env \<Rightarrow> path \<Rightarrow> bool" where
  "regular_file e p \<longleftrightarrow> p \<noteq> [] \<and> (\<exists>d. ce_metadata e p = Inr d \<and> md_is_file d)"

definition safe_config :: "'addr conf_env \<Rightarrow> 'addr server_config \<Rightarrow> bool" where
  "safe_config e c \<longleftrightarrow>
     32 \<le> length (sc_token c)
     \<and> 0 < unat (sc_unix_socket_mode c) \<and> unat (sc_unix_socket_mode c) < 8 ^ 3
     \<and> regular_file e (sc_tls_certificate c) \<and> regular_file e (sc_tls_private_key c)
     \<and> usable_parent e (parent_start (sc_data_dir c))
     \<and> usable_parent e (parent_start (sc_database c))
     \<and> usable_parent e (parent_start (sc_unix_socket c))
     \<and> ce_tls e (sc_tls_certificate c) (sc_tls_private_key c) = Inr ()"

lemma permission_bits: "m AND NOT 511 = 0 \<longleftrightarrow> unat (m :: u32) < 512"
proof -
  have "(511 :: u32) = mask 9" by (simp add: mask_eq_exp_minus_1)
  then have "m AND NOT 511 = 0 \<longleftrightarrow> take_bit 9 m = m"
    by (simp add: bit_eq_iff bit_simps) blast
  also have "\<dots> \<longleftrightarrow> unat m < 2 ^ 9"
    by (metis take_bit_nat_eq_self_iff unsigned_take_bit_eq word_unat_eq_iff)
  finally show ?thesis by simp
qed

lemma validate_file_iff: "validate_file e p label = Inr () \<longleftrightarrow> regular_file e p"
  by (auto simp: validate_file_def regular_file_def result_simps split: if_splits)

lemma validate_parent_Inr:
  "validate_parent e p label = Inr () \<longleftrightarrow>
     (\<exists>q. existing_ancestor (ce_exists e) (parent_start p) = Some q
        \<and> (\<exists>d. ce_metadata e q = Inr d \<and> md_is_dir d \<and> md_mode d AND 146 \<noteq> 0))"
  by (auto simp: validate_parent_def result_simps md_readonly_def split: option.splits if_splits)

lemma validate_parent_usable:
  "validate_parent e p label = Inr () \<Longrightarrow> usable_parent e (parent_start p)"
  unfolding validate_parent_Inr usable_parent_def by (metis existing_ancestor_prefix)

lemma usable_parent_validated:
  assumes "usable_parent e (parent_start p)" "well_formed (parent_start p)" "\<not> ce_exists e []"
  shows "validate_parent e p label = Inr ()"
  using assms unfolding validate_parent_Inr usable_parent_def by (metis existing_ancestor_found)

lemma parent_start_well_formed: "well_formed p \<Longrightarrow> well_formed (parent_start p)"
proof -
  have "well_formed [CurDir]" by (simp add: well_formed_def)
  then show "well_formed p \<Longrightarrow> well_formed (parent_start p)"
    by (auto simp: parent_start_def unwrap_or_def path_parent_def well_formed_butlast split: option.split)
qed

lemma andThen_unit: "andThen r (\<lambda>_. s) = Inr y \<longleftrightarrow> r = Inr () \<and> s = Inr y"
  by (cases r) auto

lemma if_Inl_Inr: "(if \<not> b then Inl x else r) = Inr y \<longleftrightarrow> b \<and> r = Inr y"
  by simp

lemma validate_config_Inr:
  "validate_config e c = Inr () \<longleftrightarrow>
     32 \<le> length (sc_token c)
     \<and> 0 < unat (sc_unix_socket_mode c) \<and> unat (sc_unix_socket_mode c) < 512
     \<and> regular_file e (sc_tls_certificate c) \<and> regular_file e (sc_tls_private_key c)
     \<and> validate_parent e (sc_data_dir c) ''data directory'' = Inr ()
     \<and> validate_parent e (sc_database c) ''database'' = Inr ()
     \<and> validate_parent e (sc_unix_socket c) ''Unix socket'' = Inr ()
     \<and> ce_tls e (sc_tls_certificate c) (sc_tls_private_key c) = Inr ()"
proof -
  have token: "length (sc_token c) < 32 \<or> sc_token c = ''replace-me'' \<longleftrightarrow> \<not> 32 \<le> length (sc_token c)"
    by auto
  have mode: "m AND NOT 511 \<noteq> 0 \<or> m = 0 \<longleftrightarrow> \<not> (0 < unat m \<and> unat m < 512)" for m :: u32
    by (simp only: permission_bits) (simp add: unat_gt_0 disj_commute)
  have last: "map_err (\<lambda>m. Conf_invalid (Tls_material m)) r = Inr () \<longleftrightarrow> r = Inr ()" for r
    by (simp add: result_simps)
  show ?thesis
    unfolding validate_config_def token mode
    by (simp only: if_Inl_Inr andThen_unit validate_file_iff last conj_assoc simp_thms)
qed

lemma load_config_validated: "load_config e ov = Inr c \<Longrightarrow> validate_config e c = Inr ()"
  by (auto simp: load_config_def result_simps Let_def)

definition well_formed_config :: "'addr server_config \<Rightarrow> bool" where
  "well_formed_config c \<longleftrightarrow>
     well_formed (sc_data_dir c) \<and> well_formed (sc_database c) \<and> well_formed (sc_unix_socket c)"

text \<open>C18. Validation accepts a configuration exactly when it is safe: a token of at least 32
  bytes, a socket mode from 0001 to 0777, a certificate and a key that are regular files and
  pass the TLS check, and data directory, database and socket whose longest existing ancestor
  is a directory with a write bit. Whatever the sources, \<open>load\<close> returns only safe ones.\<close>

theorem configuration_checked:
  assumes "\<not> ce_exists e []" and "well_formed_config c"
  shows "(validate_config e c = Inr () \<longleftrightarrow> safe_config e c)
    \<and> (\<forall>ov c'. load_config e ov = Inr c' \<longrightarrow> safe_config e c')"
proof (intro conjI allI impI)
  have "validate_parent e p l = Inr () \<longleftrightarrow> usable_parent e (parent_start p)" if "well_formed p" for p l
    using that assms(1) validate_parent_usable usable_parent_validated parent_start_well_formed by blast
  with assms(2) show "validate_config e c = Inr () \<longleftrightarrow> safe_config e c"
    by (simp add: validate_config_Inr safe_config_def well_formed_config_def)
next
  fix ov c'
  assume "load_config e ov = Inr c'"
  then have "validate_config e c' = Inr ()" by (rule load_config_validated)
  then show "safe_config e c'"
    unfolding validate_config_Inr safe_config_def by (auto dest: validate_parent_usable)
qed

definition demo_conf_env :: "unit conf_env" where
  "demo_conf_env =
     \<lparr>ce_var_os = (\<lambda>name. if name = ''HELIUM_SYNC_TOKEN'' then Some (replicate 32 (CHR ''x'')) else None),
      ce_read = (\<lambda>p. Inl No_entry), ce_toml = (\<lambda>text. Inl text),
      ce_parse_addr = (\<lambda>text. Some ()), ce_show_addr = (\<lambda>addr. ''0.0.0.0:7500''),
      ce_exists = (\<lambda>p. p = [RootDir] \<or> p = [RootDir, Normal ''tls'']),
      ce_metadata = (\<lambda>p. if p = [RootDir] then Inr \<lparr>md_is_file = False, md_is_dir = True, md_mode = 493\<rparr>
        else if p = [RootDir, Normal ''tls''] then Inr \<lparr>md_is_file = True, md_is_dir = False, md_mode = 384\<rparr>
        else Inl No_entry),
      ce_tls = (\<lambda>c k. Inr ())\<rparr>"

definition demo_conf :: "unit server_config" where
  "demo_conf =
     \<lparr>sc_listen = (), sc_unix_socket = [RootDir, Normal ''run'', Normal ''s.sock''],
      sc_unix_socket_mode = 432, sc_unix_socket_group = None,
      sc_data_dir = [RootDir, Normal ''data''],
      sc_tls_certificate = [RootDir, Normal ''tls''], sc_tls_private_key = [RootDir, Normal ''tls''],
      sc_token = replicate 32 (CHR ''x''), sc_database = [RootDir, Normal ''data'', Normal ''db''],
      sc_log_level = ''info''\<rparr>"

lemma configuration_checked_witness:
  "validate_config demo_conf_env demo_conf = Inr () \<and> safe_config demo_conf_env demo_conf"
proof -
  have "\<not> ce_exists demo_conf_env []" "well_formed_config demo_conf"
    by (simp_all add: demo_conf_env_def demo_conf_def well_formed_config_def well_formed_def)
  note checked = configuration_checked [OF this]
  have accepted: "validate_config demo_conf_env demo_conf = Inr ()"
    unfolding validate_config_Inr
    by (simp add: demo_conf_env_def demo_conf_def regular_file_def validate_parent_def
        parent_start_def existing_ancestor.simps path_parent_def path_extension_def file_name_def
        md_readonly_def unwrap_or_def Let_def)
  with checked show ?thesis by simp
qed

section \<open>The socket mode\<close>

lemma digit_val_octal: "d < 8 \<Longrightarrow> digit_val 8 (char_of (48 + d)) = Some d"
  by (simp add: digit_val_def code_of_def Let_def)

lemma digits_val_octal: "n \<le> bound \<Longrightarrow> digits_val 8 bound 0 (show_octal n) = Some n"
proof (induction n rule: show_octal.induct)
  case (1 n)
  show ?case
  proof (cases "n < 8")
    case True
    with "1.prems" show ?thesis by (subst show_octal.simps) (simp add: digit_val_octal)
  next
    case False
    with "1" have "digits_val 8 bound 0 (show_octal (n div 8)) = Some (n div 8)" by simp
    with False "1.prems" show ?thesis
      by (subst show_octal.simps) (simp add: digits_val_append digit_val_octal)
  qed
qed

lemma show_octal_nonempty [simp]: "show_octal n \<noteq> []"
  by (subst show_octal.simps) simp

lemma show_octal_digits: "c \<in> set (show_octal n) \<Longrightarrow> 48 \<le> code_of c \<and> code_of c \<le> 55"
proof (induction n rule: show_octal.induct)
  case (1 n)
  then show ?case by (subst (asm) show_octal.simps) (auto simp: code_of_def split: if_splits)
qed

lemma show_octal_hd: "0 < n \<Longrightarrow> hd (show_octal n) \<noteq> CHR ''0''"
proof (induction n rule: show_octal.induct)
  case (1 n)
  show ?case
  proof (cases "n < 8")
    case True
    have "char_of (48 + n) \<noteq> CHR ''0''"
    proof
      assume "char_of (48 + n) = CHR ''0''"
      then have "of_char (char_of (48 + n) :: char) = (48 :: nat)" by simp
      with True "1.prems" show False by simp
    qed
    with True show ?thesis by (subst show_octal.simps) simp
  next
    case False
    with "1" have "hd (show_octal (n div 8)) \<noteq> CHR ''0''" by simp
    with False show ?thesis by (subst show_octal.simps) simp
  qed
qed

lemma strip_prefix_absent: "x \<in> set p \<Longrightarrow> x \<notin> set s \<Longrightarrow> strip_prefix p s = None"
  by (cases "strip_prefix p s") (auto simp: strip_prefix_Some)

text \<open>Leading zeros are dropped; a lone zero is kept by the fallback.\<close>

lemma mode_digits_zeros: "mode_digits (replicate k (CHR ''0'') @ show_octal n) = show_octal n"
proof (cases "n = 0")
  case True
  have "show_octal 0 = ''0''" by (subst show_octal.simps) (simp add: char_of_def bit_Suc_0_iff)
  moreover have "strip_prefix ''0o'' (replicate k (CHR ''0'') @ ''0'') = None"
    by (intro strip_prefix_absent [of "CHR ''o''"]) simp_all
  moreover have "dropWhile (\<lambda>c. c = CHR ''0'') (replicate k (CHR ''0'') @ ''0'') = []"
    by (induction k) auto
  ultimately show ?thesis using True by (simp add: mode_digits_def unwrap_or_def)
next
  case False
  let ?s = "replicate k (CHR ''0'') @ show_octal n"
  have no_o: "CHR ''o'' \<notin> set ?s"
    using show_octal_digits [of "CHR ''o''" n] by (auto simp: code_of_def)
  then have "strip_prefix ''0o'' ?s = None"
    by (intro strip_prefix_absent [of "CHR ''o''"]) simp_all
  moreover have "dropWhile (\<lambda>c. c = CHR ''0'') ?s = show_octal n"
    using show_octal_hd [of n] False
    by (induction k) (auto simp: dropWhile_eq_self_iff)
  ultimately show ?thesis by (simp add: mode_digits_def unwrap_or_def)
qed

lemma mode_digits_0o: "mode_digits (''0o'' @ show_octal n) = show_octal n"
  unfolding mode_digits_def strip_prefix_append by (simp add: unwrap_or_def)

lemma parse_octal:
  assumes "n \<le> bound"
  shows "parse_unsigned 8 bound (show_octal n) = Some n"
proof -
  have "\<not> starts_with ''+'' (show_octal n)"
    using show_octal_digits [of "CHR ''+''" n] by (auto simp: starts_with_iff code_of_def)
  with assms show ?thesis by (simp add: parse_unsigned_def digits_val_octal)
qed

lemma socket_mode_of_digits:
  assumes "mode_digits text = show_octal (unat m)"
  shows "socket_mode_of text = Inr m"
proof -
  have "unat m < 2 ^ 32" by (rule unsigned_less [THEN less_le_trans]) simp
  then have "unat m \<le> 2 ^ 32 - 1" by linarith
  from parse_octal [OF this] show ?thesis
    unfolding socket_mode_of_def assms by simp
qed

text \<open>A socket mode is read back from its octal text, with any number of leading zeros or
  with the prefix \<open>0o\<close>; so the mode shown in the logged configuration is the configured one,
  and that log line is the same for every token.\<close>

theorem socket_mode_round_trip:
  "socket_mode_of (replicate k (CHR ''0'') @ show_octal (unat m)) = Inr m
   \<and> socket_mode_of (''0o'' @ show_octal (unat m)) = Inr m
   \<and> (\<exists>text. (''unix_socket_mode'', Dbg_plain text) \<in> set (debug_config c)
        \<and> socket_mode_of text = Inr (sc_unix_socket_mode c))
   \<and> debug_config (c\<lparr>sc_token := token\<rparr>) = debug_config c"
proof (intro conjI)
  show "socket_mode_of (replicate k (CHR ''0'') @ show_octal (unat m)) = Inr m"
    by (rule socket_mode_of_digits [OF mode_digits_zeros])
  show "socket_mode_of (''0o'' @ show_octal (unat m)) = Inr m"
    by (rule socket_mode_of_digits [OF mode_digits_0o])
  have "socket_mode_of (show_mode (sc_unix_socket_mode c)) = Inr (sc_unix_socket_mode c)"
    unfolding show_mode_def Let_def by (rule socket_mode_of_digits [OF mode_digits_zeros])
  then show "\<exists>text. (''unix_socket_mode'', Dbg_plain text) \<in> set (debug_config c)
      \<and> socket_mode_of text = Inr (sc_unix_socket_mode c)"
    by (intro exI [of _ "show_mode (sc_unix_socket_mode c)"]) (simp add: debug_config_def)
qed (simp add: debug_config_def)

end
