(* ===== verification/StartProps.thy ===== *)
theory StartProps
  imports ServerMain ConfProps
begin

text \<open>
  What the server does to its socket path, under every fault of the file system: it serves only
  when TCP is bound and the socket has its mode and group, it never replaces a file, and a start
  that fails leaves no live socket behind.
\<close>

section \<open>Making directories\<close>

text \<open>Files and sockets stay, and no live socket appears.\<close>

fun is_socket_node :: "node option \<Rightarrow> bool" where
  "is_socket_node (Some (Socket active mode owner)) = True"
| "is_socket_node v = False"

fun live :: "node option \<Rightarrow> bool" where
  "live (Some (Socket active mode owner)) = active"
| "live v = False"

definition settled :: "node option \<Rightarrow> node option \<Rightarrow> bool" where
  "settled v v' \<longleftrightarrow> (v = None \<or> is_dir_node v \<or> v' = v) \<and> (live v' \<longrightarrow> v' = v)"

lemma settled_about_tree: "about_tree (at_place at settled)"
  by (rule at_place_about_tree) (auto simp: settled_def intro!: reflpI transpI)

lemma is_dir_node_above: "is_dir_node (entry_at t (q @ r)) \<Longrightarrow> is_dir_node (entry_at t q)"
proof (cases r)
  case (Cons x xs)
  assume dir: "is_dir_node (entry_at t (q @ r))"
  then obtain n where n: "entry_at t q = Some n" "is_dir_node (entry_at n r)"
    by (auto simp: entry_at_append split: option.splits)
  with Cons show ?thesis by (cases n) auto
qed simp

lemma entry_at_new_dir:
  assumes "entry_at t at = None" and "is_dir_node (entry_at t (butlast at))"
    and "entry_at (set_at t at (Some (Dir []))) q = Some n" and "\<not> is_dir_node (Some n)"
  shows "entry_at t q = Some n"
proof -
  have at: "at \<noteq> []" using assms(1) by auto
  consider "apart at q" | r where "q = at @ r" | r where "at = q @ r" by (auto simp: apart_def)
  then show ?thesis
  proof cases
    case 1
    with assms(3) show ?thesis by (simp add: entry_at_set_at_apart)
  next
    case 2
    with assms(3) entry_at_set_at_entry [OF at assms(2)] have "entry_at (Dir []) r = Some n"
      by (simp add: entry_at_append)
    with assms(4) show ?thesis by (cases r) auto
  next
    case 3
    show ?thesis
    proof (cases "r = []")
      case True
      with 3 assms(3,4) entry_at_set_at_entry [OF at assms(2)] show ?thesis by auto
    next
      case False
      then obtain x xs where r: "r = x # xs" by (cases r) auto
      with 3 assms(2) have "is_dir_node (entry_at t q)"
        using is_dir_node_above [of t q "butlast r"] by (simp add: butlast_append)
      then have "is_dir_node (entry_at (set_at t at (Some (Dir []))) q)"
        unfolding 3 r by (rule entry_at_set_at_above)
      with assms(3,4) show ?thesis by simp
    qed
  qed
qed

lemma settled_mkdir: "keeps (at_place at settled) (mkdir w p)"
  unfolding mkdir_def
proof (rule keeps_untouched [OF settled_about_tree])
  fix s x t
  assume act: "(let t = fs_root s; at = place s p
     in if p = [] then Inl No_entry
        else if entry_at t at \<noteq> None then Inl Already_exists
        else andThen (entry_check t at) (\<lambda>_. Inr ((), set_at t at (Some (Dir []))))) = Inr (x, t)"
  let ?at = "place s p"
  from act have new: "entry_at (fs_root s) ?at = None" "is_dir_node (entry_at (fs_root s) (butlast ?at))"
    and t: "t = set_at (fs_root s) ?at (Some (Dir []))"
    by (auto simp: Let_def result_simps entry_check_Inr split: if_splits)
  have "settled (entry_at (fs_root s) at) (entry_at t at)"
    unfolding settled_def t
  proof (intro conjI impI)
    show "entry_at (fs_root s) at = None \<or> is_dir_node (entry_at (fs_root s) at)
      \<or> entry_at (set_at (fs_root s) ?at (Some (Dir []))) at = entry_at (fs_root s) at"
      using entry_at_set_at_new [OF new] by (cases "entry_at (fs_root s) at") auto
    assume "live (entry_at (set_at (fs_root s) ?at (Some (Dir []))) at)"
    then show "entry_at (set_at (fs_root s) ?at (Some (Dir []))) at = entry_at (fs_root s) at"
      using entry_at_new_dir [OF new] by (cases "entry_at (set_at (fs_root s) ?at (Some (Dir []))) at" rule: live.cases) auto
  qed
  then show "at_place at settled s (s\<lparr>fs_root := t\<rparr>)"
    by (simp add: at_place_def)
qed

lemma settled_create_dir_all: "keeps (at_place at settled) (create_dir_all w p)"
  by (rule keeps_create_dir_all [OF settled_about_tree settled_mkdir])

section \<open>Up to the TCP listener\<close>

text \<open>Until the socket is bound, what is at its path is kept unless it is a socket that does not
  answer; with \<open>b\<close>, which stands for the absence of faults, every live socket is kept.\<close>

definition guarded :: "bool \<Rightarrow> node option \<Rightarrow> node option \<Rightarrow> bool" where
  "guarded b v v' \<longleftrightarrow>
     (v = None \<or> is_dir_node v \<or> is_socket_node v \<and> \<not> (b \<and> live v) \<or> v' = v) \<and> (live v' \<longrightarrow> v' = v)"

lemma live_socket: "live v \<Longrightarrow> is_socket_node v"
  by (cases v rule: live.cases) auto

lemma guarded_order: "reflp (guarded b)" "transp (guarded b)"
  by (auto simp: guarded_def intro!: reflpI transpI)

lemma guarded_about_tree: "about_tree (at_place at (guarded b))"
  by (rule at_place_about_tree) (rule guarded_order)+

lemma settled_guarded: "at_place at settled s s' \<Longrightarrow> at_place at (guarded b) s s'"
  by (erule at_place_mono) (auto simp: settled_def guarded_def)

definition started_guarded :: "bool \<Rightarrow> path \<Rightarrow> server_run \<Rightarrow> server_run \<Rightarrow> bool" where
  "started_guarded b p r r' \<longleftrightarrow>
     at_place (place (sr_files r) p) (guarded b) (sr_files r) (sr_files r')
     \<and> sr_started r' = sr_started r"

lemma place_cwd: "fs_cwd s' = fs_cwd s \<Longrightarrow> place s' p = place s p"
  by (simp add: place_def)

lemma at_place_same: "at_place at P s s' \<Longrightarrow> place s' p = place s p"
  by (simp add: at_place_def place_def)

lemma started_guarded_order: "reflp (started_guarded b p)" "transp (started_guarded b p)"
proof -
  show "reflp (started_guarded b p)"
    by (simp add: reflp_def started_guarded_def about_treeD [OF guarded_about_tree])
  show "transp (started_guarded b p)"
    unfolding transp_def started_guarded_def
    using transpD [OF about_tree_trans [OF guarded_about_tree]] at_place_same by metis
qed

lemma keeps_on_files:
  "(\<And>at. keeps (at_place at (guarded b)) m) \<Longrightarrow> keeps (started_guarded b p) (on_files m)"
  by (simp add: keeps_def on_files_def started_guarded_def split_beta)

lemma keeps_io: "(\<And>at. keeps (at_place at (guarded b)) m) \<Longrightarrow> keeps (started_guarded b p) (io m)"
  unfolding io_def by (intro keeps_on_files keeps_with_err)

text \<open>Opening the database leaves the socket path alone.\<close>

definition database_apart :: "'addr start_env \<Rightarrow> 'addr server_config \<Rightarrow> bool" where
  "database_apart e c \<longleftrightarrow>
     (\<forall>s. at_place (place s (sc_unix_socket c)) settled s (snd (se_open_database e (sc_database c) s)))"

lemma guarded_open_database:
  assumes "database_apart e c"
  shows "keeps (started_guarded b (sc_unix_socket c))
    (on_files (with_err Serve_storage (se_open_database e (sc_database c))))"
proof -
  have "at_place (place s (sc_unix_socket c)) (guarded b) s (snd (se_open_database e (sc_database c) s))" for s
    using assms by (intro settled_guarded) (simp add: database_apart_def)
  then show ?thesis
    by (simp add: keeps_def on_files_def started_guarded_def split_beta)
qed

lemma guarded_prepare:
  assumes "database_apart e c"
  shows "keeps (started_guarded b (sc_unix_socket c)) (prepare e c)"
proof -
  note order = started_guarded_order [of b "sc_unix_socket c"]
  have dirs: "keeps (started_guarded b (sc_unix_socket c)) (io (create_dir_all w q))" for w q
    by (intro keeps_io keeps_mono [OF settled_create_dir_all settled_guarded])
  have parent: "keeps (started_guarded b (sc_unix_socket c)) (io (create_parent w q))" for w q
  proof (cases "path_parent q")
    case None
    have "keeps (at_place at (guarded b)) (create_parent w q)" for at
      unfolding create_parent_def None option.case by (intro keeps_returnS about_tree_refl guarded_about_tree)
    then show ?thesis by (rule keeps_io)
  qed (simp add: create_parent_def dirs)
  show ?thesis
    unfolding prepare_def
    by (intro keeps_bindS order keeps_liftS dirs parent guarded_open_database assms)
qed

lemma symlink_metadata_Inr:
  "symlink_metadata w p s = (Inr n, s') \<Longrightarrow>
     node_of s p = Some n \<and> fs_root s' = fs_root s \<and> fs_cwd s' = fs_cwd s"
  by (auto simp: symlink_metadata_def sys_Inr split: option.splits)

lemma connect_unix_Inl:
  "connect_unix w p s = (Inl x, s') \<Longrightarrow> fs_root s' = fs_root s \<and> fs_cwd s' = fs_cwd s
     \<and> (os_fault w (fs_calls s) \<noteq> None \<or> \<not> live (node_of s p))"
  by (cases "os_fault w (fs_calls s)"; cases "node_of s p" rule: live.cases)
    (auto simp: connect_unix_def sys_def untouched_def split: if_splits)

lemma remove_file_cases:
  "remove_file w p s = (r, s') \<Longrightarrow> fs_cwd s' = fs_cwd s
     \<and> (fs_root s' = fs_root s \<and> r \<noteq> Inr ()
        \<or> r = Inr () \<and> place s p \<noteq> [] \<and> fs_root s' = set_at (fs_root s) (place s p) None)"
  by (cases "os_fault w (fs_calls s)"; cases "node_of s p" rule: live.cases; cases "place s p = []")
    (auto simp: remove_file_def sys_def untouched_def)

lemma bindS_step:
  assumes "transp R" "R r (snd (m r))" "\<And>x r'. m r = (Inr x, r') \<Longrightarrow> R r' (snd (f x r'))"
  shows "R r (snd (bindS m f r))"
proof (cases "m r")
  case (Pair y r')
  show ?thesis
  proof (cases y)
    case (Inl e)
    with assms(2) Pair show ?thesis by (simp add: bindS_def)
  next
    case (Inr x)
    with assms(2) Pair have "R r r'" by simp
    moreover from Pair Inr assms(3) have "R r' (snd (f x r'))" by simp
    ultimately have "R r (snd (f x r'))" by (rule transpD [OF assms(1)])
    with Pair Inr show ?thesis by (simp add: bindS_def)
  qed
qed

lemma on_files_Inr: "on_files m r = (Inr x, r') \<longleftrightarrow> (\<exists>f. m (sr_files r) = (Inr x, f) \<and> r' = r\<lparr>sr_files := f\<rparr>)"
  by (auto simp: on_files_def split: prod.splits)

lemma with_err_Inr: "with_err g m s = (Inr x, s') \<longleftrightarrow> m s = (Inr x, s')"
  by (cases "m s") (auto simp: result_simps)

lemma io_Inr: "io m r = (Inr x, r') \<longleftrightarrow> (\<exists>f. m (sr_files r) = (Inr x, f) \<and> r' = r\<lparr>sr_files := f\<rparr>)"
  unfolding io_def on_files_Inr with_err_Inr ..

lemma looking_keeps:
  "keeps (at_place at (guarded b)) (symlink_metadata w p)"
  "keeps (at_place at (guarded b)) (connect_unix w p)"
  unfolding symlink_metadata_def connect_unix_def
  by (auto intro!: keeps_looking [OF guarded_about_tree] split: option.splits node.splits if_splits)

text \<open>Only a socket that does not answer, or whose connection failed, is removed.\<close>

lemma guarded_remove:
  assumes "node_of (sr_files r) p = Some n" "is_socket n" "\<not> (b \<and> live (Some n))"
  shows "started_guarded b p r (snd (io (remove_file w p) r))"
proof -
  obtain x f where f: "remove_file w p (sr_files r) = (x, f)" by (cases "remove_file w p (sr_files r)")
  let ?at = "place (sr_files r) p" and ?t = "fs_root (sr_files r)"
  have n: "entry_at ?t ?at = Some n" using assms(1) by (simp add: node_of_def split: if_splits)
  have gone: "entry_at (set_at ?t ?at None) ?at \<in> {None, Some n}"
    using n entry_at_set_at_entry [of ?at ?t None] entry_at_parent [of ?at ?t n] by (cases "?at = []") auto
  have "is_socket_node (Some n)" using assms(2) by (cases n) auto
  with gone assms(3) n remove_file_cases [OF f] have "at_place ?at (guarded b) (sr_files r) f"
    by (auto simp: at_place_def guarded_def)
  with f show ?thesis by (simp add: io_def on_files_def started_guarded_def)
qed

lemma guarded_replace_socket:
  assumes no_fault: "b \<Longrightarrow> \<forall>n. os_fault (se_os e) n = None"
    and n: "node_of (sr_files r) p = Some n"
  shows "started_guarded b p r (snd (replace_socket e p n r))"
proof (cases "is_socket n")
  case True
  let ?w = "se_os e"
  have eq: "replace_socket e p n = bindS (on_files (attempt (connect_unix ?w p))) (\<lambda>connected.
      case connected of
        Inr x \<Rightarrow> liftS (Inl (Serve_config (Conf_invalid (Socket_active p))))
      | Inl x \<Rightarrow> io (remove_file ?w p))"
    using True by (simp add: replace_socket_def)
  show ?thesis
    unfolding eq
  proof (rule bindS_step [OF started_guarded_order(2)])
    show "started_guarded b p r (snd (on_files (attempt (connect_unix ?w p)) r))"
      using keeps_on_files [OF keeps_attempt [OF looking_keeps(2)]] unfolding keeps_def by blast
    fix connected r'
    assume connected: "on_files (attempt (connect_unix ?w p)) r = (Inr connected, r')"
    show "started_guarded b p r' (snd ((case connected of
        Inr x \<Rightarrow> liftS (Inl (Serve_config (Conf_invalid (Socket_active p))))
      | Inl x \<Rightarrow> io (remove_file ?w p)) r'))"
    proof (cases connected)
      case (Inl x)
      with connected obtain f where f: "connect_unix ?w p (sr_files r) = (Inl x, f)" "r' = r\<lparr>sr_files := f\<rparr>"
        by (cases "connect_unix ?w p (sr_files r)") (auto simp: on_files_Inr)
      from connect_unix_Inl [OF f(1)] n no_fault f(2)
      have "node_of (sr_files r') p = Some n" "\<not> (b \<and> live (Some n))"
        by (auto simp: node_of_def place_def)
      then show ?thesis using guarded_remove True Inl by simp
    qed (simp add: liftS_def reflpD [OF started_guarded_order(1)])
  qed
qed (simp add: replace_socket_def liftS_def reflpD [OF started_guarded_order(1)])

lemma guarded_clear_socket:
  assumes "b \<Longrightarrow> \<forall>n. os_fault (se_os e) n = None"
  shows "keeps (started_guarded b p) (clear_socket e p)"
proof -
  let ?w = "se_os e"
  note order = started_guarded_order [of b p]
  have inspected: "keeps (started_guarded b p) (bindS (io (symlink_metadata ?w p)) (replace_socket e p))"
    unfolding keeps_def
  proof
    fix r
    show "started_guarded b p r (snd (bindS (io (symlink_metadata ?w p)) (replace_socket e p) r))"
    proof (rule bindS_step [OF order(2)])
      show "started_guarded b p r (snd (io (symlink_metadata ?w p) r))"
        using keeps_io [OF looking_keeps(1)] unfolding keeps_def by blast
      fix n r'
      assume "io (symlink_metadata ?w p) r = (Inr n, r')"
      then have "node_of (sr_files r') p = Some n"
        by (auto simp: io_Inr node_of_def place_def dest!: symlink_metadata_Inr split: if_splits)
      with assms show "started_guarded b p r' (snd (replace_socket e p n r'))"
        by (rule guarded_replace_socket)
    qed
  qed
  show ?thesis
    unfolding clear_socket_def
    by (rule keeps_bindS [OF order(2) keeps_on_files [OF keeps_path_tests(1) [OF guarded_about_tree]]])
      (auto simp: inspected intro: keeps_returnS [OF order(1)])
qed

lemma guarded_open_tcp:
  assumes "database_apart e c" and "b \<Longrightarrow> \<forall>n. os_fault (se_os e) n = None"
  shows "keeps (started_guarded b (sc_unix_socket c)) (open_tcp e c)"
proof -
  note order = started_guarded_order [of b "sc_unix_socket c"]
  have tcp: "keeps (started_guarded b (sc_unix_socket c)) (\<lambda>r. (Inr (), r\<lparr>sr_tcp := True\<rparr>))"
    by (simp add: keeps_def started_guarded_def about_treeD [OF guarded_about_tree])
  show ?thesis
    unfolding open_tcp_def bind_tcp_listener_def
    by (intro keeps_bindS order keeps_liftS guarded_prepare guarded_clear_socket tcp assms)
qed

lemma open_tcp_bound: "open_tcp e c r = (Inr (), r') \<Longrightarrow> sr_tcp r'"
  by (auto simp: open_tcp_def bind_tcp_listener_def result_simps)

section \<open>The socket\<close>

lemma bind_unix_Inr:
  assumes "bind_unix w mode p s = (Inr (), s')"
  shows "node_of s p = None" "node_of s' p = Some (Socket True mode None)" "fs_cwd s' = fs_cwd s"
proof -
  let ?at = "place s p" and ?t = "fs_root s"
  from assms have free: "p \<noteq> []" "entry_at ?t ?at = None" "entry_check ?t ?at = Inr ()"
    and s': "s' = s\<lparr>fs_root := set_at ?t ?at (Some (Socket True mode None)), fs_calls := Suc (fs_calls s)\<rparr>"
    by (simp_all add: bind_unix_def Let_def sys_Inr split: if_split_asm)
  from free have "?at \<noteq> []" by auto
  with free s' show "node_of s p = None" "node_of s' p = Some (Socket True mode None)" "fs_cwd s' = fs_cwd s"
    by (auto simp: node_of_def place_def entry_check_Inr entry_at_set_at_entry)
qed

lemma bind_unix_Inl:
  assumes "bind_unix w mode p s = (Inl x, s')"
  shows "at_place (place s p) (guarded b) s s'"
proof -
  let ?at = "place s p" and ?t = "fs_root s"
  have bound: "entry_at (set_at ?t ?at (Some (Socket False mode None))) ?at = Some (Socket False mode None)"
    if "entry_at ?t ?at = None" "entry_check ?t ?at = Inr ()"
    using that by (cases "?at = []") (auto simp: entry_check_Inr entry_at_set_at_entry)
  have "fs_cwd s' = fs_cwd s \<and> (fs_root s' = ?t \<or> entry_at ?t ?at = None
      \<and> entry_check ?t ?at = Inr () \<and> fs_root s' = set_at ?t ?at (Some (Socket False mode None)))"
  proof -
    have "(\<exists>k :: nat. s' = s\<lparr>fs_root :=
        if k \<noteq> 0 \<and> p \<noteq> [] \<and> entry_at ?t ?at = None \<and> entry_check ?t ?at = Inr ()
        then set_at ?t ?at (Some (Socket False mode None)) else ?t, fs_calls := Suc (fs_calls s)\<rparr>)
      \<or> s' = s\<lparr>fs_calls := Suc (fs_calls s)\<rparr>"
      using assms unfolding bind_unix_def Let_def sys_Inl by blast
    then show ?thesis by (elim disjE exE) simp_all
  qed
  then consider "fs_cwd s' = fs_cwd s" "fs_root s' = ?t"
    | "fs_cwd s' = fs_cwd s" "entry_at ?t ?at = None"
      "entry_at (fs_root s') ?at = Some (Socket False mode None)"
    using bound by auto
  then show ?thesis by cases (simp_all add: at_place_def guarded_def)
qed

lemma change_entry_at:
  "node_of s p = Some n \<Longrightarrow> entry_at (change_node p f s) (place s p) = Some (f n)"
  by (auto simp: change_node_def node_of_def entry_at_set_at_exists split: if_splits)

lemma change_socket_cases:
  assumes "change_socket w p f s = (x, s')" and "node_of s p = Some (Socket active mode owner)"
  shows "fs_cwd s' = fs_cwd s
    \<and> (x = Inr () \<and> node_of s' p = Some (f active mode owner)
       \<or> x \<noteq> Inr () \<and> node_of s' p = node_of s p)"
proof -
  have "p \<noteq> []" using assms(2) by (auto simp: node_of_def)
  then show ?thesis
    using assms change_entry_at [OF assms(2), of "socket_node f"]
    by (cases "os_fault w (fs_calls s)")
      (auto simp: change_socket_def sys_def untouched_def node_of_def place_def)
qed

lemmas change_simps = set_permissions_def chown_group_def

text \<open>What the socket's group becomes.\<close>

definition owner_of :: "'addr start_env \<Rightarrow> 'addr server_config \<Rightarrow> nat option \<Rightarrow> bool" where
  "owner_of e c owner \<longleftrightarrow>
     (case sc_unix_socket_group c of
        None \<Rightarrow> owner = None
      | Some name \<Rightarrow> owner \<noteq> None \<and> se_group e name = Inr owner)"

definition socket_ready :: "'addr start_env \<Rightarrow> 'addr server_config \<Rightarrow> node option \<Rightarrow> bool" where
  "socket_ready e c v \<longleftrightarrow>
     (\<exists>owner. v = Some (Socket True (sc_unix_socket_mode c) owner) \<and> owner_of e c owner)"

lemma io_cases:
  "io m r = (x, r') \<Longrightarrow> \<exists>y f. m (sr_files r) = (y, f) \<and> r' = r\<lparr>sr_files := f\<rparr> \<and> x = map_err Serve_io y"
  by (cases "m (sr_files r)") (auto simp: io_def on_files_def)

lemma socket_setup_Inr:
  assumes "socket_setup e c r = (Inr (), r')"
    and "node_of (sr_files r) (sc_unix_socket c) = Some (Socket True mode None)"
  shows "socket_ready e c (node_of (sr_files r') (sc_unix_socket c))"
    "sr_started r' = sr_started r" "sr_tcp r' = sr_tcp r"
proof -
  let ?p = "sc_unix_socket c" and ?w = "se_os e"
  from assms(1) obtain r1 where r1: "io (set_permissions ?w ?p (sc_unix_socket_mode c)) r = (Inr (), r1)"
    and rest: "(case sc_unix_socket_group c of
       None \<Rightarrow> returnS ()
     | Some name \<Rightarrow>
         bindS (liftS (map_err (\<lambda>m. Serve_config (Conf_invalid (Group_unresolved name))) (se_group e name))) (\<lambda>found.
         bindS (liftS (ok_or (Serve_config (Conf_invalid (Group_missing name))) found)) (\<lambda>gid.
         on_files (with_err (\<lambda>m. Serve_config (Conf_invalid (Group_not_set name)))
           (chown_group ?w ?p gid))))) r1 = (Inr (), r')"
    unfolding socket_setup_def bindS_Inr by auto
  from r1 obtain f where f: "set_permissions ?w ?p (sc_unix_socket_mode c) (sr_files r) = (Inr (), f)"
    "r1 = r\<lparr>sr_files := f\<rparr>"
    by (auto simp: io_Inr)
  from change_socket_cases [OF f(1) [unfolded set_permissions_def] assms(2)]
  have n1: "node_of (sr_files r1) ?p = Some (Socket True (sc_unix_socket_mode c) None)"
    by (simp add: f(2))
  show "socket_ready e c (node_of (sr_files r') ?p)"
    "sr_started r' = sr_started r" "sr_tcp r' = sr_tcp r"
  proof (atomize (full), cases "sc_unix_socket_group c")
    case None
    with rest n1 f(2) show "socket_ready e c (node_of (sr_files r') ?p)
      \<and> sr_started r' = sr_started r \<and> sr_tcp r' = sr_tcp r"
      by (auto simp: returnS_iff socket_ready_def owner_of_def)
  next
    case (Some name)
    with rest obtain gid g where g: "se_group e name = Inr (Some gid)"
      "chown_group ?w ?p gid (sr_files r1) = (Inr (), g)" "r' = r1\<lparr>sr_files := g\<rparr>"
      by (auto simp: bindS_Inr liftS_iff result_simps on_files_Inr with_err_Inr simp del: with_err_simps)
    from change_socket_cases [OF g(2) [unfolded chown_group_def] n1] g(1,3) Some f(2)
    show "socket_ready e c (node_of (sr_files r') ?p)
      \<and> sr_started r' = sr_started r \<and> sr_tcp r' = sr_tcp r"
      by (simp add: socket_ready_def owner_of_def)
  qed
qed

text \<open>A failed set-up does not start anything.\<close>

definition not_started :: "server_run \<Rightarrow> server_run \<Rightarrow> bool" where
  "not_started r r' \<longleftrightarrow> sr_started r' = sr_started r \<and> sr_tcp r' = sr_tcp r"

lemma not_started_order: "reflp not_started" "transp not_started"
  by (auto simp: not_started_def intro!: reflpI transpI)

lemma keeps_not_started: "keeps not_started (on_files m)" "keeps not_started (io n)"
  by (simp_all add: keeps_def on_files_def io_def not_started_def split_beta)

lemma not_started_setup: "keeps not_started (socket_setup e c)"
  unfolding socket_setup_def
  by (intro keeps_bindS not_started_order keeps_liftS keeps_not_started)
    (auto split: option.split intro!: keeps_bindS not_started_order keeps_liftS keeps_not_started)

lemma drop_listener_dead:
  "drop_listener p s = (x, s') \<Longrightarrow> \<not> live (node_of s' p) \<and> fs_cwd s' = fs_cwd s"
proof -
  assume "drop_listener p s = (x, s')"
  then have s': "s' = s\<lparr>fs_root := change_node p (socket_node (\<lambda>active. Socket False)) s\<rparr>"
    by (simp add: drop_listener_def)
  show ?thesis
  proof (cases "node_of s p")
    case None
    then show ?thesis by (auto simp: s' change_node_def node_of_def place_def split: if_splits)
  next
    case (Some n)
    with change_entry_at [OF Some, of "socket_node (\<lambda>active. Socket False)"]
    show ?thesis by (cases n) (auto simp: s' node_of_def place_def)
  qed
qed

lemma removed_file:
  assumes "remove_file w p s = (Inr (), s')" and "node_of s p \<noteq> None"
  shows "node_of s' p = None"
proof -
  from remove_file_cases [OF assms(1)] have "fs_cwd s' = fs_cwd s" "place s p \<noteq> []"
    "fs_root s' = set_at (fs_root s) (place s p) None" by auto
  moreover have "is_dir_node (entry_at (fs_root s) (butlast (place s p)))"
    using assms(2) \<open>place s p \<noteq> []\<close> by (auto simp: node_of_def intro: entry_at_parent split: if_splits)
  moreover have "place s' p = place s p"
    by (rule place_cwd) fact
  ultimately show ?thesis
    by (simp add: node_of_def entry_at_set_at_entry)
qed

lemma node_of_same: "fs_root s' = fs_root s \<Longrightarrow> fs_cwd s' = fs_cwd s \<Longrightarrow> node_of s' p = node_of s p"
  by (simp add: node_of_def place_def)

lemma symlink_metadata_cases:
  assumes "symlink_metadata w p s = (found, s1)"
  shows "node_of s1 p = node_of s p" "found = Inl No_entry \<Longrightarrow> node_of s p = None"
proof -
  have "fs_root s1 = fs_root s \<and> fs_cwd s1 = fs_cwd s \<and> (found = Inl No_entry \<longrightarrow> node_of s p = None)"
    using assms by (cases "os_fault w (fs_calls s)"; cases "node_of s p")
      (auto simp: symlink_metadata_def sys_def untouched_def)
  then show "node_of s1 p = node_of s p" "found = Inl No_entry \<Longrightarrow> node_of s p = None"
    by (auto intro: node_of_same)
qed

lemma remove_owned_socket_dead:
  assumes "remove_owned_socket w p s = (x, s')"
  shows "live (node_of s' p) \<Longrightarrow> live (node_of s p)" "x = Inr () \<Longrightarrow> \<not> is_socket_node (node_of s' p)"
proof -
  obtain found s1 where look: "symlink_metadata w p s = (found, s1)" by (cases "symlink_metadata w p s")
  note same = symlink_metadata_cases [OF look]
  have rest: "(case found of Inr n \<Rightarrow> if is_socket n then remove_file w p else returnS ()
     | Inl No_entry \<Rightarrow> returnS () | Inl e \<Rightarrow> liftS (Inl e)) s1 = (x, s')"
    using assms look by (simp add: remove_owned_socket_def bindS_def)
  have "(live (node_of s' p) \<longrightarrow> live (node_of s p)) \<and> (x = Inr () \<longrightarrow> \<not> is_socket_node (node_of s' p))"
  proof (cases found)
    case (Inl y)
    show ?thesis
    proof (cases "y = No_entry")
      case True
      with Inl rest same show ?thesis by (auto simp: returnS_iff)
    next
      case False
      with Inl rest have "x = Inl y" "s' = s1" by (cases y; simp add: liftS_iff)+
      with same show ?thesis by simp
    qed
  next
    case (Inr n)
    with look have n: "node_of s p = Some n" by (auto dest: symlink_metadata_Inr)
    show ?thesis
    proof (cases "is_socket n")
      case False
      then have "\<not> is_socket_node (Some n)" by (cases n) auto
      with False Inr rest same n show ?thesis by (auto simp: returnS_iff)
    next
      case True
      with Inr rest have rm: "remove_file w p s1 = (x, s')" by simp
      from remove_file_cases [OF rm] have "x \<noteq> Inr () \<Longrightarrow> node_of s' p = node_of s1 p"
        by (auto intro: node_of_same)
      with removed_file [of w p s1 s'] rm same n show ?thesis by (cases "x = Inr ()") auto
    qed
  qed
  then show "live (node_of s' p) \<Longrightarrow> live (node_of s p)" "x = Inr () \<Longrightarrow> \<not> is_socket_node (node_of s' p)"
    by blast+
qed

section \<open>A whole run\<close>

lemma bindS_run: "bindS m f s = (case m s of (Inl e, s') \<Rightarrow> (Inl e, s') | (Inr x, s') \<Rightarrow> f x s')"
  by (simp add: bindS_def)

lemmas run_case = prod.case sum.case

text \<open>A set-up that fails is undone: the listener is dropped and its socket removed.\<close>

lemma failed_setup:
  assumes "bindS (on_files (drop_listener p)) (\<lambda>_.
    bindS (on_files (attempt (remove_owned_socket w p))) (\<lambda>_. liftS (Inl x))) r = (res, r')"
  shows "res = Inl x \<and> \<not> live (node_of (sr_files r') p) \<and> sr_started r' = sr_started r"
proof -
  let ?f = "(sr_files r)\<lparr>fs_root := change_node p (socket_node (\<lambda>active. Socket False)) (sr_files r)\<rparr>"
  have f: "drop_listener p (sr_files r) = (Inr () :: unit + unit, ?f)" by (simp add: drop_listener_def)
  obtain z g where g: "remove_owned_socket w p ?f = (z, g)" by (cases "remove_owned_socket w p ?f")
  from drop_listener_dead [OF f] remove_owned_socket_dead(1) [OF g] have dead: "\<not> live (node_of g p)" by blast
  have drop: "on_files (drop_listener p) r = (Inr (), r\<lparr>sr_files := ?f\<rparr>)"
    by (simp add: on_files_def drop_listener_def)
  have remove: "on_files (attempt (remove_owned_socket w p)) (r\<lparr>sr_files := ?f\<rparr>)
      = (Inr z, r\<lparr>sr_files := g\<rparr>)"
    by (simp add: on_files_def g)
  from assms have "liftS (Inl x) (r\<lparr>sr_files := g\<rparr>) = (res, r')"
    unfolding bindS_run [of "on_files m" for m] drop remove run_case .
  with dead show ?thesis by (auto simp: liftS_iff)
qed

lemma session_end_started: "keeps not_started (session_end e c)"
proof -
  have "keeps not_started (run_session e)"
    by (simp add: keeps_def run_session_def not_started_def)
  then show ?thesis
    unfolding session_end_def
    by (intro keeps_bindS not_started_order keeps_liftS keeps_not_started)
qed

lemma session_end_Inr:
  assumes "session_end e c r = (Inr (), r')"
  shows "\<not> is_socket_node (node_of (sr_files r') (sc_unix_socket c))"
proof -
  from assms obtain r1 where "io (remove_owned_socket (se_os e) (sc_unix_socket c)) r1 = (Inr (), r')"
    unfolding session_end_def bindS_Inr by auto
  then obtain f where "remove_owned_socket (se_os e) (sc_unix_socket c) (sr_files r1) = (Inr (), f)"
    "r' = r1\<lparr>sr_files := f\<rparr>"
    by (auto simp: io_Inr)
  with remove_owned_socket_dead(2) show ?thesis by auto
qed

text \<open>How a run can go: it stops before the socket is bound, or the path was free and the
  set-up failed and was undone, or the tasks were started.\<close>

definition stopped_early :: "'addr start_env \<Rightarrow> path \<Rightarrow> server_run \<Rightarrow> server_run \<Rightarrow> bool" where
  "stopped_early e p r r' \<longleftrightarrow>
     (\<forall>b. (b \<longrightarrow> (\<forall>n. os_fault (se_os e) n = None)) \<longrightarrow> started_guarded b p r r')"

lemma serve_cases:
  assumes "serve e c r = (res, r')" and "database_apart e c"
  obtains
    (early) x where "res = Inl x" "stopped_early e (sc_unix_socket c) r r'"
  | (undone) r1 x where "stopped_early e (sc_unix_socket c) r r1"
      "node_of (sr_files r1) (sc_unix_socket c) = None" "res = Inl x"
      "\<not> live (node_of (sr_files r') (sc_unix_socket c))" "sr_started r' = sr_started r"
  | (started) r1 v where "stopped_early e (sc_unix_socket c) r r1"
      "node_of (sr_files r1) (sc_unix_socket c) = None" "socket_ready e c v"
      "sr_started r' = sr_started r @ [v]" "sr_tcp r'"
      "res = Inr () \<Longrightarrow> \<not> is_socket_node (node_of (sr_files r') (sc_unix_socket c))"
proof -
  let ?p = "sc_unix_socket c"
  obtain y r1 where tcp: "open_tcp e c r = (y, r1)" by (cases "open_tcp e c r")
  have guarded: "stopped_early e ?p r r1"
    unfolding stopped_early_def
  proof (intro allI impI)
    fix b :: bool
    assume "b \<longrightarrow> (\<forall>n. os_fault (se_os e) n = None)"
    with guarded_open_tcp [OF assms(2), of b] have "started_guarded b ?p r (snd (open_tcp e c r))"
      unfolding keeps_def by blast
    with tcp show "started_guarded b ?p r r1" by simp
  qed
  show ?thesis
  proof (cases y)
    case (Inl x)
    with tcp assms(1) have "res = Inl x" "r' = r1" by (simp_all add: serve_def bindS_run [of "open_tcp e c"])
    with guarded early show ?thesis by blast
  next
    case (Inr u)
    with open_tcp_bound tcp have bound: "sr_tcp r1" by simp
    obtain z f where bind: "bind_unix (se_os e) (se_bind_mode e) ?p (sr_files r1) = (z, f)"
      by (cases "bind_unix (se_os e) (se_bind_mode e) ?p (sr_files r1)")
    let ?r2 = "r1\<lparr>sr_files := f\<rparr>"
    show ?thesis
    proof (cases z)
      case (Inl x)
      with bind have "io (bind_unix (se_os e) (se_bind_mode e) ?p) r1 = (Inl (Serve_io x), ?r2)"
        by (simp add: io_def on_files_def)
      with assms(1) have "res = Inl (Serve_io x)" "r' = ?r2"
        unfolding serve_def bindS_run [of "open_tcp e c"] tcp \<open>y = Inr u\<close> run_case
          bindS_run [of "io m" for m] by simp_all
      moreover have "started_guarded b ?p r1 ?r2" for b
        using bind_unix_Inl bind Inl by (simp add: started_guarded_def)
      then have "stopped_early e ?p r ?r2"
        using guarded transpD [OF started_guarded_order(2)] unfolding stopped_early_def by blast
      ultimately show ?thesis using early by blast
    next
      case (Inr u2)
      with bind have bind: "bind_unix (se_os e) (se_bind_mode e) ?p (sr_files r1) = (Inr (), f)" by simp
      note vacant = bind_unix_Inr [OF bind]
      obtain w r3 where prepared: "socket_setup e c ?r2 = (w, r3)" by (cases "socket_setup e c ?r2")
      have "io (bind_unix (se_os e) (se_bind_mode e) ?p) r1 = (Inr (), ?r2)"
        using bind by (simp add: io_def on_files_def)
      note run = assms(1) [unfolded serve_def bindS_run [of "open_tcp e c"] tcp \<open>y = Inr u\<close> run_case
          bindS_run [of "io m" for m] this bindS_run [of "attempt m" for m]]
      have tried: "attempt (socket_setup e c) ?r2 = (Inr w, r3)"
        using prepared by simp
      have "not_started ?r2 r3" using not_started_setup prepared by (metis keeps_def snd_conv)
      then have same: "sr_started r3 = sr_started r" "sr_tcp r3"
        using guarded bound by (auto simp: not_started_def stopped_early_def started_guarded_def)
      show ?thesis
      proof (cases w)
        case (Inl x)
        from run [unfolded tried Inl run_case]
        have "bindS (on_files (drop_listener ?p)) (\<lambda>_.
          bindS (on_files (attempt (remove_owned_socket (se_os e) ?p))) (\<lambda>_. liftS (Inl x))) r3 = (res, r')" .
        from failed_setup [OF this] same undone guarded vacant(1) show ?thesis by metis
      next
        case (Inr u3)
        let ?r4 = "r3\<lparr>sr_started := sr_started r3 @ [node_of (sr_files r3) ?p]\<rparr>"
        have "spawn_tasks ?p r3 = (Inr (), ?r4)" by (simp add: spawn_tasks_def)
        from run [unfolded tried Inr run_case bindS_run [of "spawn_tasks p" for p] this]
        have last: "session_end e c ?r4 = (res, r')" .
        then have "not_started ?r4 r'" using session_end_started by (metis keeps_def snd_conv)
        with same have "sr_started r' = sr_started r @ [node_of (sr_files r3) ?p]" "sr_tcp r'"
          by (simp_all add: not_started_def)
        moreover have "socket_ready e c (node_of (sr_files r3) ?p)"
          using socket_setup_Inr(1) [of e c ?r2 r3] prepared Inr vacant(2) by simp
        moreover have "\<not> is_socket_node (node_of (sr_files r') ?p)" if "res = Inr ()"
          using session_end_Inr last that by blast
        ultimately show ?thesis using started guarded vacant(1) by blast
      qed
    qed
  qed
qed

lemma guarded_file: "guarded b v v' \<Longrightarrow> is_file_node v \<Longrightarrow> v' = v"
  unfolding guarded_def is_file_node_iff by auto

lemma guarded_live: "guarded b v v' \<Longrightarrow> live v \<and> b \<Longrightarrow> v' = v"
  unfolding guarded_def using is_dir_node.simps is_socket_node.simps by (metis live.elims(2))

lemma guarded_kept: "guarded b v v' \<Longrightarrow> is_file_node v \<or> live v \<and> b \<Longrightarrow> v' = v"
  using guarded_file guarded_live by blast

lemma occupied_path: "is_file_node v \<or> live v \<and> b \<Longrightarrow> v \<noteq> None"
  by (cases v) auto

lemma stopped_early_started: "stopped_early e p r r1 \<Longrightarrow> sr_started r1 = sr_started r"
  unfolding stopped_early_def started_guarded_def by blast

lemma stopped_early_node:
  assumes "stopped_early e p r r1" and "b \<Longrightarrow> \<forall>n. os_fault (se_os e) n = None"
  shows "guarded b (node_of (sr_files r) p) (node_of (sr_files r1) p)"
proof -
  from assms have "at_place (place (sr_files r) p) (guarded b) (sr_files r) (sr_files r1)"
    unfolding stopped_early_def started_guarded_def by blast
  then show ?thesis
    by (auto simp: at_place_def node_of_def place_def guarded_def)
qed

definition socket_at :: "'addr server_config \<Rightarrow> server_run \<Rightarrow> node option" where
  "socket_at c r = node_of (sr_files r) (sc_unix_socket c)"

text \<open>C17. Starting the server respects its socket path under any faults. The tasks are spawned only
  with TCP bound and the socket carrying the configured mode and group. A file at the path is
  never replaced and nothing starts; neither is, without faults, a socket somebody listens on. A
  start that fails leaves no live socket that was not there before, and a run that returns
  \<open>Ok\<close> has served and leaves no socket.\<close>

theorem server_start_guarded:
  assumes "serve e c r = (res, r')" and "database_apart e c" and "sr_started r = []"
  shows "(\<forall>v \<in> set (sr_started r'). sr_tcp r' \<and> socket_ready e c v)
    \<and> (is_file_node (socket_at c r) \<or> live (socket_at c r) \<and> (\<forall>n. os_fault (se_os e) n = None)
        \<longrightarrow> res \<noteq> Inr () \<and> sr_started r' = [] \<and> socket_at c r' = socket_at c r)
    \<and> (sr_started r' = [] \<and> live (socket_at c r') \<longrightarrow> socket_at c r' = socket_at c r)
    \<and> (res = Inr () \<longrightarrow> sr_started r' \<noteq> [] \<and> \<not> is_socket_node (socket_at c r'))"
proof -
  let ?p = "sc_unix_socket c"
  have kept: "node_of (sr_files r1) ?p = (socket_at c r)"
    if "is_file_node (socket_at c r) \<or> live (socket_at c r) \<and> (\<forall>n. os_fault (se_os e) n = None)"
      "stopped_early e ?p r r1" for r1
  proof -
    have "guarded (\<forall>n. os_fault (se_os e) n = None) (socket_at c r) (node_of (sr_files r1) ?p)"
      using stopped_early_node [OF that(2)] unfolding socket_at_def by blast
    then show ?thesis using that(1) by (rule guarded_kept)
  qed
  have no_live: "live (node_of (sr_files r1) ?p) \<Longrightarrow> node_of (sr_files r1) ?p = (socket_at c r)"
    if "stopped_early e ?p r r1" for r1
    using stopped_early_node [OF that, of False] unfolding socket_at_def guarded_def by blast
  have at: "socket_at c r1 = node_of (sr_files r1) ?p" for r1 by (simp add: socket_at_def)
  from assms(1,2) show ?thesis
  proof (cases rule: serve_cases)
    case (early x)
    with assms(3) have none: "sr_started r' = []"
      by (simp add: stopped_early_started)
    have "res \<noteq> Inr ()" "\<forall>v \<in> set (sr_started r'). sr_tcp r' \<and> socket_ready e c v"
      by (simp_all add: none early(1))
    then show ?thesis
      unfolding at [of r'] using none kept [OF _ early(2)] no_live [OF early(2)] by blast
  next
    case (undone r1 x)
    then have vacant: "\<not> (is_file_node (socket_at c r) \<or> live (socket_at c r) \<and> (\<forall>n. os_fault (se_os e) n = None))"
      using kept [OF _ undone(1)] occupied_path undone(2) by metis
    have "res \<noteq> Inr ()" "\<forall>v \<in> set (sr_started r'). sr_tcp r' \<and> socket_ready e c v"
      using undone(3,5) assms(3) by simp_all
    with vacant undone(4) show ?thesis
      unfolding at [of r'] by blast
  next
    case (started r1 v)
    then have vacant: "\<not> (is_file_node (socket_at c r) \<or> live (socket_at c r) \<and> (\<forall>n. os_fault (se_os e) n = None))"
      using kept [OF _ started(1)] occupied_path started(2) by metis
    have "sr_started r' \<noteq> []" "\<forall>v \<in> set (sr_started r'). sr_tcp r' \<and> socket_ready e c v"
      using started(3-5) assms(3) by simp_all
    with vacant started(6) show ?thesis
      unfolding at [of r'] by blast
  qed
qed

text \<open>With a fault a live socket is taken for an abandoned one: whatever made the connection fail,
  the socket is removed.\<close>

lemma busy_socket_removed:
  assumes "os_fault (se_os e) (fs_calls (sr_files r)) = Some k"
    and "os_fault (se_os e) (Suc (fs_calls (sr_files r))) = None"
    and "socket_at c r = Some (Socket True mode owner)" and "place (sr_files r) (sc_unix_socket c) \<noteq> []"
  shows "\<exists>r'. replace_socket e (sc_unix_socket c) (Socket True mode owner) r = (Inr (), r')
    \<and> socket_at c r' = None"
proof -
  let ?p = "sc_unix_socket c" and ?w = "se_os e"
  let ?f = "(sr_files r)\<lparr>fs_calls := Suc (fs_calls (sr_files r))\<rparr>"
  have failed: "on_files (attempt (connect_unix ?w ?p)) r
      = (Inr (Inl (Os_fault (fs_calls (sr_files r)))), r\<lparr>sr_files := ?f\<rparr>)"
    using assms(1) by (simp add: on_files_def connect_unix_def sys_def untouched_def)
  have node: "node_of ?f ?p = Some (Socket True mode owner)"
    using assms(3) node_of_same [of ?f "sr_files r"] by (simp add: socket_at_def)
  have "place ?f ?p \<noteq> []"
    using assms(4) place_cwd [of ?f "sr_files r"] by simp
  then obtain g where g: "remove_file ?w ?p ?f = (Inr (), g)"
    using assms(2) node by (simp add: remove_file_def sys_def)
  have "replace_socket e ?p (Socket True mode owner) r = (Inr (), r\<lparr>sr_files := g\<rparr>)"
    unfolding replace_socket_def is_socket.simps not_True_eq_False if_False
      bindS_run [of "on_files m" for m] failed run_case
    using g by (simp add: io_def on_files_def)
  moreover have "node_of g ?p = None"
    using removed_file [OF g] node by simp
  ultimately show ?thesis by (simp add: socket_at_def)
qed

definition demo_tree :: "node \<Rightarrow> server_run" where
  "demo_tree n =
     \<lparr>sr_files = \<lparr>fs_root = Dir [(''run'', Dir [(''s.sock'', n)]), (''data'', Dir []), (''tls'', File [])],
        fs_cwd = [], fs_calls = 0, fs_stats = 0\<rparr>, sr_tcp = False, sr_started = []\<rparr>"

definition demo_start :: "(nat \<Rightarrow> nat option) \<Rightarrow> unit start_env" where
  "demo_start fault =
     \<lparr>se_os = \<lparr>os_fault = fault, os_blind = (\<lambda>n. False)\<rparr>, se_conf = demo_conf_env,
      se_open_database = (\<lambda>p. returnS ()), se_load_tls = (\<lambda>c k. Inr ()),
      se_bind_tcp = (\<lambda>addr. Inr ()), se_set_nonblocking = Inr (), se_from_tcp = Inr (),
      se_bind_mode = 493, se_group = (\<lambda>name. Inr None), se_session = (\<lambda>s. s),
      se_signal = Inr (), se_tcp_join = Inr (Inr ()), se_unix_join = Inr (Inr ())\<rparr>"

lemma demo_database_apart: "database_apart (demo_start fault) c"
  by (simp add: database_apart_def demo_start_def returnS_def about_treeD [OF settled_about_tree])

lemma server_start_guarded_witness:
  "fst (serve (demo_start (\<lambda>n. Some n)) demo_conf (demo_tree (File []))) \<noteq> Inr ()
   \<and> sr_started (snd (serve (demo_start (\<lambda>n. Some n)) demo_conf (demo_tree (File [])))) = []"
proof -
  obtain res r' where run: "serve (demo_start (\<lambda>n. Some n)) demo_conf (demo_tree (File [])) = (res, r')"
    by (cases "serve (demo_start (\<lambda>n. Some n)) demo_conf (demo_tree (File []))")
  have "sr_started (demo_tree (File [])) = []" by (simp add: demo_tree_def)
  moreover have "is_file_node (socket_at demo_conf (demo_tree (File [])))"
    by (simp add: demo_tree_def demo_conf_def node_of_def place_def socket_at_def)
  ultimately have "res \<noteq> Inr () \<and> sr_started r' = []"
    using server_start_guarded [OF run demo_database_apart] by blast
  with run show ?thesis by simp
qed

end
