(* ===== verification/Restore.thy ===== *)
theory Restore
  imports Files BookmarkFile
begin

text \<open>
  Replacing a profile's bookmarks (\<open>restore_bookmarks\<close> and \<open>create_backup_archive\<close> of
  \<open>helium-sync-profile/src/lib.rs\<close>) over the file system of \<open>Files\<close>: the backup in the
  downloads directory, the staged file beside the live one, the two renames, and the clean-up
  on each error. The ZIP writer and the JSON printer are fields of \<open>restore_env\<close>; the archive is
  written in one call, and the messages are constructors of \<open>restore_error\<close>.
\<close>

datatype bookmark_status = Missing | Readable | Invalid_bookmarks string

record discovered_profile =
  dp_directory_name :: string
  dp_display_name :: string
  dp_path :: path
  dp_bookmarks_path :: path
  dp_bookmark_status :: bookmark_status

datatype archive_fault =
    Archive_io io_error
  | Archive_other string
  | Replacement_restored io_error
  | Replacement_lost io_error io_error path
  | Old_not_moved io_error "(path \<times> io_error) list" path
  | Destination_not_made io_error "(path \<times> io_error) list" path
  | New_not_installed io_error "(path \<times> io_error) list" path

datatype restore_error =
    At_read path io_error
  | At_write path io_error
  | At_parse path
  | At_archive path archive_fault
  | At_mismatch string string
  | At_bundle string

record restore_env =
  re_os :: os
  re_zip :: "(string \<times> bytes) list \<Rightarrow> bytes"
  re_to_text :: "json \<Rightarrow> bytes option"
  re_json_len :: "bookmark_snapshot \<Rightarrow> nat option"
  re_unique :: string

record restore_result =
  rr_backup_path :: path
  rr_stats :: bookmark_stats_record

type_synonym 'a restoring = "(files, restore_error, 'a) comp"

section \<open>Names\<close>

text \<open>One underscore for each character that is not an ASCII letter, digit, \<open>-\<close> or \<open>_\<close>; a
  byte that continues a character adds nothing.\<close>

definition name_char :: "char \<Rightarrow> bool" where
  "name_char c \<longleftrightarrow>
     (let n = code_of c in
      48 \<le> n \<and> n \<le> 57 \<or> 65 \<le> n \<and> n \<le> 90 \<or> 97 \<le> n \<and> n \<le> 122 \<or> c = CHR ''-'' \<or> c = CHR ''_'')"

definition safe_profile_name :: "string \<Rightarrow> string" where
  "safe_profile_name s =
     map (\<lambda>c. if name_char c then c else CHR ''_'')
       (filter (\<lambda>c. code_of c < 128 \<or> 192 \<le> code_of c) s)"

definition backup_name :: "discovered_profile \<Rightarrow> string \<Rightarrow> string" where
  "backup_name p unique =
     ''Helium-Sync-'' @ safe_profile_name (dp_directory_name p) @ ''-before-load-'' @ unique @ ''.zip''"

definition staged_name :: "string \<Rightarrow> string" where
  "staged_name unique = ''.Bookmarks.helium-sync-new-'' @ unique"

definition previous_name :: "string \<Rightarrow> string" where
  "previous_name unique = ''.Bookmarks.helium-sync-previous-'' @ unique"

definition backup_entry :: "discovered_profile \<Rightarrow> string" where
  "backup_entry p =
     map (\<lambda>c. if c = char_of (92 :: nat) then CHR ''_'' else c) (dp_directory_name p) @ ''/Bookmarks''"

definition ascii_bytes :: "string \<Rightarrow> bytes" where
  "ascii_bytes s = map (\<lambda>c. of_nat (code_of c)) s"

definition backup_path :: "restore_env \<Rightarrow> discovered_profile \<Rightarrow> path \<Rightarrow> path" where
  "backup_path e p downloads = path_join downloads (path_of (backup_name p (re_unique e)))"

definition staged_path :: "restore_env \<Rightarrow> discovered_profile \<Rightarrow> path" where
  "staged_path e p = path_join (dp_path p) (path_of (staged_name (re_unique e)))"

definition previous_path :: "restore_env \<Rightarrow> discovered_profile \<Rightarrow> path" where
  "previous_path e p = path_join (dp_path p) (path_of (previous_name (re_unique e)))"

section \<open>The backup\<close>

text \<open>A failed step after which a path is removed, whatever comes of that.\<close>

definition fail_removing :: "os \<Rightarrow> path \<Rightarrow> restore_error \<Rightarrow> 'a restoring" where
  "fail_removing w p x = bindS (attempt (remove_file w p)) (\<lambda>_. liftS (Inl x))"

definition archive_contents :: "restore_env \<Rightarrow> discovered_profile \<Rightarrow> (files, io_error, (string \<times> bytes) list) comp" where
  "archive_contents e p =
     bindS (path_is_file (re_os e) (dp_bookmarks_path p)) (\<lambda>there.
     if there
     then bindS (read_file (re_os e) (dp_bookmarks_path p)) (\<lambda>b. returnS [(backup_entry p, b)])
     else returnS [(''README.txt'', ascii_bytes (''No local Bookmarks file existed before this load.'' @ [char_of (10 :: nat)]))])"

definition create_backup_archive :: "restore_env \<Rightarrow> path \<Rightarrow> discovered_profile \<Rightarrow> unit restoring" where
  "create_backup_archive e backup p =
     bindS (with_err (\<lambda>x. At_archive backup (Archive_io x)) (create_new (re_os e) backup)) (\<lambda>_.
     bindS (attempt (bindS (archive_contents e p) (\<lambda>entries.
              write_open (re_os e) backup (re_zip e entries)))) (\<lambda>written.
     case written of
       Inr _ \<Rightarrow> returnS ()
     | Inl x \<Rightarrow> fail_removing (re_os e) backup (At_archive backup (Archive_io x))))"

section \<open>The replacement\<close>

definition stage_file :: "os \<Rightarrow> path \<Rightarrow> bytes \<Rightarrow> unit restoring" where
  "stage_file w staged content =
     bindS (with_err (At_write staged) (create_new w staged)) (\<lambda>_.
     bindS (attempt (write_open w staged content)) (\<lambda>written.
     case written of
       Inr _ \<Rightarrow> returnS ()
     | Inl x \<Rightarrow> fail_removing w staged (At_write staged x)))"

definition undo_replacement :: "os \<Rightarrow> path \<Rightarrow> path \<Rightarrow> path \<Rightarrow> path \<Rightarrow> io_error \<Rightarrow> unit restoring" where
  "undo_replacement w live staged previous backup x =
     bindS (attempt (rename w previous live)) (\<lambda>rollback.
     fail_removing w staged (At_archive live
       (case rollback of
          Inr _ \<Rightarrow> Replacement_restored x
        | Inl y \<Rightarrow> Replacement_lost x y backup)))"

definition replace_live :: "os \<Rightarrow> path \<Rightarrow> path \<Rightarrow> path \<Rightarrow> path \<Rightarrow> unit restoring" where
  "replace_live w live staged previous backup =
     bindS (attempt (rename w live previous)) (\<lambda>moved.
     case moved of
       Inl x \<Rightarrow> fail_removing w staged (At_write live x)
     | Inr _ \<Rightarrow>
         bindS (attempt (rename w staged live)) (\<lambda>installed.
         case installed of
           Inl x \<Rightarrow> undo_replacement w live staged previous backup x
         | Inr _ \<Rightarrow> with_err (At_write previous) (remove_file w previous)))"

definition install_new :: "os \<Rightarrow> path \<Rightarrow> path \<Rightarrow> unit restoring" where
  "install_new w live staged =
     bindS (attempt (rename w staged live)) (\<lambda>installed.
     case installed of
       Inl x \<Rightarrow> fail_removing w staged (At_write live x)
     | Inr _ \<Rightarrow> returnS ())"

text \<open>Up to the staged file the live one is not touched.\<close>

definition prepare_restore :: "restore_env \<Rightarrow> discovered_profile \<Rightarrow> path \<Rightarrow> bytes \<Rightarrow> unit restoring" where
  "prepare_restore e p downloads content =
     bindS (with_err (At_write downloads) (create_dir_all (re_os e) downloads)) (\<lambda>_.
     bindS (create_backup_archive e (backup_path e p downloads) p) (\<lambda>_.
     stage_file (re_os e) (staged_path e p) content))"

definition swap_bookmarks :: "restore_env \<Rightarrow> discovered_profile \<Rightarrow> path \<Rightarrow> unit restoring" where
  "swap_bookmarks e p downloads =
     bindS (path_exists (re_os e) (dp_bookmarks_path p)) (\<lambda>there.
     if there
     then replace_live (re_os e) (dp_bookmarks_path p) (staged_path e p) (previous_path e p)
            (backup_path e p downloads)
     else install_new (re_os e) (dp_bookmarks_path p) (staged_path e p))"

definition restore_bookmarks ::
  "restore_env \<Rightarrow> discovered_profile \<Rightarrow> bookmark_snapshot \<Rightarrow> path \<Rightarrow> restore_result restoring" where
  "restore_bookmarks e p snapshot downloads =
     (if bs_profile_directory snapshot \<noteq> dp_directory_name p
      then liftS (Inl (At_mismatch (bs_profile_directory snapshot) (dp_directory_name p)))
      else
        bindS (liftS (ok_or (At_parse (dp_bookmarks_path p))
          (re_to_text e (chromium_bookmarks_value snapshot)))) (\<lambda>content.
        bindS (prepare_restore e p downloads content) (\<lambda>_.
        bindS (swap_bookmarks e p downloads) (\<lambda>_.
        returnS \<lparr>rr_backup_path = backup_path e p downloads,
                 rr_stats = bookmark_stats (re_json_len e) snapshot\<rparr>))))"

end
