(* ===== verification/ExtBundle.thy ===== *)
theory ExtBundle
  imports Restore Orchestration
begin

text \<open>
  The extension bundle of a profile (\<open>create_extension_bundle\<close> and what it calls in
  \<open>helium-sync-profile/src/lib.rs\<close>): which directories and preference sections go into the
  archive, in which order, the statistics, and the clean-up of a failed archive.
  \<^item> The ZIP writer, SHA-256 and the JSON of preferences and manifest are fields of
    \<open>bundle_env\<close>; an archive is the list of its entries. The archive file is written in one call.
  \<^item> Reading a tree costs one call for each entry it visits; only the \<open>exists\<close> of its root can be
    wrong. There are no symbolic links, so the branch that rejects them is absent.
\<close>

section \<open>Data\<close>

datatype archive_entry =
    Zip_dir string
  | Zip_file string bytes

datatype pref_value =
    P_null
  | P_object "(string \<times> pref_value) list"
  | P_other string

record bundle_meta =
  bm_format :: string
  bm_profile_directory :: string
  bm_stats :: extension_stats

record bundle_env = restore_env +
  be_zip :: "archive_entry list \<Rightarrow> bytes"
  be_sha256 :: "bytes \<Rightarrow> string"
  be_meta_json :: "bundle_meta \<Rightarrow> bytes"
  be_prefs_of :: "bytes \<Rightarrow> string + pref_value"
  be_prefs_json :: "pref_value \<Rightarrow> bytes"

definition EXTENSION_BUNDLE_FORMAT :: string where
  "EXTENSION_BUNDLE_FORMAT = ''helium-extensions-v1''"

definition EXTENSION_DIRECTORIES :: "string list" where
  "EXTENSION_DIRECTORIES =
     [''Extensions'', ''Extension State'', ''Local Extension Settings'', ''Sync Extension Settings'',
      ''Managed Extension Settings'', ''Extension Rules'', ''Extension Scripts'']"

definition EXTENSION_PREFERENCE_FILES :: "string list" where
  "EXTENSION_PREFERENCE_FILES = [''Preferences'', ''Secure Preferences'']"

section \<open>Collecting the entries\<close>

definition join_name :: "string \<Rightarrow> string \<Rightarrow> string" where
  "join_name a b = a @ ''/'' @ b"

text \<open>The entries of a tree below \<open>name\<close>: a directory's before its children's, children in the
  order of their names. The last component is what is counted as a file.\<close>

function tree_entries :: "string \<Rightarrow> node \<Rightarrow> archive_entry list" where
  "tree_entries name (File b) = [Zip_file name b]"
| "tree_entries name (Socket active mode owner) = []"
| "tree_entries name (Dir es) =
     Zip_dir (name @ ''/'')
     # concat (map (\<lambda>e. tree_entries (join_name name (fst e)) (snd e)) (sort_key fst es))"
  by pat_completeness auto
termination
proof (relation "measure (\<lambda>(name, n). size n)", goal_cases)
  case (2 name es e)
  then have "e \<in> set es" by simp
  then show ?case
    by (induction es) auto
qed simp

fun entry_file_bytes :: "archive_entry \<Rightarrow> bytes option" where
  "entry_file_bytes (Zip_dir name) = None"
| "entry_file_bytes (Zip_file name b) = Some b"

definition count_entry :: "archive_entry \<Rightarrow> extension_stats \<Rightarrow> extension_stats" where
  "count_entry x st =
     (case entry_file_bytes x of
        None \<Rightarrow> st
      | Some b \<Rightarrow>
          st\<lparr>es_files := saturating_add_u64 (es_files st) 1,
             es_bytes := saturating_add_u64 (es_bytes st) (len_u64 b)\<rparr>)"

text \<open>One call that may fail and changes nothing.\<close>

definition visit :: "os \<Rightarrow> (files, io_error, unit) comp" where
  "visit w = sys w untouched (\<lambda>s. Inr ((), fs_root s))"

fun visits :: "os \<Rightarrow> nat \<Rightarrow> (files, io_error, unit) comp" where
  "visits w 0 = returnS ()"
| "visits w (Suc n) = bindS (visit w) (\<lambda>_. visits w n)"

type_synonym collected = "archive_entry list \<times> extension_stats"

definition add_extension_tree ::
  "os \<Rightarrow> string \<Rightarrow> path \<Rightarrow> collected \<Rightarrow> (files, io_error, collected) comp" where
  "add_extension_tree w name p = (\<lambda>(entries, st).
     bindS (stat w p) (\<lambda>found.
     case found of
       None \<Rightarrow> returnS (entries, st)
     | Some n \<Rightarrow>
         (let more = tree_entries name n
          in bindS (visits w (length more)) (\<lambda>_.
             returnS (entries @ more, fold count_entry more st)))))"

fun add_trees ::
  "os \<Rightarrow> path \<Rightarrow> string list list \<Rightarrow> collected \<Rightarrow> (files, io_error, collected) comp" where
  "add_trees w profile [] c = returnS c"
| "add_trees w profile (names # rest) c =
     bindS (add_extension_tree w (foldl join_name ''payload'' names) (profile @ map Normal names) c)
       (add_trees w profile rest)"

definition count_extensions :: "os \<Rightarrow> path \<Rightarrow> u64 restoring" where
  "count_extensions w profile =
     (let extensions = path_join profile (path_of ''Extensions'') in
      bindS (path_is_dir w extensions) (\<lambda>there.
      if \<not> there then returnS 0
      else
        bindS (with_err (At_read extensions) (read_dir w extensions)) (\<lambda>es.
        returnS (fold (\<lambda>e n. if is_dir_node (Some (snd e)) then saturating_add_u64 n 1 else n) es 0))))"

text \<open>The IndexedDB stores that belong to extensions, in the order of their names.\<close>

definition extension_store :: "string \<Rightarrow> bool" where
  "extension_store name \<longleftrightarrow> starts_with ''chrome-extension_'' name"

definition indexed_db_names :: "(string \<times> node) list \<Rightarrow> string list list" where
  "indexed_db_names es = map (\<lambda>name. [''IndexedDB'', name]) (filter extension_store (sort (map fst es)))"

definition indexed_db_trees :: "os \<Rightarrow> path \<Rightarrow> (files, io_error, string list list) comp" where
  "indexed_db_trees w profile =
     bindS (path_is_dir w (profile @ [Normal ''IndexedDB''])) (\<lambda>there.
     if there
     then bindS (read_dir w (profile @ [Normal ''IndexedDB''])) (\<lambda>es. returnS (indexed_db_names es))
     else returnS [])"

datatype bundle_fault = Bundle_io io_error | Bundle_read restore_error

definition extensions_section :: "pref_value \<Rightarrow> pref_value" where
  "extensions_section v =
     (case v of P_object fs \<Rightarrow> (case map_of fs ''extensions'' of None \<Rightarrow> P_null | Some x \<Rightarrow> x) | _ \<Rightarrow> P_null)"

definition read_extension_preferences :: "bundle_env \<Rightarrow> path \<Rightarrow> pref_value restoring" where
  "read_extension_preferences e p =
     bindS (path_is_file (re_os e) p) (\<lambda>there.
     if \<not> there then returnS P_null
     else
       bindS (with_err (At_read p) (read_file (re_os e) p)) (\<lambda>b.
       liftS (map_err (\<lambda>_. At_parse p) (andThen (be_prefs_of e b) (\<lambda>v. Inr (extensions_section v))))))"

definition preferences_entry :: "string \<Rightarrow> string" where
  "preferences_entry file = ''preferences/'' @ file @ ''.extensions.json''"

fun add_preferences ::
  "bundle_env \<Rightarrow> path \<Rightarrow> string list \<Rightarrow> archive_entry list \<Rightarrow> archive_entry list restoring" where
  "add_preferences e profile [] entries = returnS entries"
| "add_preferences e profile (file # rest) entries =
     bindS (read_extension_preferences e (path_join profile (path_of file))) (\<lambda>section.
     add_preferences e profile rest
       (entries @ [Zip_file (preferences_entry file) (be_prefs_json e section)]))"

section \<open>The archive\<close>

definition bundle_entries ::
  "bundle_env \<Rightarrow> discovered_profile \<Rightarrow> extension_stats \<Rightarrow> (files, bundle_fault, collected) comp" where
  "bundle_entries e p st =
     (let w = re_os e; profile = dp_path p in
      bindS (with_err Bundle_io (add_trees w profile (map (\<lambda>d. [d]) EXTENSION_DIRECTORIES) ([], st))) (\<lambda>c.
      bindS (with_err Bundle_io (indexed_db_trees w profile)) (\<lambda>stores.
      bindS (with_err Bundle_io (add_trees w profile stores c)) (\<lambda>(entries, stats).
      bindS (with_err Bundle_read (add_preferences e profile EXTENSION_PREFERENCE_FILES entries)) (\<lambda>all.
      returnS (all @ [Zip_file ''manifest.json''
        (be_meta_json e \<lparr>bm_format = EXTENSION_BUNDLE_FORMAT,
           bm_profile_directory = dp_directory_name p, bm_stats = stats\<rparr>)], stats))))))"

definition sha256_file :: "bundle_env \<Rightarrow> path \<Rightarrow> (string \<times> u64) restoring" where
  "sha256_file e p =
     bindS (with_err (At_read p) (read_file (re_os e) p)) (\<lambda>b. returnS (be_sha256 e b, len_u64 b))"

definition write_bundle ::
  "bundle_env \<Rightarrow> discovered_profile \<Rightarrow> path \<Rightarrow> extension_stats \<Rightarrow> (files, bundle_fault, extension_stats) comp" where
  "write_bundle e p destination st =
     bindS (bundle_entries e p st) (\<lambda>(entries, stats).
     bindS (with_err Bundle_io (write_open (re_os e) destination (be_zip e entries))) (\<lambda>_.
     returnS stats))"

definition create_extension_bundle ::
  "bundle_env \<Rightarrow> discovered_profile \<Rightarrow> path \<Rightarrow> extension_descriptor restoring" where
  "create_extension_bundle e p destination =
     bindS (liftS (ok_or (At_bundle ''archive destination has no parent'') (path_parent destination))) (\<lambda>parent.
     bindS (with_err (At_write parent) (create_dir_all (re_os e) parent)) (\<lambda>_.
     bindS (with_err (\<lambda>x. At_archive destination (Archive_io x)) (create_new (re_os e) destination)) (\<lambda>_.
     bindS (count_extensions (re_os e) (dp_path p)) (\<lambda>extensions.
     bindS (attempt (write_bundle e p destination
              \<lparr>es_extensions = extensions, es_files = 0, es_bytes = 0\<rparr>)) (\<lambda>result.
     case result of
       Inl x \<Rightarrow>
         fail_removing (re_os e) destination
           (case x of Bundle_io y \<Rightarrow> At_archive destination (Archive_io y)
            | Bundle_read y \<Rightarrow> At_archive destination (Archive_other ''preferences''))
     | Inr stats \<Rightarrow>
         bindS (sha256_file e destination) (\<lambda>(sha256, size).
         returnS \<lparr>ed_format = EXTENSION_BUNDLE_FORMAT, ed_profile_directory = dp_directory_name p,
                  ed_archive_sha256 = sha256, ed_archive_bytes = size, ed_stats = stats\<rparr>))))))"

end
