(* ===== verification/ExtRestore.thy ===== *)
theory ExtRestore
  imports ExtBundle
begin

text \<open>
  Loading an extension bundle (\<open>restore_extension_bundle\<close> of \<open>helium-sync-profile/src/lib.rs\<close>):
  the archive is checked and unpacked into a temporary directory of the profile, the current
  data is backed up, then every target is moved aside and the staged one moved in, with a
  roll-back when a move fails. Temporary directories are removed when their owner is dropped,
  on every way out.
  \<^item> The ZIP reader is a field of \<open>ext_env\<close>: an archive is the entries by index and the entry of
    each name, an entry has the path \<open>enclosed_name\<close> gives it and its bytes. The archive file
    is read in one call, and so is each entry.
  \<^item> \<open>xe_temp_name\<close> draws the random part of a temporary name; a name that is taken is an error
    here (the library tries again).
\<close>

section \<open>Data\<close>

record zip_entry =
  ze_enclosed :: "path option"
  ze_is_dir :: bool
  ze_data :: "string + bytes"

record zip_archive =
  za_entries :: "(string + zip_entry) list"
  za_by_name :: "string \<Rightarrow> string + zip_entry"

record ext_env = bundle_env +
  xe_open_zip :: "bytes \<Rightarrow> string + zip_archive"
  xe_meta_of :: "bytes \<Rightarrow> string + bundle_meta"
  xe_prefs_pretty :: "pref_value \<Rightarrow> string + bytes"
  xe_temp_name :: "nat \<Rightarrow> string"

record extension_restore_result =
  er_backup_path :: path
  er_stats :: extension_stats

definition entry_bytes :: "zip_archive \<Rightarrow> string \<Rightarrow> restore_error + bytes" where
  "entry_bytes a name = map_err At_bundle (andThen (za_by_name a name) ze_data)"

section \<open>Temporary directories\<close>

definition STAGE_PREFIX :: string where
  "STAGE_PREFIX = ''.helium-sync-extension-stage-''"

definition ROLLBACK_PREFIX :: string where
  "ROLLBACK_PREFIX = ''.helium-sync-extension-rollback-''"

definition tempdir_in :: "ext_env \<Rightarrow> string \<Rightarrow> path \<Rightarrow> path restoring" where
  "tempdir_in e prefix dir = (\<lambda>s.
     let tmp = dir @ [Normal (prefix @ xe_temp_name e (fs_calls s))]
     in bindS (with_err (At_write dir) (mkdir (re_os e) tmp)) (\<lambda>_. returnS tmp) s)"

text \<open>\<open>TempDir\<close>'s destructor runs however its scope is left and ignores its own errors.\<close>

definition dropping :: "os \<Rightarrow> path \<Rightarrow> 'a restoring \<Rightarrow> 'a restoring" where
  "dropping w tmp m = (\<lambda>s. let (r, s1) = m s; (_, s2) = remove_dir_all w tmp s1 in (r, s2))"

section \<open>Unpacking\<close>

fun comp_text :: "path_comp \<Rightarrow> string" where
  "comp_text RootDir = ''/''"
| "comp_text CurDir = ''.''"
| "comp_text ParentDir = ''..''"
| "comp_text (Normal s) = s"

fun validate_extension_relative_path :: "path \<Rightarrow> restore_error + unit" where
  "validate_extension_relative_path [] = Inl (At_bundle ''empty payload path'')"
| "validate_extension_relative_path (c # rest) =
     (if comp_text c \<in> set EXTENSION_DIRECTORIES then Inr ()
      else if comp_text c = ''IndexedDB''
              \<and> extension_store (case rest of [] \<Rightarrow> [] | child # _ \<Rightarrow> comp_text child)
      then Inr ()
      else Inl (At_bundle ''payload path is outside the extension allowlist''))"

text \<open>\<open>strip_prefix("payload")\<close>.\<close>

fun payload_path :: "path \<Rightarrow> path option" where
  "payload_path (Normal x # rest) = (if x = ''payload'' then Some rest else None)"
| "payload_path _ = None"

definition make_parent :: "os \<Rightarrow> path \<Rightarrow> (files, path \<times> io_error, unit) comp" where
  "make_parent w p =
     (case path_parent p of
        None \<Rightarrow> returnS ()
      | Some parent \<Rightarrow> with_err (Pair parent) (create_dir_all w parent))"

definition create_parent_of :: "os \<Rightarrow> path \<Rightarrow> unit restoring" where
  "create_parent_of w p = with_err (\<lambda>(parent, x). At_write parent x) (make_parent w p)"

definition unpack_file :: "os \<Rightarrow> path \<Rightarrow> string + bytes \<Rightarrow> unit restoring" where
  "unpack_file w destination content =
     bindS (create_parent_of w destination) (\<lambda>_.
     bindS (with_err (At_write destination) (create_new w destination)) (\<lambda>_.
     case content of
       Inl x \<Rightarrow> liftS (Inl (At_write destination Invalid_data))
     | Inr b \<Rightarrow> with_err (At_write destination) (write_open w destination b)))"

definition extract_entry :: "os \<Rightarrow> path \<Rightarrow> zip_entry \<Rightarrow> unit restoring" where
  "extract_entry w staged z =
     (case ze_enclosed z of
        None \<Rightarrow> liftS (Inl (At_bundle ''unsafe path''))
      | Some enclosed \<Rightarrow>
          (case payload_path enclosed of
             None \<Rightarrow> returnS ()
           | Some relative \<Rightarrow>
               if relative = [] then returnS ()
               else
                 bindS (liftS (validate_extension_relative_path relative)) (\<lambda>_.
                 if ze_is_dir z
                 then with_err (At_write (path_join staged relative)) (create_dir_all w (path_join staged relative))
                 else unpack_file w (path_join staged relative) (ze_data z))))"

fun extract_extension_payload :: "os \<Rightarrow> path \<Rightarrow> (string + zip_entry) list \<Rightarrow> unit restoring" where
  "extract_extension_payload w staged [] = returnS ()"
| "extract_extension_payload w staged (entry # rest) =
     bindS (liftS (map_err At_bundle entry)) (\<lambda>z.
     bindS (extract_entry w staged z) (\<lambda>_.
     extract_extension_payload w staged rest))"

section \<open>Preference files\<close>

definition live_preferences :: "ext_env \<Rightarrow> path \<Rightarrow> pref_value restoring" where
  "live_preferences e live =
     bindS (path_is_file (re_os e) live) (\<lambda>there.
     if there
     then bindS (with_err (At_read live) (read_file (re_os e) live)) (\<lambda>b.
          liftS (map_err (\<lambda>_. At_parse live) (be_prefs_of e b)))
     else returnS (P_object []))"

definition replace_section ::
  "pref_value \<Rightarrow> (string \<times> pref_value) list \<Rightarrow> (string \<times> pref_value) list" where
  "replace_section section fs =
     (if section = P_null then filter (\<lambda>f. fst f \<noteq> ''extensions'') fs
      else btree_insert ''extensions'' section fs)"

definition stage_preference_file :: "ext_env \<Rightarrow> zip_archive \<Rightarrow> path \<Rightarrow> path \<Rightarrow> string \<Rightarrow> unit restoring" where
  "stage_preference_file e a live_profile staged_profile file =
     (let live = live_profile @ [Normal file]; staged = staged_profile @ [Normal file] in
      bindS (liftS (andThen (entry_bytes a (preferences_entry file)) (\<lambda>b.
        map_err At_bundle (be_prefs_of e b)))) (\<lambda>section.
      bindS (path_exists (re_os e) live) (\<lambda>there.
      if \<not> there \<and> section = P_null then returnS ()
      else
        bindS (live_preferences e live) (\<lambda>preferences.
        case preferences of
          P_object fs \<Rightarrow>
            bindS (liftS (map_err (\<lambda>_. At_parse staged)
              (xe_prefs_pretty e (P_object (replace_section section fs))))) (\<lambda>b.
            with_err (At_write staged) (write_file (re_os e) staged b))
        | _ \<Rightarrow> liftS (Inl (At_bundle ''not a JSON object''))))))"

fun stage_preference_files :: "ext_env \<Rightarrow> zip_archive \<Rightarrow> path \<Rightarrow> path \<Rightarrow> string list \<Rightarrow> unit restoring" where
  "stage_preference_files e a live staged [] = returnS ()"
| "stage_preference_files e a live staged (file # rest) =
     bindS (stage_preference_file e a live staged file) (\<lambda>_.
     stage_preference_files e a live staged rest)"

section \<open>Targets and roll-back\<close>

text \<open>A target is a relative path of one or two names.\<close>

type_synonym target = "string list"

definition target_path :: "path \<Rightarrow> target \<Rightarrow> path" where
  "target_path root t = root @ map Normal t"

definition stored_targets :: "os \<Rightarrow> path \<Rightarrow> target list restoring" where
  "stored_targets w root =
     (let db = root @ [Normal ''IndexedDB''] in
      bindS (path_is_dir w db) (\<lambda>there.
      if there then bindS (with_err (At_read db) (read_dir w db)) (\<lambda>es. returnS (indexed_db_names es))
      else returnS []))"

definition extension_restore_targets :: "os \<Rightarrow> path \<Rightarrow> path \<Rightarrow> target list restoring" where
  "extension_restore_targets w live staged =
     bindS (stored_targets w live) (\<lambda>old.
     bindS (stored_targets w staged) (\<lambda>new.
     returnS (sort (remdups (map (\<lambda>d. [d]) EXTENSION_DIRECTORIES @ old @ new
       @ map (\<lambda>f. [f]) EXTENSION_PREFERENCE_FILES)))))"

type_synonym faults = "(path \<times> io_error) list"

fun remove_installed :: "os \<Rightarrow> path \<Rightarrow> target list \<Rightarrow> faults \<Rightarrow> faults restoring" where
  "remove_installed w profile [] errs = returnS errs"
| "remove_installed w profile (t # ts) errs =
     (let live = target_path profile t in
      bindS (path_is_dir w live) (\<lambda>dir.
      bindS (attempt (if dir then remove_dir_all w live else remove_file w live)) (\<lambda>r.
      remove_installed w profile ts (case r of Inl x \<Rightarrow> errs @ [(live, x)] | Inr _ \<Rightarrow> errs))))"

text \<open>Put one target back; the fault, if there is one.\<close>

definition put_back :: "os \<Rightarrow> path \<Rightarrow> path \<Rightarrow> target \<Rightarrow> faults restoring" where
  "put_back w profile rollback t =
     (let live = target_path profile t in
      bindS (attempt (make_parent w live)) (\<lambda>made.
      case made of
        Inl x \<Rightarrow> returnS [x]
      | Inr _ \<Rightarrow>
          bindS (attempt (rename w (target_path rollback t) live)) (\<lambda>r.
          returnS (case r of Inl x \<Rightarrow> [(live, x)] | Inr _ \<Rightarrow> []))))"

fun restore_moved :: "os \<Rightarrow> path \<Rightarrow> path \<Rightarrow> target list \<Rightarrow> faults \<Rightarrow> faults restoring" where
  "restore_moved w profile rollback [] errs = returnS errs"
| "restore_moved w profile rollback (t # ts) errs =
     bindS (put_back w profile rollback t) (\<lambda>more.
     restore_moved w profile rollback ts (errs @ more))"

definition rollback_extension_targets ::
  "os \<Rightarrow> path \<Rightarrow> path \<Rightarrow> target list \<Rightarrow> target list \<Rightarrow> faults restoring" where
  "rollback_extension_targets w profile rollback moved installed =
     bindS (remove_installed w profile (rev installed) [])
       (restore_moved w profile rollback (rev moved))"

text \<open>Give up with what the roll-back reports.\<close>

definition give_up ::
  "os \<Rightarrow> path \<Rightarrow> path \<Rightarrow> target list \<Rightarrow> target list \<Rightarrow> (faults \<Rightarrow> restore_error) \<Rightarrow> 'a restoring" where
  "give_up w profile rollback moved installed x =
     bindS (rollback_extension_targets w profile rollback moved installed) (\<lambda>errs. liftS (Inl (x errs)))"

text \<open>One round of each loop: the targets moved aside, and those installed, after it.\<close>

definition move_target ::
  "os \<Rightarrow> path \<Rightarrow> path \<Rightarrow> path \<Rightarrow> target \<Rightarrow> target list \<Rightarrow> target list restoring" where
  "move_target w profile rollback backup t moved =
     (let live = target_path profile t; previous = target_path rollback t in
      bindS (path_exists w live) (\<lambda>there.
      if \<not> there then returnS moved
      else
        bindS (create_parent_of w previous) (\<lambda>_.
        bindS (attempt (rename w live previous)) (\<lambda>r.
        case r of
          Inl x \<Rightarrow> give_up w profile rollback moved []
                     (\<lambda>errs. At_archive live (Old_not_moved x errs backup))
        | Inr _ \<Rightarrow> returnS (moved @ [t])))))"

fun move_old :: "os \<Rightarrow> path \<Rightarrow> path \<Rightarrow> path \<Rightarrow> target list \<Rightarrow> target list \<Rightarrow> target list restoring" where
  "move_old w profile rollback backup [] moved = returnS moved"
| "move_old w profile rollback backup (t # ts) moved =
     bindS (move_target w profile rollback backup t moved)
       (move_old w profile rollback backup ts)"

definition install_target ::
  "os \<Rightarrow> path \<Rightarrow> path \<Rightarrow> path \<Rightarrow> path \<Rightarrow> target list \<Rightarrow> target \<Rightarrow> target list \<Rightarrow> target list restoring" where
  "install_target w profile staged rollback backup moved t installed =
     (let live = target_path profile t; source = target_path staged t in
      bindS (path_exists w source) (\<lambda>there.
      if \<not> there then returnS installed
      else
        bindS (attempt (make_parent w live)) (\<lambda>made.
        case made of
          Inl (parent, x) \<Rightarrow>
            give_up w profile rollback moved installed
              (\<lambda>errs. At_archive parent (Destination_not_made x errs backup))
        | Inr _ \<Rightarrow>
            bindS (attempt (rename w source live)) (\<lambda>r.
            case r of
              Inl x \<Rightarrow> give_up w profile rollback moved installed
                         (\<lambda>errs. At_archive live (New_not_installed x errs backup))
            | Inr _ \<Rightarrow> returnS (installed @ [t])))))"

fun install_staged ::
  "os \<Rightarrow> path \<Rightarrow> path \<Rightarrow> path \<Rightarrow> path \<Rightarrow> target list \<Rightarrow> target list \<Rightarrow> target list \<Rightarrow> unit restoring" where
  "install_staged w profile staged rollback backup moved [] installed = returnS ()"
| "install_staged w profile staged rollback backup moved (t # ts) installed =
     bindS (install_target w profile staged rollback backup moved t installed)
       (install_staged w profile staged rollback backup moved ts)"

section \<open>The whole restore\<close>

definition read_bundle :: "ext_env \<Rightarrow> discovered_profile \<Rightarrow> path \<Rightarrow> (zip_archive \<times> bundle_meta) restoring" where
  "read_bundle e p archive_path =
     bindS (with_err (At_read archive_path) (read_file (re_os e) archive_path)) (\<lambda>b.
     bindS (liftS (map_err At_bundle (xe_open_zip e b))) (\<lambda>a.
     bindS (liftS (andThen (entry_bytes a ''manifest.json'') (\<lambda>m.
       map_err At_bundle (xe_meta_of e m)))) (\<lambda>meta.
     if bm_format meta \<noteq> EXTENSION_BUNDLE_FORMAT
     then liftS (Inl (At_bundle ''unsupported format''))
     else if bm_profile_directory meta \<noteq> dp_directory_name p
     then liftS (Inl (At_mismatch (bm_profile_directory meta) (dp_directory_name p)))
     else returnS (a, meta))))"

definition stage_bundle :: "ext_env \<Rightarrow> discovered_profile \<Rightarrow> zip_archive \<Rightarrow> path \<Rightarrow> unit restoring" where
  "stage_bundle e p a staged =
     bindS (with_err (At_write staged) (mkdir (re_os e) staged)) (\<lambda>_.
     bindS (extract_extension_payload (re_os e) staged (za_entries a)) (\<lambda>_.
     stage_preference_files e a (dp_path p) staged EXTENSION_PREFERENCE_FILES))"

definition extensions_backup_path :: "ext_env \<Rightarrow> discovered_profile \<Rightarrow> path \<Rightarrow> path" where
  "extensions_backup_path e p downloads =
     path_join downloads (path_of
       (''Helium-Sync-'' @ safe_profile_name (dp_directory_name p) @ ''-extensions-before-load-''
         @ re_unique e @ ''.zip''))"

definition swap_targets :: "ext_env \<Rightarrow> discovered_profile \<Rightarrow> path \<Rightarrow> path \<Rightarrow> path \<Rightarrow> unit restoring" where
  "swap_targets e p staged rollback backup =
     (let w = re_os e; profile = dp_path p in
      bindS (extension_restore_targets w profile staged) (\<lambda>targets.
      bindS (move_old w profile rollback backup targets []) (\<lambda>moved.
      install_staged w profile staged rollback backup moved targets [])))"

definition backup_extensions :: "ext_env \<Rightarrow> discovered_profile \<Rightarrow> path \<Rightarrow> unit restoring" where
  "backup_extensions e p downloads =
     bindS (with_err (At_write downloads) (create_dir_all (re_os e) downloads)) (\<lambda>_.
     bindS (create_extension_bundle (bundle_env.truncate e) p (extensions_backup_path e p downloads)) (\<lambda>_.
     returnS ()))"

definition replace_extensions ::
  "ext_env \<Rightarrow> discovered_profile \<Rightarrow> zip_archive \<Rightarrow> path \<Rightarrow> path \<Rightarrow> unit restoring" where
  "replace_extensions e p a stage downloads =
     (let staged = stage @ [Normal ''profile''] in
      bindS (stage_bundle e p a staged) (\<lambda>_.
      bindS (backup_extensions e p downloads) (\<lambda>_.
      bindS (tempdir_in e ROLLBACK_PREFIX (dp_path p)) (\<lambda>rollback.
      dropping (re_os e) rollback
        (swap_targets e p staged rollback (extensions_backup_path e p downloads))))))"

definition restore_extension_bundle ::
  "ext_env \<Rightarrow> discovered_profile \<Rightarrow> path \<Rightarrow> path \<Rightarrow> extension_restore_result restoring" where
  "restore_extension_bundle e p archive_path downloads =
     bindS (read_bundle e p archive_path) (\<lambda>(a, meta).
     bindS (tempdir_in e STAGE_PREFIX (dp_path p)) (\<lambda>stage.
     bindS (dropping (re_os e) stage (replace_extensions e p a stage downloads)) (\<lambda>_.
     returnS \<lparr>er_backup_path = extensions_backup_path e p downloads, er_stats = bm_stats meta\<rparr>)))"

end
