(* ===== verification/RestoreProps.thy ===== *)
theory RestoreProps
  imports Restore
begin

text \<open>
  Loading bookmarks never leaves a half-written file at the live path, whatever calls fail: it
  holds the old file or the new one, or, when moving the old file back fails too, nothing, with
  the old file beside it. Before the live file is touched the backup holds it, unless the one
  \<open>is_file\<close> check that decides what goes into the backup failed.
\<close>

section \<open>The backup\<close>

lemma fail_removing_only: "fail_removing w p x s = (r, s') \<Longrightarrow> only_at (place s p) s s' \<and> r = Inl x"
  using remove_file_effect(1) [of w p s]
  by (cases "remove_file w p s") (auto simp: fail_removing_def bindS_def liftS_def)

text \<open>What the archive holds instead when no bookmarks were seen.\<close>

definition readme_entry :: "string \<times> bytes" where
  "readme_entry =
     (''README.txt'', ascii_bytes (''No local Bookmarks file existed before this load.'' @ [char_of (10 :: nat)]))"

definition entries_when :: "bool \<Rightarrow> discovered_profile \<Rightarrow> bytes \<Rightarrow> (string \<times> bytes) list" where
  "entries_when seen p old = (if seen then [(backup_entry p, old)] else [readme_entry])"

lemma archive_contents_tree:
  assumes "archive_contents e p s = (r, s')"
  shows "same_tree s s'"
    "r = Inr entries \<Longrightarrow> node_of s (dp_bookmarks_path p) = Some (File old)
       \<Longrightarrow> entries = entries_when (\<not> os_blind (re_os e) (fs_stats s)) p old"
proof -
  let ?seen = "\<not> os_blind (re_os e) (fs_stats s)"
  obtain there s1 where s1: "path_is_file (re_os e) (dp_bookmarks_path p) s = (Inr there :: io_error + bool, s1)"
    by (simp add: path_is_file_def stat_def bindS_def returnS_def)
  note t = stat_tree(2) [OF s1]
  have "same_tree s s' \<and> (r = Inr entries \<longrightarrow> node_of s (dp_bookmarks_path p) = Some (File old)
      \<longrightarrow> entries = entries_when ?seen p old)"
  proof (cases there)
    case True
    obtain y s2 where s2: "read_file (re_os e) (dp_bookmarks_path p) s1 = (y, s2)"
      by (cases "read_file (re_os e) (dp_bookmarks_path p) s1")
    have run: "s' = s2" "r = (case y of Inl x \<Rightarrow> Inl x | Inr b \<Rightarrow> Inr [(backup_entry p, b)])"
      using assms True s1 s2 by (auto simp: archive_contents_def bindS_def returnS_def split: sum.splits)
    have "same_tree s s'"
      using t read_file_tree(1) [OF s2] same_tree_trans run(1) by blast
    moreover have "entries = [(backup_entry p, old)]"
      if "r = Inr entries" "node_of s (dp_bookmarks_path p) = Some (File old)"
      using that run(2) read_file_tree(2) [OF s2] same_tree_node t by (cases y) fastforce+
    moreover have ?seen using t True by simp
    ultimately show ?thesis by (simp add: entries_when_def)
  next
    case False
    with assms s1 have "s' = s1" "r = Inr [readme_entry]"
      by (simp_all add: archive_contents_def readme_entry_def bindS_def returnS_def)
    with t False show ?thesis by (auto simp: entries_when_def)
  qed
  then show "same_tree s s'" "r = Inr entries \<Longrightarrow> node_of s (dp_bookmarks_path p) = Some (File old)
      \<Longrightarrow> entries = entries_when ?seen p old" by blast+
qed

lemma create_backup_effect:
  assumes "create_backup_archive e b p s = (r, s')" and "apart (place s b) (place s (dp_bookmarks_path p))"
  shows "only_at (place s b) s s'"
    "r = Inr () \<Longrightarrow> node_of s (dp_bookmarks_path p) = Some (File old)
       \<Longrightarrow> node_of s' b = Some (File (re_zip e (entries_when (\<not> os_blind (re_os e) (fs_stats s)) p old)))"
proof -
  let ?w = "re_os e" and ?live = "dp_bookmarks_path p"
  let ?entries = "entries_when (\<not> os_blind ?w (fs_stats s)) p old"
  obtain y s1 where s1: "create_new ?w b s = (y, s1)" by (cases "create_new ?w b s")
  have "only_at (place s b) s s' \<and> (r = Inr () \<longrightarrow> node_of s ?live = Some (File old) \<longrightarrow>
    node_of s' b = Some (File (re_zip e ?entries)))"
  proof (cases y)
    case (Inl x)
    with s1 assms(1) have "s' = s1" "r \<noteq> Inr ()"
      by (auto simp: create_backup_archive_def bindS_def)
    with create_new_Inl s1 Inl show ?thesis by (auto intro: same_tree_only_at)
  next
    case (Inr u)
    with s1 have "create_new ?w b s = (Inr (), s1)" by simp
    note made = create_new_Inr [OF this]
    have ticks: "fs_stats s1 = fs_stats s"
      using \<open>create_new ?w b s = (Inr (), s1)\<close> by (auto simp: create_new_def sys_Inr)
    obtain z s2 where s2: "archive_contents e p s1 = (z, s2)" by (cases "archive_contents e p s1")
    note same = archive_contents_tree(1) [OF s2]
    have only2: "only_at (place s b) s s2"
      using made(3) same only_at_trans same_tree_only_at by blast
    have live1: "node_of s1 ?live = node_of s ?live"
      using only_at_node [OF made(3) assms(2)] .
    have at2: "place s2 b = place s b" using only2 by (rule only_at_place)
    show ?thesis
    proof (cases z)
      case (Inl x)
      with Inr s1 s2 assms(1) have "fail_removing ?w b (At_archive b (Archive_io x)) s2 = (r, s')"
        by (simp add: create_backup_archive_def bindS_def)
      from fail_removing_only [OF this] at2 only2 show ?thesis
        by (auto intro: only_at_trans)
    next
      case (Inr entries)
      obtain v s3 where s3: "write_open ?w b (re_zip e entries) s2 = (v, s3)"
        by (cases "write_open ?w b (re_zip e entries) s2")
      have "node_of s2 b = Some (File [])" using made(2) same by (simp add: same_tree_node)
      note written = write_open_effect [OF s3 this]
      have only3: "only_at (place s b) s s3"
        using written(1) at2 only2 only_at_trans by metis
      show ?thesis
      proof (cases v)
        case (Inl x)
        with \<open>y = Inr u\<close> Inr s1 s2 s3 assms(1)
        have "fail_removing ?w b (At_archive b (Archive_io x)) s3 = (r, s')"
          by (simp add: create_backup_archive_def bindS_def)
        from fail_removing_only [OF this] only_at_place [OF only3] only3 show ?thesis
          by (auto intro: only_at_trans)
      next
        case v: (Inr x)
        with \<open>y = Inr u\<close> Inr s1 s2 s3 assms(1) have "s' = s3"
          by (simp add: create_backup_archive_def bindS_def returnS_def)
        moreover have "entries = ?entries" if "node_of s ?live = Some (File old)"
          using archive_contents_tree(2) [OF s2] Inr that live1 ticks by metis
        ultimately show ?thesis using only3 written(3) v by auto
      qed
    qed
  qed
  then show "only_at (place s b) s s'"
    "r = Inr () \<Longrightarrow> node_of s ?live = Some (File old) \<Longrightarrow> node_of s' b = Some (File (re_zip e ?entries))"
    by blast+
qed

lemma stage_file_effect:
  assumes "stage_file w q b s = (r, s')"
  shows "only_at (place s q) s s'" "r = Inr () \<Longrightarrow> node_of s' q = Some (File b)"
proof -
  obtain y s1 where s1: "create_new w q s = (y, s1)" by (cases "create_new w q s")
  have "only_at (place s q) s s' \<and> (r = Inr () \<longrightarrow> node_of s' q = Some (File b))"
  proof (cases y)
    case (Inl x)
    with s1 assms have "s' = s1" "r \<noteq> Inr ()" by (auto simp: stage_file_def bindS_def)
    with create_new_Inl s1 Inl show ?thesis by (auto intro: same_tree_only_at)
  next
    case (Inr u)
    with s1 have "create_new w q s = (Inr (), s1)" by simp
    note made = create_new_Inr [OF this]
    obtain v s2 where s2: "write_open w q b s1 = (v, s2)" by (cases "write_open w q b s1")
    note written = write_open_effect [OF s2 made(2)]
    have only2: "only_at (place s q) s s2"
      using written(1) only_at_place [OF made(3)] made(3) only_at_trans by metis
    show ?thesis
    proof (cases v)
      case (Inl x)
      with Inr s1 s2 assms have "fail_removing w q (At_write q x) s2 = (r, s')"
        by (simp add: stage_file_def bindS_def)
      from fail_removing_only [OF this] only_at_place [OF only2] only2 show ?thesis
        by (auto intro: only_at_trans)
    next
      case v: (Inr x)
      with Inr s1 s2 assms have "s' = s2" by (simp add: stage_file_def bindS_def returnS_def)
      with only2 written(3) v show ?thesis by auto
    qed
  qed
  then show "only_at (place s q) s s'" "r = Inr () \<Longrightarrow> node_of s' q = Some (File b)" by blast+
qed

section \<open>The renames\<close>

text \<open>Three places of one directory, and what lies elsewhere.\<close>

definition three_apart :: "files \<Rightarrow> path \<Rightarrow> path \<Rightarrow> path \<Rightarrow> bool" where
  "three_apart s a b c \<longleftrightarrow>
     apart (place s a) (place s b) \<and> apart (place s b) (place s c) \<and> apart (place s c) (place s a)"

definition elsewhere_same :: "files \<Rightarrow> path list \<Rightarrow> files \<Rightarrow> bool" where
  "elsewhere_same s ps s' \<longleftrightarrow> fs_cwd s' = fs_cwd s
     \<and> (\<forall>q. (\<forall>p \<in> set ps. apart (place s p) (place s q)) \<longrightarrow> node_of s' q = node_of s q)"

lemma elsewhere_trans:
  assumes "elsewhere_same s ps s'" and "elsewhere_same s' ps s''"
  shows "elsewhere_same s ps s''"
proof -
  have "place s' q = place s q" for q using assms(1) by (simp add: elsewhere_same_def place_def)
  with assms show ?thesis by (simp add: elsewhere_same_def)
qed

lemma elsewhere_only: "only_at (place s p) s s' \<Longrightarrow> p \<in> set ps \<Longrightarrow> elsewhere_same s ps s'"
  by (auto simp: elsewhere_same_def intro: only_at_node) (simp add: only_at_def)

lemma elsewhere_same_tree: "same_tree s s' \<Longrightarrow> elsewhere_same s ps s'"
  by (auto simp: elsewhere_same_def same_tree_node) (simp add: same_tree_def)

lemma elsewhere_place: "elsewhere_same s ps s' \<Longrightarrow> place s' q = place s q"
  by (simp add: elsewhere_same_def place_def)

lemma rename_elsewhere:
  assumes "rename w p q s = (r, s')" and "apart (place s p) (place s q)" and "p \<in> set ps" "q \<in> set ps"
  shows "elsewhere_same s ps s'"
proof (cases r)
  case (Inl x)
  with assms(1) rename_Inl elsewhere_same_tree show ?thesis by metis
next
  case (Inr u)
  with assms(1) have "rename w p q s = (Inr (), s')" by simp
  then show ?thesis
    by (rule rename_Inr [OF _ assms(2)]) (use assms(3,4) in \<open>auto simp: elsewhere_same_def\<close>)
qed

lemma rename_moves:
  assumes "rename w p q s = (Inr (), s')" and "apart (place s p) (place s q)" and "node_of s p = Some n"
  shows "node_of s' q = Some n \<and> node_of s' p = None"
  using assms by (auto elim: rename_Inr)

lemma three_apart_cwd: "fs_cwd s' = fs_cwd s \<Longrightarrow> three_apart s' a b c \<longleftrightarrow> three_apart s a b c"
  by (simp add: three_apart_def place_def)

lemma elsewhere_cwd: "elsewhere_same s ps s' \<Longrightarrow> fs_cwd s' = fs_cwd s"
  by (simp add: elsewhere_same_def)

lemma three_apartD:
  assumes "three_apart s live staged previous"
  shows "apart (place s live) (place s staged)" "apart (place s staged) (place s previous)"
    "apart (place s live) (place s previous)" "apart (place s previous) (place s live)"
    "apart (place s staged) (place s live)" "apart (place s previous) (place s staged)"
  using assms apart_sym unfolding three_apart_def by blast+

text \<open>Removing the staged file on the way out.\<close>

lemma fail_removing_effect:
  assumes "fail_removing w staged x s = (r, s')" and "three_apart s live staged previous"
  shows "elsewhere_same s [live, staged, previous] s'" "r = Inl x"
    "node_of s' live = node_of s live" "node_of s' previous = node_of s previous"
proof -
  note failed = fail_removing_only [OF assms(1)] and ap = three_apartD [OF assms(2)]
  show "r = Inl x" using failed by simp
  show "elsewhere_same s [live, staged, previous] s'" using failed by (auto intro: elsewhere_only)
  show "node_of s' live = node_of s live" "node_of s' previous = node_of s previous"
    using only_at_node [OF conjunct1 [OF failed]] ap(5,2) by blast+
qed

lemma undo_replacement_effect:
  assumes run: "undo_replacement w live staged previous backup x s = (r, s')"
    and node: "node_of s live = None" "node_of s previous = Some (File old)"
    and "three_apart s live staged previous"
  shows "elsewhere_same s [live, staged, previous] s'
    \<and> (node_of s' live = Some (File old) \<and> r \<noteq> Inr ()
       \<or> node_of s' live = None \<and> node_of s' previous = Some (File old)
           \<and> (\<exists>a c. r = Inl (At_archive live (Replacement_lost a c backup))))"
proof -
  let ?ps = "[live, staged, previous]"
  note ap = three_apartD [OF assms(4)]
  obtain v s1 where s1: "rename w previous live s = (v, s1)" by (cases "rename w previous live s")
  let ?fault = "case v of Inr u \<Rightarrow> Replacement_restored x | Inl c \<Rightarrow> Replacement_lost x c backup"
  have e1: "elsewhere_same s ?ps s1" by (rule rename_elsewhere [OF s1 ap(4)]) simp_all
  from s1 run have "fail_removing w staged (At_archive live ?fault) s1 = (r, s')"
    by (simp add: undo_replacement_def bindS_def)
  note failed = fail_removing_effect [OF this, of live previous, unfolded three_apart_cwd [OF elsewhere_cwd [OF e1]], OF assms(4)]
  have e: "elsewhere_same s ?ps s'" using e1 failed(1) by (rule elsewhere_trans)
  show ?thesis
  proof (cases v)
    case (Inl c)
    then have "same_tree s s1" using s1 rename_Inl by simp
    then have "node_of s' live = None" "node_of s' previous = Some (File old)"
      using failed(3,4) node same_tree_node by metis+
    with failed(2) Inl e show ?thesis by simp
  next
    case (Inr u2)
    with s1 have "rename w previous live s = (Inr (), s1)" by simp
    from rename_moves [OF this ap(4) node(2)] have "node_of s' live = Some (File old)"
      using failed(3) by simp
    with failed(2) e show ?thesis by simp
  qed
qed

lemma replace_live_effect:
  assumes run: "replace_live w live staged previous backup s = (r, s')"
    and live: "node_of s live = Some (File old)" and staged: "node_of s staged = Some (File content)"
    and three: "three_apart s live staged previous"
  shows "elsewhere_same s [live, staged, previous] s'
    \<and> (node_of s' live = Some (File old) \<and> r \<noteq> Inr ()
       \<or> node_of s' live = Some (File content) \<and> (r = Inr () \<or> (\<exists>y. r = Inl (At_write previous y)))
       \<or> node_of s' live = None \<and> node_of s' previous = Some (File old)
           \<and> (\<exists>a c. r = Inl (At_archive live (Replacement_lost a c backup))))"
proof -
  let ?ps = "[live, staged, previous]"
  note ap = three_apartD [OF three]
  obtain y s1 where s1: "rename w live previous s = (y, s1)" by (cases "rename w live previous s")
  have e1: "elsewhere_same s ?ps s1" by (rule rename_elsewhere [OF s1 ap(3)]) simp_all
  have three1: "three_apart s1 live staged previous" using three three_apart_cwd [OF elsewhere_cwd [OF e1]] by simp
  show ?thesis
  proof (cases y)
    case (Inl x)
    with s1 run have "fail_removing w staged (At_write live x) s1 = (r, s')"
      by (simp add: replace_live_def bindS_def)
    note failed = fail_removing_effect [OF this three1]
    have "node_of s1 live = Some (File old)" using live s1 Inl rename_Inl same_tree_node by metis
    with failed e1 show ?thesis using elsewhere_trans by auto
  next
    case (Inr u)
    with s1 have s1: "rename w live previous s = (Inr (), s1)" by simp
    have n1: "node_of s1 previous = Some (File old)" "node_of s1 live = None"
      using rename_moves [OF s1 ap(3) live] by auto
    have "node_of s1 staged = Some (File content)"
      using rename_Inr [OF s1 ap(3)] ap(1,6) staged by metis
    note n1 = n1 this and ap1 = three_apartD [OF three1]
    obtain z s2 where s2: "rename w staged live s1 = (z, s2)" by (cases "rename w staged live s1")
    have e2: "elsewhere_same s1 ?ps s2" by (rule rename_elsewhere [OF s2 ap1(5)]) simp_all
    have three2: "three_apart s2 live staged previous" using three1 three_apart_cwd [OF elsewhere_cwd [OF e2]] by simp
    show ?thesis
    proof (cases z)
      case (Inl x)
      with Inr s1 s2 run have "undo_replacement w live staged previous backup x s2 = (r, s')"
        by (simp add: replace_live_def bindS_def)
      moreover have "node_of s2 live = None" "node_of s2 previous = Some (File old)"
        using n1 s2 Inl rename_Inl same_tree_node by metis+
      ultimately show ?thesis
        using undo_replacement_effect [OF _ _ _ three2] e1 e2 elsewhere_trans by blast
    next
      case (Inr u2)
      with s2 have s2: "rename w staged live s1 = (Inr (), s2)" by simp
      from \<open>y = Inr u\<close> s1 s2 run obtain v where
        v: "remove_file w previous s2 = (v, s')" "r = map_err (At_write previous) v"
        by (cases "remove_file w previous s2") (simp add: replace_live_def bindS_def)
      have "node_of s' live = Some (File content)"
        using only_at_node [OF remove_file_effect(1) [OF v(1)]] three_apartD(4) [OF three2]
          rename_moves [OF s2 ap1(5) n1(3)] by metis
      moreover have "elsewhere_same s ?ps s'"
        using elsewhere_only [OF remove_file_effect(1) [OF v(1)], of ?ps] e1 e2 elsewhere_trans by auto
      ultimately show ?thesis using v(2) by (cases v) auto
    qed
  qed
qed

lemma install_new_effect:
  assumes run: "install_new w live staged s = (r, s')"
    and live: "node_of s live = Some (File old)" and staged: "node_of s staged = Some (File content)"
    and ap: "apart (place s live) (place s staged)"
  shows "elsewhere_same s [live, staged, previous] s'
    \<and> (node_of s' live = Some (File old) \<and> r \<noteq> Inr () \<or> node_of s' live = Some (File content) \<and> r = Inr ())"
proof -
  let ?ps = "[live, staged, previous]"
  note ap' = apart_sym [OF ap]
  obtain y s1 where s1: "rename w staged live s = (y, s1)" by (cases "rename w staged live s")
  have e1: "elsewhere_same s ?ps s1" by (rule rename_elsewhere [OF s1 ap']) simp_all
  show ?thesis
  proof (cases y)
    case (Inl x)
    with s1 run have "fail_removing w staged (At_write live x) s1 = (r, s')"
      by (simp add: install_new_def bindS_def)
    note failed = fail_removing_only [OF this]
    have "same_tree s s1" using s1 Inl rename_Inl by simp
    then have "node_of s1 live = Some (File old)" using live same_tree_node by metis
    then have "node_of s' live = Some (File old)"
      using only_at_node [OF conjunct1 [OF failed], of live] ap' elsewhere_place [OF e1] by simp
    moreover have "elsewhere_same s1 ?ps s'" using failed by (auto intro: elsewhere_only)
    ultimately show ?thesis using e1 failed elsewhere_trans by blast
  next
    case (Inr u)
    with s1 run have "s' = s1" "r = Inr ()" by (simp_all add: install_new_def bindS_def returnS_def)
    moreover have "node_of s1 live = Some (File content)"
      using rename_moves [OF _ ap' staged] s1 Inr by simp
    ultimately show ?thesis using e1 by simp
  qed
qed

section \<open>The whole restore\<close>

text \<open>A file stays through \<open>create_dir_all\<close>.\<close>

lemma file_kept_mkdir: "keeps (at_place at (\<lambda>v v'. is_file_node v \<longrightarrow> v' = v)) (mkdir w p)"
proof -
  have R: "about_tree (at_place at (\<lambda>v v'. is_file_node v \<longrightarrow> v' = v))"
    by (rule at_place_about_tree) (auto intro!: reflpI transpI)
  show ?thesis
    unfolding mkdir_def
  proof (rule keeps_untouched [OF R])
    fix s x t
    assume act: "(let t = fs_root s; at = place s p
       in if p = [] then Inl No_entry
          else if entry_at t at \<noteq> None then Inl Already_exists
          else andThen (entry_check t at) (\<lambda>_. Inr ((), set_at t at (Some (Dir []))))) = Inr (x, t)"
    then have new: "entry_at (fs_root s) (place s p) = None"
      "is_dir_node (entry_at (fs_root s) (butlast (place s p)))"
      and t: "t = set_at (fs_root s) (place s p) (Some (Dir []))"
      by (auto simp: Let_def result_simps entry_check_Inr split: if_splits)
    show "at_place at (\<lambda>v v'. is_file_node v \<longrightarrow> v' = v) s (s\<lparr>fs_root := t\<rparr>)"
      using entry_at_set_at_new [OF new] unfolding at_place_def t by (auto simp: is_file_node_iff)
  qed
qed

lemma file_kept_create_dir_all:
  assumes "create_dir_all w p s = (r, s')" and "node_of s q = Some (File b)"
  shows "node_of s' q = Some (File b)" "fs_cwd s' = fs_cwd s"
proof -
  have R: "about_tree (at_place (place s q) (\<lambda>v v'. is_file_node v \<longrightarrow> v' = v))"
    by (rule at_place_about_tree) (auto intro!: reflpI transpI)
  have "keeps (at_place (place s q) (\<lambda>v v'. is_file_node v \<longrightarrow> v' = v)) (create_dir_all w p)"
    by (rule keeps_create_dir_all [OF R file_kept_mkdir])
  then have "at_place (place s q) (\<lambda>v v'. is_file_node v \<longrightarrow> v' = v) s s'"
    using assms(1) unfolding keeps_def by (metis snd_conv)
  with assms(2) show "node_of s' q = Some (File b)" "fs_cwd s' = fs_cwd s"
    by (auto simp: at_place_def node_of_def place_def split: if_splits)
qed

definition bookmarks_kept :: "discovered_profile \<Rightarrow> bytes \<Rightarrow> files \<Rightarrow> bool" where
  "bookmarks_kept p old s \<longleftrightarrow> node_of s (dp_bookmarks_path p) = Some (File old)"

definition backup_separate :: "restore_env \<Rightarrow> discovered_profile \<Rightarrow> path \<Rightarrow> files \<Rightarrow> bool" where
  "backup_separate e p downloads s \<longleftrightarrow>
     three_apart s (dp_bookmarks_path p) (staged_path e p) (previous_path e p)
     \<and> (\<forall>q \<in> {dp_bookmarks_path p, staged_path e p, previous_path e p}.
          apart (place s (backup_path e p downloads)) (place s q))"

text \<open>The backup holds the entries of an archive that saw the bookmarks, or did not.\<close>

definition backed_up ::
  "restore_env \<Rightarrow> discovered_profile \<Rightarrow> path \<Rightarrow> bytes \<Rightarrow> bool \<Rightarrow> files \<Rightarrow> bool" where
  "backed_up e p downloads old seen s \<longleftrightarrow>
     node_of s (backup_path e p downloads) = Some (File (re_zip e (entries_when seen p old)))"

text \<open>Whether the check before the backup saw the file: it is the first check after those that
  making the downloads directory took.\<close>

definition bookmarks_seen :: "restore_env \<Rightarrow> path \<Rightarrow> files \<Rightarrow> bool" where
  "bookmarks_seen e downloads s \<longleftrightarrow>
     \<not> os_blind (re_os e) (fs_stats (snd (create_dir_all (re_os e) downloads s)))"

lemma backup_separateD:
  assumes "backup_separate e p downloads s"
  shows "apart (place s (backup_path e p downloads)) (place s (dp_bookmarks_path p))"
    "apart (place s (staged_path e p)) (place s (dp_bookmarks_path p))"
    "apart (place s (dp_bookmarks_path p)) (place s (staged_path e p))"
    "apart (place s (dp_bookmarks_path p)) (place s (backup_path e p downloads))"
    "apart (place s (staged_path e p)) (place s (backup_path e p downloads))"
    "apart (place s (previous_path e p)) (place s (backup_path e p downloads))"
    "three_apart s (dp_bookmarks_path p) (staged_path e p) (previous_path e p)"
  using assms apart_sym unfolding backup_separate_def three_apart_def by blast+

lemma backup_separate_cwd: "fs_cwd s' = fs_cwd s \<Longrightarrow> backup_separate e p downloads s \<Longrightarrow> backup_separate e p downloads s'"
  by (simp add: backup_separate_def three_apart_def place_def)

lemma only_at_cwd: "only_at at s s' \<Longrightarrow> fs_cwd s' = fs_cwd s"
  by (simp add: only_at_def)

lemma prepare_restore_effect:
  assumes run: "prepare_restore e p downloads content s = (r, s')"
    and old: "bookmarks_kept p old s" and sep: "backup_separate e p downloads s"
  shows "bookmarks_kept p old s' \<and> fs_cwd s' = fs_cwd s
    \<and> (r = Inr () \<longrightarrow> node_of s' (staged_path e p) = Some (File content)
          \<and> backed_up e p downloads old (bookmarks_seen e downloads s) s')"
proof -
  let ?w = "re_os e" and ?live = "dp_bookmarks_path p" and ?b = "backup_path e p downloads"
  note live = old [unfolded bookmarks_kept_def]
  obtain y s1 where s1: "create_dir_all ?w downloads s = (y, s1)" by (cases "create_dir_all ?w downloads s")
  note made = file_kept_create_dir_all [OF s1 live]
  obtain z s2 where s2: "create_backup_archive e ?b p s1 = (z, s2)" by (cases "create_backup_archive e ?b p s1")
  note sep1 = backup_separateD [OF backup_separate_cwd [OF made(2) sep]]
  note backup = create_backup_effect [OF s2 sep1(1)]
  have live2: "node_of s2 ?live = Some (File old)"
    using only_at_node [OF backup(1) sep1(1)] made(1) by simp
  have cwd2: "fs_cwd s2 = fs_cwd s" using only_at_cwd [OF backup(1)] made(2) by simp
  obtain v s3 where s3: "stage_file ?w (staged_path e p) content s2 = (v, s3)"
    by (cases "stage_file ?w (staged_path e p) content s2")
  note sep2 = backup_separateD [OF backup_separate_cwd [OF cwd2 sep]]
  note stage = stage_file_effect [OF s3]
  have n3: "node_of s3 ?live = Some (File old)" "node_of s3 ?b = node_of s2 ?b"
    using only_at_node [OF stage(1) sep2(2)] only_at_node [OF stage(1) sep2(5)] live2 by simp_all
  have cwd3: "fs_cwd s3 = fs_cwd s" using only_at_cwd [OF stage(1)] cwd2 by simp
  have run': "(case y of Inl x \<Rightarrow> (Inl (At_write downloads x), s1)
     | Inr _ \<Rightarrow> case z of Inl x \<Rightarrow> (Inl x, s2) | Inr _ \<Rightarrow> (v, s3)) = (r, s')"
    using run s1 s2 s3 by (auto simp: prepare_restore_def bindS_def split: sum.splits)
  then consider "r \<noteq> Inr ()" "s' = s1" | "r \<noteq> Inr ()" "s' = s2" | "z = Inr ()" "r = v" "s' = s3"
    by (auto split: sum.splits)
  then show ?thesis
  proof cases
    case 3
    with backup(2) made(1) n3(2) have "backed_up e p downloads old (bookmarks_seen e downloads s) s'"
      by (simp add: backed_up_def bookmarks_seen_def s1)
    with 3 stage(2) n3 cwd3 show ?thesis by (auto simp: bookmarks_kept_def)
  qed (use made live2 cwd2 in \<open>auto simp: bookmarks_kept_def\<close>)
qed

text \<open>How the swap can end.\<close>

definition swap_outcome ::
  "restore_env \<Rightarrow> discovered_profile \<Rightarrow> path \<Rightarrow> bytes \<Rightarrow> bytes \<Rightarrow> restore_error + unit \<Rightarrow> files \<Rightarrow> bool" where
  "swap_outcome e p downloads old content r s \<longleftrightarrow>
     bookmarks_kept p old s \<and> r \<noteq> Inr ()
     \<or> bookmarks_kept p content s \<and> (r = Inr () \<or> (\<exists>y. r = Inl (At_write (previous_path e p) y)))
     \<or> node_of s (dp_bookmarks_path p) = None \<and> node_of s (previous_path e p) = Some (File old)
         \<and> (\<exists>a c. r = Inl (At_archive (dp_bookmarks_path p) (Replacement_lost a c (backup_path e p downloads))))"

lemma swap_bookmarks_effect:
  assumes run: "swap_bookmarks e p downloads s = (r, s')"
    and old: "bookmarks_kept p old s" and sep: "backup_separate e p downloads s"
    and staged: "node_of s (staged_path e p) = Some (File content)"
  shows "swap_outcome e p downloads old content r s' \<and> (backed_up e p downloads old seen s \<longrightarrow> backed_up e p downloads old seen s')"
proof -
  let ?w = "re_os e" and ?live = "dp_bookmarks_path p" and ?b = "backup_path e p downloads"
  let ?ps = "[?live, staged_path e p, previous_path e p]"
  obtain there s1 where s1: "path_exists ?w ?live s = (Inr there :: restore_error + bool, s1)"
    by (simp add: path_exists_def stat_def bindS_def returnS_def)
  note same = conjunct1 [OF stat_tree(1) [OF s1]]
  have n1: "node_of s1 q = node_of s q" for q using same by (rule same_tree_node)
  note sep1 = backup_separateD [OF backup_separate_cwd [OF same [unfolded same_tree_def, THEN conjunct1] sep]]
  have live1: "node_of s1 ?live = Some (File old)" "node_of s1 (staged_path e p) = Some (File content)"
    using n1 old staged by (simp_all add: bookmarks_kept_def)
  have "elsewhere_same s1 ?ps s' \<and> swap_outcome e p downloads old content r s'"
  proof (cases there)
    case True
    with run s1 have "replace_live ?w ?live (staged_path e p) (previous_path e p) ?b s1 = (r, s')"
      by (simp add: swap_bookmarks_def bindS_def)
    from replace_live_effect [OF this live1 sep1(7)] show ?thesis
      unfolding swap_outcome_def bookmarks_kept_def .
  next
    case False
    with run s1 have "install_new ?w ?live (staged_path e p) s1 = (r, s')"
      by (simp add: swap_bookmarks_def bindS_def)
    from install_new_effect [OF this live1 sep1(3), of "previous_path e p"] show ?thesis
      unfolding swap_outcome_def bookmarks_kept_def by blast
  qed
  moreover from this sep1(4-6) have "node_of s' ?b = node_of s1 ?b"
    by (simp add: elsewhere_same_def)
  ultimately show ?thesis using n1 by (simp add: backed_up_def)
qed

lemma profile_names:
  assumes "CHR ''/'' \<notin> set u"
  shows "path_of (staged_name u) = [Normal (staged_name u)]"
    "path_of (previous_name u) = [Normal (previous_name u)]"
proof -
  have "plain_name (staged_name u)" "plain_name (previous_name u)"
    using assms by (simp_all add: plain_name_def staged_name_def previous_name_def)
  then show "path_of (staged_name u) = [Normal (staged_name u)]"
    "path_of (previous_name u) = [Normal (previous_name u)]"
    by (simp_all add: path_of_plain)
qed

lemma profile_files_separate:
  assumes "dp_bookmarks_path p = dp_path p @ [Normal ''Bookmarks'']" and "CHR ''/'' \<notin> set (re_unique e)"
    and "apart (place s (backup_path e p downloads)) (place s (dp_path p))"
  shows "backup_separate e p downloads s"
proof -
  let ?u = "re_unique e"
  have paths: "staged_path e p = dp_path p @ [Normal (staged_name ?u)]"
    "previous_path e p = dp_path p @ [Normal (previous_name ?u)]"
    by (simp_all add: staged_path_def previous_path_def profile_names [OF assms(2)])
  have "staged_name ?u \<noteq> previous_name ?u" "staged_name ?u \<noteq> ''Bookmarks''" "previous_name ?u \<noteq> ''Bookmarks''"
    by (simp_all add: staged_name_def previous_name_def)
  then show ?thesis
    using apart_below2 [OF assms(3)] by (auto simp: backup_separate_def three_apart_def assms(1) paths)
qed

lemma restore_bookmarks_outcome:
  assumes "restore_bookmarks e p snapshot downloads s = (res, s')"
    and "node_of s (dp_bookmarks_path p) = Some (File old)"
    and "dp_bookmarks_path p = dp_path p @ [Normal ''Bookmarks'']" and "CHR ''/'' \<notin> set (re_unique e)"
    and "apart (place s (backup_path e p downloads)) (place s (dp_path p))"
  shows "bookmarks_kept p old s' \<and> (\<forall>r. res \<noteq> Inr r)
    \<or> (\<exists>content r. re_to_text e (chromium_bookmarks_value snapshot) = Some content
        \<and> backed_up e p downloads old (bookmarks_seen e downloads s) s'
        \<and> swap_outcome e p downloads old content r s'
        \<and> res = (case r of Inl x \<Rightarrow> Inl x
           | Inr _ \<Rightarrow> Inr \<lparr>rr_backup_path = backup_path e p downloads,
                            rr_stats = bookmark_stats (re_json_len e) snapshot\<rparr>))"
proof -
  note sep = profile_files_separate [OF assms(3-5)]
  have old: "bookmarks_kept p old s" using assms(2) by (simp add: bookmarks_kept_def)
  show ?thesis
  proof (cases "bs_profile_directory snapshot = dp_directory_name p
      \<and> re_to_text e (chromium_bookmarks_value snapshot) \<noteq> None")
    case False
    with assms(1) have "s' = s" "\<forall>r. res \<noteq> Inr r"
      by (auto simp: restore_bookmarks_def liftS_def bindS_def split: if_splits)
    with old show ?thesis by simp
  next
    case True
    then obtain content where content: "re_to_text e (chromium_bookmarks_value snapshot) = Some content" by auto
    obtain y s1 where s1: "prepare_restore e p downloads content s = (y, s1)"
      by (cases "prepare_restore e p downloads content s")
    note prepared = prepare_restore_effect [OF s1 old sep]
    obtain r s2 where s2: "swap_bookmarks e p downloads s1 = (r, s2)" by (cases "swap_bookmarks e p downloads s1")
    let ?done = "Inr \<lparr>rr_backup_path = backup_path e p downloads,
      rr_stats = bookmark_stats (re_json_len e) snapshot\<rparr>"
    have run: "(case y of Inl x \<Rightarrow> (Inl x, s1)
       | Inr _ \<Rightarrow> (case r of Inl x \<Rightarrow> Inl x | Inr _ \<Rightarrow> ?done, s2)) = (res, s')"
      using assms(1) True content s1 s2
      by (auto simp: restore_bookmarks_def bindS_def liftS_def returnS_def split: sum.splits)
    show ?thesis
    proof (cases y)
      case (Inl x)
      with run prepared show ?thesis by auto
    next
      case (Inr u)
      have "backup_separate e p downloads s1"
        using backup_separate_cwd sep prepared by blast
      from swap_bookmarks_effect [OF s2 _ this] prepared Inr
      have "swap_outcome e p downloads old content r s2"
        "backed_up e p downloads old (bookmarks_seen e downloads s) s2" by auto
      with run Inr content show ?thesis by auto
    qed
  qed
qed

text \<open>C7. Whatever calls fail, loading bookmarks over an existing file ends in one of two ways.
  Either the live file is the old one and an error is returned; or the live path holds the whole
  new file (returning \<open>Ok\<close>, or an error that only says the old file set aside could not be
  removed), or nothing, when both the second rename and its undoing failed, in which case the old
  file lies beside it and the error names the backup. In the second case the backup holds the old
  file exactly if the \<open>is_file\<close> check before it (\<open>bookmarks_seen\<close>) did not fail; if it failed, the
  backup holds the README that says there were no bookmarks, and the load goes on.\<close>

theorem bookmarks_replaced_or_kept:
  assumes "restore_bookmarks e p snapshot downloads s = (res, s')"
    and "node_of s (dp_bookmarks_path p) = Some (File old)"
    and "dp_bookmarks_path p = dp_path p @ [Normal ''Bookmarks'']" and "CHR ''/'' \<notin> set (re_unique e)"
    and "apart (place s (backup_path e p downloads)) (place s (dp_path p))"
  shows "bookmarks_kept p old s' \<and> (\<forall>r. res \<noteq> Inr r)
    \<or> (\<exists>content r. re_to_text e (chromium_bookmarks_value snapshot) = Some content
        \<and> backed_up e p downloads old (bookmarks_seen e downloads s) s'
        \<and> swap_outcome e p downloads old content r s'
        \<and> res = (case r of Inl x \<Rightarrow> Inl x
           | Inr _ \<Rightarrow> Inr \<lparr>rr_backup_path = backup_path e p downloads,
                            rr_stats = bookmark_stats (re_json_len e) snapshot\<rparr>))"
  by (rule restore_bookmarks_outcome [OF assms])

definition demo_restore :: "(nat \<Rightarrow> nat option) \<Rightarrow> restore_env" where
  "demo_restore fault =
     \<lparr>re_os = \<lparr>os_fault = fault, os_blind = (\<lambda>n. False)\<rparr>, re_zip = (\<lambda>entries. concat (map snd entries)),
      re_to_text = (\<lambda>j. Some [2]), re_json_len = (\<lambda>b. None), re_unique = ''7-1''\<rparr>"

definition demo_profile :: discovered_profile where
  "demo_profile =
     \<lparr>dp_directory_name = ''Default'', dp_display_name = ''Default'', dp_path = [RootDir, Normal ''p''],
      dp_bookmarks_path = [RootDir, Normal ''p'', Normal ''Bookmarks''], dp_bookmark_status = Readable\<rparr>"

definition demo_disk :: files where
  "demo_disk =
     \<lparr>fs_root = Dir [(''p'', Dir [(''Bookmarks'', File [1])]), (''d'', Dir [])],
      fs_cwd = [], fs_calls = 0, fs_stats = 0\<rparr>"

text \<open>The check before the backup fails and nothing else: the load returns \<open>Ok\<close>, the backup holds
  only the README, and no file holds the old bookmarks any more.\<close>

definition blind_restore :: restore_env where
  "blind_restore = (demo_restore (\<lambda>n. None))
     \<lparr>re_os := \<lparr>os_fault = (\<lambda>n. None), os_blind = (\<lambda>n. n = 1)\<rparr>,
      re_zip := (\<lambda>entries. if map fst entries = [''README.txt''] then [9] else concat (map snd entries))\<rparr>"

lemma blind_check_loses_bookmarks:
  "(let (r, s) = restore_bookmarks blind_restore demo_profile
       \<lparr>bs_format = [], bs_source_browser = [], bs_profile_directory = ''Default'',
        bs_chromium_version = 1, bs_roots = []\<rparr> [RootDir, Normal ''d''] demo_disk
    in (case r of Inl x \<Rightarrow> False | Inr y \<Rightarrow> True)
       \<and> fs_root s = Dir [(''p'', Dir [(''Bookmarks'', File [2])]),
           (''d'', Dir [(''Helium-Sync-Default-before-load-7-1.zip'', File (re_zip blind_restore [readme_entry]))])])"
  by code_simp

definition demo_load :: "(nat \<Rightarrow> nat option) \<Rightarrow> (restore_error + restore_result) \<times> files" where
  "demo_load fault =
     restore_bookmarks (demo_restore fault) demo_profile
       \<lparr>bs_format = [], bs_source_browser = [], bs_profile_directory = ''Default'',
        bs_chromium_version = 1, bs_roots = []\<rparr> [RootDir, Normal ''d''] demo_disk"

lemma bookmarks_replaced_or_kept_witness:
  "node_of (snd (demo_load (\<lambda>n. if n = 7 then Some 0 else None))) [RootDir, Normal ''p'', Normal ''Bookmarks'']
     \<in> {Some (File [1]), Some (File [2]), None}"
proof -
  let ?load = "demo_load (\<lambda>n. if n = 7 then Some 0 else None)"
  let ?e = "demo_restore (\<lambda>n. if n = 7 then Some 0 else None)" and ?d = "[RootDir, Normal ''d'']"
  have run: "restore_bookmarks ?e demo_profile
       \<lparr>bs_format = [], bs_source_browser = [], bs_profile_directory = ''Default'',
        bs_chromium_version = 1, bs_roots = []\<rparr> ?d demo_disk = (fst ?load, snd ?load)"
    by (simp add: demo_load_def)
  have name: "path_of (backup_name demo_profile ''7-1'') = [Normal (backup_name demo_profile ''7-1'')]"
    by (rule path_of_plain)
      (simp add: backup_name_def plain_name_def demo_profile_def safe_profile_name_def name_char_def code_of_def)
  have "node_of demo_disk (dp_bookmarks_path demo_profile) = Some (File [1])"
    "dp_bookmarks_path demo_profile = dp_path demo_profile @ [Normal ''Bookmarks'']"
    "CHR ''/'' \<notin> set (re_unique ?e)"
    "apart (place demo_disk (backup_path ?e demo_profile ?d)) (place demo_disk (dp_path demo_profile))"
    by (simp_all add: demo_disk_def demo_profile_def demo_restore_def node_of_def place_def)
      (simp add: backup_path_def name [unfolded demo_profile_def] path_join_names)
  from bookmarks_replaced_or_kept [OF run this] show ?thesis
    by (auto simp: bookmarks_kept_def swap_outcome_def demo_restore_def) (auto simp: demo_profile_def)
qed

end
