(* ===== verification/ExtExchange.thy ===== *)
theory ExtExchange
  imports ExtRestore RestoreProps
begin

text \<open>
  The exchange at the heart of loading an extension bundle (\<open>swap_targets\<close>). The entries it
  exchanges lie in three places (\<open>Live\<close>, \<open>Aside\<close>, \<open>Staged\<close>); \<open>view\<close> is the node at each, and
  the effect of every call on the view is one lemma. \<open>exchanging\<close> is the invariant of the two
  loops and \<open>goes_on\<close> what each of their rounds promises; \<open>swap_targets_goes_on\<close> is the result:
  all targets are the staged ones, or all are the old ones, or the error admits a loss.
\<close>

section \<open>Targets\<close>

definition extension_target :: "target \<Rightarrow> bool" where
  "extension_target t \<longleftrightarrow>
     (\<exists>d \<in> set EXTENSION_DIRECTORIES. t = [d]) \<or> (\<exists>f \<in> set EXTENSION_PREFERENCE_FILES. t = [f])
     \<or> (\<exists>x. t = [''IndexedDB'', x] \<and> extension_store x)"

lemma extension_target_nonempty: "extension_target t \<Longrightarrow> t \<noteq> []"
  by (auto simp: extension_target_def)

lemma extension_targets_apart:
  "extension_target t \<Longrightarrow> extension_target u \<Longrightarrow> t \<noteq> u \<Longrightarrow> apart t u"
proof -
  let ?fixed = "set EXTENSION_DIRECTORIES \<union> set EXTENSION_PREFERENCE_FILES"
  assume "extension_target t" "extension_target u" "t \<noteq> u"
  moreover have "''IndexedDB'' \<notin> ?fixed"
    by (simp add: EXTENSION_DIRECTORIES_def EXTENSION_PREFERENCE_FILES_def)
  ultimately show "apart t u"
    unfolding extension_target_def by (elim disjE bexE exE conjE) (auto simp del: set_append)
qed

text \<open>No target begins like a temporary directory.\<close>

lemma extension_target_hd:
  assumes "extension_target t"
  shows "hd t \<noteq> CHR ''.'' # x"
  using assms by (auto simp: extension_target_def EXTENSION_DIRECTORIES_def EXTENSION_PREFERENCE_FILES_def)

section \<open>The three places\<close>

datatype spot = Live | Aside | Staged

record layout =
  lay_profile :: path
  lay_aside :: string
  lay_stage :: string

fun root_of :: "layout \<Rightarrow> spot \<Rightarrow> path" where
  "root_of l Live = lay_profile l"
| "root_of l Aside = lay_profile l @ [Normal (lay_aside l)]"
| "root_of l Staged = lay_profile l @ [Normal (lay_stage l), Normal ''profile'']"

definition layout_ok :: "layout \<Rightarrow> bool" where
  "layout_ok l \<longleftrightarrow> downward (lay_profile l) \<and> lay_aside l \<noteq> lay_stage l
     \<and> (\<exists>x. lay_aside l = CHR ''.'' # x) \<and> (\<exists>x. lay_stage l = CHR ''.'' # x)"

definition spot_path :: "layout \<Rightarrow> spot \<Rightarrow> target \<Rightarrow> path" where
  "spot_path l k t = target_path (root_of l k) t"

fun spot_names :: "layout \<Rightarrow> spot \<Rightarrow> target \<Rightarrow> string list" where
  "spot_names l Live t = t"
| "spot_names l Aside t = lay_aside l # t"
| "spot_names l Staged t = lay_stage l # ''profile'' # t"

lemma spot_path_names: "spot_path l k t = lay_profile l @ map Normal (spot_names l k t)"
  by (cases k) (simp_all add: spot_path_def target_path_def)

lemma spot_place: "place s (spot_path l k t) = place s (lay_profile l) @ spot_names l k t"
  unfolding spot_path_names by (rule place_names)

lemma spots_apart:
  assumes "layout_ok l" and "extension_target t" "extension_target u" and "(k, t) \<noteq> (j, u)"
  shows "apart (place s (spot_path l k t)) (place s (spot_path l j u))"
proof -
  obtain a b where ab: "lay_aside l = CHR ''.'' # a" "lay_stage l = CHR ''.'' # b" "a \<noteq> b"
    using assms(1) by (auto simp: layout_ok_def)
  obtain x ts y us where t: "t = x # ts" "u = y # us"
    using assms(2,3) extension_target_nonempty by (metis list.exhaust)
  have "x \<noteq> CHR ''.'' # z" "y \<noteq> CHR ''.'' # z" for z
    using extension_target_hd assms(2,3) t by force+
  then show ?thesis
    using assms extension_targets_apart [OF assms(2,3)] ab t
    by (cases k; cases j) (auto simp: spot_place)
qed

definition view :: "layout \<Rightarrow> files \<Rightarrow> spot \<Rightarrow> target \<Rightarrow> node option" where
  "view l s k t = node_of s (spot_path l k t)"

definition same_view :: "layout \<Rightarrow> files \<Rightarrow> files \<Rightarrow> bool" where
  "same_view l s s' \<longleftrightarrow> (\<forall>k t. extension_target t \<longrightarrow> view l s' k t = view l s k t)"

lemma same_view_refl [simp]: "same_view l s s"
  by (simp add: same_view_def)

lemma same_view_trans: "same_view l s s' \<Longrightarrow> same_view l s' s'' \<Longrightarrow> same_view l s s''"
  by (simp add: same_view_def)

lemma same_tree_view: "same_tree s s' \<Longrightarrow> same_view l s s'"
  by (simp add: same_view_def view_def same_tree_node)

section \<open>Calls and the view\<close>

lemma rename_view:
  assumes run: "rename w (spot_path l k t) (spot_path l j u) s = (r, s')"
    and ok: "layout_ok l" "extension_target t" "extension_target u" "(k, t) \<noteq> (j, u)"
  shows "r \<noteq> Inr () \<Longrightarrow> same_view l s s'"
    "r = Inr () \<Longrightarrow> extension_target v \<Longrightarrow> view l s' i v =
       (if (i, v) = (j, u) then view l s k t else if (i, v) = (k, t) then None else view l s i v)"
proof -
  show "same_view l s s'" if "r \<noteq> Inr ()"
    using that run rename_Inl same_tree_view by (cases r) auto
  assume "r = Inr ()" and v: "extension_target v"
  with run have moved: "rename w (spot_path l k t) (spot_path l j u) s = (Inr (), s')" by simp
  from rename_Inr [OF moved spots_apart [OF ok]] spots_apart [OF ok(1)] ok(2,3) v
  show "view l s' i v = (if (i, v) = (j, u) then view l s k t else if (i, v) = (k, t) then None else view l s i v)"
    unfolding view_def by (metis Pair_inject)
qed

text \<open>Removing or changing one spot, or a part of it.\<close>

lemma only_at_view:
  assumes "only_at (place s (spot_path l k t)) s s'" and "layout_ok l" "extension_target t" "extension_target v"
    and "(i, v) \<noteq> (k, t)"
  shows "view l s' i v = view l s i v"
  unfolding view_def
  using only_at_node [OF assms(1)] spots_apart [OF assms(2,3,4)] assms(5) by metis

lemma make_parent_view:
  assumes run: "make_parent w (spot_path l k t) s = (r, s')" and ok: "layout_ok l" "extension_target t"
  shows "same_view l s s'"
proof -
  obtain ts x where t: "spot_names l k t = ts @ [x]"
    using extension_target_nonempty [OF ok(2)] by (cases k; cases t rule: rev_cases) auto
  let ?up = "lay_profile l @ map Normal ts"
  have up: "path_parent (spot_path l k t) = Some ?up"
    by (simp add: spot_path_names t flip: append_assoc)
  from run obtain y where y: "create_dir_all w ?up s = (y, s')"
    unfolding make_parent_def up by (cases "create_dir_all w ?up s") auto
  show ?thesis
    unfolding same_view_def
  proof (intro allI impI)
    fix j u
    assume u: "extension_target u"
    have "place s ?up \<noteq> place s (spot_path l j u) @ r" for r
    proof
      assume "place s ?up = place s (spot_path l j u) @ r"
      then have "place s (spot_path l k t) = place s (spot_path l j u) @ r @ [x]"
        by (simp add: spot_place place_names t)
      then have "\<not> apart (place s (spot_path l j u)) (place s (spot_path l k t))"
        by (simp add: apart_def)
      then have "(j, u) = (k, t)" using spots_apart [OF ok(1) u ok(2)] by blast
      with \<open>place s (spot_path l k t) = place s (spot_path l j u) @ r @ [x]\<close> show False by simp
    qed
    from create_dir_all_elsewhere [OF y _ this] ok(1)
    show "view l s' j u = view l s j u"
      by (simp add: view_def node_of_def place_def layout_ok_def)
  qed
qed

lemma stat_view:
  "path_exists w p s = (Inr b, s') \<Longrightarrow> same_view l s s'"
  "path_is_dir w p s = (Inr b, s') \<Longrightarrow> same_view l s s'"
  using stat_tree same_tree_view by blast+

section \<open>The roll-back\<close>

declare root_of.simps [simp del]

text \<open>Everything but the named spots is as it was.\<close>

definition view_but :: "layout \<Rightarrow> (spot \<times> target) set \<Rightarrow> files \<Rightarrow> files \<Rightarrow> bool" where
  "view_but l S s s' \<longleftrightarrow> (\<forall>k t. extension_target t \<longrightarrow> (k, t) \<notin> S \<longrightarrow> view l s' k t = view l s k t)"

lemma view_butD: "view_but l S s s' \<Longrightarrow> extension_target t \<Longrightarrow> (k, t) \<notin> S \<Longrightarrow> view l s' k t = view l s k t"
  by (simp add: view_but_def)

lemma same_view_but: "same_view l s s' \<Longrightarrow> view_but l S s s'"
  by (simp add: same_view_def view_but_def)

lemma view_but_trans:
  "view_but l S s s' \<Longrightarrow> view_but l T s' s'' \<Longrightarrow> S \<subseteq> U \<Longrightarrow> T \<subseteq> U \<Longrightarrow> view_but l U s s''"
  unfolding view_but_def by (metis subsetD)

lemma target_spots:
  "target_path (lay_profile l) t = spot_path l Live t"
  "target_path (root_of l k) t = spot_path l k t"
  by (simp_all add: spot_path_def root_of.simps)

lemma remove_target_view:
  assumes run: "(if dir then remove_dir_all w (spot_path l k t) else remove_file w (spot_path l k t)) s = (r, s')"
    and ok: "layout_ok l" "extension_target t"
  shows "view_but l {(k, t)} s s'" "r = Inr () \<Longrightarrow> view l s' k t = None"
proof -
  have "place s (spot_path l k t) \<noteq> []"
    using extension_target_nonempty [OF ok(2)] by (cases k) (simp_all add: spot_place)
  then have "only_at (place s (spot_path l k t)) s s' \<and> (r = Inr () \<longrightarrow> view l s' k t = None)"
    using run remove_dir_all_effect [of w "spot_path l k t" s r s'] remove_file_effect [of w "spot_path l k t" s r s']
    unfolding view_def by (metis (full_types))
  then show "view_but l {(k, t)} s s'" "r = Inr () \<Longrightarrow> view l s' k t = None"
    using only_at_view ok unfolding view_but_def by blast+
qed

lemma remove_installed_view:
  assumes "layout_ok l" "\<And>t. t \<in> set ts \<Longrightarrow> extension_target t"
    and "remove_installed w (lay_profile l) ts errs s = (r, s')"
  shows "\<exists>errs'. r = Inr errs' \<and> view_but l ({Live} \<times> set ts) s s'
    \<and> (errs' = [] \<longrightarrow> errs = [] \<and> (\<forall>t \<in> set ts. view l s' Live t = None))"
  using assms
proof (induction ts arbitrary: errs s)
  case Nil
  then show ?case by (auto simp: returnS_def view_but_def)
next
  case (Cons t ts)
  let ?p = "spot_path l Live t"
  obtain d s1 where d: "path_is_dir w ?p s = (Inr d :: restore_error + bool, s1)"
    by (cases "path_is_dir w ?p s :: (restore_error + bool) \<times> files") (auto simp: path_is_dir_def stat_def bindS_def returnS_def)
  obtain y s2 where y: "(if d then remove_dir_all w ?p else remove_file w ?p) s1 = (y, s2)"
    by (cases "(if d then remove_dir_all w ?p else remove_file w ?p) s1")
  let ?errs = "case y of Inl x \<Rightarrow> errs @ [(?p, x)] | Inr _ \<Rightarrow> errs"
  have t: "extension_target t" using Cons.prems(2) by simp
  have "remove_installed w (lay_profile l) ts ?errs s2 = (r, s')"
    using Cons.prems(3) d y by (simp add: target_spots Let_def bindS_def)
  from Cons.IH [OF Cons.prems(1) _ this] Cons.prems(2) obtain errs' where
    r: "r = Inr errs'" "view_but l ({Live} \<times> set ts) s2 s'"
      "errs' = [] \<Longrightarrow> ?errs = [] \<and> (\<forall>t \<in> set ts. view l s' Live t = None)" by auto
  note step = remove_target_view [OF y Cons.prems(1) t]
  have "view_but l {(Live, t)} s s2"
    by (rule view_but_trans [OF same_view_but [OF stat_view(2) [OF d]] step(1), of "{}"]) auto
  then have "view_but l ({Live} \<times> set (t # ts)) s s'"
    by (rule view_but_trans [OF _ r(2)]) auto
  moreover have "errs = [] \<and> view l s' Live t = None" if "errs' = []"
  proof -
    from r(3) [OF that] have "y = Inr ()" "errs = []" "t \<in> set ts \<Longrightarrow> view l s' Live t = None"
      by (cases y; auto)+
    with step(2) view_butD [OF r(2) t, of Live] show ?thesis by (cases "t \<in> set ts") auto
  qed
  ultimately show ?case using r by auto
qed

lemma rename_view_but:
  assumes "rename w (spot_path l k t) (spot_path l j u) s = (r, s')"
    and "layout_ok l" "extension_target t" "extension_target u" "(k, t) \<noteq> (j, u)"
  shows "view_but l {(k, t), (j, u)} s s'" "r \<noteq> Inr () \<Longrightarrow> same_view l s s'"
    "r = Inr () \<Longrightarrow> view l s' j u = view l s k t" "r = Inr () \<Longrightarrow> view l s' k t = None"
proof -
  note move = rename_view [OF assms]
  show "r \<noteq> Inr () \<Longrightarrow> same_view l s s'" by (rule move)
  show "r = Inr () \<Longrightarrow> view l s' j u = view l s k t" using move(2) assms(4) by simp
  show "r = Inr () \<Longrightarrow> view l s' k t = None"
    using move(2) [OF _ assms(3), of k] assms(5) by (metis prod.inject)
  show "view_but l {(k, t), (j, u)} s s'"
  proof (cases "r = Inr ()")
    case True
    then show ?thesis using move(2) unfolding view_but_def by (metis insert_iff)
  next
    case False
    then show ?thesis by (intro same_view_but move(1))
  qed
qed

lemma put_back_view:
  assumes "put_back w (lay_profile l) (root_of l Aside) t s = (r, s')" and ok: "layout_ok l" "extension_target t"
  shows "\<exists>more. r = Inr more \<and> view_but l {(Live, t), (Aside, t)} s s'
    \<and> (more = [] \<longrightarrow> view l s' Live t = view l s Aside t)"
proof -
  obtain y s1 where y: "make_parent w (spot_path l Live t) s = (y, s1)"
    by (cases "make_parent w (spot_path l Live t) s")
  note made = make_parent_view [OF y ok]
  show ?thesis
  proof (cases y)
    case (Inl x)
    with assms(1) y made show ?thesis
      by (auto simp: put_back_def Let_def target_spots bindS_def returnS_def intro: same_view_but)
  next
    case (Inr u)
    obtain z s2 where z: "rename w (spot_path l Aside t) (spot_path l Live t) s1 = (z, s2)"
      by (cases "rename w (spot_path l Aside t) (spot_path l Live t) s1")
    note moved = rename_view_but [OF z ok(1,2,2)]
    have "view_but l {(Live, t), (Aside, t)} s s2"
      by (rule view_but_trans [OF same_view_but [OF made] moved(1), of "{}"]) auto
    moreover have "view l s1 Aside t = view l s Aside t"
      using made ok(2) by (simp add: same_view_def)
    moreover have "s2 = s'" "r = Inr (case z of Inl x \<Rightarrow> [(spot_path l Live t, x)] | Inr _ \<Rightarrow> [])"
      using assms(1) y Inr z by (simp_all add: put_back_def Let_def target_spots bindS_def returnS_def)
    ultimately show ?thesis using moved(3) by (cases z) auto
  qed
qed

lemma restore_moved_view:
  assumes "layout_ok l" "\<And>t. t \<in> set ts \<Longrightarrow> extension_target t" and "distinct ts"
    and "restore_moved w (lay_profile l) (root_of l Aside) ts errs s = (r, s')"
  shows "\<exists>errs'. r = Inr errs' \<and> view_but l ({Live, Aside} \<times> set ts) s s'
    \<and> (errs' = [] \<longrightarrow> errs = [] \<and> (\<forall>t \<in> set ts. view l s' Live t = view l s Aside t))"
  using assms
proof (induction ts arbitrary: errs s)
  case Nil
  then show ?case by (auto simp: returnS_def view_but_def)
next
  case (Cons t ts)
  obtain y s1 where y: "put_back w (lay_profile l) (root_of l Aside) t s = (y, s1)"
    by (cases "put_back w (lay_profile l) (root_of l Aside) t s")
  have t: "extension_target t" using Cons.prems(2) by simp
  obtain more where more: "y = Inr more" "view_but l {(Live, t), (Aside, t)} s s1"
    "more = [] \<Longrightarrow> view l s1 Live t = view l s Aside t"
    using put_back_view [OF y Cons.prems(1) t] by blast
  have "restore_moved w (lay_profile l) (root_of l Aside) ts (errs @ more) s1 = (r, s')"
    using Cons.prems(4) y more(1) by (simp add: bindS_def)
  from Cons.IH [OF Cons.prems(1) _ _ this] Cons.prems(2,3) obtain errs' where
    r: "r = Inr errs'" "view_but l ({Live, Aside} \<times> set ts) s1 s'"
      "errs' = [] \<Longrightarrow> errs @ more = [] \<and> (\<forall>t \<in> set ts. view l s' Live t = view l s1 Aside t)" by auto
  have "view_but l ({Live, Aside} \<times> set (t # ts)) s s'"
    by (rule view_but_trans [OF more(2) r(2)]) auto
  moreover have "errs = [] \<and> (\<forall>u \<in> set (t # ts). view l s' Live u = view l s Aside u)" if e: "errs' = []"
  proof -
    have "view l s' Live t = view l s Aside t"
      using view_butD [OF r(2) t, of Live] more(3) r(3) [OF e] Cons.prems(3) by auto
    moreover have "view l s1 Aside u = view l s Aside u" if "u \<in> set ts" for u
      using view_butD [OF more(2), of u Aside] that Cons.prems(2,3) by auto
    ultimately show ?thesis using r(3) [OF e] by simp
  qed
  ultimately show ?case using r(1) by blast
qed

text \<open>A roll-back without faults: the old entries are back and the new ones gone.\<close>

lemma rollback_view:
  assumes ok: "layout_ok l" "\<And>t. t \<in> set moved \<union> set installed \<Longrightarrow> extension_target t" "distinct moved"
    and run: "rollback_extension_targets w (lay_profile l) (root_of l Aside) moved installed s = (r, s')"
  shows "\<exists>errs. r = Inr errs \<and> (errs = [] \<longrightarrow> (\<forall>t. extension_target t \<longrightarrow> view l s' Live t =
    (if t \<in> set moved then view l s Aside t else if t \<in> set installed then None else view l s Live t)))"
proof -
  obtain y s1 where y: "remove_installed w (lay_profile l) (rev installed) [] s = (y, s1)"
    by (cases "remove_installed w (lay_profile l) (rev installed) [] s")
  obtain errs1 where a: "y = Inr errs1" "view_but l ({Live} \<times> set installed) s s1"
    "errs1 = [] \<Longrightarrow> \<forall>t \<in> set installed. view l s1 Live t = None"
    using remove_installed_view [OF ok(1) _ y] ok(2) by auto
  have "restore_moved w (lay_profile l) (root_of l Aside) (rev moved) errs1 s1 = (r, s')"
    using run y a(1) by (simp add: rollback_extension_targets_def bindS_def)
  from restore_moved_view [OF ok(1) _ _ this] ok(2,3) obtain errs where
    b: "r = Inr errs" "view_but l ({Live, Aside} \<times> set moved) s1 s'"
      "errs = [] \<Longrightarrow> errs1 = [] \<and> (\<forall>t \<in> set moved. view l s' Live t = view l s1 Aside t)" by auto
  have "view l s' Live t = (if t \<in> set moved then view l s Aside t else if t \<in> set installed then None else view l s Live t)"
    if "errs = []" "extension_target t" for t
    using b(3) [OF that(1)] a(3) view_butD [OF a(2) that(2)] view_butD [OF b(2) that(2), of Live] by auto
  with b(1) show ?thesis by blast
qed

section \<open>The exchange\<close>

text \<open>The state of the exchange, relative to the view \<open>v\<close> at its start: what has been moved aside
  and what has been installed.\<close>

type_synonym spots = "spot \<Rightarrow> target \<Rightarrow> node option"

definition exchanging :: "layout \<Rightarrow> spots \<Rightarrow> target list \<Rightarrow> target list \<Rightarrow> files \<Rightarrow> bool" where
  "exchanging l v moved installed s \<longleftrightarrow>
     distinct moved \<and> (\<forall>t \<in> set moved \<union> set installed. extension_target t)
     \<and> (\<forall>t. extension_target t \<longrightarrow>
          view l s Live t =
            (if t \<in> set installed then v Staged t else if t \<in> set moved then None else v Live t)
        \<and> (t \<in> set moved \<longrightarrow> view l s Aside t = v Live t)
        \<and> (t \<in> set installed \<and> t \<notin> set moved \<longrightarrow> v Live t = None)
        \<and> (t \<notin> set installed \<longrightarrow> view l s Staged t = v Staged t))"

definition live_as :: "layout \<Rightarrow> spots \<Rightarrow> files \<Rightarrow> bool" where
  "live_as l v s \<longleftrightarrow> (\<forall>t. extension_target t \<longrightarrow> view l s Live t = v Live t)"

text \<open>The errors after which old data may be missing: a roll-back with faults, and a failure to
  make a directory below the one the old data is moved to.\<close>

definition incomplete :: "archive_fault \<Rightarrow> bool" where
  "incomplete x \<longleftrightarrow> (case x of
       Old_not_moved y errs b \<Rightarrow> errs \<noteq> [] | Destination_not_made y errs b \<Rightarrow> errs \<noteq> []
     | New_not_installed y errs b \<Rightarrow> errs \<noteq> [] | _ \<Rightarrow> False)"

definition may_lose :: "path \<Rightarrow> restore_error \<Rightarrow> bool" where
  "may_lose aside x \<longleftrightarrow> (case x of
       At_write p y \<Rightarrow> \<exists>r. p = aside @ r | At_archive p y \<Rightarrow> incomplete y | _ \<Rightarrow> False)"

lemma exchanging_same_view: "exchanging l v moved installed s \<Longrightarrow> same_view l s s' \<Longrightarrow> exchanging l v moved installed s'"
  by (simp add: exchanging_def same_view_def)

lemma exchanging_rollback:
  assumes "exchanging l v moved installed s" and "layout_ok l"
    and "give_up w (lay_profile l) (root_of l Aside) moved installed f s = (r, s')"
  shows "\<exists>errs. r = Inl (f errs) \<and> (errs = [] \<longrightarrow> live_as l v s')"
proof -
  have ok: "\<And>t. t \<in> set moved \<union> set installed \<Longrightarrow> extension_target t" "distinct moved"
    using assms(1) by (auto simp: exchanging_def)
  obtain y s1 where y: "rollback_extension_targets w (lay_profile l) (root_of l Aside) moved installed s = (y, s1)"
    by (cases "rollback_extension_targets w (lay_profile l) (root_of l Aside) moved installed s")
  from rollback_view [OF assms(2) ok y] obtain errs where errs: "y = Inr errs"
    "errs = [] \<longrightarrow> (\<forall>t. extension_target t \<longrightarrow> view l s1 Live t =
      (if t \<in> set moved then view l s Aside t else if t \<in> set installed then None else view l s Live t))" by blast
  with assms(3) y have r: "r = Inl (f errs)" "s1 = s'" by (simp_all add: give_up_def bindS_def liftS_def)
  have "live_as l v s'" if "errs = []"
    unfolding live_as_def
  proof (intro allI impI)
    fix t
    assume t: "extension_target t"
    have "view l s' Live t = (if t \<in> set moved then view l s Aside t else if t \<in> set installed then None else view l s Live t)"
      using errs(2) that t r(2) by blast
    with assms(1) t show "view l s' Live t = v Live t"
      unfolding exchanging_def by (cases "t \<in> set moved"; cases "t \<in> set installed") simp_all
  qed
  with r(1) show ?thesis by blast
qed

definition never_blind :: "os \<Rightarrow> bool" where
  "never_blind w \<longleftrightarrow> (\<forall>n. \<not> os_blind w n)"

lemma path_exists_view:
  assumes "never_blind w"
  shows "\<exists>s'. path_exists w (spot_path l k t) s = (Inr (view l s k t \<noteq> None), s') \<and> same_view l s s'"
proof -
  let ?p = "spot_path l k t"
  obtain b s' where run: "path_exists w ?p s = (Inr b :: 'a + bool, s')"
    by (cases "path_exists w ?p s :: ('a + bool) \<times> files")
      (auto simp: path_exists_def stat_def bindS_def returnS_def)
  with stat_tree(1) [OF run] assms same_tree_view show ?thesis
    by (auto simp: view_def never_blind_def)
qed

lemma exchanging_move:
  assumes "exchanging l v moved [] s" and "layout_ok l" "extension_target t" "t \<notin> set moved"
    and "rename w (spot_path l Live t) (spot_path l Aside t) s = (Inr (), s')"
  shows "exchanging l v (moved @ [t]) [] s'"
proof -
  note e = assms(1) [unfolded exchanging_def]
  have "(Live, t) \<noteq> (Aside, t)" by simp
  note move = rename_view(2) [OF assms(5,2,3,3) this refl]
  have "view l s' Live u = (if u \<in> set (moved @ [t]) then None else v Live u)"
    "u \<in> set (moved @ [t]) \<Longrightarrow> view l s' Aside u = v Live u"
    "view l s' Staged u = v Staged u" if "extension_target u" for u
    using e assms(4) move [OF that] that assms(3) by (cases "u = t"; simp)+
  with e assms(3,4) show ?thesis unfolding exchanging_def by simp
qed

text \<open>A computation that goes on in the state \<open>P\<close>, or gives up with the targets as before or an
  error that admits the loss.\<close>

definition goes_on :: "layout \<Rightarrow> spots \<Rightarrow> ('a \<Rightarrow> files \<Rightarrow> bool) \<Rightarrow> (restore_error + 'a) \<times> files \<Rightarrow> bool" where
  "goes_on l v P out \<longleftrightarrow>
     (case out of (Inr x, s') \<Rightarrow> P x s' | (Inl x, s') \<Rightarrow> may_lose (root_of l Aside) x \<or> live_as l v s')"

lemma goes_on_bindS:
  assumes "goes_on l v P (m s)" and "\<And>x s'. P x s' \<Longrightarrow> goes_on l v Q (f x s')"
  shows "goes_on l v Q (bindS m f s)"
proof -
  obtain r s' where m: "m s = (r, s')" by (cases "m s")
  show ?thesis
  proof (cases r)
    case (Inl x)
    with assms(1) m show ?thesis by (simp add: goes_on_def bindS_def)
  next
    case (Inr x)
    with assms(1) m have "P x s'" by (simp add: goes_on_def)
    from assms(2) [OF this] m Inr show ?thesis by (simp add: bindS_def)
  qed
qed

lemma goes_on_mono: "goes_on l v P out \<Longrightarrow> (\<And>x s'. P x s' \<Longrightarrow> Q x s') \<Longrightarrow> goes_on l v Q out"
  by (auto simp: goes_on_def split: prod.splits sum.splits)

lemma goes_on_returnS: "P x s \<Longrightarrow> goes_on l v P (returnS x s)"
  by (simp add: goes_on_def returnS_def)

lemma goes_on_exists:
  assumes "never_blind w"
    and "\<And>s'. same_view l s s' \<Longrightarrow> goes_on l v P (f (view l s k t \<noteq> None) s')"
  shows "goes_on l v P (bindS (path_exists w (spot_path l k t)) f s)"
proof -
  from path_exists_view [OF assms(1), of l k t s] obtain s' where
    s': "path_exists w (spot_path l k t) s = (Inr (view l s k t \<noteq> None) :: restore_error + bool, s')" "same_view l s s'"
    by blast
  show ?thesis unfolding bindS_def s'(1) using assms(2) [OF s'(2)] by simp
qed

lemma goes_on_give_up:
  fixes P :: "'a \<Rightarrow> files \<Rightarrow> bool"
  assumes "exchanging l v moved installed s" and "layout_ok l"
    and "\<And>errs. errs \<noteq> [] \<Longrightarrow> may_lose (root_of l Aside) (f errs)"
  shows "goes_on l v P (give_up w (lay_profile l) (root_of l Aside) moved installed f s)"
proof -
  obtain r s' where run: "give_up w (lay_profile l) (root_of l Aside) moved installed f s = (r :: restore_error + 'a, s')"
    by (metis surj_pair)
  from exchanging_rollback [OF assms(1,2) run] assms(3) show ?thesis
    unfolding run goes_on_def by auto
qed

lemma goes_on_attempt:
  assumes "\<And>x s'. m s = (Inl x, s') \<Longrightarrow> goes_on l v P (f x s')"
    and "\<And>y s'. m s = (Inr y, s') \<Longrightarrow> goes_on l v P (g y s')"
  shows "goes_on l v P (bindS (attempt m) (\<lambda>r. case r of Inl x \<Rightarrow> f x | Inr y \<Rightarrow> g y) s)"
  using assms by (cases "m s"; cases "fst (m s)") (auto simp: bindS_def)

lemma spot_parent:
  assumes "extension_target t"
  shows "\<exists>r. path_parent (spot_path l k t) = Some (root_of l k @ r)"
proof -
  obtain us x where "t = us @ [x]"
    using extension_target_nonempty [OF assms] by (cases t rule: rev_cases) auto
  then have "spot_path l k t = (root_of l k @ map Normal us) @ [Normal x]"
    by (simp add: spot_path_def target_path_def)
  then have "path_parent (spot_path l k t) = Some (root_of l k @ map Normal us)"
    by (simp only: path_parent_name)
  then show ?thesis by blast
qed

definition moved_on :: "layout \<Rightarrow> spots \<Rightarrow> target list \<Rightarrow> target list \<Rightarrow> target list \<Rightarrow> files \<Rightarrow> bool" where
  "moved_on l v moved ts moved' s \<longleftrightarrow> exchanging l v moved' [] s \<and> set moved \<subseteq> set moved'
     \<and> set moved' \<subseteq> set moved \<union> set ts \<and> (\<forall>t \<in> set ts. t \<in> set moved' \<or> v Live t = None)"

lemma create_aside_parent:
  assumes e: "exchanging l v moved installed s" and ok: "layout_ok l" "extension_target t"
  shows "goes_on l v (\<lambda>_. exchanging l v moved installed) (create_parent_of w (spot_path l Aside t) s)"
proof -
  obtain y s1 where y: "make_parent w (spot_path l Aside t) s = (y, s1)"
    by (cases "make_parent w (spot_path l Aside t) s")
  note made = make_parent_view [OF y ok]
  obtain q where q: "path_parent (spot_path l Aside t) = Some (root_of l Aside @ q)"
    using spot_parent [OF ok(2)] by blast
  have "fst x = root_of l Aside @ q" if "y = Inl x" for x
    using y that unfolding make_parent_def q by (auto simp: with_err_run map_err_def split: sum.splits)
  then show ?thesis
    using y exchanging_same_view [OF e made]
    by (auto simp: create_parent_of_def goes_on_def may_lose_def map_err_def split: sum.splits)
qed

lemma move_target_goes_on:
  assumes e: "exchanging l v moved [] s" and ok: "layout_ok l" "never_blind w" "extension_target t" "t \<notin> set moved"
  shows "goes_on l v (moved_on l v moved [t]) (move_target w (lay_profile l) (root_of l Aside) backup t moved s)"
  unfolding move_target_def Let_def target_spots
proof (rule goes_on_exists [OF ok(2)], goal_cases)
  case (1 s1)
  with e have e1: "exchanging l v moved [] s1" by (rule exchanging_same_view)
  have gone: "v Live t = None" if "view l s Live t = None"
    using e ok(3,4) that by (simp add: exchanging_def)
  show ?case
  proof (cases "view l s Live t = None")
    case True
    with gone e1 show ?thesis by (auto intro!: goes_on_returnS simp: moved_on_def)
  next
    case False
    then have there: "(\<not> view l s Live t \<noteq> None) = False" by simp
    show ?thesis
      unfolding there if_False
    proof (rule goes_on_bindS, rule create_aside_parent [OF e1 ok(1,3)], rule goes_on_attempt)
      fix s2 x s3
      assume e2: "exchanging l v moved [] s2"
        and y: "rename w (spot_path l Live t) (spot_path l Aside t) s2 = (Inl x, s3)"
      have "exchanging l v moved [] s3"
        using rename_view_but(2) [OF y ok(1,3,3)] exchanging_same_view [OF e2] by simp
      then show "goes_on l v (moved_on l v moved [t]) (give_up w (lay_profile l) (root_of l Aside) moved []
          (\<lambda>errs. At_archive (spot_path l Live t) (Old_not_moved x errs backup)) s3)"
        by (rule goes_on_give_up [OF _ ok(1)]) (simp add: may_lose_def incomplete_def)
    next
      fix s2 y s3
      assume e2: "exchanging l v moved [] s2"
        and "rename w (spot_path l Live t) (spot_path l Aside t) s2 = (Inr y, s3)"
      then show "goes_on l v (moved_on l v moved [t]) (returnS (moved @ [t]) s3)"
        using exchanging_move [OF e2 ok(1,3,4)] by (auto intro!: goes_on_returnS simp: moved_on_def)
    qed
  qed
qed

lemma move_old_goes_on:
  assumes "layout_ok l" "never_blind w" "exchanging l v moved [] s" "distinct ts" "set ts \<inter> set moved = {}"
    and "\<And>t. t \<in> set ts \<Longrightarrow> extension_target t"
  shows "goes_on l v (moved_on l v moved ts) (move_old w (lay_profile l) (root_of l Aside) backup ts moved s)"
  using assms
proof (induction ts arbitrary: moved s)
  case Nil
  then show ?case by (auto intro!: goes_on_returnS simp: moved_on_def)
next
  case (Cons t ts)
  show ?case
    unfolding move_old.simps
  proof (rule goes_on_bindS, rule move_target_goes_on [OF Cons.prems(3,1,2)])
    fix moved1 s1
    assume m: "moved_on l v moved [t] moved1 s1"
    have "goes_on l v (moved_on l v moved1 ts) (move_old w (lay_profile l) (root_of l Aside) backup ts moved1 s1)"
      by (rule Cons.IH) (use Cons.prems m in \<open>auto simp: moved_on_def\<close>)
    then show "goes_on l v (moved_on l v moved (t # ts)) (move_old w (lay_profile l) (root_of l Aside) backup ts moved1 s1)"
      by (rule goes_on_mono) (use m in \<open>auto simp: moved_on_def\<close>)
  qed (use Cons.prems in auto)
qed

lemma exchanging_install:
  assumes "exchanging l v moved installed s" and "layout_ok l" "extension_target t" "t \<notin> set installed"
    and "t \<in> set moved \<or> v Live t = None"
    and "rename w (spot_path l Staged t) (spot_path l Live t) s = (Inr (), s')"
  shows "exchanging l v moved (installed @ [t]) s'"
proof -
  note e = assms(1) [unfolded exchanging_def]
  have "(Staged, t) \<noteq> (Live, t)" by simp
  note move = rename_view(2) [OF assms(6,2,3,3) this refl]
  have "view l s' Live u = (if u \<in> set (installed @ [t]) then v Staged u else if u \<in> set moved then None else v Live u)"
    "u \<in> set moved \<Longrightarrow> view l s' Aside u = v Live u"
    "u \<in> set (installed @ [t]) \<Longrightarrow> u \<notin> set moved \<Longrightarrow> v Live u = None"
    "u \<notin> set (installed @ [t]) \<Longrightarrow> view l s' Staged u = v Staged u" if "extension_target u" for u
    using e assms(4,5) move [OF that] that assms(3) by (cases "u = t"; simp)+
  with e assms(3) show ?thesis unfolding exchanging_def by simp
qed

definition installed_on :: "layout \<Rightarrow> spots \<Rightarrow> target list \<Rightarrow> target list \<Rightarrow> target list \<Rightarrow> target list \<Rightarrow> files \<Rightarrow> bool" where
  "installed_on l v moved installed ts installed' s \<longleftrightarrow> exchanging l v moved installed' s
     \<and> set installed \<subseteq> set installed' \<and> set installed' \<subseteq> set installed \<union> set ts
     \<and> (\<forall>t \<in> set ts. t \<in> set installed' \<or> v Staged t = None)"

lemma install_target_goes_on:
  assumes e: "exchanging l v moved installed s" and ok: "layout_ok l" "never_blind w" "extension_target t"
    and t: "t \<notin> set installed" "t \<in> set moved \<or> v Live t = None"
  shows "goes_on l v (installed_on l v moved installed [t])
    (install_target w (lay_profile l) (root_of l Staged) (root_of l Aside) backup moved t installed s)"
  unfolding install_target_def Let_def target_spots
proof (rule goes_on_exists [OF ok(2)], goal_cases)
  case (1 s1)
  with e have e1: "exchanging l v moved installed s1" by (rule exchanging_same_view)
  have staged: "view l s Staged t = v Staged t" using e ok(3) t(1) by (simp add: exchanging_def)
  show ?case
  proof (cases "view l s Staged t = None")
    case True
    with staged e1 show ?thesis by (auto intro!: goes_on_returnS simp: installed_on_def)
  next
    case False
    then have there: "(\<not> view l s Staged t \<noteq> None) = False" by simp
    show ?thesis
      unfolding there if_False
    proof (rule goes_on_attempt)
      fix x s2
      assume "make_parent w (spot_path l Live t) s1 = (Inl x, s2)"
      from exchanging_same_view [OF e1 make_parent_view [OF this ok(1,3)]]
      show "goes_on l v (installed_on l v moved installed [t]) ((case x of (parent, y) \<Rightarrow>
          give_up w (lay_profile l) (root_of l Aside) moved installed
            (\<lambda>errs. At_archive parent (Destination_not_made y errs backup))) s2)"
        by (cases x) (auto intro!: goes_on_give_up [OF _ ok(1)] simp: may_lose_def incomplete_def)
    next
      fix y s2
      assume "make_parent w (spot_path l Live t) s1 = (Inr y, s2)"
      from exchanging_same_view [OF e1 make_parent_view [OF this ok(1,3)]]
      have e2: "exchanging l v moved installed s2" .
      show "goes_on l v (installed_on l v moved installed [t])
        (bindS (attempt (rename w (spot_path l Staged t) (spot_path l Live t))) (\<lambda>r. case r of
            Inl x \<Rightarrow> give_up w (lay_profile l) (root_of l Aside) moved installed
              (\<lambda>errs. At_archive (spot_path l Live t) (New_not_installed x errs backup))
          | Inr _ \<Rightarrow> returnS (installed @ [t])) s2)"
      proof (rule goes_on_attempt)
        fix x s3
        assume y: "rename w (spot_path l Staged t) (spot_path l Live t) s2 = (Inl x, s3)"
        have "exchanging l v moved installed s3"
          using rename_view_but(2) [OF y ok(1,3,3)] exchanging_same_view [OF e2] by simp
        then show "goes_on l v (installed_on l v moved installed [t])
          (give_up w (lay_profile l) (root_of l Aside) moved installed
            (\<lambda>errs. At_archive (spot_path l Live t) (New_not_installed x errs backup)) s3)"
          by (rule goes_on_give_up [OF _ ok(1)]) (simp add: may_lose_def incomplete_def)
      next
        fix y s3
        assume "rename w (spot_path l Staged t) (spot_path l Live t) s2 = (Inr y, s3)"
        then show "goes_on l v (installed_on l v moved installed [t]) (returnS (installed @ [t]) s3)"
          using exchanging_install [OF e2 ok(1,3) t] by (auto intro!: goes_on_returnS simp: installed_on_def)
      qed
    qed
  qed
qed

lemma install_staged_goes_on:
  assumes "layout_ok l" "never_blind w" "exchanging l v moved installed s" "distinct ts" "set ts \<inter> set installed = {}"
    and "\<And>t. t \<in> set ts \<Longrightarrow> extension_target t \<and> (t \<in> set moved \<or> v Live t = None)"
  shows "goes_on l v (\<lambda>_ s'. \<exists>installed'. installed_on l v moved installed ts installed' s')
    (install_staged w (lay_profile l) (root_of l Staged) (root_of l Aside) backup moved ts installed s)"
  using assms
proof (induction ts arbitrary: installed s)
  case Nil
  then show ?case by (auto intro!: goes_on_returnS simp: installed_on_def)
next
  case (Cons t ts)
  have t: "extension_target t" "t \<notin> set installed" "t \<in> set moved \<or> v Live t = None"
    using Cons.prems(5,6) by auto
  show ?case
    unfolding install_staged.simps
  proof (rule goes_on_bindS, rule install_target_goes_on [OF Cons.prems(3,1,2) t])
    fix installed1 s1
    assume m: "installed_on l v moved installed [t] installed1 s1"
    have "goes_on l v (\<lambda>_ s'. \<exists>installed'. installed_on l v moved installed1 ts installed' s')
      (install_staged w (lay_profile l) (root_of l Staged) (root_of l Aside) backup moved ts installed1 s1)"
      by (rule Cons.IH) (use Cons.prems m in \<open>auto simp: installed_on_def\<close>)
    then show "goes_on l v (\<lambda>_ s'. \<exists>installed'. installed_on l v moved installed (t # ts) installed' s')
      (install_staged w (lay_profile l) (root_of l Staged) (root_of l Aside) backup moved ts installed1 s1)"
    proof (rule goes_on_mono)
      fix u s'
      assume "\<exists>installed'. installed_on l v moved installed1 ts installed' s'"
      then obtain installed' where "installed_on l v moved installed1 ts installed' s'" ..
      with m have "installed_on l v moved installed (t # ts) installed' s'"
        unfolding installed_on_def by auto
      then show "\<exists>installed'. installed_on l v moved installed (t # ts) installed' s'" ..
    qed
  qed
qed

section \<open>The targets\<close>

lemma stored_targets_view:
  assumes run: "stored_targets w (root_of l k) s = (r, s')" and "never_blind w"
  shows "same_tree s s'" "r = Inr ts \<Longrightarrow> t \<in> set ts \<Longrightarrow> extension_target t"
    "r = Inl x \<Longrightarrow> \<exists>p y. x = At_read p y"
    "r = Inr ts \<Longrightarrow> extension_store name \<Longrightarrow> view l s k [''IndexedDB'', name] \<noteq> None \<Longrightarrow> [''IndexedDB'', name] \<in> set ts"
proof -
  let ?db = "root_of l k @ [Normal ''IndexedDB'']"
  obtain d s1 where d: "path_is_dir w ?db s = (Inr d :: restore_error + bool, s1)"
    by (cases "path_is_dir w ?db s :: (restore_error + bool) \<times> files") (auto simp: path_is_dir_def stat_def bindS_def returnS_def)
  have s1: "same_tree s s1" "d = is_dir_node (node_of s ?db)"
    using stat_tree(3) [OF d] assms(2) by (simp_all add: never_blind_def)
  have below: "view l s k [''IndexedDB'', name] \<noteq> None \<Longrightarrow> \<exists>es. node_of s ?db = Some (Dir es) \<and> name \<in> fst ` set es"
  proof -
    assume "view l s k [''IndexedDB'', name] \<noteq> None"
    then have "entry_at (fs_root s) (place s ?db @ [name]) \<noteq> None"
      by (auto simp: view_def node_of_def spot_path_def target_path_def place_def walk_append)
    then obtain n where n: "entry_at (fs_root s) (place s ?db) = Some n" "entry_at n [name] \<noteq> None"
      unfolding entry_at_append [of _ "place s ?db"] by (auto simp del: place_name split: option.splits)
    then obtain es where "n = Dir es" by (cases n) auto
    with n show "\<exists>es. node_of s ?db = Some (Dir es) \<and> name \<in> fst ` set es"
      by (auto simp: node_of_def split: option.splits dest: map_of_SomeD) (force dest: map_of_SomeD)
  qed
  have "same_tree s s' \<and> (\<forall>ts. r = Inr ts \<longrightarrow> (\<forall>t \<in> set ts. extension_target t)
      \<and> (extension_store name \<longrightarrow> view l s k [''IndexedDB'', name] \<noteq> None \<longrightarrow> [''IndexedDB'', name] \<in> set ts))
      \<and> (\<forall>x. r = Inl x \<longrightarrow> (\<exists>p y. x = At_read p y))"
  proof (cases d)
    case False
    with run d have "s' = s1" "r = Inr []"
      by (auto simp: stored_targets_def Let_def bindS_def returnS_def)
    moreover have "view l s k [''IndexedDB'', name] = None"
      using below False s1(2) by (metis is_dir_node.simps(1))
    ultimately show ?thesis using s1(1) by simp
  next
    case True
    obtain y s2 where y: "read_dir w ?db s1 = (y, s2)" by (cases "read_dir w ?db s1")
    note dir = read_dir_tree [OF y]
    have r: "s' = s2" "r = (case y of Inl x \<Rightarrow> Inl (At_read ?db x) | Inr es \<Rightarrow> Inr (indexed_db_names es))"
      using run d y True by (auto simp: stored_targets_def Let_def bindS_def returnS_def map_err_def split: sum.splits)
    have "same_tree s s2" using dir(1) s1(1) same_tree_trans by blast
    moreover have "[''IndexedDB'', name] \<in> set (indexed_db_names es)"
      if "y = Inr es" "extension_store name" "view l s k [''IndexedDB'', name] \<noteq> None" for es
      using below [OF that(3)] dir(2) [OF that(1)] same_tree_node [OF s1(1), of ?db] that(2)
      by (auto simp: indexed_db_names_def)
    moreover have "extension_target t" if "t \<in> set (indexed_db_names es)" for t es
      using that by (auto simp: indexed_db_names_def extension_target_def)
    ultimately show ?thesis using r by (auto split: sum.splits)
  qed
  then show "same_tree s s'" "r = Inr ts \<Longrightarrow> t \<in> set ts \<Longrightarrow> extension_target t"
    "r = Inl x \<Longrightarrow> \<exists>p y. x = At_read p y"
    "r = Inr ts \<Longrightarrow> extension_store name \<Longrightarrow> view l s k [''IndexedDB'', name] \<noteq> None \<Longrightarrow> [''IndexedDB'', name] \<in> set ts"
    by blast+
qed

text \<open>The list holds every target that is live or staged.\<close>

lemma same_view_live: "same_view l s s' \<Longrightarrow> live_as l (view l s) s'"
  by (simp add: same_view_def live_as_def)

definition targets_of :: "layout \<Rightarrow> spots \<Rightarrow> target list \<Rightarrow> files \<Rightarrow> bool" where
  "targets_of l v ts s \<longleftrightarrow> exchanging l v [] [] s \<and> distinct ts \<and> (\<forall>t \<in> set ts. extension_target t)
     \<and> (\<forall>t. extension_target t \<longrightarrow> t \<notin> set ts \<longrightarrow> v Live t = None \<and> v Staged t = None)"

lemma restore_targets_goes_on:
  assumes "never_blind w"
  shows "goes_on l (view l s) (targets_of l (view l s))
    (extension_restore_targets w (root_of l Live) (root_of l Staged) s)"
proof -
  obtain a s1 where a: "stored_targets w (root_of l Live) s = (a, s1)"
    by (cases "stored_targets w (root_of l Live) s")
  obtain b s2 where b: "stored_targets w (root_of l Staged) s1 = (b, s2)"
    by (cases "stored_targets w (root_of l Staged) s1")
  note live = stored_targets_view [OF a assms] and staged = stored_targets_view [OF b assms]
  have same: "same_view l s s1" "same_view l s s2"
    using live(1) staged(1) same_tree_trans same_tree_view by blast+
  show ?thesis
  proof (cases a)
    case (Inl x)
    with a same(1) show ?thesis
      by (simp add: extension_restore_targets_def bindS_def goes_on_def same_view_live)
  next
    case a': (Inr old)
    show ?thesis
    proof (cases b)
      case (Inl x)
      with a a' b same(2) show ?thesis
        by (simp add: extension_restore_targets_def bindS_def goes_on_def same_view_live)
    next
      case b': (Inr new)
      let ?ts = "sort (remdups (map (\<lambda>d. [d]) EXTENSION_DIRECTORIES @ old @ new @ map (\<lambda>f. [f]) EXTENSION_PREFERENCE_FILES))"
      have run: "extension_restore_targets w (root_of l Live) (root_of l Staged) s = (Inr ?ts, s2)"
        using a a' b b' by (simp add: extension_restore_targets_def bindS_def returnS_def)
      have "\<forall>t \<in> set ?ts. extension_target t"
        using live(2) [OF a'] staged(2) [OF b'] by (auto simp: extension_target_def)
      moreover have "view l s Live t = None \<and> view l s Staged t = None"
        if "extension_target t" "t \<notin> set ?ts" for t
      proof -
        from that obtain name where t: "t = [''IndexedDB'', name]" "extension_store name"
          by (auto simp: extension_target_def)
        have "view l s1 Staged t = view l s Staged t" using same(1) that(1) by (simp add: same_view_def)
        with t that(2) live(4) [OF a' t(2)] staged(4) [OF b' t(2)] show ?thesis by auto
      qed
      moreover have "exchanging l (view l s) [] [] s2"
        using same(2) by (simp add: exchanging_def same_view_def)
      ultimately show ?thesis unfolding run by (simp add: goes_on_def targets_of_def)
    qed
  qed
qed

text \<open>The exchange is all or nothing: the targets are the staged ones, or an error is returned and
  they are the old ones, unless that error admits a loss.\<close>

lemma swap_targets_goes_on:
  assumes ok: "layout_ok l" "never_blind (re_os e)" and "dp_path p = lay_profile l"
  shows "goes_on l (view l s) (\<lambda>_. live_as l (\<lambda>_. view l s Staged))
    (swap_targets e p (root_of l Staged) (root_of l Aside) backup s)"
proof -
  have live: "dp_path p = root_of l Live" using assms(3) by (simp add: root_of.simps)
  have root: "root_of l Live = lay_profile l" by (simp add: root_of.simps)
  let ?w = "re_os e" and ?v = "view l s"
  show ?thesis
    unfolding swap_targets_def Let_def live
  proof (rule goes_on_bindS, rule restore_targets_goes_on [OF ok(2)])
    fix ts s1
    assume ts: "targets_of l ?v ts s1"
    have moves: "goes_on l ?v (moved_on l ?v [] ts) (move_old ?w (lay_profile l) (root_of l Aside) backup ts [] s1)"
      by (rule move_old_goes_on [OF ok]) (use ts in \<open>auto simp: targets_of_def\<close>)
    show "goes_on l ?v (\<lambda>_. live_as l (\<lambda>_. view l s Staged))
      (bindS (move_old ?w (root_of l Live) (root_of l Aside) backup ts [])
        (\<lambda>moved. install_staged ?w (root_of l Live) (root_of l Staged) (root_of l Aside) backup moved ts []) s1)"
      unfolding root
    proof (rule goes_on_bindS, rule moves)
      fix moved s2
      assume m: "moved_on l ?v [] ts moved s2"
      have "goes_on l ?v (\<lambda>_ s'. \<exists>installed'. installed_on l ?v moved [] ts installed' s')
        (install_staged ?w (lay_profile l) (root_of l Staged) (root_of l Aside) backup moved ts [] s2)"
        by (rule install_staged_goes_on [OF ok]) (use ts m in \<open>auto simp: targets_of_def moved_on_def\<close>)
      then show "goes_on l ?v (\<lambda>_. live_as l (\<lambda>_. view l s Staged))
        (install_staged ?w (lay_profile l) (root_of l Staged) (root_of l Aside) backup moved ts [] s2)"
      proof (rule goes_on_mono)
        fix u s3
        assume "\<exists>installed'. installed_on l ?v moved [] ts installed' s3"
        then obtain installed' where i: "installed_on l ?v moved [] ts installed' s3" ..
        show "live_as l (\<lambda>_. view l s Staged) s3"
          unfolding live_as_def
        proof (intro allI impI)
          fix t
          assume t: "extension_target t"
          from i t have "view l s3 Live t =
            (if t \<in> set installed' then ?v Staged t else if t \<in> set moved then None else ?v Live t)"
            by (simp add: installed_on_def exchanging_def)
          moreover have "t \<in> set installed' \<or> ?v Staged t = None"
            by (cases "t \<in> set ts") (use i ts t in \<open>simp_all add: installed_on_def targets_of_def\<close>)
          moreover have "t \<in> set moved \<or> ?v Live t = None"
            by (cases "t \<in> set ts") (use m ts t in \<open>simp_all add: moved_on_def targets_of_def\<close>)
          ultimately show "view l s3 Live t = view l s Staged t" by auto
        qed
      qed
    qed
  qed
qed

end
