(* ===== verification/ExtSight.thy ===== *)
theory ExtSight
  imports ExtExchange
begin

text \<open>
  Failed checks: \<open>exists\<close>, \<open>is_dir\<close> and \<open>is_file\<close> answer false when their \<open>stat\<close> fails. A run during
  which no check fails is the run on a system where checks never fail; and calls only count checks up.
\<close>

section \<open>Runs without a failed check\<close>

definition sighted :: "os \<Rightarrow> os" where
  "sighted w = w\<lparr>os_blind := (\<lambda>n. False)\<rparr>"

text \<open>None of the checks numbered from the first state to the second failed.\<close>

definition no_check_failed :: "os \<Rightarrow> files \<Rightarrow> files \<Rightarrow> bool" where
  "no_check_failed w s s' \<longleftrightarrow> (\<forall>n \<in> {fs_stats s ..< fs_stats s'}. \<not> os_blind w n)"

lemma never_blind_sighted: "never_blind (sighted w)"
  by (simp add: never_blind_def sighted_def)

lemma no_check_failed_within:
  "no_check_failed w s s' \<Longrightarrow> fs_stats s \<le> fs_stats t \<Longrightarrow> fs_stats t' \<le> fs_stats s' \<Longrightarrow> no_check_failed w t t'"
  by (auto simp: no_check_failed_def)

text \<open>\<open>m\<close> counts up, and is \<open>m'\<close> wherever none of its checks fails.\<close>

definition coincides :: "os \<Rightarrow> (files, 'e, 'a) comp \<Rightarrow> (files, 'e, 'a) comp \<Rightarrow> bool" where
  "coincides w m m' \<longleftrightarrow>
     (\<forall>s. fs_stats s \<le> fs_stats (snd (m s)) \<and> (no_check_failed w s (snd (m s)) \<longrightarrow> m' s = m s))"

named_theorems coincide

lemma coincidesD:
  assumes "coincides w m m'" and "m s = (r, s')"
  shows "fs_stats s \<le> fs_stats s'" "no_check_failed w s s' \<Longrightarrow> m' s = (r, s')"
  using assms unfolding coincides_def by (metis snd_conv)+

lemma coincidesI:
  assumes "\<And>s r s'. m s = (r, s') \<Longrightarrow> fs_stats s \<le> fs_stats s'"
    and "\<And>s r s'. m s = (r, s') \<Longrightarrow> no_check_failed w s s' \<Longrightarrow> m' s = (r, s')"
  shows "coincides w m m'"
  unfolding coincides_def using assms by (metis prod.collapse)

lemma coincides_pure [coincide]: "coincides w (returnS x) (returnS x)" "coincides w (liftS y) (liftS y)"
  by (simp_all add: coincides_def returnS_def liftS_def)

lemma coincides_bindS [coincide]:
  assumes "coincides w m m'" and "\<And>x. coincides w (f x) (f' x)"
  shows "coincides w (bindS m f) (bindS m' f')"
proof (rule coincidesI)
  fix s r s'
  assume run: "bindS m f s = (r, s')"
  obtain y s1 where y: "m s = (y, s1)" by (cases "m s")
  note first = coincidesD [OF assms(1) y]
  show "fs_stats s \<le> fs_stats s'"
  proof (cases y)
    case (Inr x)
    with run y have "f x s1 = (r, s')" by (simp add: bindS_def)
    from coincidesD(1) [OF assms(2) this] first(1) show ?thesis by simp
  qed (use run y first(1) in \<open>simp add: bindS_def\<close>)
  show "bindS m' f' s = (r, s')" if ok: "no_check_failed w s s'"
  proof (cases y)
    case (Inl x)
    with run y first(2) ok show ?thesis by (simp add: bindS_def)
  next
    case (Inr x)
    with run y have rest: "f x s1 = (r, s')" by (simp add: bindS_def)
    note second = coincidesD [OF assms(2) rest]
    have "m' s = (Inr x, s1)"
      using first(2) no_check_failed_within [OF ok order_refl second(1)] Inr by simp
    moreover have "f' x s1 = (r, s')"
      using second(2) no_check_failed_within [OF ok first(1) order_refl] by blast
    ultimately show ?thesis by (simp add: bindS_def)
  qed
qed

lemma coincides_error [coincide]:
  "coincides w m m' \<Longrightarrow> coincides w (attempt m) (attempt m')"
  "coincides w m m' \<Longrightarrow> coincides w (with_err f m) (with_err f m')"
  by (auto simp: coincides_def attempt_def with_err_def split_beta)

lemma coincides_cases [coincide]:
  "(b \<Longrightarrow> coincides w m m') \<Longrightarrow> (\<not> b \<Longrightarrow> coincides w n n') \<Longrightarrow> coincides w (if b then m else n) (if b then m' else n')"
  "coincides w m m' \<Longrightarrow> (\<And>y. x = Some y \<Longrightarrow> coincides w (f y) (f' y)) \<Longrightarrow>
     coincides w (case x of None \<Rightarrow> m | Some y \<Rightarrow> f y) (case x of None \<Rightarrow> m' | Some y \<Rightarrow> f' y)"
  "(\<And>y. r = Inl y \<Longrightarrow> coincides w (g y) (g' y)) \<Longrightarrow> (\<And>y. r = Inr y \<Longrightarrow> coincides w (k y) (k' y)) \<Longrightarrow>
     coincides w (case r of Inl y \<Rightarrow> g y | Inr y \<Rightarrow> k y) (case r of Inl y \<Rightarrow> g' y | Inr y \<Rightarrow> k' y)"
  "(\<And>a b. coincides w (h a b) (h' a b)) \<Longrightarrow> coincides w (case q of (a, b) \<Rightarrow> h a b) (case q of (a, b) \<Rightarrow> h' a b)"
  by (auto split: option.split sum.split prod.split)

text \<open>Calls make no check; a check that did not fail answers as it would without failures.\<close>

lemma coincides_sys: "coincides w (sys w part act) (sys (sighted w) part act)"
  if "\<And>s k. fs_stats (s\<lparr>fs_root := part s k\<rparr>) = fs_stats s"
  by (auto simp: coincides_def sys_def sighted_def split: option.split sum.split)

lemma coincides_calls [coincide]:
  "coincides w (mkdir w p) (mkdir (sighted w) p)"
  "coincides w (read_dir w p) (read_dir (sighted w) p)"
  "coincides w (remove_file w p) (remove_file (sighted w) p)"
  "coincides w (remove_dir_all w p) (remove_dir_all (sighted w) p)"
  "coincides w (rename w p q) (rename (sighted w) p q)"
  unfolding mkdir_def read_dir_def remove_file_def remove_dir_all_def rename_def
  by (rule coincides_sys, simp)+

lemma coincides_stat [coincide]: "coincides w (stat w p) (stat (sighted w) p)"
  by (auto simp: coincides_def stat_def sighted_def no_check_failed_def)

lemma coincides_tests [coincide]:
  "coincides w (path_exists w p) (path_exists (sighted w) p)"
  "coincides w (path_is_dir w p) (path_is_dir (sighted w) p)"
  unfolding path_exists_def path_is_dir_def by (intro coincide)+

lemma coincides_create_dir_all [coincide]:
  "coincides w (create_dir_all w p) (create_dir_all (sighted w) p)"
proof (induction "length p" arbitrary: p rule: less_induct)
  case less
  have up: "coincides w (create_dir_all w q) (create_dir_all (sighted w) q)" if "path_parent p = Some q" for q
    using less path_parent_shorter [OF that] by blast
  show ?case
    unfolding create_dir_all.simps [of w p] create_dir_all.simps [of "sighted w" p]
    by (intro coincide up)
qed

section \<open>The exchange\<close>

lemma coincides_make_parent [coincide]: "coincides w (make_parent w p) (make_parent (sighted w) p)"
  unfolding make_parent_def by (intro coincide)

lemma coincides_create_parent_of [coincide]: "coincides w (create_parent_of w p) (create_parent_of (sighted w) p)"
  unfolding create_parent_of_def by (intro coincide)

lemma coincides_restore_targets [coincide]:
  "coincides w (extension_restore_targets w live staged) (extension_restore_targets (sighted w) live staged)"
  unfolding extension_restore_targets_def stored_targets_def Let_def by (intro coincide)

lemma coincides_remove_installed [coincide]:
  "coincides w (remove_installed w profile ts errs) (remove_installed (sighted w) profile ts errs)"
  by (induction ts arbitrary: errs) (auto simp: Let_def intro!: coincide)

lemma coincides_restore_moved [coincide]:
  "coincides w (restore_moved w profile rollback ts errs) (restore_moved (sighted w) profile rollback ts errs)"
  by (induction ts arbitrary: errs) (auto simp: put_back_def Let_def intro!: coincide)

lemma coincides_give_up [coincide]:
  "coincides w (give_up w profile rollback moved installed x) (give_up (sighted w) profile rollback moved installed x)"
  unfolding give_up_def rollback_extension_targets_def by (intro coincide)

lemma coincides_move_old [coincide]:
  "coincides w (move_old w profile rollback backup ts moved) (move_old (sighted w) profile rollback backup ts moved)"
  by (induction ts arbitrary: moved) (auto simp: move_target_def Let_def intro!: coincide)

lemma coincides_install_staged [coincide]:
  "coincides w (install_staged w profile staged rollback backup moved ts installed)
     (install_staged (sighted w) profile staged rollback backup moved ts installed)"
  by (induction ts arbitrary: installed) (auto simp: install_target_def Let_def intro!: coincide split: prod.split)

lemma coincides_swap_targets:
  "coincides (re_os e) (swap_targets e p staged rollback backup)
     (swap_targets (e\<lparr>re_os := sighted (re_os e)\<rparr>) p staged rollback backup)"
  by (simp add: swap_targets_def Let_def) (intro coincide)

text \<open>The exchange is all or nothing when none of its checks fails.\<close>

lemma swap_targets_all_or_nothing:
  assumes "layout_ok l" "dp_path p = lay_profile l" "no_check_failed (re_os e) s s'"
    and run: "swap_targets e p (root_of l Staged) (root_of l Aside) backup s = (r, s')"
  shows "goes_on l (view l s) (\<lambda>_. live_as l (\<lambda>_. view l s Staged)) (r, s')"
proof -
  have "swap_targets (e\<lparr>re_os := sighted (re_os e)\<rparr>) p (root_of l Staged) (root_of l Aside) backup s = (r, s')"
    by (rule coincidesD(2) [OF coincides_swap_targets run assms(3)])
  with swap_targets_goes_on [of l "e\<lparr>re_os := sighted (re_os e)\<rparr>" p s backup] assms(1,2)
  show ?thesis by (simp add: never_blind_sighted)
qed

end
