(* ===== verification/ExtProps.thy ===== *)
theory ExtProps
  imports ExtSight
begin

text \<open>
  What loading an extension bundle does to a profile, from the archive to the live entries, when
  no \<open>exists\<close>, \<open>is_dir\<close> or \<open>is_file\<close> check fails during the load; and what one failed check can do.
\<close>

section \<open>Preparing\<close>

text \<open>What the calls before the exchange leave alone.\<close>

lemma keeps_cases:
  "(b \<Longrightarrow> keeps R m) \<Longrightarrow> (\<not> b \<Longrightarrow> keeps R n) \<Longrightarrow> keeps R (if b then m else n)"
  "(x = None \<Longrightarrow> keeps R m) \<Longrightarrow> (\<And>y. x = Some y \<Longrightarrow> keeps R (f y)) \<Longrightarrow>
     keeps R (case x of None \<Rightarrow> m | Some y \<Rightarrow> f y)"
  "(\<And>y. r = Inl y \<Longrightarrow> keeps R (g y)) \<Longrightarrow> (\<And>y. r = Inr y \<Longrightarrow> keeps R (f y)) \<Longrightarrow>
     keeps R (case r of Inl y \<Rightarrow> g y | Inr y \<Rightarrow> f y)"
  "(\<And>a b. keeps R (h a b)) \<Longrightarrow> keeps R (case q of (a, b) \<Rightarrow> h a b)"
  by (auto split: option.split sum.split prod.split)

lemmas keeps_intros = keeps_bindS keeps_attempt keeps_with_err keeps_returnS keeps_liftS keeps_cases

lemma keeps_add_trees:
  assumes R: "about_tree R"
  shows "keeps R (add_trees w profile names c)"
proof (induction names arbitrary: c)
  case (Cons n names)
  have "keeps R (visits w k)" for k
  proof (induction k)
    case (Suc k)
    have "keeps R (visit w)" unfolding visit_def by (rule keeps_looking [OF R]) simp
    with Suc show ?case unfolding visits.simps by (intro keeps_bindS about_tree_trans R)
  qed (auto intro: about_tree_refl [OF R])
  then have "keeps R (add_extension_tree w name p c)" for name p
    unfolding add_extension_tree_def Let_def
    by (intro keeps_intros keeps_stat about_tree_trans about_tree_refl R)
  with Cons.IH show ?case
    unfolding add_trees.simps by (intro keeps_intros about_tree_trans R)
qed (auto intro: about_tree_refl [OF R])

lemma keeps_read_preferences:
  assumes R: "about_tree R"
  shows "keeps R (add_preferences e profile files entries)"
proof (induction files arbitrary: entries)
  case (Cons f files)
  have "keeps R (read_extension_preferences e q)" for q
    unfolding read_extension_preferences_def
    by (intro keeps_intros keeps_path_tests keeps_reads about_tree_trans about_tree_refl R)
  with Cons.IH show ?case
    unfolding add_preferences.simps by (intro keeps_intros about_tree_trans R)
qed (auto intro: about_tree_refl [OF R])

lemma keeps_create_extension_bundle:
  assumes R: "about_tree R"
    and here: "keeps R (create_new (re_os e) q)" "\<And>b. keeps R (write_open (re_os e) q b)" "keeps R (remove_file (re_os e) q)"
    and up: "\<And>d. path_parent q = Some d \<Longrightarrow> keeps R (create_dir_all (re_os e) d)"
  shows "keeps R (create_extension_bundle e p q)"
proof -
  note more = keeps_intros keeps_path_tests keeps_reads keeps_add_trees keeps_read_preferences here
    about_tree_trans about_tree_refl R
  have count: "keeps R (count_extensions (re_os e) (dp_path p))"
    unfolding count_extensions_def Let_def by (intro more)
  have "keeps R (bundle_entries e p st)" for st
    unfolding bundle_entries_def Let_def indexed_db_trees_def by (intro more)
  then have written: "keeps R (write_bundle e p q st)" for st
    unfolding write_bundle_def by (intro more)
  have sum: "keeps R (sha256_file e q)" "keeps R (fail_removing (re_os e) q x)" for x
    unfolding sha256_file_def fail_removing_def by (intro more)+
  show ?thesis
  proof (cases "path_parent q")
    case None
    then show ?thesis
      by (auto simp: create_extension_bundle_def keeps_def bindS_def liftS_def about_treeD [OF R])
  next
    case (Some d)
    have first: "bindS (liftS (ok_or x (Some d))) f = f d" for x :: restore_error and f :: "path \<Rightarrow> 'a restoring"
      by (simp add: bindS_def liftS_def)
    show ?thesis
      unfolding create_extension_bundle_def Some first
      by (intro more count written sum up [OF Some])
  qed
qed

section \<open>Unpacking stays in the staging directory\<close>

text \<open>What \<open>enclosed_name\<close> promises: a relative path that never leads above its start.\<close>

fun enclosed :: "nat \<Rightarrow> path \<Rightarrow> bool" where
  "enclosed d [] = True"
| "enclosed d (RootDir # p) = False"
| "enclosed d (CurDir # p) = enclosed d p"
| "enclosed d (ParentDir # p) = (d > 0 \<and> enclosed (d - 1) p)"
| "enclosed d (Normal x # p) = enclosed (Suc d) p"

definition enclosed_entries :: "zip_archive \<Rightarrow> bool" where
  "enclosed_entries a \<longleftrightarrow>
     (\<forall>z q. Inr z \<in> set (za_entries a) \<longrightarrow> ze_enclosed z = Some q \<longrightarrow> enclosed 0 q)"

lemma enclosed_walk: "enclosed (length names) p \<Longrightarrow> \<exists>r. walk (at @ names) p = at @ r"
proof (induction p arbitrary: names)
  case (Cons c p)
  show ?case
  proof (cases c)
    case ParentDir
    with Cons.prems have "names \<noteq> []" "enclosed (length (butlast names)) p" by auto
    with Cons.IH [of "butlast names"] ParentDir show ?thesis by (simp add: butlast_append)
  next
    case (Normal x)
    with Cons.prems Cons.IH [of "names @ [x]"] show ?thesis by simp
  qed (use Cons in auto)
qed simp

lemma enclosed_prefix: "enclosed d (a @ b) \<Longrightarrow> enclosed d a"
  by (induction d a rule: enclosed.induct) auto

lemma clear_of_enclosed:
  assumes "downward base" and "apart (walk cwd base) q" and "enclosed (length names) p"
  shows "clear_of cwd q (base @ map Normal names @ p)" "apart (walk cwd (base @ map Normal names @ p)) q"
proof -
  have below: "apart (walk cwd (base @ map Normal names @ a)) q" if "enclosed (length names) a" for a
  proof -
    from enclosed_walk [OF that] obtain r where "walk cwd (base @ map Normal names @ a) = walk cwd base @ r"
      by (auto simp: walk_append walk_names)
    with apart_below [OF assms(2)] show ?thesis by simp
  qed
  show "apart (walk cwd (base @ map Normal names @ p)) q" by (rule below [OF assms(3)])
  have top: "clear_of cwd q (base @ map Normal names)"
    using assms(1) below [of "[]"] by (auto intro!: clear_of_downward simp: apart_def)
  show "clear_of cwd q (base @ map Normal names @ p)"
    unfolding clear_of_def
  proof (intro allI impI)
    fix a b t
    assume ab: "base @ map Normal names @ p = a @ b" "a \<noteq> []"
    then consider c where "base @ map Normal names = a @ c" | c where "a = base @ map Normal names @ c" "p = c @ b"
      by (auto simp: append_eq_append_conv2 simp flip: append_assoc)
    then show "walk cwd a \<noteq> q @ t"
    proof cases
      case 1
      with top ab(2) show ?thesis unfolding clear_of_def by blast
    next
      case 2
      with below [OF enclosed_prefix] assms(3) show ?thesis by (auto simp: apart_def)
    qed
  qed
qed

lemma allowed_starts_with_name:
  "validate_extension_relative_path p = Inr () \<Longrightarrow> \<exists>x r. p = Normal x # r"
proof (induction p rule: validate_extension_relative_path.induct)
  case (2 c rest)
  then show ?case
    by (cases c) (auto simp: EXTENSION_DIRECTORIES_def split: if_splits)
qed simp

lemma spares_make_parent: "clear_of cwd q p \<Longrightarrow> keeps (spares cwd q) (make_parent w p)"
  unfolding make_parent_def
  by (cases "path_parent p")
    (auto intro!: keeps_with_err spares_create_dir_all about_tree_refl spares_about_tree dest: clear_of_parent)

lemma spares_unpack_file:
  assumes "clear_of cwd q p" "apart (walk cwd p) q"
  shows "keeps (spares cwd q) (unpack_file w p content)"
  unfolding unpack_file_def create_parent_of_def
  by (intro keeps_intros spares_make_parent spares_file_calls assms about_tree_trans about_tree_refl spares_about_tree)

lemma spares_extract_entry:
  assumes stage: "downward stage" "apart (walk cwd stage) q"
    and "\<And>r. ze_enclosed z = Some r \<Longrightarrow> enclosed 0 r"
  shows "keeps (spares cwd q) (extract_entry w (stage @ [Normal ''profile'']) z)"
proof -
  note R = about_tree_trans [OF spares_about_tree] about_tree_refl [OF spares_about_tree]
  have "keeps (spares cwd q) (bindS (liftS (validate_extension_relative_path relative)) (\<lambda>_.
      if ze_is_dir z
      then with_err (At_write (path_join (stage @ [Normal ''profile'']) relative))
        (create_dir_all w (path_join (stage @ [Normal ''profile'']) relative))
      else unpack_file w (path_join (stage @ [Normal ''profile'']) relative) (ze_data z)))"
    if "enclosed 1 relative" for relative
  proof (cases "validate_extension_relative_path relative")
    case (Inl x)
    then show ?thesis by (simp add: keeps_def bindS_def liftS_def about_treeD [OF spares_about_tree])
  next
    case (Inr u)
    with allowed_starts_with_name [of relative] obtain x r where x: "relative = Normal x # r" by auto
    let ?p = "path_join (stage @ [Normal ''profile'']) relative"
    have p: "?p = stage @ map Normal [''profile''] @ relative" by (simp add: x path_join_names)
    have "enclosed (length [''profile'']) relative" using that by simp
    note clear = clear_of_enclosed [OF stage this, folded p]
    show ?thesis
      unfolding bindS_def liftS_def Inr
      using clear by (auto intro: keeps_with_err spares_create_dir_all spares_unpack_file)
  qed
  moreover have "enclosed 1 relative" if "payload_path r = Some relative" "enclosed 0 r" for r relative
    using that by (cases r rule: payload_path.cases) (auto split: if_splits)
  ultimately show ?thesis
    unfolding extract_entry_def using assms(3)
    by (intro keeps_cases keeps_returnS keeps_liftS R) auto
qed

lemma spares_extract_payload:
  assumes "downward stage" "apart (walk cwd stage) q"
    and "\<And>z r. Inr z \<in> set entries \<Longrightarrow> ze_enclosed z = Some r \<Longrightarrow> enclosed 0 r"
  shows "keeps (spares cwd q) (extract_extension_payload w (stage @ [Normal ''profile'']) entries)"
  using assms(3)
proof (induction entries)
  case Nil
  then show ?case by (auto intro: about_tree_refl spares_about_tree)
next
  case (Cons x entries)
  note R = about_tree_trans [OF spares_about_tree] about_tree_refl [OF spares_about_tree]
  show ?case
  proof (cases x)
    case (Inl y)
    then show ?thesis by (simp add: keeps_def bindS_def liftS_def about_treeD [OF spares_about_tree])
  next
    case (Inr z)
    have "keeps (spares cwd q) (extract_entry w (stage @ [Normal ''profile'']) z)"
      by (rule spares_extract_entry [OF assms(1,2)]) (use Cons.prems Inr in auto)
    moreover have "keeps (spares cwd q) (extract_extension_payload w (stage @ [Normal ''profile'']) entries)"
      by (rule Cons.IH) (metis Cons.prems list.set_intros(2))
    ultimately show ?thesis
      by (auto simp: Inr bindS_def liftS_def intro: keeps_bindS [unfolded bindS_def] R)
  qed
qed

lemma spares_stage_preferences:
  assumes "apart (walk cwd staged) q"
  shows "keeps (spares cwd q) (stage_preference_files e a live staged files)"
proof (induction files)
  case Nil
  then show ?case by (auto intro: about_tree_refl spares_about_tree)
next
  case (Cons f files)
  note R = about_tree_trans [OF spares_about_tree] about_tree_refl [OF spares_about_tree]
  have read: "keeps (spares cwd q) (live_preferences e d)" for d
    unfolding live_preferences_def
    by (intro keeps_intros keeps_path_tests keeps_reads spares_about_tree R)
  have "apart (walk cwd (staged @ [Normal f])) q"
    using apart_below [OF assms] by (simp add: walk_append)
  then have stage: "keeps (spares cwd q) (with_err x (write_file w (staged @ [Normal f]) b))" for x w b
    by (intro keeps_with_err spares_write_file)
  have object: "keeps (spares cwd q) (case v of P_object fs \<Rightarrow> f fs | _ \<Rightarrow> liftS y)"
    if "\<And>fs. keeps (spares cwd q) (f fs)" for v y and f :: "_ \<Rightarrow> unit restoring"
    using that by (cases v) (auto intro: R)
  have "keeps (spares cwd q) (stage_preference_file e a live staged f)"
    unfolding stage_preference_file_def Let_def
    by (intro keeps_bindS keeps_cases keeps_returnS keeps_liftS keeps_path_tests spares_about_tree read stage object R)
  with Cons show ?case
    unfolding stage_preference_files.simps by (intro keeps_bindS R)
qed

lemma spares_stage_bundle:
  assumes "downward stage" "apart (walk cwd stage) q" "enclosed_entries a"
  shows "keeps (spares cwd q) (stage_bundle e p a (stage @ [Normal ''profile'']))"
proof -
  note R = about_tree_trans [OF spares_about_tree]
  have "clear_of cwd q (stage @ [Normal ''profile''])" "apart (walk cwd (stage @ [Normal ''profile''])) q"
    using clear_of_enclosed [OF assms(1,2), of "[''profile'']" "[]"] by simp_all
  moreover have "keeps (spares cwd q) (extract_extension_payload w (stage @ [Normal ''profile'']) (za_entries a))" for w
    by (rule spares_extract_payload [OF assms(1,2)]) (use assms(3) in \<open>auto simp: enclosed_entries_def\<close>)
  ultimately show ?thesis
    unfolding stage_bundle_def
    by (intro keeps_bindS keeps_with_err spares_mkdir spares_stage_preferences R)
qed

section \<open>The backup and the temporary directories\<close>

lemma extensions_backup_path_name:
  assumes "CHR ''/'' \<notin> set (re_unique e)"
  shows "\<exists>x. extensions_backup_path e p downloads = downloads @ [Normal x]"
proof -
  let ?x = "''Helium-Sync-'' @ safe_profile_name (dp_directory_name p) @ ''-extensions-before-load-''
    @ re_unique e @ ''.zip''"
  have "plain_name ?x"
    using assms by (auto simp: plain_name_def safe_profile_name_def name_char_def code_of_def)
  then show ?thesis by (simp add: extensions_backup_path_def path_of_plain)
qed

lemma spares_backup:
  assumes "CHR ''/'' \<notin> set (re_unique e)" "downward downloads"
    and "apart (walk cwd (extensions_backup_path e p downloads)) q"
  shows "keeps (spares cwd q) (backup_extensions e p downloads)"
proof -
  note R = about_tree_trans [OF spares_about_tree] about_tree_refl [OF spares_about_tree]
  obtain x where x: "extensions_backup_path e p downloads = downloads @ [Normal x]"
    using extensions_backup_path_name [OF assms(1)] by blast
  have "walk cwd downloads \<noteq> q @ t" for t
    using assms(3) unfolding x by (auto simp: walk_append apart_def)
  then have up: "keeps (spares cwd q) (create_dir_all (re_os e) downloads)"
    by (intro spares_create_dir_all clear_of_downward [OF assms(2)])
  have "keeps (spares cwd q) (create_extension_bundle (bundle_env.truncate e) p (downloads @ [Normal x]))"
    using up spares_file_calls [OF assms(3)] unfolding x
    by (intro keeps_create_extension_bundle spares_about_tree) (simp_all add: bundle_env.truncate_def)
  with up show ?thesis
    unfolding backup_extensions_def x by (intro keeps_bindS keeps_with_err keeps_returnS R)
qed

lemma tempdir_run:
  "tempdir_in e prefix dir s = (r, s') \<Longrightarrow>
     \<exists>y. mkdir (re_os e) (dir @ [Normal (prefix @ xe_temp_name e (fs_calls s))]) s = (y, s')
       \<and> r = (case y of Inl x \<Rightarrow> Inl (At_write dir x) | Inr _ \<Rightarrow> Inr (dir @ [Normal (prefix @ xe_temp_name e (fs_calls s))]))"
  by (cases "mkdir (re_os e) (dir @ [Normal (prefix @ xe_temp_name e (fs_calls s))]) s")
    (auto simp: tempdir_in_def Let_def bindS_def returnS_def map_err_def split: sum.splits)

lemma tempdir_name:
  assumes "tempdir_in e prefix dir s = (Inr d, s')"
  shows "\<exists>x. d = dir @ [Normal (prefix @ x)]"
proof -
  from tempdir_run [OF assms] obtain y :: "io_error + unit" where
    "Inr d = (case y of Inl x \<Rightarrow> Inl (At_write dir x) | Inr _ \<Rightarrow> Inr (dir @ [Normal (prefix @ xe_temp_name e (fs_calls s))]))"
    by blast
  then show ?thesis by (cases y) auto
qed

lemma spares_tempdir:
  assumes "downward dir" "\<And>x. apart (walk cwd dir @ [prefix @ x]) q"
  shows "keeps (spares cwd q) (tempdir_in e prefix dir)"
  unfolding keeps_def
proof
  fix s :: files
  let ?tmp = "dir @ [Normal (prefix @ xe_temp_name e (fs_calls s))]"
  obtain r s' where run: "tempdir_in e prefix dir s = (r, s')" by (cases "tempdir_in e prefix dir s")
  from tempdir_run [OF this] obtain y where y: "mkdir (re_os e) ?tmp s = (y, s')" by blast
  have "clear_of cwd q ?tmp"
    by (rule clear_of_downward) (use assms in \<open>auto simp: walk_append apart_def\<close>)
  from spares_mkdir [OF this, of "re_os e"] y show "spares cwd q s (snd (tempdir_in e prefix dir s))"
    unfolding run keeps_def by (metis snd_conv)
qed

section \<open>Checks are counted up\<close>

definition counts_up :: "files \<Rightarrow> files \<Rightarrow> bool" where
  "counts_up s s' \<longleftrightarrow> fs_stats s \<le> fs_stats s'"

lemma counts_up_about_tree: "about_tree counts_up"
  by (rule about_treeI) (auto simp: counts_up_def)

lemma counts_up_sys: "(\<And>s k. fs_stats (s\<lparr>fs_root := part s k\<rparr>) = fs_stats s) \<Longrightarrow> keeps counts_up (sys w part act)"
  by (auto simp: keeps_def counts_up_def sys_def split: option.split sum.split)

lemma counts_up_coincides: "coincides w m m' \<Longrightarrow> keeps counts_up m"
  by (simp add: coincides_def keeps_def counts_up_def)

lemmas counts_up_order = about_tree_trans [OF counts_up_about_tree] about_tree_refl [OF counts_up_about_tree]

lemmas counts_up_directories = coincides_calls [THEN counts_up_coincides] coincides_create_dir_all [THEN counts_up_coincides]
  coincides_create_parent_of [THEN counts_up_coincides]

lemma counts_up_files:
  "keeps counts_up (create_new w p)" "keeps counts_up (write_open w p b)" "keeps counts_up (open_truncate w p)"
  unfolding create_new_def write_open_def open_truncate_def by (rule counts_up_sys, simp)+

lemmas counts_up_intros = keeps_bindS keeps_attempt keeps_with_err keeps_returnS keeps_liftS keeps_cases
  keeps_path_tests [OF counts_up_about_tree] keeps_reads [OF counts_up_about_tree]
  counts_up_order counts_up_directories counts_up_files

lemma counts_up_stage_bundle: "keeps counts_up (stage_bundle e p a staged)"
proof -
  have "keeps counts_up (unpack_file w q content)" for w q content
    unfolding unpack_file_def by (intro counts_up_intros)
  then have entry: "keeps counts_up (extract_entry w staged z)" for w z
    unfolding extract_entry_def by (intro counts_up_intros)
  have payload: "keeps counts_up (extract_extension_payload w staged entries)" for w entries
    by (induction entries) (simp_all, (intro counts_up_intros entry | assumption)+)
  have object: "keeps counts_up (case v of P_object fs \<Rightarrow> f fs | _ \<Rightarrow> liftS y)"
    if "\<And>fs. keeps counts_up (f fs)" for v y and f :: "_ \<Rightarrow> unit restoring"
    using that by (cases v) (auto intro: counts_up_order)
  have one: "keeps counts_up (stage_preference_file e a live staged f)" for live f
    unfolding stage_preference_file_def live_preferences_def write_file_def Let_def
    by (intro object counts_up_intros)
  have "keeps counts_up (stage_preference_files e a live staged files)" for live files
    by (induction files) (simp_all, (intro counts_up_intros one | assumption)+)
  with payload show ?thesis
    unfolding stage_bundle_def by (intro counts_up_intros)
qed

lemma counts_up_backup: "keeps counts_up (backup_extensions e p downloads)"
  unfolding backup_extensions_def
  by (intro counts_up_intros keeps_create_extension_bundle counts_up_about_tree)

lemma counts_up_read_bundle: "keeps counts_up (read_bundle e p archive_path)"
  unfolding read_bundle_def by (intro counts_up_intros)

lemma counts_up_tempdir: "keeps counts_up (tempdir_in e prefix dir)"
  unfolding keeps_def
proof
  fix s :: files
  obtain r s' where run: "tempdir_in e prefix dir s = (r, s')" by (cases "tempdir_in e prefix dir s")
  from tempdir_run [OF this] obtain q y where "mkdir (re_os e) q s = (y, s')" by blast
  with run counts_up_directories(1) show "counts_up s (snd (tempdir_in e prefix dir s))"
    unfolding keeps_def by (metis snd_conv)
qed

lemma counts_up_run: "keeps counts_up m \<Longrightarrow> m s = (r, s') \<Longrightarrow> fs_stats s \<le> fs_stats s'"
  unfolding keeps_def counts_up_def by (metis snd_conv)

section \<open>The whole load\<close>

definition live_entry :: "discovered_profile \<Rightarrow> target \<Rightarrow> files \<Rightarrow> node option" where
  "live_entry p t s = node_of s (target_path (dp_path p) t)"

definition targets_kept :: "discovered_profile \<Rightarrow> files \<Rightarrow> files \<Rightarrow> bool" where
  "targets_kept p s s' \<longleftrightarrow> (\<forall>t. extension_target t \<longrightarrow> live_entry p t s' = live_entry p t s)"

text \<open>The errors after which old data may be missing, read off the error alone.\<close>

definition below_rollback :: "path \<Rightarrow> path \<Rightarrow> bool" where
  "below_rollback profile q \<longleftrightarrow> take (length profile) q = profile
     \<and> (case drop (length profile) q of Normal x # _ \<Rightarrow> starts_with ROLLBACK_PREFIX x | _ \<Rightarrow> False)"

definition admits_loss :: "discovered_profile \<Rightarrow> restore_error \<Rightarrow> bool" where
  "admits_loss p x \<longleftrightarrow> (case x of
       At_write q y \<Rightarrow> below_rollback (dp_path p) q | At_archive q y \<Rightarrow> incomplete y | _ \<Rightarrow> False)"

definition load_setting :: "ext_env \<Rightarrow> discovered_profile \<Rightarrow> path \<Rightarrow> files \<Rightarrow> bool" where
  "load_setting e p downloads s \<longleftrightarrow> downward (dp_path p) \<and> downward downloads
     \<and> CHR ''/'' \<notin> set (re_unique e)
     \<and> apart (place s (extensions_backup_path e p downloads)) (place s (dp_path p))"

lemma load_setting_cwd: "fs_cwd s' = fs_cwd s \<Longrightarrow> load_setting e p downloads s' = load_setting e p downloads s"
  by (simp add: load_setting_def place_def)

lemma may_lose_admits: "may_lose (dp_path p @ [Normal (ROLLBACK_PREFIX @ x)]) y \<Longrightarrow> admits_loss p y"
  by (auto simp: may_lose_def admits_loss_def below_rollback_def starts_with_iff split: restore_error.splits)

lemma spares_run:
  assumes "keeps (spares (fs_cwd s) (place s q)) m" and "m s = (r, s')"
  shows "node_of s' q = node_of s q" "fs_cwd s' = fs_cwd s"
proof -
  have "spares (fs_cwd s) (place s q) s s'" using assms unfolding keeps_def by (metis snd_conv)
  then show "node_of s' q = node_of s q" "fs_cwd s' = fs_cwd s"
    by (simp_all add: spares_def node_of_def place_def)
qed

lemma temporary_names:
  "\<exists>y. STAGE_PREFIX @ x = CHR ''.'' # y" "\<exists>y. ROLLBACK_PREFIX @ x = CHR ''.'' # y"
  "STAGE_PREFIX @ x \<noteq> ROLLBACK_PREFIX @ y"
  by (simp_all add: STAGE_PREFIX_def ROLLBACK_PREFIX_def)

lemma temporary_apart:
  assumes "extension_target t"
  shows "apart (at @ [STAGE_PREFIX @ x]) (at @ t)" "apart (at @ [ROLLBACK_PREFIX @ x]) (at @ t)"
proof -
  obtain u us where t: "t = u # us" using extension_target_nonempty [OF assms] by (cases t) auto
  then have "u \<noteq> CHR ''.'' # y" for y using extension_target_hd [OF assms] by simp
  then have "u \<noteq> STAGE_PREFIX @ x" "u \<noteq> ROLLBACK_PREFIX @ x" using temporary_names by metis+
  then show "apart (at @ [STAGE_PREFIX @ x]) (at @ t)" "apart (at @ [ROLLBACK_PREFIX @ x]) (at @ t)"
    using t by auto
qed

lemma live_place: "place s (target_path (dp_path p) t) = place s (dp_path p) @ t"
  by (simp add: target_path_def place_names)

lemma dropping_run:
  assumes "dropping w (d @ [Normal x]) m s = (r, s')"
  obtains s1 where "m s = (r, s1)" "fs_stats s1 \<le> fs_stats s'"
    "\<And>q. apart (place s1 d @ [x]) (place s1 q) \<Longrightarrow> node_of s' q = node_of s1 q"
proof -
  obtain y s1 where m: "m s = (y, s1)" by (cases "m s")
  obtain z s2 where z: "remove_dir_all w (d @ [Normal x]) s1 = (z, s2)" by (cases "remove_dir_all w (d @ [Normal x]) s1")
  have "r = y" "s' = s2" using assms m z by (simp_all add: dropping_def)
  moreover have "only_at (place s1 d @ [x]) s1 s2" using remove_dir_all_effect(1) [OF z] by simp
  moreover have "fs_stats s1 \<le> fs_stats s2"
    by (rule counts_up_run [OF counts_up_directories(4) z])
  ultimately show ?thesis
    using that [of s1] m only_at_node [of s1 "d @ [Normal x]" s2] by simp
qed

text \<open>The exchange with its roll-back directory.\<close>

lemma exchange_outcome:
  assumes run: "dropping (re_os e) (dp_path p @ [Normal (ROLLBACK_PREFIX @ x)])
      (swap_targets e p (dp_path p @ [Normal (STAGE_PREFIX @ y), Normal ''profile''])
        (dp_path p @ [Normal (ROLLBACK_PREFIX @ x)]) backup) s = (r, s')"
    and ok: "no_check_failed (re_os e) s s'" "downward (dp_path p)"
  shows "(\<exists>z. r = Inl z \<and> (admits_loss p z \<or> targets_kept p s s'))
    \<or> r = Inr () \<and> (\<forall>t. extension_target t \<longrightarrow> live_entry p t s' =
        node_of s (target_path (dp_path p @ [Normal (STAGE_PREFIX @ y), Normal ''profile'']) t))"
proof -
  let ?l = "\<lparr>lay_profile = dp_path p, lay_aside = ROLLBACK_PREFIX @ x, lay_stage = STAGE_PREFIX @ y\<rparr>"
  have l: "layout_ok ?l" using ok(2) temporary_names(1,2) temporary_names(3) [of y x] by (auto simp: layout_ok_def)
  have roots: "root_of ?l Aside = dp_path p @ [Normal (ROLLBACK_PREFIX @ x)]"
    "root_of ?l Staged = dp_path p @ [Normal (STAGE_PREFIX @ y), Normal ''profile'']"
    by (simp_all add: root_of.simps)
  from dropping_run [OF run] obtain s1 where
    s1: "swap_targets e p (root_of ?l Staged) (root_of ?l Aside) backup s = (r, s1)" "fs_stats s1 \<le> fs_stats s'"
      "\<And>q. apart (place s1 (dp_path p) @ [ROLLBACK_PREFIX @ x]) (place s1 q) \<Longrightarrow> node_of s' q = node_of s1 q"
    unfolding roots by metis
  have live: "live_entry p t s = view ?l s Live t" for t s
    by (simp add: live_entry_def view_def spot_path_def root_of.simps)
  have dropped: "live_entry p t s' = view ?l s1 Live t" if "extension_target t" for t
    using s1(3) [of "target_path (dp_path p) t"] temporary_apart(2) [OF that]
    by (simp add: live_place live_entry_def view_def spot_path_def root_of.simps)
  have "goes_on ?l (view ?l s) (\<lambda>_. live_as ?l (\<lambda>_. view ?l s Staged)) (r, s1)"
    by (rule swap_targets_all_or_nothing [OF l _ no_check_failed_within [OF ok(1) order_refl s1(2)] s1(1)]) simp
  then show ?thesis
  proof (cases r)
    case (Inl z)
    with \<open>goes_on ?l _ _ (r, s1)\<close> have "may_lose (root_of ?l Aside) z \<or> live_as ?l (view ?l s) s1"
      by (simp add: goes_on_def)
    then show ?thesis
      using may_lose_admits [of p x z] Inl dropped live by (auto simp: roots live_as_def targets_kept_def)
  next
    case (Inr u)
    with \<open>goes_on ?l _ _ (r, s1)\<close> have "live_as ?l (\<lambda>_. view ?l s Staged) s1"
      by (simp add: goes_on_def)
    then show ?thesis
      using Inr dropped by (auto simp: live_as_def view_def spot_path_def roots)
  qed
qed

text \<open>Everything up to the exchange leaves the targets, and what has been staged, alone.\<close>

lemma setting_places:
  assumes "load_setting e p downloads s" "extension_target t"
  shows "apart (place s (dp_path p) @ [STAGE_PREFIX @ x]) (place s (target_path (dp_path p) t))"
    "apart (place s (dp_path p) @ [ROLLBACK_PREFIX @ x]) (place s (target_path (dp_path p) t))"
    "apart (place s (extensions_backup_path e p downloads)) (place s (target_path (dp_path p) t))"
    "apart (place s (dp_path p) @ [ROLLBACK_PREFIX @ z]) (place s (target_path (dp_path p @ [Normal (STAGE_PREFIX @ y), Normal ''profile'']) t))"
    "apart (place s (extensions_backup_path e p downloads)) (place s (target_path (dp_path p @ [Normal (STAGE_PREFIX @ y), Normal ''profile'']) t))"
proof -
  have staged: "place s (target_path (dp_path p @ [Normal (STAGE_PREFIX @ y), Normal ''profile'']) t)
      = place s (dp_path p) @ (STAGE_PREFIX @ y) # ''profile'' # t"
    using place_names [of s "dp_path p" "(STAGE_PREFIX @ y) # ''profile'' # t"] by (simp add: target_path_def)
  have outside: "apart (place s (extensions_backup_path e p downloads)) (place s (dp_path p) @ r)" for r
    by (rule apart_below2) (use assms(1) in \<open>simp add: load_setting_def\<close>)
  show "apart (place s (dp_path p) @ [STAGE_PREFIX @ x]) (place s (target_path (dp_path p) t))"
    "apart (place s (dp_path p) @ [ROLLBACK_PREFIX @ x]) (place s (target_path (dp_path p) t))"
    using temporary_apart [OF assms(2)] by (simp_all add: live_place)
  show "apart (place s (extensions_backup_path e p downloads)) (place s (target_path (dp_path p) t))"
    "apart (place s (extensions_backup_path e p downloads)) (place s (target_path (dp_path p @ [Normal (STAGE_PREFIX @ y), Normal ''profile'']) t))"
    using outside by (simp_all only: live_place staged)
  show "apart (place s (dp_path p) @ [ROLLBACK_PREFIX @ z]) (place s (target_path (dp_path p @ [Normal (STAGE_PREFIX @ y), Normal ''profile'']) t))"
    using temporary_names(3) [of y z] by (simp add: staged)
qed

lemma backup_run:
  assumes set: "load_setting e p downloads s" and run: "backup_extensions e p downloads s = (r, s')"
  shows "targets_kept p s s'" "fs_cwd s' = fs_cwd s"
    "extension_target t \<Longrightarrow> node_of s' (target_path (dp_path p @ [Normal (STAGE_PREFIX @ y), Normal ''profile'']) t)
       = node_of s (target_path (dp_path p @ [Normal (STAGE_PREFIX @ y), Normal ''profile'']) t)"
proof -
  have keeps: "keeps (spares (fs_cwd s) (place s q)) (backup_extensions e p downloads)"
    if "apart (place s (extensions_backup_path e p downloads)) (place s q)" for q
    using spares_backup set that by (simp add: load_setting_def place_def)
  show "targets_kept p s s'"
    unfolding targets_kept_def live_entry_def using spares_run(1) [OF keeps run] setting_places(3) [OF set] by blast
  show "fs_cwd s' = fs_cwd s"
    using spares_run(2) [OF keeps run] setting_places(3) [OF set, of "[''Extensions'']"]
    by (auto simp: extension_target_def EXTENSION_DIRECTORIES_def)
  show "extension_target t \<Longrightarrow> node_of s' (target_path (dp_path p @ [Normal (STAGE_PREFIX @ y), Normal ''profile'']) t)
       = node_of s (target_path (dp_path p @ [Normal (STAGE_PREFIX @ y), Normal ''profile'']) t)"
    using spares_run(1) [OF keeps run] setting_places(5) [OF set] by blast
qed

lemma tempdir_spares:
  assumes set: "load_setting e p downloads s" and run: "tempdir_in e prefix (dp_path p) s = (r, s')"
  shows "(\<And>x. apart (place s (dp_path p) @ [prefix @ x]) (place s q)) \<Longrightarrow> node_of s' q = node_of s q"
    "(\<And>x. apart (place s (dp_path p) @ [prefix @ x]) (place s q)) \<Longrightarrow> fs_cwd s' = fs_cwd s"
proof -
  have "keeps (spares (fs_cwd s) (place s q)) (tempdir_in e prefix (dp_path p))"
    if "\<And>x. apart (place s (dp_path p) @ [prefix @ x]) (place s q)"
    using spares_tempdir set that by (simp add: load_setting_def place_def)
  from spares_run [OF this run]
  show "(\<And>x. apart (place s (dp_path p) @ [prefix @ x]) (place s q)) \<Longrightarrow> node_of s' q = node_of s q"
    "(\<And>x. apart (place s (dp_path p) @ [prefix @ x]) (place s q)) \<Longrightarrow> fs_cwd s' = fs_cwd s" by blast+
qed

lemma some_target: "extension_target [''Extensions'']"
  by (simp add: extension_target_def EXTENSION_DIRECTORIES_def)

lemma stage_run:
  assumes set: "load_setting e p downloads s" and "enclosed_entries a"
    and run: "stage_bundle e p a (dp_path p @ [Normal (STAGE_PREFIX @ y), Normal ''profile'']) s = (r, s')"
  shows "targets_kept p s s'" "fs_cwd s' = fs_cwd s"
proof -
  let ?stage = "dp_path p @ [Normal (STAGE_PREFIX @ y)]"
  have "keeps (spares (fs_cwd s) (place s (target_path (dp_path p) t))) (stage_bundle e p a (?stage @ [Normal ''profile'']))"
    if "extension_target t" for t
    by (rule spares_stage_bundle)
      (use set assms(2) setting_places(1) [OF set that] in \<open>simp_all add: load_setting_def place_def walk_append\<close>)
  then have keeps: "keeps (spares (fs_cwd s) (place s (target_path (dp_path p) t)))
      (stage_bundle e p a (dp_path p @ [Normal (STAGE_PREFIX @ y), Normal ''profile'']))" if "extension_target t" for t
    using that by simp
  show "targets_kept p s s'"
    unfolding targets_kept_def live_entry_def using spares_run(1) [OF keeps run] by blast
  show "fs_cwd s' = fs_cwd s" by (rule spares_run(2) [OF keeps [OF some_target] run])
qed

lemma targets_kept_trans: "targets_kept p s s' \<Longrightarrow> targets_kept p s' s'' \<Longrightarrow> targets_kept p s s''"
  by (simp add: targets_kept_def)

text \<open>What a successful load put in place.\<close>

definition targets_are_staged :: "ext_env \<Rightarrow> discovered_profile \<Rightarrow> zip_archive \<Rightarrow> path \<Rightarrow> files \<Rightarrow> files \<Rightarrow> bool" where
  "targets_are_staged e p a staged s s' \<longleftrightarrow>
     (\<exists>s2. stage_bundle e p a staged s = (Inr (), s2)
        \<and> (\<forall>t. extension_target t \<longrightarrow> live_entry p t s' = node_of s2 (target_path staged t)))"

lemma replace_extensions_outcome:
  assumes set: "load_setting e p downloads s" and "enclosed_entries a"
    and run: "replace_extensions e p a (dp_path p @ [Normal (STAGE_PREFIX @ y)]) downloads s = (r, s')"
    and sight: "no_check_failed (re_os e) s s'"
  shows "(\<exists>z. r = Inl z \<and> (admits_loss p z \<or> targets_kept p s s'))
    \<or> r = Inr () \<and> targets_are_staged e p a (dp_path p @ [Normal (STAGE_PREFIX @ y), Normal ''profile'']) s s'"
proof -
  let ?staged = "dp_path p @ [Normal (STAGE_PREFIX @ y), Normal ''profile'']"
  obtain r2 s2 where r2: "stage_bundle e p a ?staged s = (r2, s2)" by (cases "stage_bundle e p a ?staged s")
  note stage = stage_run [OF set assms(2) r2]
  have set2: "load_setting e p downloads s2" using set load_setting_cwd stage(2) by blast
  obtain r3 s3 where r3: "backup_extensions e p downloads s2 = (r3, s3)" by (cases "backup_extensions e p downloads s2")
  note backed = backup_run [OF set2 r3]
  have set3: "load_setting e p downloads s3" using set2 load_setting_cwd backed(2) by blast
  obtain r4 s4 where r4: "tempdir_in e ROLLBACK_PREFIX (dp_path p) s3 = (r4, s4)"
    by (cases "tempdir_in e ROLLBACK_PREFIX (dp_path p) s3")
  have temp: "targets_kept p s3 s4" "extension_target t \<Longrightarrow> node_of s4 (target_path ?staged t) = node_of s3 (target_path ?staged t)" for t
    using tempdir_spares(1) [OF set3 r4] setting_places(2,4) [OF set3] by (auto simp: targets_kept_def live_entry_def)
  note kept = stage(1) targets_kept_trans [OF stage(1) backed(1)]
    targets_kept_trans [OF targets_kept_trans [OF stage(1) backed(1)] temp(1)]
  have run: "(case r2 of Inl z \<Rightarrow> (Inl z, s2) | Inr _ \<Rightarrow>
      (case r3 of Inl z \<Rightarrow> (Inl z, s3) | Inr _ \<Rightarrow>
      (case r4 of Inl z \<Rightarrow> (Inl z, s4) | Inr rollback \<Rightarrow>
        dropping (re_os e) rollback
          (swap_targets e p ?staged rollback (extensions_backup_path e p downloads)) s4))) = (r, s')"
    using run r2 r3 r4 by (auto simp: replace_extensions_def Let_def bindS_def split: sum.splits)
  show ?thesis
  proof (cases "(\<exists>z. r2 = Inl z) \<or> (\<exists>z. r3 = Inl z) \<or> (\<exists>z. r4 = Inl z)")
    case True
    with run kept show ?thesis by (auto split: sum.splits)
  next
    case False
    then obtain rollback where ok: "r2 = Inr ()" "r3 = Inr ()" "r4 = Inr rollback"
      by (cases r2; cases r3; cases r4) auto
    obtain x where x: "rollback = dp_path p @ [Normal (ROLLBACK_PREFIX @ x)]"
      using tempdir_name r4 ok(3) by blast
    have "fs_stats s \<le> fs_stats s4"
      using counts_up_run [OF counts_up_stage_bundle r2] counts_up_run [OF counts_up_backup r3]
        counts_up_run [OF counts_up_tempdir r4] by simp
    then have "no_check_failed (re_os e) s4 s'" "downward (dp_path p)"
      using no_check_failed_within [OF sight] set by (simp_all add: load_setting_def)
    from exchange_outcome [OF _ this, of x y "extensions_backup_path e p downloads" r] run ok
    have "(\<exists>z. r = Inl z \<and> (admits_loss p z \<or> targets_kept p s4 s'))
      \<or> r = Inr () \<and> (\<forall>t. extension_target t \<longrightarrow> live_entry p t s' = node_of s4 (target_path ?staged t))"
      by (simp add: x)
    then show ?thesis
      using targets_kept_trans [OF kept(3)] r2 ok(1) temp(2) backed(3) by (auto simp: targets_are_staged_def)
  qed
qed

lemma read_bundle_run:
  assumes "read_bundle e p archive_path s = (r, s')"
  shows "same_tree s s'" "r = Inr (a, meta) \<Longrightarrow> \<exists>b. node_of s archive_path = Some (File b) \<and> xe_open_zip e b = Inr a"
proof -
  obtain y s1 where y: "read_file (re_os e) archive_path s = (y, s1)" by (cases "read_file (re_os e) archive_path s")
  have "s' = s1 \<and> (r = Inr (a, meta) \<longrightarrow> (\<exists>b. y = Inr b \<and> xe_open_zip e b = Inr a))"
    using assms y by (cases y) (auto simp: read_bundle_def bindS_def liftS_def returnS_def map_err_def split: sum.splits if_splits)
  with read_file_tree [OF y] show "same_tree s s'"
    "r = Inr (a, meta) \<Longrightarrow> \<exists>b. node_of s archive_path = Some (File b) \<and> xe_open_zip e b = Inr a" by auto
qed

lemma same_tree_kept: "same_tree s s' \<Longrightarrow> targets_kept p s s'"
  by (simp add: targets_kept_def live_entry_def same_tree_node)

text \<open>Loading: the archive that was read, the staging directory, and the outcome.\<close>

definition loaded :: "ext_env \<Rightarrow> discovered_profile \<Rightarrow> path \<Rightarrow> files \<Rightarrow> files \<Rightarrow> bool" where
  "loaded e p archive_path s s' \<longleftrightarrow>
     (\<exists>a meta s1 stage s2. read_bundle e p archive_path s = (Inr (a, meta), s1)
        \<and> tempdir_in e STAGE_PREFIX (dp_path p) s1 = (Inr stage, s2)
        \<and> targets_are_staged e p a (stage @ [Normal ''profile'']) s2 s')"

lemma restore_outcome:
  assumes run: "restore_extension_bundle e p archive_path downloads s = (r, s')"
    and set: "load_setting e p downloads s" and zip: "\<And>b a. xe_open_zip e b = Inr a \<Longrightarrow> enclosed_entries a"
    and sight: "no_check_failed (re_os e) s s'"
  shows "(\<exists>z. r = Inl z \<and> (admits_loss p z \<or> targets_kept p s s'))
    \<or> (\<exists>x. r = Inr x) \<and> loaded e p archive_path s s'"
proof -
  obtain r1 s1 where r1: "read_bundle e p archive_path s = (r1, s1)" by (cases "read_bundle e p archive_path s")
  note read = read_bundle_run [OF r1]
  show ?thesis
  proof (cases r1)
    case (Inl z)
    with run r1 same_tree_kept [OF read(1)] show ?thesis
      by (auto simp: restore_extension_bundle_def bindS_def)
  next
    case (Inr am)
    then obtain a meta where am: "r1 = Inr (a, meta)" by (cases am) auto
    have zips: "enclosed_entries a" using read(2) [OF am] zip by blast
    have set1: "load_setting e p downloads s1"
      using set read(1) load_setting_cwd by (metis same_tree_def)
    obtain r2 s2 where r2: "tempdir_in e STAGE_PREFIX (dp_path p) s1 = (r2, s2)"
      by (cases "tempdir_in e STAGE_PREFIX (dp_path p) s1")
    note temp = tempdir_spares [OF set1 r2]
    have "targets_kept p s1 s2"
      unfolding targets_kept_def live_entry_def using temp(1) setting_places(1) [OF set1] by blast
    from targets_kept_trans [OF same_tree_kept [OF read(1)] this] have kept: "targets_kept p s s2" .
    have "fs_cwd s2 = fs_cwd s1"
      by (rule temp(2)) (rule setting_places(1) [OF set1 some_target])
    then have set2: "load_setting e p downloads s2" using set1 load_setting_cwd by blast
    show ?thesis
    proof (cases r2)
      case (Inl z)
      with run r1 am r2 kept show ?thesis
        by (auto simp: restore_extension_bundle_def bindS_def)
    next
      case (Inr stage)
      then obtain y where y: "stage = dp_path p @ [Normal (STAGE_PREFIX @ y)]"
        using tempdir_name r2 by blast
      obtain r3 s3 where r3: "dropping (re_os e) stage (replace_extensions e p a stage downloads) s2 = (r3, s3)"
        by (cases "dropping (re_os e) stage (replace_extensions e p a stage downloads) s2")
      have r: "s3 = s'" "r = (case r3 of Inl z \<Rightarrow> Inl z
          | Inr _ \<Rightarrow> Inr \<lparr>er_backup_path = extensions_backup_path e p downloads, er_stats = bm_stats meta\<rparr>)"
        using run r1 am r2 Inr r3 by (auto simp: restore_extension_bundle_def bindS_def returnS_def split: sum.splits)
      from dropping_run [OF r3 [unfolded y]] obtain s4 where
        s4: "replace_extensions e p a stage downloads s2 = (r3, s4)" "fs_stats s4 \<le> fs_stats s3"
          "\<And>q. apart (place s4 (dp_path p) @ [STAGE_PREFIX @ y]) (place s4 q) \<Longrightarrow> node_of s3 q = node_of s4 q"
        unfolding y by metis
      have dropped: "live_entry p t s3 = live_entry p t s4" if "extension_target t" for t
        using s4(3) temporary_apart(1) [OF that] by (simp add: live_entry_def live_place)
      have "fs_stats s \<le> fs_stats s2"
        using counts_up_run [OF counts_up_read_bundle r1] counts_up_run [OF counts_up_tempdir r2] by simp
      from no_check_failed_within [OF sight [folded r(1)] this s4(2)]
      have "no_check_failed (re_os e) s2 s4" .
      from replace_extensions_outcome [OF set2 zips s4(1) [unfolded y] this]
      have "(\<exists>z. r3 = Inl z \<and> (admits_loss p z \<or> targets_kept p s s3))
        \<or> r3 = Inr () \<and> targets_are_staged e p a (stage @ [Normal ''profile'']) s2 s3"
        using kept dropped by (auto simp: targets_kept_def targets_are_staged_def y)
      then show ?thesis
        using r r1 am r2 Inr unfolding loaded_def by auto
    qed
  qed
qed

section \<open>An example\<close>

definition demo_archive :: zip_archive where
  "demo_archive =
     \<lparr>za_entries = [Inr \<lparr>ze_enclosed = Some [Normal ''payload'', Normal ''Extensions'', Normal ''new''],
         ze_is_dir = False, ze_data = Inr [5]\<rparr>],
      za_by_name = (\<lambda>n. Inr \<lparr>ze_enclosed = None, ze_is_dir = False, ze_data = Inr []\<rparr>)\<rparr>"

definition demo_ext_env :: "(nat \<Rightarrow> nat option) \<Rightarrow> ext_env" where
  "demo_ext_env fault =
     \<lparr>re_os = \<lparr>os_fault = fault, os_blind = (\<lambda>n. False)\<rparr>, re_zip = (\<lambda>entries. []),
      re_to_text = (\<lambda>j. None), re_json_len = (\<lambda>b. None), re_unique = ''7'',
      be_zip = (\<lambda>entries. []), be_sha256 = (\<lambda>b. []), be_meta_json = (\<lambda>m. []),
      be_prefs_of = (\<lambda>b. Inr P_null), be_prefs_json = (\<lambda>v. []),
      xe_open_zip = (\<lambda>b. Inr demo_archive),
      xe_meta_of = (\<lambda>b. Inr \<lparr>bm_format = EXTENSION_BUNDLE_FORMAT, bm_profile_directory = ''Default'',
         bm_stats = \<lparr>es_extensions = 1, es_files = 1, es_bytes = 1\<rparr>\<rparr>),
      xe_prefs_pretty = (\<lambda>v. Inr []), xe_temp_name = (\<lambda>n. ''x'')\<rparr>"

definition demo_ext_disk :: files where
  "demo_ext_disk =
     \<lparr>fs_root = Dir [(''p'', Dir [(''Extensions'', Dir [(''old'', File [1])]),
       (''IndexedDB'', Dir [(''chrome-extension_z'', Dir [])])]), (''d'', Dir []), (''a'', File [])],
      fs_cwd = [], fs_calls = 0, fs_stats = 0\<rparr>"

definition demo_ext_load :: "(nat \<Rightarrow> nat option) \<Rightarrow> (restore_error + extension_restore_result) \<times> files" where
  "demo_ext_load fault =
     restore_extension_bundle (demo_ext_env fault) demo_profile [RootDir, Normal ''a''] [RootDir, Normal ''d''] demo_ext_disk"

text \<open>The hypotheses of the two theorems hold in the example.\<close>

lemma demo_ext_setting:
  "load_setting (demo_ext_env fault) demo_profile [RootDir, Normal ''d''] demo_ext_disk"
  "xe_open_zip (demo_ext_env fault) b = Inr a \<Longrightarrow> enclosed_entries a"
  "no_check_failed (re_os (demo_ext_env fault)) s s'"
proof -
  have path: "extensions_backup_path (demo_ext_env fault) demo_profile [RootDir, Normal ''d''] =
      [RootDir, Normal ''d'', Normal ''Helium-Sync-Default-extensions-before-load-7.zip'']"
    unfolding demo_ext_env_def by code_simp
  have "fs_cwd demo_ext_disk = []" "dp_path demo_profile = [RootDir, Normal ''p'']"
    by (simp_all add: demo_ext_disk_def demo_profile_def)
  with path show "load_setting (demo_ext_env fault) demo_profile [RootDir, Normal ''d''] demo_ext_disk"
    by (auto simp: load_setting_def downward_def place_def) (simp add: demo_ext_env_def)
  show "xe_open_zip (demo_ext_env fault) b = Inr a \<Longrightarrow> enclosed_entries a"
    by (auto simp: demo_ext_env_def demo_archive_def enclosed_entries_def)
  show "no_check_failed (re_os (demo_ext_env fault)) s s'"
    by (simp add: demo_ext_env_def no_check_failed_def)
qed

text \<open>One failing call is enough to lose data: the directory for the second entry cannot be made,
  the roll-back directory is removed with the first entry in it, and nothing is put back.\<close>

lemma failed_aside_directory_loses_extensions:
  "(let (r, s) = demo_ext_load (\<lambda>n. if n = 20 then Some 0 else None)
    in r = Inl (At_write [RootDir, Normal ''p'', Normal ''.helium-sync-extension-rollback-x'', Normal ''IndexedDB'']
           (Os_fault 20))
       \<and> live_entry demo_profile [''Extensions''] demo_ext_disk \<noteq> None
       \<and> live_entry demo_profile [''Extensions''] s = None)"
  by code_simp

text \<open>A failed check loses data in silence: the \<open>exists\<close> of the live \<open>Preferences\<close> fails, so it is not
  moved aside; the staged file replaces it; a later move fails and the roll-back, reporting no fault,
  removes what was installed and has nothing to put back.\<close>

definition blind_ext_env :: ext_env where
  "blind_ext_env = (demo_ext_env (\<lambda>n. None))
     \<lparr>re_os := \<lparr>os_fault = (\<lambda>n. if n = 23 then Some 0 else None), os_blind = (\<lambda>n. n = 25)\<rparr>,
      be_prefs_of := (\<lambda>b. Inr (P_object []))\<rparr>"

definition preferences_disk :: files where
  "preferences_disk = demo_ext_disk
     \<lparr>fs_root := Dir [(''p'', Dir [(''Preferences'', File [1])]), (''d'', Dir []), (''a'', File [])]\<rparr>"

lemma failed_check_loses_preferences:
  "(let (r, s) = restore_extension_bundle blind_ext_env demo_profile [RootDir, Normal ''a'']
         [RootDir, Normal ''d''] preferences_disk
    in r = Inl (At_archive [RootDir, Normal ''p'', Normal ''Secure Preferences'']
           (New_not_installed (Os_fault 23) []
             [RootDir, Normal ''d'', Normal ''Helium-Sync-Default-extensions-before-load-7.zip'']))
       \<and> live_entry demo_profile [''Preferences''] preferences_disk = Some (File [1])
       \<and> live_entry demo_profile [''Preferences''] s = None)"
  by code_simp

text \<open>C8. Whatever calls fail, as long as no \<open>exists\<close>, \<open>is_dir\<close> or \<open>is_file\<close> check made during the load
  fails, an error from loading an extension bundle leaves every extension entry of the profile (the
  seven directories, the extensions' IndexedDB stores, the two preference files) exactly as it was,
  unless the error itself says otherwise: it lists faults of the roll-back, or it is a write error
  below the roll-back directory. (A failed check is taken for an absent entry, and then the
  statement is false: \<open>failed_check_loses_preferences\<close>.)\<close>

theorem failed_load_keeps_extensions:
  assumes "restore_extension_bundle e p archive_path downloads s = (Inl x, s')"
    and "\<not> admits_loss p x" and "extension_target t"
    and "no_check_failed (re_os e) s s'"
    and "load_setting e p downloads s" and "\<And>b a. xe_open_zip e b = Inr a \<Longrightarrow> enclosed_entries a"
  shows "live_entry p t s' = live_entry p t s"
  using restore_outcome [OF assms(1,5,6,4)] assms(2,3) by (auto simp: targets_kept_def)

lemma failed_load_keeps_extensions_witness:
  "live_entry demo_profile [''Extensions''] (snd (demo_ext_load (\<lambda>n. if n = 23 then Some 0 else None)))
     = live_entry demo_profile [''Extensions''] demo_ext_disk"
proof -
  let ?fault = "\<lambda>n. if n = (23::nat) then Some (0::nat) else None"
  let ?x = "At_archive [RootDir, Normal ''p'', Normal ''Extensions''] (New_not_installed (Os_fault 23) []
     [RootDir, Normal ''d'', Normal ''Helium-Sync-Default-extensions-before-load-7.zip''])"
  have "fst (demo_ext_load ?fault) = Inl ?x" by code_simp
  then have run: "restore_extension_bundle (demo_ext_env ?fault) demo_profile [RootDir, Normal ''a'']
      [RootDir, Normal ''d''] demo_ext_disk = (Inl ?x, snd (demo_ext_load ?fault))"
    unfolding demo_ext_load_def by (metis prod.collapse)
  have "\<not> admits_loss demo_profile ?x" by (simp add: admits_loss_def incomplete_def)
  from failed_load_keeps_extensions [OF run this some_target demo_ext_setting(3) demo_ext_setting(1,2)]
  show ?thesis .
qed

text \<open>C32. A successful load during which no \<open>exists\<close>, \<open>is_dir\<close> or \<open>is_file\<close> check failed replaces every extension entry by what the archive staged: each is the
  node that unpacking and the merged preferences put into the staging directory, and an entry that
  was not staged is gone.\<close>

theorem loaded_extensions_are_staged:
  assumes "restore_extension_bundle e p archive_path downloads s = (Inr res, s')"
    and "load_setting e p downloads s" and "\<And>b a. xe_open_zip e b = Inr a \<Longrightarrow> enclosed_entries a"
    and "no_check_failed (re_os e) s s'"
  shows "loaded e p archive_path s s'"
  using restore_outcome [OF assms] by auto

lemma loaded_extensions_are_staged_witness:
  "loaded (demo_ext_env (\<lambda>n. None)) demo_profile [RootDir, Normal ''a''] demo_ext_disk (snd (demo_ext_load (\<lambda>n. None)))"
proof -
  have "\<exists>r. fst (demo_ext_load (\<lambda>n. None)) = Inr r"
  proof
    show "fst (demo_ext_load (\<lambda>n. None)) = Inr \<lparr>er_backup_path =
        [RootDir, Normal ''d'', Normal ''Helium-Sync-Default-extensions-before-load-7.zip''],
      er_stats = \<lparr>es_extensions = 1, es_files = 1, es_bytes = 1\<rparr>\<rparr>" by code_simp
  qed
  then obtain r where "fst (demo_ext_load (\<lambda>n. None)) = Inr r" ..
  then have run: "restore_extension_bundle (demo_ext_env (\<lambda>n. None)) demo_profile [RootDir, Normal ''a'']
      [RootDir, Normal ''d''] demo_ext_disk = (Inr r, snd (demo_ext_load (\<lambda>n. None)))"
    unfolding demo_ext_load_def by (metis prod.collapse)
  from loaded_extensions_are_staged [OF run demo_ext_setting] show ?thesis .
qed

end
