(* ===== verification/Discovery.thy ===== *)
theory Discovery
  imports ExtRestore
begin

text \<open>
  Finding the installation of the browser and its profiles, reading the bookmarks of one, and
  reserving the directory of a new one (\<open>discover\<close>, \<open>enumerate_profiles\<close>, \<open>read_bookmarks\<close> and
  \<open>create_profile_with_reserved\<close> of \<open>helium-sync-profile/src/lib.rs\<close>) over the file system of \<open>Files\<close>.
  \<^item> What the environment and the platform name (overrides, the executable, the configuration
    directory) and the parsed \<open>Local State\<close> are parameters; of its JSON only strings and objects
    are looked into.
  \<^item> Nothing else changes the files while they are read, so the second attempt of
    \<open>read_bookmarks\<close> would see what the first one saw.
  \<^item> A name that is not UTF-8 is never \<open>Default\<close> or \<open>Profile N\<close>, so the lossy conversion of the
    names of directory entries does not matter.
\<close>

section \<open>Installation\<close>

datatype discovery_error =
    Not_found
  | Read_at path io_error
  | Parse_at path
  | Write_at path io_error
  | No_user_data_dir path
  | No_profile_directory_left

type_synonym 'a discovering = "(files, discovery_error, 'a) comp"

record discovery_options =
  do_executable_override :: "path option"
  do_user_data_override :: "path option"

datatype discovery_source = Override | Registry | Standard_path

record installation =
  in_executable :: "path option"
  in_user_data_dir :: path
  in_source :: discovery_source

text \<open>The closure \<open>push\<close> of \<open>platform_candidates\<close>, over what the platform offers.\<close>

fun push_candidates ::
  "path option \<Rightarrow> path list \<Rightarrow> (path option \<times> path \<times> discovery_source) list \<Rightarrow> installation list" where
  "push_candidates executable_override seen [] = []"
| "push_candidates executable_override seen ((executable, dir, source) # rest) =
     (if dir \<in> set seen then push_candidates executable_override seen rest
      else \<lparr>in_executable = (case executable_override of None \<Rightarrow> executable | Some x \<Rightarrow> Some x),
             in_user_data_dir = dir, in_source = source\<rparr>
           # push_candidates executable_override (dir # seen) rest)"

text \<open>On Linux: the executable found on the path, and the configuration directory.\<close>

definition platform_candidates :: "path option \<Rightarrow> path option \<Rightarrow> path option \<Rightarrow> installation list" where
  "platform_candidates executable_override linux_helium_executable config_dir =
     push_candidates executable_override []
       (case config_dir of
          None \<Rightarrow> []
        | Some base \<Rightarrow> [(linux_helium_executable, path_join base (path_of ''net.imput.helium''), Standard_path)])"

record discovery_env =
  di_os :: os
  di_options :: discovery_options
  di_linux_executable :: "path option"
  di_config_dir :: "path option"

fun first_installation :: "os \<Rightarrow> installation list \<Rightarrow> installation discovering" where
  "first_installation w [] = liftS (Inl Not_found)"
| "first_installation w (candidate # rest) =
     bindS (path_is_dir w (in_user_data_dir candidate)) (\<lambda>there.
     if there then returnS candidate else first_installation w rest)"

definition discover_installation :: "discovery_env \<Rightarrow> installation discovering" where
  "discover_installation e =
     (let opts = di_options e;
          executable = do_executable_override opts;
          others = first_installation (di_os e) (platform_candidates executable (di_linux_executable e) (di_config_dir e))
      in case do_user_data_override opts of
           None \<Rightarrow> others
         | Some dir \<Rightarrow>
             bindS (path_is_dir (di_os e) dir) (\<lambda>there.
             if there then returnS \<lparr>in_executable = executable, in_user_data_dir = dir, in_source = Override\<rparr>
             else others))"

section \<open>Bookmarks\<close>

fun path_text :: "path \<Rightarrow> string" where
  "path_text [] = []"
| "path_text [c] = comp_text c"
| "path_text (RootDir # p) = ''/'' @ path_text p"
| "path_text (c # p) = comp_text c @ ''/'' @ path_text p"

fun node_len :: "node \<Rightarrow> nat" where
  "node_len (File b) = length b"
| "node_len _ = 0"

definition file_metadata :: "os \<Rightarrow> path \<Rightarrow> (files, io_error, file_meta) comp" where
  "file_metadata w p = sys w untouched (\<lambda>s.
     case node_of s p of
       None \<Rightarrow> Inl No_entry
     | Some n \<Rightarrow> Inr (\<lparr>fm_len = node_len n, fm_modified = None\<rparr>, fs_root s))"

definition read_bookmarks_at ::
  "(bytes \<Rightarrow> json option) \<Rightarrow> os \<Rightarrow> path \<Rightarrow> string \<Rightarrow> (files, profile_error, bookmark_snapshot) comp" where
  "read_bookmarks_at of_text w path profile_directory =
     (let name = path_text path in
      bindS (with_err (\<lambda>_. ReadError name)
        (bindS (file_metadata w path) (\<lambda>before.
         bindS (read_file w path) (\<lambda>b.
         bindS (file_metadata w path) (\<lambda>after.
         returnS \<lparr>ra_before = Some before, ra_bytes = Some b, ra_after = Some after\<rparr>))))) (\<lambda>a.
      liftS (read_bookmarks of_text name profile_directory a a)))"

section \<open>Profiles\<close>

datatype state_value =
    V_object "(string \<times> state_value) list"
  | V_string string
  | V_other

record profile_reader =
  pr_of_text :: "bytes \<Rightarrow> json option"
  pr_state_of :: "bytes \<Rightarrow> state_value option"
  pr_error_text :: "profile_error \<Rightarrow> string"

definition value_get :: "string \<Rightarrow> state_value \<Rightarrow> state_value option" where
  "value_get k v = (case v of V_object fs \<Rightarrow> map_of fs k | _ \<Rightarrow> None)"

definition value_text :: "state_value \<Rightarrow> string option" where
  "value_text v = (case v of V_string s \<Rightarrow> Some s | _ \<Rightarrow> None)"

text \<open>The object at \<open>/profile/info_cache\<close>, or nothing.\<close>

definition info_cache :: "state_value \<Rightarrow> (string \<times> state_value) list" where
  "info_cache v =
     (case Option.bind (value_get ''profile'' v) (value_get ''info_cache'') of
        Some (V_object fs) \<Rightarrow> fs
      | _ \<Rightarrow> [])"

definition cached_name :: "string \<times> state_value \<Rightarrow> string \<times> string" where
  "cached_name f =
     (fst f, case Option.bind (value_get ''name'' (snd f)) value_text of None \<Rightarrow> fst f | Some n \<Rightarrow> n)"

definition cached_names :: "profile_reader \<Rightarrow> os \<Rightarrow> path \<Rightarrow> (string \<times> string) list discovering" where
  "cached_names rd w user_data_dir =
     (let p = path_join user_data_dir (path_of ''Local State'') in
      bindS (path_is_file w p) (\<lambda>there.
      if \<not> there then returnS []
      else bindS (with_err (Read_at p) (read_file w p)) (\<lambda>b.
           bindS (liftS (ok_or (Parse_at p) (pr_state_of rd b))) (\<lambda>v.
           returnS (btree_collect (map cached_name (info_cache v)))))))"

definition profile_directory_name :: "string \<Rightarrow> bool" where
  "profile_directory_name d \<longleftrightarrow>
     d = ''Default''
     \<or> (case strip_prefix ''Profile '' d of None \<Rightarrow> False | Some n \<Rightarrow> parse_unsigned 10 (2 ^ 32 - 1) n \<noteq> None)"

text \<open>\<open>entry(directory).or_insert\<close> of each directory with a profile's name.\<close>

definition add_directory :: "string \<times> node \<Rightarrow> (string \<times> string) list \<Rightarrow> (string \<times> string) list" where
  "add_directory f names =
     (if is_dir_node (Some (snd f)) \<and> profile_directory_name (fst f) \<and> map_of names (fst f) = None
      then btree_insert (fst f) (fst f) names else names)"

definition probe_profile ::
  "profile_reader \<Rightarrow> os \<Rightarrow> path \<Rightarrow> string \<times> string \<Rightarrow> discovered_profile option discovering" where
  "probe_profile rd w user_data_dir f =
     (let path = path_join user_data_dir (path_of (fst f));
          bookmarks_path = path_join path (path_of ''Bookmarks'')
      in
      bindS (path_is_dir w path) (\<lambda>there.
      if \<not> there then returnS None
      else
        bindS (path_is_file w bookmarks_path) (\<lambda>has_file.
        bindS (if \<not> has_file then returnS Missing
               else bindS (attempt (read_bookmarks_at (pr_of_text rd) w bookmarks_path (fst f))) (\<lambda>r.
                    returnS (case r of Inr _ \<Rightarrow> Readable | Inl x \<Rightarrow> Invalid_bookmarks (pr_error_text rd x)))) (\<lambda>status.
        returnS (Some \<lparr>dp_directory_name = fst f, dp_display_name = snd f, dp_path = path,
          dp_bookmarks_path = bookmarks_path, dp_bookmark_status = status\<rparr>)))))"

fun probe_profiles ::
  "profile_reader \<Rightarrow> os \<Rightarrow> path \<Rightarrow> (string \<times> string) list \<Rightarrow> discovered_profile list discovering" where
  "probe_profiles rd w user_data_dir [] = returnS []"
| "probe_profiles rd w user_data_dir (f # rest) =
     bindS (probe_profile rd w user_data_dir f) (\<lambda>p.
     bindS (probe_profiles rd w user_data_dir rest) (\<lambda>ps.
     returnS (case p of None \<Rightarrow> ps | Some x \<Rightarrow> x # ps)))"

definition enumerate_profiles :: "profile_reader \<Rightarrow> os \<Rightarrow> path \<Rightarrow> discovered_profile list discovering" where
  "enumerate_profiles rd w user_data_dir =
     bindS (cached_names rd w user_data_dir) (\<lambda>names.
     bindS (with_err (Read_at user_data_dir) (read_dir w user_data_dir)) (\<lambda>es.
     probe_profiles rd w user_data_dir (fold add_directory es names)))"

definition discover ::
  "profile_reader \<Rightarrow> discovery_env \<Rightarrow> (installation \<times> discovered_profile list) discovering" where
  "discover rd e =
     bindS (discover_installation e) (\<lambda>inst.
     bindS (enumerate_profiles rd (di_os e) (in_user_data_dir inst)) (\<lambda>ps.
     returnS (inst, ps)))"

section \<open>A new profile\<close>

definition profile_dir :: "nat \<Rightarrow> string" where
  "profile_dir n = ''Profile '' @ show_nat n"

function create_from :: "os \<Rightarrow> path \<Rightarrow> string list \<Rightarrow> nat \<Rightarrow> discovered_profile discovering" where
  "create_from w user_data_dir reserved number =
     (if 2 ^ 32 \<le> number then liftS (Inl No_profile_directory_left)
      else if profile_dir number \<in> set reserved then create_from w user_data_dir reserved (Suc number)
      else
        (let path = path_join user_data_dir (path_of (profile_dir number)) in
         bindS (attempt (mkdir w path)) (\<lambda>r.
         case r of
           Inr _ \<Rightarrow> returnS \<lparr>dp_directory_name = profile_dir number, dp_display_name = profile_dir number,
             dp_path = path, dp_bookmarks_path = path_join path (path_of ''Bookmarks''), dp_bookmark_status = Missing\<rparr>
         | Inl Already_exists \<Rightarrow> create_from w user_data_dir reserved (Suc number)
         | Inl x \<Rightarrow> liftS (Inl (Write_at path x)))))"
  by pat_completeness auto
termination by (relation "measure (\<lambda>(w, user_data_dir, reserved, number). 2 ^ 32 - number)") auto

declare create_from.simps [simp del]

definition create_profile_with_reserved :: "os \<Rightarrow> path \<Rightarrow> string list \<Rightarrow> discovered_profile discovering" where
  "create_profile_with_reserved w user_data_dir reserved =
     bindS (path_is_dir w user_data_dir) (\<lambda>there.
     if \<not> there then liftS (Inl (No_user_data_dir user_data_dir))
     else create_from w user_data_dir reserved 1)"

definition create_profile :: "os \<Rightarrow> path \<Rightarrow> discovered_profile discovering" where
  "create_profile w user_data_dir = create_profile_with_reserved w user_data_dir []"

end
