(* ===== verification/SyncEngine.thy ===== *)
theory SyncEngine
  imports Discovery LocalState
begin

text \<open>
  The desktop client's synchronization of one profile (\<open>helium-sync-client/src-tauri/src/main.rs\<close>):
  extensions first, then bookmarks, against the server, the local database and the profile's files.
  \<^item> \<open>app\<close> is the state of the three; \<open>on_core\<close>, \<open>on_local\<close> and \<open>on_files\<close> run a component's
    operation on its part.
  \<^item> The texts of errors are the constructors of \<open>app_error\<close>; the messages shown on success are
    those of the code.
\<close>

section \<open>State\<close>

datatype app_error =
    Client client_error
  | Profile_io restore_error
  | Profile_data profile_error
  | Base_state string client_error
  | Base_invalid string
  | Refused string
  | Stopped string app_error
  | Discovery discovery_error
  | Io_failed string path io_error
  | Rollback_failed string app_error io_error

record 's app =
  ap_client :: "'s client"
  ap_local :: lconn
  ap_files :: files

record 's app_env =
  ae_core :: "'s core"
  ae_local :: local_env
  ae_ext :: ext_env
  ae_of_text :: "bytes \<Rightarrow> json option"
  ae_temp :: path
  ae_downloads :: "path option"

type_synonym ('s, 'a) app_comp = "('s app, app_error, 'a) comp"

definition on_core :: "(client_error \<Rightarrow> app_error) \<Rightarrow> ('s client, client_error, 'a) comp \<Rightarrow> ('s, 'a) app_comp" where
  "on_core f m = (\<lambda>s. let (r, c) = m (ap_client s) in (map_err f r, s\<lparr>ap_client := c\<rparr>))"

definition on_local :: "'a local_handler \<Rightarrow> ('s, 'a) app_comp" where
  "on_local m = (\<lambda>s. let (r, c) = m (ap_local s) in (map_err Client r, s\<lparr>ap_local := c\<rparr>))"

definition on_files :: "('e \<Rightarrow> app_error) \<Rightarrow> (files, 'e, 'a) comp \<Rightarrow> ('s, 'a) app_comp" where
  "on_files f m = (\<lambda>s. let (r, c) = m (ap_files s) in (map_err f r, s\<lparr>ap_files := c\<rparr>))"

definition stopped :: "string \<Rightarrow> ('s, 'a) app_comp \<Rightarrow> ('s, 'a) app_comp" where
  "stopped prefix m = (\<lambda>s. let (r, s') = m s in (map_err (Stopped prefix) r, s'))"

record extension_outcome =
  eo_stats :: extension_stats
  eo_backup_path :: "path option"
  eo_message :: string

record sync_feedback =
  sf_action :: string
  sf_profile_directory :: string
  sf_profile_name :: string
  sf_stats :: bookmark_stats_record
  sf_revision :: u64
  sf_conflicts :: nat
  sf_backup_path :: "path option"
  sf_extension_stats :: extension_stats
  sf_extension_backup_path :: "path option"
  sf_message :: string

section \<open>Reading the profile\<close>

definition read_profile ::
  "(bytes \<Rightarrow> json option) \<Rightarrow> os \<Rightarrow> discovered_profile \<Rightarrow> (files, profile_error, bookmark_snapshot) comp" where
  "read_profile of_text w p = read_bookmarks_at of_text w (dp_bookmarks_path p) (dp_directory_name p)"

definition profile_name :: "local_env \<Rightarrow> discovered_profile \<Rightarrow> string local_handler" where
  "profile_name e p =
     bindS (profile_preferences e) (\<lambda>prefs.
     returnS (case List.find (\<lambda>x. pp_directory x = dp_directory_name p) prefs of
         None \<Rightarrow> dp_display_name p | Some x \<Rightarrow> pp_display_name x))"

definition capture_extensions ::
  "ext_env \<Rightarrow> path \<Rightarrow> discovered_profile \<Rightarrow> (extension_descriptor \<times> bytes) restoring" where
  "capture_extensions e tmp p =
     bindS (tempdir_in e ''.tmp'' tmp) (\<lambda>staging.
     let archive_path = staging @ [Normal ''extensions.zip''] in
     dropping (re_os e) staging
       (bindS (create_extension_bundle (bundle_env.truncate e) p archive_path) (\<lambda>d.
        bindS (with_err (At_read archive_path) (read_file (re_os e) archive_path)) (\<lambda>b.
        returnS (d, b)))))"

section \<open>Synchronization state\<close>

definition persist_base ::
  "'s app_env \<Rightarrow> string \<Rightarrow> string \<Rightarrow> string \<Rightarrow> discovered_profile \<Rightarrow> bytes \<Rightarrow> sync_proof \<Rightarrow> ('s, unit) app_comp" where
  "persist_base e what namespace server p plaintext proof =
     bindS (on_core (Base_state what) (protect_base (ae_core e) namespace (dp_directory_name p) plaintext)) (\<lambda>encrypted.
     on_local (save_sync_state (ae_local e) server namespace (dp_directory_name p)
       (sp_object_id proof) (sp_revision proof) encrypted))"

definition persist_extension_sync_state ::
  "'s app_env \<Rightarrow> string \<Rightarrow> discovered_profile \<Rightarrow> extension_manifest \<Rightarrow> sync_proof \<Rightarrow> ('s, unit) app_comp" where
  "persist_extension_sync_state e server p manifest =
     persist_base e ''Extension sync state'' EXTENSION_MANIFEST_NAMESPACE server p (ascii (em_archive_sha256 manifest))"

definition persist_sync_state ::
  "'s app_env \<Rightarrow> string \<Rightarrow> discovered_profile \<Rightarrow> bookmark_snapshot \<Rightarrow> sync_proof \<Rightarrow> ('s, unit) app_comp" where
  "persist_sync_state e server p snapshot proof =
     bindS (liftS (ok_or (Base_invalid ''Bookmark sync state'') (snapshot_json (ae_core e) snapshot))) (\<lambda>json.
     persist_base e ''Bookmark sync state'' BOOKMARK_NAMESPACE server p json proof)"

text \<open>\<open>String::from_utf8\<close> of the decrypted base.\<close>

definition string_of :: "bytes \<Rightarrow> string" where
  "string_of b = map (\<lambda>w. char_of (unat w)) b"

definition base_hash :: "'s core \<Rightarrow> string \<Rightarrow> bytes option \<Rightarrow> app_error + string option" where
  "base_hash k dir stored =
     (case stored of
        None \<Rightarrow> Inr None
      | Some encrypted \<Rightarrow>
          andThen (map_err (Base_state ''Stored extension sync base'') (open_extension_sync_base k dir encrypted)) (\<lambda>b.
          if valid_utf8 (string_of b) then Inr (Some (string_of b))
          else Inl (Base_invalid ''Stored extension sync base is invalid'')))"

definition extension_base_hash :: "'s app_env \<Rightarrow> string \<Rightarrow> discovered_profile \<Rightarrow> ('s, string option) app_comp" where
  "extension_base_hash e server p =
     bindS (on_local (sync_base (ae_local e) server EXTENSION_MANIFEST_NAMESPACE (dp_directory_name p))) (\<lambda>stored.
     liftS (base_hash (ae_core e) (dp_directory_name p) stored))"

definition remote_extension_manifest ::
  "'s app_env \<Rightarrow> string \<Rightarrow> discovered_profile \<Rightarrow> ('s, (extension_manifest \<times> sync_proof) option) app_comp" where
  "remote_extension_manifest e server p =
     bindS (on_local (local_mapping (ae_local e) server EXTENSION_MANIFEST_NAMESPACE (dp_directory_name p))) (\<lambda>m.
     case m of
       Some m \<Rightarrow> bindS (on_core Client (load_extension_manifest (ae_core e) (om_object m))) (\<lambda>x. returnS (Some x))
     | None \<Rightarrow> on_core Client (discover_extension_bundle (ae_core e) (dp_directory_name p)))"

section \<open>Extensions\<close>

definition capture :: "'s app_env \<Rightarrow> discovered_profile \<Rightarrow> ('s, extension_descriptor \<times> bytes) app_comp" where
  "capture e p = on_files Profile_io (capture_extensions (ae_ext e) (ae_temp e) p)"

definition upload_extensions ::
  "'s app_env \<Rightarrow> string \<Rightarrow> discovered_profile \<Rightarrow> extension_descriptor \<Rightarrow> bytes \<Rightarrow> (object_id \<times> u64) option \<Rightarrow>
     string \<Rightarrow> ('s, extension_outcome) app_comp" where
  "upload_extensions e server p d archive target message =
     bindS (on_core Client (save_extension_bundle (ae_core e) d archive (map_option fst target) (map_option snd target)))
       (\<lambda>(proof, manifest).
     bindS (persist_extension_sync_state e server p manifest proof) (\<lambda>_.
     returnS \<lparr>eo_stats = em_stats manifest, eo_backup_path = None, eo_message = message\<rparr>))"

definition save_extensions_to_server :: "'s app_env \<Rightarrow> string \<Rightarrow> discovered_profile \<Rightarrow> ('s, extension_outcome) app_comp" where
  "save_extensions_to_server e server p =
     bindS (capture e p) (\<lambda>(d, archive).
     bindS (remote_extension_manifest e server p) (\<lambda>found_manifest.
     upload_extensions e server p d archive
       (map_option (\<lambda>(m, proof). (sp_object_id proof, sp_revision proof)) found_manifest)
       ''Uploaded installed extensions and extension data.''))"

text \<open>A temporary directory of the system, removed when the body is left.\<close>

definition staging_in :: "'s app_env \<Rightarrow> (path \<Rightarrow> ('s, 'a) app_comp) \<Rightarrow> ('s, 'a) app_comp" where
  "staging_in e body =
     bindS (on_files Profile_io (tempdir_in (ae_ext e) ''.tmp'' (ae_temp e))) (\<lambda>staging s.
     let (r, s1) = body staging s;
         (_, fs) = remove_dir_all (re_os (ae_ext e)) staging (ap_files s1)
     in (r, s1\<lparr>ap_files := fs\<rparr>))"

definition install_extensions ::
  "'s app_env \<Rightarrow> string \<Rightarrow> discovered_profile \<Rightarrow> path \<Rightarrow> extension_manifest \<Rightarrow> bytes \<Rightarrow> sync_proof \<Rightarrow>
     ('s, extension_outcome) app_comp" where
  "install_extensions e server p backup_dir manifest archive proof =
     staging_in e (\<lambda>staging.
     let archive_path = staging @ [Normal ''extensions.zip''] in
     bindS (on_files (\<lambda>x. Profile_io (At_write archive_path x)) (write_file (re_os (ae_ext e)) archive_path archive)) (\<lambda>_.
     bindS (on_files Profile_io (restore_extension_bundle (ae_ext e) p archive_path backup_dir)) (\<lambda>restored.
     bindS (persist_extension_sync_state e server p manifest proof) (\<lambda>_.
     returnS \<lparr>eo_stats = er_stats restored, eo_backup_path = Some (er_backup_path restored),
       eo_message = ''Restored installed extensions and extension data after backup.''\<rparr>))))"

definition load_extensions_from_server ::
  "'s app_env \<Rightarrow> string \<Rightarrow> discovered_profile \<Rightarrow> path \<Rightarrow> ('s, extension_outcome) app_comp" where
  "load_extensions_from_server e server p backup_dir =
     bindS (remote_extension_manifest e server p) (\<lambda>found_manifest.
     case found_manifest of
       None \<Rightarrow> liftS (Inl (Refused ''This profile has no saved extension copy.''))
     | Some (m, found) \<Rightarrow>
         bindS (on_core Client (load_extension_bundle (ae_core e) (sp_object_id found))) (\<lambda>(manifest, archive, proof).
         install_extensions e server p backup_dir manifest archive proof))"

text \<open>The decision of \<open>sync_extensions_with_server\<close> from whether there is a base, whether the local
  archive differs from it and whether the remote one does.\<close>

datatype extension_step = Up_to_date | Take_server | Send_local | Conflict

fun extension_action :: "bool \<Rightarrow> bool \<Rightarrow> bool \<Rightarrow> extension_step" where
  "extension_action has_base False False = Up_to_date"
| "extension_action False local_changed False = Up_to_date"
| "extension_action False local_changed True = Take_server"
| "extension_action True False True = Take_server"
| "extension_action True True False = Send_local"
| "extension_action True True True = Conflict"

definition differs :: "string option \<Rightarrow> string \<Rightarrow> bool" where
  "differs base hash \<longleftrightarrow> (case base of None \<Rightarrow> True | Some h \<Rightarrow> h \<noteq> hash)"

definition already_up_to_date ::
  "'s app_env \<Rightarrow> string \<Rightarrow> discovered_profile \<Rightarrow> extension_manifest \<Rightarrow> sync_proof \<Rightarrow> ('s, extension_outcome) app_comp" where
  "already_up_to_date e server p found_manifest proof =
     bindS (persist_extension_sync_state e server p found_manifest proof) (\<lambda>_.
     returnS \<lparr>eo_stats = em_stats found_manifest, eo_backup_path = None, eo_message = ''Extensions are already up to date.''\<rparr>)"

definition settle_extensions ::
  "'s app_env \<Rightarrow> string \<Rightarrow> discovered_profile \<Rightarrow> path \<Rightarrow> extension_descriptor \<Rightarrow> extension_manifest \<Rightarrow> sync_proof \<Rightarrow>
     ('s, extension_outcome) app_comp" where
  "settle_extensions e server p backup_dir d found_manifest proof =
     bindS (extension_base_hash e server p) (\<lambda>base.
     if base = None \<and> ed_archive_sha256 d = em_archive_sha256 found_manifest
     then already_up_to_date e server p found_manifest proof
     else
       case extension_action (base \<noteq> None) (differs base (ed_archive_sha256 d)) (differs base (em_archive_sha256 found_manifest)) of
         Up_to_date \<Rightarrow> already_up_to_date e server p found_manifest proof
       | Take_server \<Rightarrow> load_extensions_from_server e server p backup_dir
       | Send_local \<Rightarrow> save_extensions_to_server e server p
       | Conflict \<Rightarrow> liftS (Inl (Refused (''Extensions changed both locally and on the server. '' @
           ''Use Recovery to explicitly replace the server copy or restore the server copy.''))))"

definition sync_extensions_with_server ::
  "'s app_env \<Rightarrow> string \<Rightarrow> discovered_profile \<Rightarrow> path \<Rightarrow> ('s, extension_outcome) app_comp" where
  "sync_extensions_with_server e server p backup_dir =
     bindS (capture e p) (\<lambda>(d, archive).
     bindS (remote_extension_manifest e server p) (\<lambda>found.
     case found of
       None \<Rightarrow> upload_extensions e server p d archive None ''Started encrypted extension sync.''
     | Some (found_manifest, proof) \<Rightarrow> settle_extensions e server p backup_dir d found_manifest proof))"

section \<open>Profiles\<close>

definition settle ::
  "'s app_env \<Rightarrow> discovered_profile \<Rightarrow> extension_outcome \<Rightarrow> string \<Rightarrow> bookmark_stats_record \<Rightarrow> sync_proof \<Rightarrow> nat \<Rightarrow>
     path option \<Rightarrow> string \<Rightarrow> ('s, sync_feedback) app_comp" where
  "settle e p ext action stats proof conflicts backup message =
     bindS (on_local (profile_name (ae_local e) p)) (\<lambda>name.
     returnS \<lparr>sf_action = action, sf_profile_directory = dp_directory_name p, sf_profile_name = name,
       sf_stats = stats, sf_revision = sp_revision proof, sf_conflicts = conflicts, sf_backup_path = backup,
       sf_extension_stats = eo_stats ext, sf_extension_backup_path = eo_backup_path ext, sf_message = message\<rparr>)"

definition bookmark_mapping :: "'s app_env \<Rightarrow> string \<Rightarrow> discovered_profile \<Rightarrow> ('s, object_mapping option) app_comp" where
  "bookmark_mapping e server p =
     on_local (local_mapping (ae_local e) server BOOKMARK_NAMESPACE (dp_directory_name p))"

definition snapshot_stats :: "'s app_env \<Rightarrow> bookmark_snapshot \<Rightarrow> bookmark_stats_record" where
  "snapshot_stats e snapshot = bookmark_stats (re_json_len (ae_ext e)) snapshot"

definition read_local :: "'s app_env \<Rightarrow> discovered_profile \<Rightarrow> (files, profile_error, bookmark_snapshot) comp" where
  "read_local e p = read_profile (ae_of_text e) (re_os (ae_ext e)) p"

definition save_profile_to_server :: "'s app_env \<Rightarrow> string \<Rightarrow> discovered_profile \<Rightarrow> ('s, sync_feedback) app_comp" where
  "save_profile_to_server e server p =
     bindS (stopped ''Extension save failed before bookmarks were changed'' (save_extensions_to_server e server p)) (\<lambda>ext.
     bindS (bookmark_mapping e server p) (\<lambda>m.
     bindS (on_files Profile_data (attempt (read_local e p))) (\<lambda>read.
     bindS (on_core Client (save_bookmarks (ae_core e) read (map_option om_object m) (map_option om_rev m))) (\<lambda>(proof, snapshot).
     bindS (persist_sync_state e server p snapshot proof) (\<lambda>_.
     let stats = snapshot_stats e snapshot in
     settle e p ext ''saved'' stats proof 0 None
       (''Saved '' @ show_nat (stat_bookmarks stats) @ '' bookmarks in '' @ show_nat (stat_folders stats)
         @ '' folders. '' @ eo_message ext))))))"

definition load_profile_from_server :: "'s app_env \<Rightarrow> string \<Rightarrow> discovered_profile \<Rightarrow> ('s, sync_feedback) app_comp" where
  "load_profile_from_server e server p =
     bindS (liftS (ok_or (Refused ''The operating system did not provide a user home directory'') (ae_downloads e))) (\<lambda>downloads.
     bindS (stopped ''Extension restore failed before bookmarks were changed''
       (load_extensions_from_server e server p downloads)) (\<lambda>ext.
     bindS (bookmark_mapping e server p) (\<lambda>m.
     bindS (liftS (ok_or (Refused ''This profile has no saved server copy. Save it before loading.'') m)) (\<lambda>m.
     bindS (on_core Client (load_bookmarks (ae_core e) (om_object m))) (\<lambda>(snapshot, proof).
     bindS (on_files Profile_io (restore_bookmarks (restore_env.truncate (ae_ext e)) p snapshot downloads)) (\<lambda>restored.
     bindS (persist_sync_state e server p snapshot proof) (\<lambda>_.
     settle e p ext ''loaded'' (rr_stats restored) proof 0 (Some (rr_backup_path restored))
       (''Loaded '' @ show_nat (stat_bookmarks (rr_stats restored))
         @ '' bookmarks. Previous bookmarks and extension data are backed up in Downloads.''))))))))"

text \<open>The stored bookmarks of the last synchronization.\<close>

definition base_snapshot :: "'s core \<Rightarrow> string \<Rightarrow> bytes option \<Rightarrow> app_error + bookmark_snapshot option" where
  "base_snapshot k dir stored =
     (case stored of
        None \<Rightarrow> Inr None
      | Some encrypted \<Rightarrow>
          andThen (map_err (Base_state ''Stored bookmark sync base'') (open_sync_base k dir encrypted)) (\<lambda>b.
          andThen (ok_or (Base_invalid ''Stored bookmark sync base is invalid'') (snapshot_parse k b)) (\<lambda>snapshot.
          Inr (Some snapshot))))"

definition remote_bookmarks ::
  "'s app_env \<Rightarrow> string \<Rightarrow> discovered_profile \<Rightarrow> ('s, (bookmark_snapshot \<times> sync_proof) option) app_comp" where
  "remote_bookmarks e server p =
     bindS (bookmark_mapping e server p) (\<lambda>m.
     case m of
       Some m \<Rightarrow> bindS (on_core Client (load_bookmarks (ae_core e) (om_object m))) (\<lambda>x. returnS (Some x))
     | None \<Rightarrow> on_core Client (discover_bookmarks (ae_core e) (dp_directory_name p)))"

definition merge_message :: "bool \<Rightarrow> bool \<Rightarrow> nat \<Rightarrow> string" where
  "merge_message local_changed remote_changed conflicts =
     (if \<not> local_changed \<and> \<not> remote_changed then ''Bookmarks are already up to date.''
      else if local_changed \<and> \<not> remote_changed
      then ''Applied server changes locally and backed up the previous Bookmarks file.''
      else if \<not> local_changed \<and> remote_changed then ''Uploaded local bookmark changes.''
      else ''Merged local and server changes; '' @ show_nat conflicts @ '' concurrent edit(s) were resolved.'')"

definition first_bookmarks ::
  "'s app_env \<Rightarrow> string \<Rightarrow> discovered_profile \<Rightarrow> extension_outcome \<Rightarrow> bookmark_snapshot \<Rightarrow> ('s, sync_feedback) app_comp" where
  "first_bookmarks e server p ext snapshot =
     bindS (on_core Client (save_bookmark_snapshot (ae_core e) snapshot None None)) (\<lambda>proof.
     bindS (persist_sync_state e server p snapshot proof) (\<lambda>_.
     let stats = snapshot_stats e snapshot in
     settle e p ext ''synced'' stats proof 0 None
       (''Started encrypted sync with '' @ show_nat (stat_bookmarks stats) @ '' bookmarks in ''
         @ show_nat (stat_folders stats) @ '' folders. '' @ eo_message ext)))"

definition apply_merge ::
  "'s app_env \<Rightarrow> string \<Rightarrow> discovered_profile \<Rightarrow> path \<Rightarrow> extension_outcome \<Rightarrow> bookmark_snapshot \<Rightarrow> bookmark_snapshot \<Rightarrow>
     sync_proof \<Rightarrow> merge_result \<Rightarrow> ('s, sync_feedback) app_comp" where
  "apply_merge e server p backup_dir ext local_snapshot remote_snapshot proof merged =
     (let snapshot = mr_snapshot merged;
          remote_changed = (snapshot \<noteq> remote_snapshot);
          local_changed = (snapshot \<noteq> local_snapshot)
      in
      bindS (if remote_changed
             then on_core Client (save_bookmark_snapshot (ae_core e) snapshot
                    (Some (sp_object_id proof)) (Some (sp_revision proof)))
             else returnS proof) (\<lambda>proof.
      bindS (if local_changed
             then bindS (on_files Profile_io (restore_bookmarks (restore_env.truncate (ae_ext e)) p snapshot backup_dir))
                    (\<lambda>restored. returnS (Some (rr_backup_path restored)))
             else returnS None) (\<lambda>backup.
      bindS (persist_sync_state e server p snapshot proof) (\<lambda>_.
      settle e p ext ''synced'' (snapshot_stats e snapshot) proof (mr_conflicts merged) backup
        (merge_message local_changed remote_changed (mr_conflicts merged) @ '' '' @ eo_message ext)))))"

definition sync_bookmarks_with_server ::
  "'s app_env \<Rightarrow> string \<Rightarrow> discovered_profile \<Rightarrow> path \<Rightarrow> extension_outcome \<Rightarrow> ('s, sync_feedback) app_comp" where
  "sync_bookmarks_with_server e server p backup_dir ext =
     bindS (on_files Profile_data (read_local e p)) (\<lambda>local_snapshot.
     bindS (remote_bookmarks e server p) (\<lambda>found.
     case found of
       None \<Rightarrow> first_bookmarks e server p ext local_snapshot
     | Some (remote_snapshot, proof) \<Rightarrow>
         bindS (on_local (sync_base (ae_local e) server BOOKMARK_NAMESPACE (dp_directory_name p))) (\<lambda>stored.
         bindS (liftS (base_snapshot (ae_core e) (dp_directory_name p) stored)) (\<lambda>base.
         bindS (liftS (map_err Profile_data (merge_bookmarks base local_snapshot remote_snapshot))) (\<lambda>merged.
         apply_merge e server p backup_dir ext local_snapshot remote_snapshot proof merged)))))"

definition sync_profile_with_server ::
  "'s app_env \<Rightarrow> string \<Rightarrow> discovered_profile \<Rightarrow> path \<Rightarrow> ('s, sync_feedback) app_comp" where
  "sync_profile_with_server e server p backup_dir =
     bindS (stopped ''Extension sync stopped before bookmark sync'' (sync_extensions_with_server e server p backup_dir)) (\<lambda>ext.
     sync_bookmarks_with_server e server p backup_dir ext)"

end
