(* ===== verification/SyncFacts.thy ===== *)
theory SyncFacts
  imports SyncEngine ExtProps LocalStateProps BundleProps
begin

text \<open>
  What one synchronization of a profile does. Extension data changed since the last
  synchronization is never replaced by it; and when it succeeds, the live bookmarks, the
  base and the object on the server agree on one snapshot.
\<close>

section \<open>Running a component in the application\<close>

lemma Inr_map_err [result_simps]: "Inr x = map_err f r \<longleftrightarrow> r = Inr x"
  by (cases r) auto

lemma on_core_iff [result_simps]:
  "on_core f m s = (r, s') \<longleftrightarrow> (\<exists>y c. m (ap_client s) = (y, c) \<and> r = map_err f y \<and> s' = s\<lparr>ap_client := c\<rparr>)"
  by (auto simp: on_core_def split: prod.splits)

lemma on_local_iff [result_simps]:
  "on_local m s = (r, s') \<longleftrightarrow> (\<exists>y c. m (ap_local s) = (y, c) \<and> r = map_err Client y \<and> s' = s\<lparr>ap_local := c\<rparr>)"
  by (auto simp: on_local_def split: prod.splits)

lemma on_files_iff [result_simps]:
  "on_files f m s = (r, s') \<longleftrightarrow> (\<exists>y c. m (ap_files s) = (y, c) \<and> r = map_err f y \<and> s' = s\<lparr>ap_files := c\<rparr>)"
  by (auto simp: on_files_def split: prod.splits)

text \<open>A relation on the files, and on the local database, carried to the application.\<close>

definition on_disk :: "(files \<Rightarrow> files \<Rightarrow> bool) \<Rightarrow> 's app \<Rightarrow> 's app \<Rightarrow> bool" where
  "on_disk R s s' \<longleftrightarrow> R (ap_files s) (ap_files s')"

lemma on_disk_order: "about_tree R \<Longrightarrow> reflp (on_disk R)" "about_tree R \<Longrightarrow> transp (on_disk R)"
proof -
  assume R: "about_tree R"
  show "reflp (on_disk R)" by (rule reflpI) (simp add: on_disk_def about_treeD [OF R])
  show "transp (on_disk R)"
    by (rule transpI) (use about_tree_trans [OF R] in \<open>auto simp: on_disk_def elim: transpE\<close>)
qed

lemma on_disk_lifts:
  assumes "about_tree R"
  shows "keeps (on_disk R) (on_core f m)" "keeps (on_disk R) (on_local n)"
    "keeps R k \<Longrightarrow> keeps (on_disk R) (on_files g k)"
  by (auto simp: keeps_def on_disk_def on_core_def on_local_def on_files_def about_treeD [OF assms] split: prod.splits)
    (metis snd_conv)

lemma keeps_bindS_run:
  assumes "transp R" and "keeps R m" and "\<And>s x s1. m s = (Inr x, s1) \<Longrightarrow> R s1 (snd (f x s1))"
  shows "keeps R (bindS m f)"
  unfolding keeps_def
proof
  fix s
  obtain r s1 where m: "m s = (r, s1)" by (cases "m s")
  with assms(2) have "R s s1" by (metis keeps_def snd_conv)
  with m assms(1,3) show "R s (snd (bindS m f s))"
    by (cases r) (auto simp: bindS_def elim: transpE)
qed

lemma keeps_dropping:
  assumes "transp R" and "keeps R m" and "keeps R (remove_dir_all w d)"
  shows "keeps R (dropping w d m)"
  unfolding keeps_def
proof
  fix s
  obtain r s1 where m: "m s = (r, s1)" by (cases "m s")
  obtain y s2 where y: "remove_dir_all w d s1 = (y, s2)" by (cases "remove_dir_all w d s1")
  have "R s s1" "R s1 s2" using assms(2,3) m y unfolding keeps_def by (metis snd_conv)+
  with m y assms(1) show "R s (snd (dropping w d m s))" by (auto simp: dropping_def elim: transpE)
qed

section \<open>Capturing the extensions\<close>

lemma spares_capture:
  assumes tmp: "downward tmp" "apart (walk cwd tmp) q"
  shows "keeps (spares cwd q) (capture_extensions e tmp p)"
  unfolding capture_extensions_def Let_def
proof (rule keeps_bindS_run)
  note R = about_tree_trans [OF spares_about_tree] about_tree_refl [OF spares_about_tree]
  show "transp (spares cwd q)" by (rule R)
  show "keeps (spares cwd q) (tempdir_in e ''.tmp'' tmp)"
    by (rule spares_tempdir [OF tmp(1)]) (rule apart_below [OF tmp(2)])
  fix s x s1
  assume "tempdir_in e ''.tmp'' tmp s = (Inr x, s1)"
  from tempdir_name [OF this] obtain y where x: "x = tmp @ [Normal (''.tmp'' @ y)]" by blast
  let ?a = "x @ [Normal ''extensions.zip'']"
  have below: "apart (walk cwd x) q" "apart (walk cwd ?a) q"
    using apart_below [OF tmp(2)] by (simp_all add: x walk_append)
  have clear: "clear_of cwd q x"
    by (rule clear_of_downward) (use tmp(1) below(1) in \<open>auto simp: x apart_def\<close>)
  have made: "keeps (spares cwd q) (create_extension_bundle (bundle_env.truncate e) p ?a)"
    by (rule keeps_create_extension_bundle [OF spares_about_tree])
      (use spares_file_calls [OF below(2)] spares_create_dir_all [OF clear] in auto)
  have "keeps (spares cwd q) (dropping (re_os e) x
      (bindS (create_extension_bundle (bundle_env.truncate e) p ?a) (\<lambda>d.
       bindS (with_err (At_read ?a) (read_file (re_os e) ?a)) (\<lambda>b. returnS (d, b)))))"
    by (intro keeps_dropping keeps_intros made keeps_reads spares_file_calls below spares_about_tree R)
  then show "spares cwd q s1 (snd (dropping (re_os e) x
      (bindS (create_extension_bundle (bundle_env.truncate e) p ?a) (\<lambda>d.
       bindS (with_err (At_read ?a) (read_file (re_os e) ?a)) (\<lambda>b. returnS (d, b)))) s1))"
    unfolding keeps_def by blast
qed

section \<open>Extensions\<close>

text \<open>Everything but installing a downloaded bundle leaves the profile's files alone.\<close>

lemma spares_app:
  assumes tmp: "downward (ae_temp e)" "apart (walk cwd (ae_temp e)) q"
  shows "keeps (on_disk (spares cwd q)) (capture e p)"
    "keeps (on_disk (spares cwd q)) (remote_extension_manifest e server p)"
    "keeps (on_disk (spares cwd q)) (upload_extensions e server p d archive target message)"
    "keeps (on_disk (spares cwd q)) (save_extensions_to_server e server p)"
    "keeps (on_disk (spares cwd q)) (already_up_to_date e server p m proof)"
    "keeps (on_disk (spares cwd q)) (extension_base_hash e server p)"
proof -
  note R = on_disk_order [OF spares_about_tree]
  note lifts = on_disk_lifts(1,2) [OF spares_about_tree]
  show capture: "keeps (on_disk (spares cwd q)) (capture e p)"
    unfolding capture_def by (intro on_disk_lifts(3) [OF spares_about_tree] spares_capture assms)
  show found: "keeps (on_disk (spares cwd q)) (remote_extension_manifest e server p)"
    unfolding remote_extension_manifest_def by (intro keeps_intros lifts R)
  have persist: "keeps (on_disk (spares cwd q)) (persist_extension_sync_state e server p n pr)" for n pr
    unfolding persist_extension_sync_state_def persist_base_def by (intro keeps_intros lifts R)
  have upload: "keeps (on_disk (spares cwd q)) (upload_extensions e server p c b t x)" for c b t x
    unfolding upload_extensions_def by (intro keeps_intros persist lifts R)
  then show "keeps (on_disk (spares cwd q)) (upload_extensions e server p d archive target message)" .
  show "keeps (on_disk (spares cwd q)) (save_extensions_to_server e server p)"
    unfolding save_extensions_to_server_def by (intro keeps_intros capture found upload lifts R)
  show "keeps (on_disk (spares cwd q)) (already_up_to_date e server p m proof)"
    unfolding already_up_to_date_def by (intro keeps_intros persist lifts R)
  show "keeps (on_disk (spares cwd q)) (extension_base_hash e server p)"
    unfolding extension_base_hash_def by (intro keeps_intros lifts R)
qed

section \<open>The decision\<close>

definition stored_base :: "string \<Rightarrow> string \<Rightarrow> discovered_profile \<Rightarrow> 's app \<Rightarrow> bytes option" where
  "stored_base namespace server p s =
     map_option sb_snapshot (find_row sb_key (server, namespace, dp_directory_name p) (ld_bases (lc_db (ap_local s))))"

lemma sync_base_reads:
  "on_local (sync_base le server namespace (dp_directory_name p)) s = (Inr b, s') \<Longrightarrow> b = stored_base namespace server p s"
  by (auto simp: sync_base_def select_base_def stored_base_def result_simps)

lemma local_mapping_db:
  assumes "local_mapping e server namespace k c = (r, c')"
  shows "lc_db c' = lc_db c"
proof (cases r)
  case (Inl x)
  with assms show ?thesis
    by (auto simp: local_mapping_def select_mapping_def result_simps split: option.splits)
next
  case (Inr x)
  with assms show ?thesis
    by (auto simp: local_mapping_def select_mapping_def result_simps split: option.splits)
qed

lemma remote_manifest_db:
  assumes "remote_extension_manifest e server p s = (r, s')"
  shows "lc_db (ap_local s') = lc_db (ap_local s)"
proof -
  obtain y c where y: "local_mapping (ae_local e) server EXTENSION_MANIFEST_NAMESPACE (dp_directory_name p) (ap_local s) = (y, c)"
    by (cases "local_mapping (ae_local e) server EXTENSION_MANIFEST_NAMESPACE (dp_directory_name p) (ap_local s)")
  note db = local_mapping_db [OF y]
  show ?thesis
  proof (cases y)
    case (Inl x)
    with assms y db show ?thesis
      by (auto simp: remote_extension_manifest_def on_local_def bindS_def)
  next
    case (Inr m)
    with assms y db show ?thesis
      by (cases m) (auto simp: remote_extension_manifest_def on_local_def on_core_def bindS_def returnS_def
          split: prod.splits sum.splits)
  qed
qed

text \<open>The files and temporary directory a capture needs to stay out of the profile.\<close>

definition capture_setting :: "'s app_env \<Rightarrow> discovered_profile \<Rightarrow> 's app \<Rightarrow> bool" where
  "capture_setting e p s \<longleftrightarrow> downward (ae_temp e)
     \<and> apart (place (ap_files s) (ae_temp e)) (place (ap_files s) (dp_path p))"

lemma capture_setting_cwd:
  "fs_cwd (ap_files s') = fs_cwd (ap_files s) \<Longrightarrow> capture_setting e p s' = capture_setting e p s"
  by (simp add: capture_setting_def place_def)

lemma quiet_step:
  assumes set: "capture_setting e p s"
    and keeps: "\<And>q. apart (walk (fs_cwd (ap_files s)) (ae_temp e)) q \<Longrightarrow> keeps (on_disk (spares (fs_cwd (ap_files s)) q)) m"
    and run: "m s = (r, s')"
  shows "targets_kept p (ap_files s) (ap_files s') \<and> capture_setting e p s'"
proof -
  have spared: "spares (fs_cwd (ap_files s)) (place (ap_files s) (dp_path p) @ t) (ap_files s) (ap_files s')" for t
  proof -
    have "apart (walk (fs_cwd (ap_files s)) (ae_temp e)) (place (ap_files s) (dp_path p) @ t)"
      by (rule apart_below2) (use set in \<open>simp add: capture_setting_def place_def\<close>)
    from keeps [OF this] run show ?thesis unfolding keeps_def on_disk_def by (metis snd_conv)
  qed
  from spared have cwd: "fs_cwd (ap_files s') = fs_cwd (ap_files s)" by (simp add: spares_def)
  have "live_entry p t (ap_files s') = live_entry p t (ap_files s)" for t
  proof -
    have "place (ap_files s') (target_path (dp_path p) t) = place (ap_files s) (target_path (dp_path p) t)"
      using cwd by (simp add: place_def)
    moreover have "entry_at (fs_root (ap_files s')) (place (ap_files s) (target_path (dp_path p) t))
        = entry_at (fs_root (ap_files s)) (place (ap_files s) (target_path (dp_path p) t))"
      using spared [of t] unfolding live_place by (simp add: spares_def)
    ultimately show ?thesis by (simp add: live_entry_def node_of_def)
  qed
  with capture_setting_cwd [OF cwd] set show ?thesis by (simp add: targets_kept_def)
qed

lemma quiet_steps:
  assumes set: "capture_setting e p s"
  shows "capture e p s = (r1, s') \<Longrightarrow> targets_kept p (ap_files s) (ap_files s') \<and> capture_setting e p s'"
    "remote_extension_manifest e server p s = (r2, s') \<Longrightarrow> targets_kept p (ap_files s) (ap_files s') \<and> capture_setting e p s'"
    "upload_extensions e server p d archive target message s = (r3, s') \<Longrightarrow> targets_kept p (ap_files s) (ap_files s') \<and> capture_setting e p s'"
    "save_extensions_to_server e server p s = (r3, s') \<Longrightarrow> targets_kept p (ap_files s) (ap_files s') \<and> capture_setting e p s'"
    "extension_base_hash e server p s = (r4, s') \<Longrightarrow> targets_kept p (ap_files s) (ap_files s') \<and> capture_setting e p s'"
proof -
  have tmp: "downward (ae_temp e)" using set by (simp add: capture_setting_def)
  note keeps = spares_app [OF tmp]
  show "capture e p s = (r1, s') \<Longrightarrow> targets_kept p (ap_files s) (ap_files s') \<and> capture_setting e p s'"
    by (rule quiet_step [OF set keeps(1)])
  show "remote_extension_manifest e server p s = (r2, s') \<Longrightarrow> targets_kept p (ap_files s) (ap_files s') \<and> capture_setting e p s'"
    by (rule quiet_step [OF set keeps(2)])
  show "upload_extensions e server p d archive target message s = (r3, s') \<Longrightarrow> targets_kept p (ap_files s) (ap_files s') \<and> capture_setting e p s'"
    by (rule quiet_step [OF set keeps(3)])
  show "save_extensions_to_server e server p s = (r3, s') \<Longrightarrow> targets_kept p (ap_files s) (ap_files s') \<and> capture_setting e p s'"
    by (rule quiet_step [OF set keeps(4)])
  show "extension_base_hash e server p s = (r4, s') \<Longrightarrow> targets_kept p (ap_files s) (ap_files s') \<and> capture_setting e p s'"
    by (rule quiet_step [OF set keeps(6)])
qed

text \<open>With a base that the local archive differs from, the decision is to send or to stop.\<close>

lemma changed_action:
  "extension_action True True remote_changed = (if remote_changed then Conflict else Send_local)"
  by (cases remote_changed) simp_all

lemma settle_changed:
  assumes set: "capture_setting e p s"
    and base: "base_hash (ae_core e) (dp_directory_name p) (stored_base EXTENSION_MANIFEST_NAMESPACE server p s) = Inr (Some h)"
    and new: "h \<noteq> ed_archive_sha256 d"
    and run: "settle_extensions e server p backup_dir d m proof s = (r, s')"
  shows "targets_kept p (ap_files s) (ap_files s')" "r = Inr out \<Longrightarrow> em_archive_sha256 m = h"
proof -
  obtain b s1 where b: "extension_base_hash e server p s = (b, s1)" by (cases "extension_base_hash e server p s")
  note quiet = quiet_steps(5) [OF set b]
  have "targets_kept p (ap_files s) (ap_files s') \<and> (r = Inr out \<longrightarrow> em_archive_sha256 m = h)"
  proof (cases b)
    case (Inl x)
    with run b quiet show ?thesis by (auto simp: settle_extensions_def bindS_def)
  next
    case (Inr v)
    with b obtain stored s0 where "on_local (sync_base (ae_local e) server EXTENSION_MANIFEST_NAMESPACE (dp_directory_name p)) s = (Inr stored, s0)"
      "base_hash (ae_core e) (dp_directory_name p) stored = Inr v"
      by (auto simp: extension_base_hash_def bindS_Inr liftS_iff)
    with base sync_base_reads have v: "v = Some h" by (metis Inr_inject)
    have choice: "settle_extensions e server p backup_dir d m proof s =
       (if h \<noteq> em_archive_sha256 m then (Inl (Refused (''Extensions changed both locally and on the server. '' @
           ''Use Recovery to explicitly replace the server copy or restore the server copy.'')), s1)
        else save_extensions_to_server e server p s1)"
      using new b Inr v
      by (auto simp: settle_extensions_def bindS_def differs_def changed_action liftS_def simp del: extension_action.simps append.simps)
    show ?thesis
    proof (cases "h = em_archive_sha256 m")
      case True
      with run choice have "save_extensions_to_server e server p s1 = (r, s')" by simp
      from quiet_steps(4) [OF conjunct2 [OF quiet] this] quiet True show ?thesis
        by (auto intro: targets_kept_trans)
    next
      case False
      with run choice quiet show ?thesis by (auto simp del: append.simps)
    qed
  qed
  then show "targets_kept p (ap_files s) (ap_files s')" "r = Inr out \<Longrightarrow> em_archive_sha256 m = h" by auto
qed

lemma sync_extensions_changed:
  assumes run: "sync_extensions_with_server e server p backup_dir s = (r, s')"
    and captured: "capture e p s = (Inr (d, archive), s1)"
    and base: "base_hash (ae_core e) (dp_directory_name p) (stored_base EXTENSION_MANIFEST_NAMESPACE server p s) = Inr (Some h)"
    and new: "h \<noteq> ed_archive_sha256 d" and set: "capture_setting e p s"
  shows "targets_kept p (ap_files s) (ap_files s')"
    "r = Inr out \<Longrightarrow> \<exists>found s2. remote_extension_manifest e server p s1 = (Inr found, s2)
      \<and> (\<forall>m proof. found = Some (m, proof) \<longrightarrow> em_archive_sha256 m = h)"
proof -
  note kept1 = quiet_steps(1) [OF set captured]
  obtain y s2 where y: "remote_extension_manifest e server p s1 = (y, s2)"
    by (cases "remote_extension_manifest e server p s1")
  note kept2 = quiet_steps(2) [OF conjunct2 [OF kept1] y]
  have same: "targets_kept p (ap_files s) (ap_files s2)"
    using kept1 kept2 targets_kept_trans by blast
  have "lc_db (ap_local s1) = lc_db (ap_local s)"
    using captured by (auto simp: capture_def on_files_def split: prod.splits)
  with remote_manifest_db [OF y] base
  have base2: "base_hash (ae_core e) (dp_directory_name p) (stored_base EXTENSION_MANIFEST_NAMESPACE server p s2) = Inr (Some h)"
    by (simp add: stored_base_def)
  have "targets_kept p (ap_files s) (ap_files s') \<and> (r = Inr out \<longrightarrow>
      (\<exists>found. y = Inr found \<and> (\<forall>m proof. found = Some (m, proof) \<longrightarrow> em_archive_sha256 m = h)))"
  proof (cases y)
    case (Inl x)
    with run captured y same show ?thesis
      by (auto simp: sync_extensions_with_server_def bindS_def)
  next
    case (Inr found)
    show ?thesis
    proof (cases found)
      case None
      with run captured y Inr
      have "upload_extensions e server p d archive None ''Started encrypted extension sync.'' s2 = (r, s')"
        by (simp add: sync_extensions_with_server_def bindS_def)
      from quiet_steps(3) [OF conjunct2 [OF kept2] this] same Inr None show ?thesis
        by (auto intro: targets_kept_trans)
    next
      case (Some mp)
      then obtain m proof' where mp: "found = Some (m, proof')" by (cases mp) auto
      with run captured y Inr have "settle_extensions e server p backup_dir d m proof' s2 = (r, s')"
        by (simp add: sync_extensions_with_server_def bindS_def)
      from settle_changed [OF conjunct2 [OF kept2] base2 new this] same Inr mp show ?thesis
        by (auto intro: targets_kept_trans)
    qed
  qed
  then show "targets_kept p (ap_files s) (ap_files s')"
    "r = Inr out \<Longrightarrow> \<exists>found s2. remote_extension_manifest e server p s1 = (Inr found, s2)
      \<and> (\<forall>m proof. found = Some (m, proof) \<longrightarrow> em_archive_sha256 m = h)"
    using y by auto
qed

section \<open>Bookmarks\<close>

lemma file_metadata_tree:
  assumes "file_metadata w q s = (r, s')"
  shows "same_tree s s'"
  using assms unfolding file_metadata_def sys_def
  by (cases "os_fault w (fs_calls s)"; cases "node_of s q") (auto simp: untouched_def same_tree_def)

lemma read_profile_tree:
  assumes "read_profile of_text w p s = (r, s')"
  shows "same_tree s s'" "r = Inr x \<Longrightarrow> \<exists>old. node_of s (dp_bookmarks_path p) = Some (File old)"
proof -
  let ?q = "dp_bookmarks_path p"
  obtain a s1 where a: "file_metadata w ?q s = (a, s1)" by (cases "file_metadata w ?q s")
  obtain b s2 where b: "read_file w ?q s1 = (b, s2)" by (cases "read_file w ?q s1")
  obtain c s3 where c: "file_metadata w ?q s2 = (c, s3)" by (cases "file_metadata w ?q s2")
  note t = file_metadata_tree [OF a] read_file_tree(1) [OF b] file_metadata_tree [OF c]
  note t2 = same_tree_trans [OF t(1,2)]
  have run: "s' \<in> {s1, s2, s3}" "r = Inr x \<Longrightarrow> \<exists>old. b = Inr old"
    using assms a b c by (cases a; cases b; cases c; auto simp: read_profile_def read_bookmarks_at_def Let_def bindS_def liftS_def returnS_def)+
  show "same_tree s s'" using run(1) t(1) t2 same_tree_trans [OF t2 t(3)] by auto
  show "r = Inr x \<Longrightarrow> \<exists>old. node_of s ?q = Some (File old)"
    using run(2) read_file_tree(2) [OF b] same_tree_node [OF t(1), of ?q] by metis
qed

text \<open>The database a bookmark synchronization ends with.\<close>

definition base_is :: "'s app_env \<Rightarrow> string \<Rightarrow> discovered_profile \<Rightarrow> bookmark_snapshot \<Rightarrow> sync_proof \<Rightarrow> local_db \<Rightarrow> bool" where
  "base_is e server p m proof d \<longleftrightarrow>
     base_snapshot (ae_core e) (dp_directory_name p)
       (map_option sb_snapshot (find_row sb_key (server, BOOKMARK_NAMESPACE, dp_directory_name p) (ld_bases d)))
     = Inr (Some m)
     \<and> (\<exists>row. find_row mp_key (server, BOOKMARK_NAMESPACE, dp_directory_name p) (ld_mappings d) = Some row
          \<and> mp_revision row = uint (sp_revision proof)
          \<and> mp_object_id row = le_uuid_text (ae_local e) (object_uuid (sp_object_id proof)))"

definition codecs_ok :: "'s core \<Rightarrow> bool" where
  "codecs_ok k \<longleftrightarrow> suite_ok (core_suite k) \<and> (\<forall>n. length (core_nonces k n) = 24)
     \<and> (\<forall>x j. snapshot_json k x = Some j \<longrightarrow> snapshot_parse k j = Some x)"

lemma persist_sync_state_Inr:
  assumes run: "persist_sync_state e server p m proof s = (Inr u, s')" and ok: "codecs_ok (ae_core e)"
  shows "ap_files s' = ap_files s" "base_is e server p m proof (lc_db (ap_local s'))"
proof -
  let ?dir = "dp_directory_name p" and ?k = "ae_core e"
  from run obtain json n enc c where json: "snapshot_json ?k m = Some json"
    and enc: "encrypt_local_state (core_suite ?k) (core_nonces ?k n) (core_master ?k)
        (sync_base_purpose BOOKMARK_NAMESPACE ?dir) json = Inr enc"
    and saved: "save_sync_state (ae_local e) server BOOKMARK_NAMESPACE ?dir (sp_object_id proof) (sp_revision proof) enc
        (ap_local s) = (Inr u, c)"
    and s': "ap_local s' = c" "ap_files s' = ap_files s"
    by (auto simp: persist_sync_state_def persist_base_def protect_base_def result_simps)
  show "ap_files s' = ap_files s" by (rule s'(2))
  have "decrypt_local_state (core_suite ?k) (core_master ?k) (sync_base_purpose BOOKMARK_NAMESPACE ?dir) enc = Inr json"
    using decrypt_encrypted_local_state [OF _ _ enc] ok by (simp add: codecs_ok_def)
  moreover have "snapshot_parse ?k json = Some m" using json ok by (simp add: codecs_ok_def)
  ultimately have "base_snapshot ?k ?dir (Some enc) = Inr (Some m)"
    by (simp add: base_snapshot_def open_base_def)
  then show "base_is e server p m proof (lc_db (ap_local s'))"
    by (simp add: base_is_def s' save_sync_state_Inr(2) [OF saved] row_simps mapping_for_def)
qed

lemma settle_Inr:
  assumes "settle e p ext action stats proof n backup message s = (Inr fb, s')"
  shows "ap_files s' = ap_files s" "lc_db (ap_local s') = lc_db (ap_local s)"
    "sf_revision fb = sp_revision proof" "sf_conflicts fb = n" "sf_backup_path fb = backup"
  using assms by (auto simp: settle_def profile_name_def profile_preferences_def select_preferences_def result_simps)

text \<open>The live file after the synchronization: as it was when the snapshot is the one read from it,
  the text of the snapshot otherwise.\<close>

definition live_matches ::
  "'s app_env \<Rightarrow> discovered_profile \<Rightarrow> bookmark_snapshot \<Rightarrow> bookmark_snapshot \<Rightarrow> files \<Rightarrow> files \<Rightarrow> bool" where
  "live_matches e p mine m s s' \<longleftrightarrow>
     (if m = mine then node_of s' (dp_bookmarks_path p) = node_of s (dp_bookmarks_path p)
      else \<exists>content. re_to_text (ae_ext e) (chromium_bookmarks_value m) = Some content
             \<and> node_of s' (dp_bookmarks_path p) = Some (File content))"

definition bookmark_paths :: "'s app_env \<Rightarrow> discovered_profile \<Rightarrow> path \<Rightarrow> bool" where
  "bookmark_paths e p backup_dir \<longleftrightarrow>
     dp_bookmarks_path p = dp_path p @ [Normal ''Bookmarks''] \<and> CHR ''/'' \<notin> set (re_unique (ae_ext e))
     \<and> (\<forall>s. apart (place s (backup_path (restore_env.truncate (ae_ext e)) p backup_dir)) (place s (dp_path p)))"

lemma restore_Inr_live:
  assumes run: "restore_bookmarks (restore_env.truncate (ae_ext e)) p m backup_dir s = (Inr res, s')"
    and old: "node_of s (dp_bookmarks_path p) = Some (File old)" and paths: "bookmark_paths e p backup_dir"
  shows "\<exists>content. re_to_text (ae_ext e) (chromium_bookmarks_value m) = Some content
    \<and> node_of s' (dp_bookmarks_path p) = Some (File content)"
proof -
  have cond: "dp_bookmarks_path p = dp_path p @ [Normal ''Bookmarks'']"
    "CHR ''/'' \<notin> set (re_unique (restore_env.truncate (ae_ext e)))"
    "apart (place s (backup_path (restore_env.truncate (ae_ext e)) p backup_dir)) (place s (dp_path p))"
    using paths by (auto simp: bookmark_paths_def restore_env.truncate_def)
  from restore_bookmarks_outcome [OF run old cond] obtain content r where
    c: "re_to_text (restore_env.truncate (ae_ext e)) (chromium_bookmarks_value m) = Some content"
      "swap_outcome (restore_env.truncate (ae_ext e)) p backup_dir old content r s'"
      "Inr res = (case r of Inl x \<Rightarrow> Inl x
         | Inr _ \<Rightarrow> Inr \<lparr>rr_backup_path = backup_path (restore_env.truncate (ae_ext e)) p backup_dir,
             rr_stats = bookmark_stats (re_json_len (restore_env.truncate (ae_ext e))) m\<rparr>)"
    by auto
  from c(3) have "r = Inr ()" by (cases r) auto
  with c(2) have "bookmarks_kept p content s'" by (auto simp: swap_outcome_def)
  with c(1) show ?thesis by (auto simp: bookmarks_kept_def restore_env.truncate_def)
qed

text \<open>What one bookmark synchronization agreed on.\<close>

definition agreed ::
  "'s app_env \<Rightarrow> string \<Rightarrow> discovered_profile \<Rightarrow> bookmark_snapshot \<Rightarrow> (bookmark_snapshot \<times> sync_proof) option \<Rightarrow>
     bookmark_snapshot \<Rightarrow> sync_proof \<Rightarrow> local_db \<Rightarrow> 's client \<Rightarrow> bool" where
  "agreed e server p mine found m proof d c \<longleftrightarrow>
     (case found of
        None \<Rightarrow> m = mine \<and> fst (save_bookmark_snapshot (ae_core e) m None None c) = Inr proof
      | Some (theirs, old) \<Rightarrow>
          (\<exists>base r. base_snapshot (ae_core e) (dp_directory_name p)
               (map_option sb_snapshot (find_row sb_key (server, BOOKMARK_NAMESPACE, dp_directory_name p) (ld_bases d)))
             = Inr base
           \<and> merge_bookmarks base mine theirs = Inr r \<and> m = mr_snapshot r)
          \<and> (if m = theirs then proof = old
             else fst (save_bookmark_snapshot (ae_core e) m (Some (sp_object_id old)) (Some (sp_revision old)) c)
                    = Inr proof))"

lemma first_bookmarks_agrees:
  assumes run: "first_bookmarks e server p ext mine s = (Inr fb, s')" and ok: "codecs_ok (ae_core e)"
  shows "\<exists>proof. agreed e server p mine None mine proof d (ap_client s) \<and> base_is e server p mine proof (lc_db (ap_local s'))
    \<and> sf_revision fb = sp_revision proof \<and> live_matches e p mine mine (ap_files s) (ap_files s')"
proof -
  from run obtain pf s1 s2 message where
    up: "on_core Client (save_bookmark_snapshot (ae_core e) mine None None) s = (Inr pf, s1)"
    and saved: "persist_sync_state e server p mine pf s1 = (Inr (), s2)"
    and ended: "settle e p ext ''synced'' (snapshot_stats e mine) pf 0 None message s2 = (Inr fb, s')"
    by (auto simp: first_bookmarks_def Let_def bindS_Inr simp del: append.simps)
  from up obtain c where c: "save_bookmark_snapshot (ae_core e) mine None None (ap_client s) = (Inr pf, c)"
    "ap_files s1 = ap_files s" by (auto simp: result_simps)
  with persist_sync_state_Inr [OF saved ok] settle_Inr [OF ended] show ?thesis
    by (auto simp: agreed_def live_matches_def)
qed

lemma apply_merge_agrees:
  assumes run: "apply_merge e server p backup_dir ext mine theirs old r s = (Inr fb, s')"
    and ok: "codecs_ok (ae_core e)" "bookmark_paths e p backup_dir"
    and lives: "node_of (ap_files s) (dp_bookmarks_path p) = Some (File b)"
    and merged: "base_snapshot (ae_core e) (dp_directory_name p)
        (map_option sb_snapshot (find_row sb_key (server, BOOKMARK_NAMESPACE, dp_directory_name p) (ld_bases d))) = Inr base"
      "merge_bookmarks base mine theirs = Inr r"
  shows "\<exists>proof. agreed e server p mine (Some (theirs, old)) (mr_snapshot r) proof d (ap_client s)
    \<and> base_is e server p (mr_snapshot r) proof (lc_db (ap_local s'))
    \<and> sf_revision fb = sp_revision proof \<and> live_matches e p mine (mr_snapshot r) (ap_files s) (ap_files s')"
proof -
  let ?m = "mr_snapshot r"
  from run obtain pf s1 backup s2 s3 message where
    up: "(if ?m \<noteq> theirs
         then on_core Client (save_bookmark_snapshot (ae_core e) ?m (Some (sp_object_id old)) (Some (sp_revision old)))
         else returnS old) s = (Inr pf, s1)"
    and down: "(if ?m \<noteq> mine
         then bindS (on_files Profile_io (restore_bookmarks (restore_env.truncate (ae_ext e)) p ?m backup_dir))
                (\<lambda>restored. returnS (Some (rr_backup_path restored)))
         else returnS None) s1 = (Inr backup, s2)"
    and saved: "persist_sync_state e server p ?m pf s2 = (Inr (), s3)"
    and ended: "settle e p ext ''synced'' (snapshot_stats e ?m) pf (mr_conflicts r) backup message s3 = (Inr fb, s')"
    by (auto simp: apply_merge_def Let_def bindS_Inr simp del: append.simps)
  have s1: "ap_files s1 = ap_files s" using up by (auto simp: result_simps split: if_splits)
  have "if ?m = theirs then pf = old
     else fst (save_bookmark_snapshot (ae_core e) ?m (Some (sp_object_id old)) (Some (sp_revision old)) (ap_client s)) = Inr pf"
    using up by (auto simp: result_simps split: if_splits)
  with merged have "agreed e server p mine (Some (theirs, old)) ?m pf d (ap_client s)" by (auto simp: agreed_def)
  moreover have "live_matches e p mine ?m (ap_files s) (ap_files s2)"
  proof (cases "?m = mine")
    case True
    with down s1 show ?thesis by (simp add: live_matches_def returnS_iff)
  next
    case False
    with down obtain res f where f: "restore_bookmarks (restore_env.truncate (ae_ext e)) p ?m backup_dir (ap_files s1) = (Inr res, f)"
      "ap_files s2 = f" by (auto simp: result_simps)
    from restore_Inr_live [OF f(1) _ ok(2)] lives s1 False f(2) show ?thesis by (simp add: live_matches_def)
  qed
  ultimately show ?thesis
    using persist_sync_state_Inr [OF saved ok(1)] settle_Inr [OF ended] by auto
qed

lemma bookmark_mapping_quiet:
  "bookmark_mapping e server p s = (r, s') \<Longrightarrow> ap_files s' = ap_files s \<and> lc_db (ap_local s') = lc_db (ap_local s)"
  by (auto simp: bookmark_mapping_def on_local_iff dest: local_mapping_db)

lemma remote_bookmarks_quiet:
  assumes "remote_bookmarks e server p s = (r, s')"
  shows "ap_files s' = ap_files s" "lc_db (ap_local s') = lc_db (ap_local s)"
proof -
  obtain y s1 where y: "bookmark_mapping e server p s = (y, s1)" by (cases "bookmark_mapping e server p s")
  have "ap_files s' = ap_files s1 \<and> lc_db (ap_local s') = lc_db (ap_local s1)"
  proof (cases y)
    case (Inl x)
    with assms y show ?thesis by (simp add: remote_bookmarks_def bindS_def)
  next
    case (Inr m)
    with assms y show ?thesis
      by (cases m) (auto simp: remote_bookmarks_def bindS_def on_core_def returnS_def split: prod.splits sum.splits)
  qed
  with bookmark_mapping_quiet [OF y] show "ap_files s' = ap_files s" "lc_db (ap_local s') = lc_db (ap_local s)" by auto
qed

lemma sync_bookmarks_agrees:
  assumes run: "sync_bookmarks_with_server e server p backup_dir ext s = (Inr fb, s')"
    and ok: "codecs_ok (ae_core e)" "bookmark_paths e p backup_dir"
  shows "\<exists>mine f found s2 m proof. read_local e p (ap_files s) = (Inr mine, f)
    \<and> remote_bookmarks e server p (s\<lparr>ap_files := f\<rparr>) = (Inr found, s2)
    \<and> agreed e server p mine found m proof (lc_db (ap_local s)) (ap_client s2)
    \<and> base_is e server p m proof (lc_db (ap_local s')) \<and> sf_revision fb = sp_revision proof
    \<and> live_matches e p mine m (ap_files s) (ap_files s')"
proof -
  from run obtain mine s1 found s2 where
    mine: "on_files Profile_data (read_local e p) s = (Inr mine, s1)"
    and found: "remote_bookmarks e server p s1 = (Inr found, s2)"
    and rest: "(case found of None \<Rightarrow> first_bookmarks e server p ext mine
      | Some (theirs, proof) \<Rightarrow>
         bindS (on_local (sync_base (ae_local e) server BOOKMARK_NAMESPACE (dp_directory_name p))) (\<lambda>stored.
         bindS (liftS (base_snapshot (ae_core e) (dp_directory_name p) stored)) (\<lambda>base.
         bindS (liftS (map_err Profile_data (merge_bookmarks base mine theirs))) (\<lambda>merged.
         apply_merge e server p backup_dir ext mine theirs proof merged)))) s2 = (Inr fb, s')"
    by (auto simp: sync_bookmarks_with_server_def bindS_Inr)
  from mine obtain f where f: "read_local e p (ap_files s) = (Inr mine, f)" "s1 = s\<lparr>ap_files := f\<rparr>"
    by (auto simp: on_files_iff Inr_map_err)
  note read = read_profile_tree [OF f(1) [unfolded read_local_def]]
  obtain b where b: "node_of (ap_files s) (dp_bookmarks_path p) = Some (File b)" using read(2) by blast
  have live: "node_of (ap_files s2) q = node_of (ap_files s) q" for q
    using same_tree_node [OF read(1)] remote_bookmarks_quiet(1) [OF found] f(2) by simp
  have db: "lc_db (ap_local s2) = lc_db (ap_local s)"
    using remote_bookmarks_quiet(2) [OF found] f(2) by simp
  have moved: "live_matches e p mine m (ap_files s2) g \<Longrightarrow> live_matches e p mine m (ap_files s) g" for m g
    by (simp add: live_matches_def live)
  show ?thesis
  proof (cases found)
    case None
    with rest have "first_bookmarks e server p ext mine s2 = (Inr fb, s')" by simp
    from first_bookmarks_agrees [OF this ok(1)] moved f(1) found [unfolded f(2)] None show ?thesis by fastforce
  next
    case (Some tp)
    then obtain theirs old where tp: "found = Some (theirs, old)" by (cases tp) auto
    from rest obtain stored s3 base r where
      stored: "on_local (sync_base (ae_local e) server BOOKMARK_NAMESPACE (dp_directory_name p)) s2 = (Inr stored, s3)"
      and base: "base_snapshot (ae_core e) (dp_directory_name p) stored = Inr base"
      and r: "merge_bookmarks base mine theirs = Inr r"
      and applied: "apply_merge e server p backup_dir ext mine theirs old r s3 = (Inr fb, s')"
      unfolding tp by (auto simp: bindS_Inr liftS_iff Inr_map_err map_err_Inr)
    have s3: "ap_files s3 = ap_files s2" "ap_client s3 = ap_client s2" using stored by (auto simp: on_local_iff)
    have "stored = map_option sb_snapshot (find_row sb_key (server, BOOKMARK_NAMESPACE, dp_directory_name p) (ld_bases (lc_db (ap_local s))))"
      using sync_base_reads [OF stored] db by (simp add: stored_base_def)
    from apply_merge_agrees [OF applied ok _ base [unfolded this] r, of b] live b s3 moved f(1) found [unfolded f(2)] tp show ?thesis
      by fastforce
  qed
qed

end
