(* ===== verification/SyncProps.thy ===== *)
theory SyncProps
  imports SyncFacts
begin

text \<open>
  The properties of a synchronization, and an example they are applied to: a server that keeps what
  is put and announces no changes, and a profile with a bookmark file and one extension directory.
\<close>

section \<open>An example\<close>

text \<open>A server that keeps what is put and announces no changes, and a profile with one bookmark file.\<close>

type_synonym shelf = "(object_id \<times> sync_object) list"

definition shelf_api :: "shelf api" where
  "shelf_api =
     \<lparr>api_register = (\<lambda>r st. (Inl Timeout, st)),
      api_put = (\<lambda>i r st.
        let ob = \<lparr>so_id = i, so_namespace = put_namespace r, so_revision = 1, so_cursor = 1,
              so_device_id = put_device_id r, so_modified_at = put_modified_at r, so_deleted = False,
              so_envelope = Some (put_envelope r)\<rparr>
        in (Inr ob, (i, ob) # st)),
      api_get = (\<lambda>i st. (case map_of st i of None \<Rightarrow> Inl Timeout | Some ob \<Rightarrow> Inr ob, st)),
      api_delete = (\<lambda>i r st. (Inl Timeout, st)),
      api_changes = (\<lambda>after st. (Inr \<lparr>page_changes = [], page_next_cursor = 0, page_has_more = False\<rparr>, st))\<rparr>"

definition demo_mine :: bookmark_snapshot where
  "demo_mine = \<lparr>bs_format = ''helium-bookmarks-v1'', bs_source_browser = ''helium'',
     bs_profile_directory = ''Default'', bs_chromium_version = 1, bs_roots = []\<rparr>"

definition shelf_core :: "shelf core" where
  "shelf_core =
     \<lparr>core_api = shelf_api, core_suite = demo_suite, core_master = demo_master, core_device = DeviceId 9,
      core_ids = (\<lambda>n. word_of_nat n), core_nonces = (\<lambda>n. replicate 24 0), core_clock = (\<lambda>n. Timestamp 5),
      snapshot_json = (\<lambda>s. if s = demo_mine then Some [7] else None),
      snapshot_parse = (\<lambda>b. if b = [7] then Some demo_mine else None),
      manifest_json = (\<lambda>m. Some [9]), manifest_parse = (\<lambda>b. None), error_text = (\<lambda>er. []), core_id_text = (\<lambda>u. [])\<rparr>"

definition shelf_env :: "shelf app_env" where
  "shelf_env =
     \<lparr>ae_core = shelf_core, ae_local = quiet_env,
      ae_ext = (demo_ext_env (\<lambda>n. None))\<lparr>be_sha256 := sha256_bytes demo_suite\<rparr>,
      ae_of_text = (\<lambda>b. Some (JObj [(''version'', JNum 1), (''roots'', JObj [])])),
      ae_temp = [RootDir, Normal ''t''], ae_downloads = Some [RootDir, Normal ''d'']\<rparr>"

definition shelf_app :: "shelf app" where
  "shelf_app =
     \<lparr>ap_client = \<lparr>cl_remote = [], cl_draws = 0\<rparr>, ap_local = fresh_local,
      ap_files = \<lparr>fs_root = Dir [(''p'', Dir [(''Bookmarks'', File [1]), (''Extensions'', Dir [(''old'', File [1])])]),
          (''d'', Dir []), (''t'', Dir [])], fs_cwd = [], fs_calls = 0, fs_stats = 0\<rparr>\<rparr>"

definition shelf_proof :: "string \<Rightarrow> nat \<Rightarrow> sync_proof" where
  "shelf_proof namespace n =
     \<lparr>sp_object_id = ObjectId (word_of_nat n), sp_namespace = namespace, sp_revision = 1, sp_cursor = 1,
      sp_plaintext_matches = True\<rparr>"

definition shelf_object :: "string \<Rightarrow> bytes \<Rightarrow> nat \<Rightarrow> object_id \<times> sync_object" where
  "shelf_object namespace b n =
     (ObjectId (word_of_nat n),
      \<lparr>so_id = ObjectId (word_of_nat n), so_namespace = namespace, so_revision = 1, so_cursor = 1,
       so_device_id = DeviceId 9, so_modified_at = Timestamp 5, so_deleted = False, so_envelope = Some (sealed b)\<rparr>)"

lemma shelf_upload:
  assumes "length namespace < 2 ^ 32"
  shows "upload shelf_core namespace b None None \<lparr>cl_remote = st, cl_draws = n\<rparr> =
    (Inr (shelf_proof namespace n), \<lparr>cl_remote = shelf_object namespace b n # st, cl_draws = Suc n\<rparr>)"
proof -
  have seal: "encrypt demo_suite (replicate 24 0) demo_master m b = Inr (sealed b)"
    if "om_namespace m = namespace" "om_modified_at m = Timestamp 5" for m
    using demo_seal assms that by simp
  have opened: "decrypt demo_suite demo_master (snd (shelf_object namespace b n)) = Inr b"
    using demo_open assms by (simp add: shelf_object_def)
  show ?thesis
    using opened
    by (simp add: upload_def shelf_core_def shelf_api_def bindS_def liftS_def returnS_def draw_def call_def Let_def seal
        upload_metadata_def shelf_proof_def shelf_object_def)
qed

lemma demo_local_seal:
  assumes "length purpose < 2 ^ 32"
  shows "encrypt_local_state demo_suite (replicate 24 0) demo_master purpose b = Inr (replicate 24 0 @ b)"
  using assms
  by (simp add: encrypt_local_state_def derive_local_state_key_def local_state_aad_def append_field_def ascii_def)
    (simp add: demo_suite_def)

lemma shelf_capture:
  "(let (r, s) = capture shelf_env demo_profile shelf_app
    in r = Inr (\<lparr>ed_format = EXTENSION_BUNDLE_FORMAT, ed_profile_directory = ''Default'',
         ed_archive_sha256 = replicate 64 CHR ''0'', ed_archive_bytes = word_of_nat 0,
         ed_stats = \<lparr>es_extensions = 0, es_files = 1, es_bytes = 1\<rparr>\<rparr>, [])
     \<and> fst (read_local shelf_env demo_profile (ap_files s)) = Inr demo_mine)"
  by code_simp

text \<open>One step after the other: nothing is found on the shelf, what is put there is read back, and
  the local database takes the synchronization state.\<close>

lemma shelf_env_simps [simp]:
  "ae_core shelf_env = shelf_core" "ae_local shelf_env = quiet_env" "le_fault quiet_env n = False"
  "ae_downloads shelf_env = Some [RootDir, Normal ''d'']"
  by (simp_all add: shelf_env_def quiet_env_def)

lemma shelf_pages: "candidate_pages shelf_core namespace 0 [] c = (Inr [], c)"
  by (subst candidate_pages.simps) (simp add: call_def shelf_core_def shelf_api_def add_candidates_def)

lemma shelf_nothing:
  assumes "find_row mp_key (server, namespace, dp_directory_name p) (ld_mappings (lc_db (ap_local s))) = None"
  shows "namespace = EXTENSION_MANIFEST_NAMESPACE \<Longrightarrow>
      \<exists>c. remote_extension_manifest shelf_env server p s = (Inr None, s\<lparr>ap_local := c\<rparr>) \<and> lc_db c = lc_db (ap_local s)"
    "namespace = BOOKMARK_NAMESPACE \<Longrightarrow>
      \<exists>c. remote_bookmarks shelf_env server p s = (Inr None, s\<lparr>ap_local := c\<rparr>) \<and> lc_db c = lc_db (ap_local s)"
  using assms
  by (auto simp: remote_extension_manifest_def remote_bookmarks_def bookmark_mapping_def local_mapping_def
      select_mapping_def lsql_def on_local_def on_core_def discover_extension_bundle_def discover_bookmarks_def
      shelf_pages bindS_def returnS_def live_candidates_def)

lemma quiet_save_sync_state:
  "\<exists>c'. save_sync_state quiet_env server namespace k i 1 json c = (Inr (), c')"
  by (simp add: save_sync_state_def int_column_def u64_to_i64_def i64_max_def bindS_def liftS_def ltransaction_def lsql_def
      lno_op_def upsert_mapping_def upsert_base_def)

lemma shelf_persist:
  assumes "length (sync_base_purpose namespace (dp_directory_name p)) < 2 ^ 32" and "sp_revision proof = 1"
  shows "\<exists>s'. persist_base shelf_env what namespace server p b proof s = (Inr (), s')
    \<and> ap_files s' = ap_files s \<and> cl_remote (ap_client s') = cl_remote (ap_client s)
    \<and> ld_mappings (lc_db (ap_local s')) =
        upsert_row mp_key (mapping_for quiet_env server namespace (dp_directory_name p) (sp_object_id proof) 1)
          (ld_mappings (lc_db (ap_local s)))"
proof -
  obtain c' where c': "save_sync_state quiet_env server namespace (dp_directory_name p) (sp_object_id proof) 1
      (replicate 24 0 @ b) (ap_local s) = (Inr (), c')" using quiet_save_sync_state by blast
  show ?thesis
    using demo_local_seal [OF assms(1), of b] assms(2) c' save_sync_state_Inr(2) [OF c']
    by (simp add: persist_base_def protect_base_def on_core_def on_local_def bindS_def draw_def liftS_def shelf_core_def)
qed

lemma shelf_client: "\<exists>st n. (c::shelf client) = \<lparr>cl_remote = st, cl_draws = n\<rparr>"
  by (cases c) auto

lemma shelf_bundle:
  assumes "ed_archive_bytes d = 0" and "ed_archive_sha256 d = sha256_bytes demo_suite []"
  shows "\<exists>c' n m. save_extension_bundle shelf_core d [] None None c = (Inr (shelf_proof EXTENSION_MANIFEST_NAMESPACE n, m), c')"
proof -
  obtain st n where c: "c = \<lparr>cl_remote = st, cl_draws = n\<rparr>" using shelf_client by blast
  have "length EXTENSION_MANIFEST_NAMESPACE < 2 ^ 32" by (simp add: EXTENSION_MANIFEST_NAMESPACE_def)
  note shelf_upload [OF this]
  moreover have "core_suite shelf_core = demo_suite" "manifest_json shelf_core m = Some [9]" for m
    by (simp_all add: shelf_core_def)
  ultimately show ?thesis
    using assms by (auto simp: c save_extension_bundle_def chunks_of.simps bindS_def liftS_def returnS_def
        delete_old_chunks_def old_chunks_def len_u64_def)
qed

lemma shelf_extensions:
  "\<exists>out s'. sync_extensions_with_server shelf_env ''srv'' demo_profile b shelf_app = (Inr out, s')
    \<and> ap_files s' = ap_files (snd (capture shelf_env demo_profile shelf_app))
    \<and> find_row mp_key (''srv'', BOOKMARK_NAMESPACE, ''Default'') (ld_mappings (lc_db (ap_local s'))) = None"
proof -
  have "sha256_bytes demo_suite [] = replicate 64 CHR ''0''" by code_simp
  then obtain d s1 where d: "capture shelf_env demo_profile shelf_app = (Inr (d, []), s1)"
    "ed_archive_bytes d = 0" "ed_archive_sha256 d = sha256_bytes demo_suite []"
    using shelf_capture by (cases "capture shelf_env demo_profile shelf_app") auto
  have dir: "dp_directory_name demo_profile = ''Default''" by (simp add: demo_profile_def)
  have empty: "ld_mappings (lc_db (ap_local s1)) = []"
    using d(1) by (auto simp: capture_def on_files_def shelf_app_def fresh_local_def empty_local_db_def split: prod.splits)
  with shelf_nothing(1) obtain l where
    l: "remote_extension_manifest shelf_env ''srv'' demo_profile s1 = (Inr None, s1\<lparr>ap_local := l\<rparr>)" "lc_db l = lc_db (ap_local s1)"
    by (metis find_row_Nil)
  obtain c n m where c: "save_extension_bundle shelf_core d [] None None (ap_client s1) =
      (Inr (shelf_proof EXTENSION_MANIFEST_NAMESPACE n, m), c)" using shelf_bundle [OF d(2,3)] by blast
  have len: "length (sync_base_purpose EXTENSION_MANIFEST_NAMESPACE (dp_directory_name demo_profile)) < 2 ^ 32"
    by (simp add: dir sync_base_purpose_def EXTENSION_MANIFEST_NAMESPACE_def)
  obtain s2 where s2: "persist_base shelf_env ''Extension sync state'' EXTENSION_MANIFEST_NAMESPACE ''srv'' demo_profile
      (ascii (em_archive_sha256 m)) (shelf_proof EXTENSION_MANIFEST_NAMESPACE n) (s1\<lparr>ap_local := l, ap_client := c\<rparr>) = (Inr (), s2)"
    "ap_files s2 = ap_files s1"
    "ld_mappings (lc_db (ap_local s2)) = [mapping_for quiet_env ''srv'' EXTENSION_MANIFEST_NAMESPACE ''Default''
       (sp_object_id (shelf_proof EXTENSION_MANIFEST_NAMESPACE n)) 1]"
    using shelf_persist [OF len, of "shelf_proof EXTENSION_MANIFEST_NAMESPACE n" "''Extension sync state''" "''srv''"
        "ascii (em_archive_sha256 m)" "s1\<lparr>ap_local := l, ap_client := c\<rparr>"] l(2) empty
    by (auto simp: shelf_proof_def upsert_row_def dir)
  have "sync_extensions_with_server shelf_env ''srv'' demo_profile b shelf_app =
      (Inr \<lparr>eo_stats = em_stats m, eo_backup_path = None, eo_message = ''Started encrypted extension sync.''\<rparr>, s2)"
    using d(1) l c s2(1) by (simp add: sync_extensions_with_server_def upload_extensions_def persist_extension_sync_state_def
        bindS_def on_core_def returnS_def del: append.simps)
  with s2(2,3) d(1) show ?thesis
    by (simp add: mapping_for_def find_row_def EXTENSION_MANIFEST_NAMESPACE_def BOOKMARK_NAMESPACE_def)
qed

lemma shelf_bookmarks:
  assumes read: "fst (read_local shelf_env demo_profile (ap_files s)) = Inr demo_mine"
    and none: "find_row mp_key (''srv'', BOOKMARK_NAMESPACE, ''Default'') (ld_mappings (lc_db (ap_local s))) = None"
  shows "\<exists>fb s'. sync_bookmarks_with_server shelf_env ''srv'' demo_profile b ext s = (Inr fb, s')"
proof -
  have dir: "dp_directory_name demo_profile = ''Default''" by (simp add: demo_profile_def)
  obtain f where f: "read_local shelf_env demo_profile (ap_files s) = (Inr demo_mine, f)"
    using read by (cases "read_local shelf_env demo_profile (ap_files s)") auto
  obtain l where l: "remote_bookmarks shelf_env ''srv'' demo_profile (s\<lparr>ap_files := f\<rparr>) = (Inr None, s\<lparr>ap_files := f, ap_local := l\<rparr>)"
    using shelf_nothing(2) [of "''srv''" BOOKMARK_NAMESPACE demo_profile "s\<lparr>ap_files := f\<rparr>"] none by (auto simp: dir)
  obtain st n where c: "ap_client s = \<lparr>cl_remote = st, cl_draws = n\<rparr>" using shelf_client by blast
  have "length BOOKMARK_NAMESPACE < 2 ^ 32" by (simp add: BOOKMARK_NAMESPACE_def)
  from shelf_upload [OF this] have up: "save_bookmark_snapshot shelf_core demo_mine None None (ap_client s) =
      (Inr (shelf_proof BOOKMARK_NAMESPACE n), \<lparr>cl_remote = shelf_object BOOKMARK_NAMESPACE [7] n # st, cl_draws = Suc n\<rparr>)"
    by (simp add: c save_bookmark_snapshot_def bindS_def liftS_def) (simp add: shelf_core_def)
  let ?c = "\<lparr>cl_remote = shelf_object BOOKMARK_NAMESPACE [7] n # st, cl_draws = Suc n\<rparr>"
  have len: "length (sync_base_purpose BOOKMARK_NAMESPACE (dp_directory_name demo_profile)) < 2 ^ 32"
    by (simp add: dir sync_base_purpose_def BOOKMARK_NAMESPACE_def)
  have "snapshot_json shelf_core demo_mine = Some [7]" "sp_revision (shelf_proof BOOKMARK_NAMESPACE n) = 1"
    by (simp_all add: shelf_core_def shelf_proof_def)
  with shelf_persist [OF len] obtain s2 where "persist_sync_state shelf_env ''srv'' demo_profile demo_mine
      (shelf_proof BOOKMARK_NAMESPACE n) (s\<lparr>ap_files := f, ap_local := l, ap_client := ?c\<rparr>) = (Inr (), s2)"
    by (simp add: persist_sync_state_def bindS_def liftS_def) blast
  with f l up show ?thesis
    by (simp add: sync_bookmarks_with_server_def first_bookmarks_def bindS_def on_files_def on_core_def Let_def
        settle_def on_local_def profile_name_def profile_preferences_def lsql_def select_preferences_def returnS_def
        del: append.simps)
qed

lemma shelf_sync: "\<exists>fb s'. sync_profile_with_server shelf_env ''srv'' demo_profile b shelf_app = (Inr fb, s')"
proof -
  obtain out s1 where s1: "sync_extensions_with_server shelf_env ''srv'' demo_profile b shelf_app = (Inr out, s1)"
    "ap_files s1 = ap_files (snd (capture shelf_env demo_profile shelf_app))"
    "find_row mp_key (''srv'', BOOKMARK_NAMESPACE, ''Default'') (ld_mappings (lc_db (ap_local s1))) = None"
    using shelf_extensions by blast
  have "fst (read_local shelf_env demo_profile (ap_files s1)) = Inr demo_mine"
    using shelf_capture s1(2) by (simp add: case_prod_beta Let_def)
  from shelf_bookmarks [OF this s1(3)] s1(1) show ?thesis
    by (simp add: sync_profile_with_server_def stopped_def bindS_def)
qed

lemma shelf_hypotheses:
  "codecs_ok shelf_core" "bookmark_paths shelf_env demo_profile [RootDir, Normal ''d'']"
proof -
  show "codecs_ok shelf_core" using demo_suite_ok by (simp add: codecs_ok_def shelf_core_def)
  have path: "backup_path (restore_env.truncate (ae_ext shelf_env)) demo_profile [RootDir, Normal ''d''] =
      [RootDir, Normal ''d'', Normal ''Helium-Sync-Default-before-load-7.zip'']"
    unfolding shelf_env_def by code_simp
  have "dp_bookmarks_path demo_profile = dp_path demo_profile @ [Normal ''Bookmarks'']" "CHR ''/'' \<notin> set (re_unique (ae_ext shelf_env))"
    by code_simp+
  with path show "bookmark_paths shelf_env demo_profile [RootDir, Normal ''d'']"
    by (simp add: bookmark_paths_def place_def demo_profile_def)
qed

text \<open>The same profile, last synchronized when its archive had another hash.\<close>

definition synced_app :: "shelf app" where
  "synced_app = shelf_app\<lparr>ap_local := \<lparr>lc_db = empty_local_db\<lparr>ld_bases :=
     [\<lparr>sb_key = (''srv'', EXTENSION_MANIFEST_NAMESPACE, ''Default''), sb_snapshot = replicate 24 0 @ ascii ''1''\<rparr>]\<rparr>,
     lc_tick = 0\<rparr>\<rparr>"

lemma synced_capture:
  "fst (capture shelf_env demo_profile synced_app) = fst (capture shelf_env demo_profile shelf_app)"
  by (simp add: capture_def on_files_def synced_app_def split: prod.splits)

lemma synced_base:
  "base_hash shelf_core ''Default'' (stored_base EXTENSION_MANIFEST_NAMESPACE ''srv'' demo_profile synced_app) = Inr (Some ''1'')"
proof -
  have "decrypt_local_state demo_suite demo_master (sync_base_purpose EXTENSION_MANIFEST_NAMESPACE ''Default'')
      (replicate 24 0 @ ascii ''1'') = Inr (ascii ''1'')"
    by (rule decrypt_encrypted_local_state [OF demo_suite_ok _ demo_local_seal])
      (simp_all add: sync_base_purpose_def EXTENSION_MANIFEST_NAMESPACE_def)
  moreover have "valid_utf8 (string_of (ascii ''1''))" "string_of (ascii ''1'') = ''1''" by code_simp+
  ultimately show ?thesis
    by (simp add: base_hash_def stored_base_def synced_app_def find_row_def open_base_def shelf_core_def demo_profile_def)
qed

lemma shelf_setting: "capture_setting shelf_env demo_profile synced_app"
  by (simp add: capture_setting_def downward_def place_def shelf_env_def demo_profile_def synced_app_def shelf_app_def)

section \<open>Properties\<close>

text \<open>C14. Synchronizing extensions, when the profile's archive has changed since the last synchronization:
  whatever the outcome, the extension entries of the profile are left as they are; and it succeeds only
  when the server has no bundle, or still has the one of the last synchronization.\<close>

theorem changed_extensions_kept:
  assumes "sync_extensions_with_server e server p backup_dir s = (r, s')"
    and "capture e p s = (Inr (d, archive), s1)"
    and "base_hash (ae_core e) (dp_directory_name p) (stored_base EXTENSION_MANIFEST_NAMESPACE server p s) = Inr (Some h)"
    and "h \<noteq> ed_archive_sha256 d" and "capture_setting e p s"
  shows "targets_kept p (ap_files s) (ap_files s')
    \<and> (\<forall>out. r = Inr out \<longrightarrow> (\<exists>found s2. remote_extension_manifest e server p s1 = (Inr found, s2)
         \<and> (\<forall>m proof. found = Some (m, proof) \<longrightarrow> em_archive_sha256 m = h)))"
  using sync_extensions_changed [OF assms] by blast

lemma changed_extensions_kept_witness:
  "targets_kept demo_profile (ap_files synced_app)
     (ap_files (snd (sync_extensions_with_server shelf_env ''srv'' demo_profile [RootDir, Normal ''d''] synced_app)))"
proof -
  have "ae_core shelf_env = shelf_core" "dp_directory_name demo_profile = ''Default''"
    by (simp_all add: shelf_env_def demo_profile_def)
  with synced_base have base: "base_hash (ae_core shelf_env) (dp_directory_name demo_profile)
      (stored_base EXTENSION_MANIFEST_NAMESPACE ''srv'' demo_profile synced_app) = Inr (Some ''1'')" by simp
  obtain d s1 where "capture shelf_env demo_profile synced_app = (Inr (d, []), s1)"
    "ed_archive_sha256 d = replicate 64 CHR ''0''"
    using shelf_capture synced_capture
    by (cases "capture shelf_env demo_profile synced_app"; cases "capture shelf_env demo_profile shelf_app") auto
  moreover have "''1'' \<noteq> replicate 64 CHR ''0''" by code_simp
  ultimately show ?thesis
    using changed_extensions_kept [OF prod.collapse [symmetric] _ base _ shelf_setting] by fastforce
qed

text \<open>C2. A successful synchronization of a profile leaves the three copies of its bookmarks on one
  snapshot: with extensions settled, the snapshot is what was read from the profile when the server had
  none, and the three-way merge of the stored base, that and the server's otherwise. The server has it
  under the revision that is reported, the stored base decrypts to it with that revision and object id
  in the mapping, and the live file is its text, or untouched when nothing had to change there.\<close>

theorem synchronized_copies_agree:
  assumes "sync_profile_with_server e server p backup_dir s = (Inr fb, s')"
    and "codecs_ok (ae_core e)" and "bookmark_paths e p backup_dir"
  shows "\<exists>ext s1 mine f found s2 m proof.
      sync_extensions_with_server e server p backup_dir s = (Inr ext, s1)
    \<and> read_local e p (ap_files s1) = (Inr mine, f)
    \<and> remote_bookmarks e server p (s1\<lparr>ap_files := f\<rparr>) = (Inr found, s2)
    \<and> agreed e server p mine found m proof (lc_db (ap_local s1)) (ap_client s2)
    \<and> base_is e server p m proof (lc_db (ap_local s')) \<and> sf_revision fb = sp_revision proof
    \<and> live_matches e p mine m (ap_files s1) (ap_files s')"
proof -
  from assms(1) obtain ext s1 where "sync_extensions_with_server e server p backup_dir s = (Inr ext, s1)"
    and bookmarks: "sync_bookmarks_with_server e server p backup_dir ext s1 = (Inr fb, s')"
    by (auto simp: sync_profile_with_server_def stopped_def bindS_Inr Inr_map_err map_err_Inr split: prod.splits)
  with sync_bookmarks_agrees [OF bookmarks assms(2,3)] show ?thesis
    by (intro exI [of _ ext] exI [of _ s1]) simp
qed

lemma synchronized_copies_agree_witness:
  "\<exists>fb s' m proof. sync_profile_with_server shelf_env ''srv'' demo_profile [RootDir, Normal ''d''] shelf_app = (Inr fb, s')
    \<and> base_is shelf_env ''srv'' demo_profile m proof (lc_db (ap_local s')) \<and> sf_revision fb = sp_revision proof"
proof -
  obtain fb s' where run: "sync_profile_with_server shelf_env ''srv'' demo_profile [RootDir, Normal ''d''] shelf_app = (Inr fb, s')"
    using shelf_sync by blast
  from synchronized_copies_agree [OF run _ shelf_hypotheses(2)] shelf_hypotheses(1) run show ?thesis
    unfolding shelf_env_simps by blast
qed

end
