(* ===== verification/SettledProps.thy ===== *)
theory SettledProps
  imports SyncProps BookmarkProps
begin

text \<open>
  Synchronizations settle: a device whose bookmarks did not change since the last one uploads nothing,
  reports no conflict and ends with the server's snapshot, so two devices do not answer each other for ever.
\<close>

section \<open>The merge of an unchanged side\<close>

lemma merged_with_unchanged:
  assumes unchanged: "mine = theirs \<or> base = Some mine" and keys: "distinct (map root_key (bs_roots theirs))"
    and newer: "bs_chromium_version mine \<le> bs_chromium_version theirs"
    and merged: "merge_bookmarks base mine theirs = Inr r"
  shows "mr_snapshot r = theirs" "mr_conflicts r = 0"
proof -
  have root: "merged_root base mine theirs k = roots_map (bs_roots theirs) k" for k
    using unchanged by (auto simp: merged_root_def base_root_def)
  have quiet: "snd (merge_optional_node (base_root base k) (roots_map (bs_roots mine) k) (roots_map (bs_roots theirs) k)) = 0" for k
    using unchanged by (auto simp: base_root_def)
  show "mr_snapshot r = theirs" "mr_conflicts r = 0"
    using merged merge_roots_fast_forward [OF keys root] merge_roots_no_conflicts [OF quiet] newer
    by (simp_all add: merge_bookmarks_Inr max_absorb2)
qed

section \<open>What reaches the server\<close>

definition same_remote :: "'s app \<Rightarrow> 's app \<Rightarrow> bool" where
  "same_remote s s' \<longleftrightarrow> cl_remote (ap_client s') = cl_remote (ap_client s)"

lemma same_remote_order: "reflp same_remote" "transp same_remote"
  by (auto simp: same_remote_def intro: reflpI transpI)

lemma same_remote_lifts:
  "keeps same_remote (on_local m)" "keeps same_remote (on_files g n)"
  by (auto simp: keeps_def same_remote_def on_local_def on_files_def Let_def split: prod.splits)

lemma same_remote_protect: "keeps same_remote (on_core g (protect_base k namespace dir b))"
  by (auto simp: keeps_def same_remote_def on_core_def protect_base_def draw_def bindS_def liftS_def Let_def split: prod.splits)

lemma same_remote_persist: "keeps same_remote (persist_sync_state e server p m proof)"
  unfolding persist_sync_state_def persist_base_def
  by (intro keeps_bindS keeps_liftS same_remote_order same_remote_lifts same_remote_protect)

lemma same_remote_settle: "keeps same_remote (settle e p ext action stats proof conflicts backup message)"
  unfolding settle_def by (intro keeps_bindS keeps_returnS same_remote_order same_remote_lifts)

lemma keeps_run: "keeps R m \<Longrightarrow> m s = (r, s') \<Longrightarrow> R s s'"
  by (auto simp: keeps_def dest!: spec [of _ s])

lemma apply_unchanged:
  assumes run: "apply_merge e server p backup_dir ext mine theirs proof r s = (Inr fb, s')"
    and same: "mr_snapshot r = theirs"
  shows "same_remote s s'" "sf_conflicts fb = mr_conflicts r" "sf_revision fb = sp_revision proof"
proof -
  from run same obtain backup s2 s3 message where
    down: "(if theirs \<noteq> mine
         then bindS (on_files Profile_io (restore_bookmarks (restore_env.truncate (ae_ext e)) p theirs backup_dir))
                (\<lambda>restored. returnS (Some (rr_backup_path restored)))
         else returnS None) s = (Inr backup, s2)"
    and saved: "persist_sync_state e server p theirs proof s2 = (Inr (), s3)"
    and ended: "settle e p ext ''synced'' (snapshot_stats e theirs) proof (mr_conflicts r) backup message s3 = (Inr fb, s')"
    by (auto simp: apply_merge_def Let_def bindS_Inr returnS_iff simp del: append.simps)
  have "same_remote s s2"
    using down by (auto simp: same_remote_def bindS_Inr on_files_iff returnS_iff split: if_splits)
  moreover note keeps_run [OF same_remote_persist saved] keeps_run [OF same_remote_settle ended]
  ultimately show "same_remote s s'" by (simp add: same_remote_def)
  show "sf_conflicts fb = mr_conflicts r" "sf_revision fb = sp_revision proof"
    using ended by (auto simp: settle_def bindS_Inr returnS_iff)
qed

lemma sync_bookmarks_found:
  assumes run: "sync_bookmarks_with_server e server p backup_dir ext s = (Inr fb, s')"
    and read: "read_local e p (ap_files s) = (Inr mine, f)"
    and found: "remote_bookmarks e server p (s\<lparr>ap_files := f\<rparr>) = (Inr (Some (theirs, proof)), s2)"
  obtains s3 base r where "ap_files s3 = ap_files s2" "ap_client s3 = ap_client s2"
    "base_snapshot (ae_core e) (dp_directory_name p) (stored_base BOOKMARK_NAMESPACE server p s) = Inr base"
    "merge_bookmarks base mine theirs = Inr r"
    "apply_merge e server p backup_dir ext mine theirs proof r s3 = (Inr fb, s')"
proof -
  have "on_files Profile_data (read_local e p) s = (Inr mine, s\<lparr>ap_files := f\<rparr>)"
    using read by (simp add: on_files_iff)
  with run found obtain stored s3 base r where
    stored: "on_local (sync_base (ae_local e) server BOOKMARK_NAMESPACE (dp_directory_name p)) s2 = (Inr stored, s3)"
    and base: "base_snapshot (ae_core e) (dp_directory_name p) stored = Inr base"
    and r: "merge_bookmarks base mine theirs = Inr r"
    and applied: "apply_merge e server p backup_dir ext mine theirs proof r s3 = (Inr fb, s')"
    by (auto simp: sync_bookmarks_with_server_def bindS_Inr liftS_iff Inr_map_err map_err_Inr)
  have s3: "ap_files s3 = ap_files s2" "ap_client s3 = ap_client s2" using stored by (auto simp: on_local_iff)
  have "stored = stored_base BOOKMARK_NAMESPACE server p s"
    using sync_base_reads [OF stored] remote_bookmarks_quiet(2) [OF found] by (simp add: stored_base_def)
  with that [OF s3] base r applied show ?thesis by simp
qed

section \<open>An example\<close>

text \<open>The shelf holds the bookmarks that the profile has.\<close>

definition settled_app :: "shelf app" where
  "settled_app = shelf_app\<lparr>ap_client := \<lparr>cl_remote = [shelf_object BOOKMARK_NAMESPACE [7] 3], cl_draws = 4\<rparr>,
     ap_local := \<lparr>lc_db = empty_local_db\<lparr>ld_mappings :=
       [\<lparr>mp_key = (''srv'', BOOKMARK_NAMESPACE, ''Default''), mp_object_id = ''xxx'', mp_revision = 1\<rparr>]\<rparr>,
     lc_tick = 0\<rparr>\<rparr>"

definition no_extensions :: extension_outcome where
  "no_extensions = \<lparr>eo_stats = \<lparr>es_extensions = 0, es_files = 0, es_bytes = 0\<rparr>, eo_backup_path = None, eo_message = []\<rparr>"

lemma settled_files: "ap_files settled_app = ap_files shelf_app"
  by (simp add: settled_app_def)

lemma settled_remote:
  "\<exists>l. remote_bookmarks shelf_env ''srv'' demo_profile (settled_app\<lparr>ap_files := f\<rparr>) =
     (Inr (Some (demo_mine, shelf_proof BOOKMARK_NAMESPACE 3)), settled_app\<lparr>ap_files := f, ap_local := l\<rparr>)"
proof -
  let ?ob = "snd (shelf_object BOOKMARK_NAMESPACE [7] 3)"
  have opened: "decrypt demo_suite demo_master ?ob = Inr [7]"
    by (rule demo_open) (simp_all add: shelf_object_def BOOKMARK_NAMESPACE_def)
  have get: "api_get shelf_api (ObjectId 3) [shelf_object BOOKMARK_NAMESPACE [7] 3] =
      (Inr ?ob, [shelf_object BOOKMARK_NAMESPACE [7] 3])"
    by (simp add: shelf_api_def shelf_object_def)
  have dir: "dp_directory_name demo_profile = ''Default''" by (simp add: demo_profile_def)
  have core: "core_api shelf_core = shelf_api" "core_suite shelf_core = demo_suite" "core_master shelf_core = demo_master"
    "snapshot_parse shelf_core [7] = Some demo_mine" by (simp_all add: shelf_core_def)
  have fields: "so_namespace ?ob = BOOKMARK_NAMESPACE" "so_revision ?ob = 1" "so_cursor ?ob = 1"
    by (simp_all add: shelf_object_def)
  have load: "load_bookmarks shelf_core (ObjectId 3) (ap_client settled_app) =
      (Inr (demo_mine, shelf_proof BOOKMARK_NAMESPACE 3), ap_client settled_app)"
    by (simp add: load_bookmarks_def download_def call_def bindS_def liftS_def returnS_def core get opened fields
        settled_app_def shelf_proof_def)
  have quiet: "le_uuid_parse quiet_env ''xxx'' = Some 3" "\<And>n. le_fault quiet_env n = False"
    by (simp_all add: quiet_env_def demo_local_env_def)
  obtain l where "bookmark_mapping shelf_env ''srv'' demo_profile (settled_app\<lparr>ap_files := f\<rparr>) =
      (Inr (Some \<lparr>om_object = ObjectId 3, om_rev = 1\<rparr>), settled_app\<lparr>ap_files := f, ap_local := l\<rparr>)"
    by (simp add: bookmark_mapping_def local_mapping_def lsql_def select_mapping_def on_local_def bindS_def liftS_def
        returnS_def dir settled_app_def find_row_def parse_id_def quiet i64_to_u64_def i64_max_def)
  then show ?thesis by (auto simp: remote_bookmarks_def bindS_def on_core_def load returnS_def)
qed

lemma settled_read: "\<exists>f. read_local shelf_env demo_profile (ap_files settled_app) = (Inr demo_mine, f)"
proof -
  have "fst (read_local shelf_env demo_profile (ap_files shelf_app)) = Inr demo_mine" by code_simp
  then show ?thesis by (metis prod.collapse settled_files)
qed

lemma settled_run:
  assumes read: "read_local shelf_env demo_profile (ap_files settled_app) = (Inr demo_mine, f)"
  shows "\<exists>fb s'. sync_bookmarks_with_server shelf_env ''srv'' demo_profile b ext settled_app = (Inr fb, s')"
proof -
  have dir: "dp_directory_name demo_profile = ''Default''" by (simp add: demo_profile_def)
  obtain l where l: "remote_bookmarks shelf_env ''srv'' demo_profile (settled_app\<lparr>ap_files := f\<rparr>) =
      (Inr (Some (demo_mine, shelf_proof BOOKMARK_NAMESPACE 3)), settled_app\<lparr>ap_files := f, ap_local := l\<rparr>)"
    using settled_remote by blast
  have l_db: "lc_db l = lc_db (ap_local settled_app)" using remote_bookmarks_quiet(2) [OF l] by simp
  obtain l' where base: "on_local (sync_base quiet_env ''srv'' BOOKMARK_NAMESPACE ''Default'')
      (settled_app\<lparr>ap_files := f, ap_local := l\<rparr>) = (Inr None, settled_app\<lparr>ap_files := f, ap_local := l'\<rparr>)"
    using l_db by (simp add: sync_base_def select_base_def lsql_def on_local_def bindS_def returnS_def find_row_def
        settled_app_def empty_local_db_def)
  obtain r where r: "merge_bookmarks None demo_mine demo_mine = Inr r"
    by (simp add: merge_bookmarks_Inr validate_merge_pair_def demo_mine_def)
  have same: "mr_snapshot r = demo_mine"
    using merged_with_unchanged(1) [OF _ _ _ r] by (simp add: demo_mine_def)
  have len: "length (sync_base_purpose BOOKMARK_NAMESPACE (dp_directory_name demo_profile)) < 2 ^ 32"
    by (simp add: dir sync_base_purpose_def BOOKMARK_NAMESPACE_def)
  have "snapshot_json shelf_core demo_mine = Some [7]" "sp_revision (shelf_proof BOOKMARK_NAMESPACE 3) = 1"
    by (simp_all add: shelf_core_def shelf_proof_def)
  with shelf_persist [OF len] obtain s2 where "persist_sync_state shelf_env ''srv'' demo_profile demo_mine
      (shelf_proof BOOKMARK_NAMESPACE 3) (settled_app\<lparr>ap_files := f, ap_local := l'\<rparr>) = (Inr (), s2)"
    by (simp add: persist_sync_state_def bindS_def liftS_def) blast
  with read l base r same show ?thesis
    by (simp add: sync_bookmarks_with_server_def apply_merge_def bindS_def liftS_def on_files_def Let_def dir base_snapshot_def
        settle_def on_local_def profile_name_def profile_preferences_def lsql_def select_preferences_def returnS_def
        del: append.simps)
qed

section \<open>The property\<close>

text \<open>C5. A device that changed nothing follows the server: when the profile reads as at the last
  synchronization, or already as the server has it, a successful synchronization of its bookmarks uploads
  nothing (the remote is as loading left it), reports no conflict and the revision that was loaded, and leaves
  the server's snapshot as the stored base and in the live file, which is untouched when it was there already.
  The server's root keys are distinct and this device's Chromium version is at most that of the server.\<close>

theorem unchanged_device_follows_server:
  assumes run: "sync_bookmarks_with_server e server p backup_dir ext s = (Inr fb, s')"
    and read: "read_local e p (ap_files s) = (Inr mine, f)"
    and found: "remote_bookmarks e server p (s\<lparr>ap_files := f\<rparr>) = (Inr (Some (theirs, proof)), s2)"
    and unchanged: "mine = theirs \<or>
      base_snapshot (ae_core e) (dp_directory_name p) (stored_base BOOKMARK_NAMESPACE server p s) = Inr (Some mine)"
    and newer: "bs_chromium_version mine \<le> bs_chromium_version theirs"
    and keys: "distinct (map root_key (bs_roots theirs))"
    and codecs: "codecs_ok (ae_core e)" and paths: "bookmark_paths e p backup_dir"
  shows "cl_remote (ap_client s') = cl_remote (ap_client s2) \<and> sf_conflicts fb = 0 \<and> sf_revision fb = sp_revision proof
    \<and> base_is e server p theirs proof (lc_db (ap_local s')) \<and> live_matches e p mine theirs (ap_files s) (ap_files s')"
proof -
  from sync_bookmarks_found [OF run read found] obtain s3 base r where
    s3: "ap_files s3 = ap_files s2" "ap_client s3 = ap_client s2"
    and base: "base_snapshot (ae_core e) (dp_directory_name p) (stored_base BOOKMARK_NAMESPACE server p s) = Inr base"
    and r: "merge_bookmarks base mine theirs = Inr r"
    and applied: "apply_merge e server p backup_dir ext mine theirs proof r s3 = (Inr fb, s')" .
  have "mine = theirs \<or> base = Some mine" using unchanged base by auto
  note merged = merged_with_unchanged [OF this keys newer r]
  note quiet = apply_unchanged [OF applied merged(1)]
  from sync_bookmarks_agrees [OF run codecs paths] read found obtain m proof' where
    agreed: "agreed e server p mine (Some (theirs, proof)) m proof' (lc_db (ap_local s)) (ap_client s2)"
    and kept: "base_is e server p m proof' (lc_db (ap_local s'))" "live_matches e p mine m (ap_files s) (ap_files s')"
    by auto
  have "m = theirs" "proof' = proof"
    using agreed merged(1) base r by (auto simp: agreed_def stored_base_def)
  with kept quiet merged(2) s3 show ?thesis by (simp add: same_remote_def)
qed

lemma unchanged_device_follows_server_witness:
  "\<exists>fb s'. sync_bookmarks_with_server shelf_env ''srv'' demo_profile [RootDir, Normal ''d''] no_extensions settled_app = (Inr fb, s')
    \<and> cl_remote (ap_client s') = cl_remote (ap_client settled_app) \<and> sf_conflicts fb = 0"
proof -
  obtain f where read: "read_local shelf_env demo_profile (ap_files settled_app) = (Inr demo_mine, f)"
    using settled_read by blast
  obtain fb s' where run: "sync_bookmarks_with_server shelf_env ''srv'' demo_profile [RootDir, Normal ''d''] no_extensions settled_app = (Inr fb, s')"
    using settled_run [OF read] by blast
  obtain l where found: "remote_bookmarks shelf_env ''srv'' demo_profile (settled_app\<lparr>ap_files := f\<rparr>) =
      (Inr (Some (demo_mine, shelf_proof BOOKMARK_NAMESPACE 3)), settled_app\<lparr>ap_files := f, ap_local := l\<rparr>)"
    using settled_remote by blast
  have "codecs_ok (ae_core shelf_env)" using shelf_hypotheses(1) by simp
  from unchanged_device_follows_server [OF run read found _ _ _ this shelf_hypotheses(2)] run show ?thesis
    by (simp add: demo_mine_def)
qed

end
