(* ===== verification/Lifecycle.thy ===== *)
theory Lifecycle
  imports SyncEngine
begin

text \<open>
  The commands of the desktop client on the profiles of the browser
  (\<open>helium-sync-client/src-tauri/src/main.rs\<close>): listing and creating them, archiving one, restoring
  or deleting an archive, and starting a synchronization.
  \<^item> \<open>desk\<close> holds what a command finds outside: the environment of discovery, the processes that
    run (\<open>de_running\<close>), whether one can be started (\<open>de_spawn\<close>) and the server signed in to.
  \<^item> The lock on profile operations makes a command run alone.
  \<^item> Opening the local database is one call that may fail.
\<close>

record 's desk =
  de_app :: "'s app_env"
  de_discovery :: discovery_env
  de_reader :: profile_reader
  de_running :: "installation \<Rightarrow> bool"
  de_spawn :: "path \<Rightarrow> string \<Rightarrow> bool"
  de_session :: "string option"

abbreviation desk_os :: "'s desk \<Rightarrow> os" where
  "desk_os d \<equiv> di_os (de_discovery d)"

abbreviation desk_local :: "'s desk \<Rightarrow> local_env" where
  "desk_local d \<equiv> ae_local (de_app d)"

section \<open>The browser is closed\<close>

definition symlink_metadata :: "os \<Rightarrow> path \<Rightarrow> (files, io_error, node) comp" where
  "symlink_metadata w p = sys w untouched (\<lambda>s.
     case node_of s p of None \<Rightarrow> Inl No_entry | Some n \<Rightarrow> Inr (n, fs_root s))"

fun no_markers :: "os \<Rightarrow> path \<Rightarrow> string list \<Rightarrow> (files, app_error, unit) comp" where
  "no_markers w dir [] = returnS ()"
| "no_markers w dir (name # rest) =
     (let marker = path_join dir (path_of name) in
      bindS (attempt (symlink_metadata w marker)) (\<lambda>r.
      case r of
        Inr _ \<Rightarrow> liftS (Inl (Refused (''Helium's browser lock '' @ path_text marker @ '' is active. Close every Helium window first.'')))
      | Inl No_entry \<Rightarrow> no_markers w dir rest
      | Inl x \<Rightarrow> liftS (Inl (Io_failed ''Could not inspect Helium's browser lock'' marker x))))"

definition ensure_profile_directory_unlocked :: "os \<Rightarrow> path \<Rightarrow> (files, app_error, unit) comp" where
  "ensure_profile_directory_unlocked w dir =
     no_markers w dir [''SingletonLock'', ''SingletonSocket'', ''SingletonCookie'']"

definition ensure_helium_closed :: "'s desk \<Rightarrow> ('s, unit) app_comp" where
  "ensure_helium_closed d =
     bindS (on_files Discovery (discover_installation (de_discovery d))) (\<lambda>inst.
     bindS (on_files id (ensure_profile_directory_unlocked (desk_os d) (in_user_data_dir inst))) (\<lambda>_.
     if de_running d inst
     then liftS (Inl (Refused ''Close every Helium window before creating, syncing, or switching profiles.''))
     else returnS ()))"

section \<open>Profiles\<close>

definition find_discovered_profile :: "'s desk \<Rightarrow> string \<Rightarrow> ('s, discovered_profile) app_comp" where
  "find_discovered_profile d dir =
     bindS (on_files Discovery (discover (de_reader d) (de_discovery d))) (\<lambda>(inst, ps).
     liftS (ok_or (Refused ''Selected Helium profile is no longer available'')
       (List.find (\<lambda>p. dp_directory_name p = dir) ps)))"

definition local_state :: "'s desk \<Rightarrow> ('s, unit) app_comp" where
  "local_state d = on_local (lsql (desk_local d) lno_op)"

definition initial_name :: "discovered_profile \<Rightarrow> string" where
  "initial_name p = (if dp_directory_name p = ''Default'' then ''You'' else dp_display_name p)"

fun ensure_rows :: "local_env \<Rightarrow> discovered_profile list \<Rightarrow> unit local_handler" where
  "ensure_rows e [] = returnS ()"
| "ensure_rows e (p # ps) =
     bindS (ensure_profile e (dp_directory_name p) (initial_name p)) (\<lambda>_. ensure_rows e ps)"

text \<open>The profile to make the default when the present default is none of those found.\<close>

definition first_default :: "discovered_profile list \<Rightarrow> discovered_profile option" where
  "first_default ps =
     (case List.find (\<lambda>p. dp_directory_name p = ''Default'') ps of
        Some p \<Rightarrow> Some p
      | None \<Rightarrow> (case ps of [] \<Rightarrow> None | p # _ \<Rightarrow> Some p))"

definition default_present :: "profile_preference list \<Rightarrow> discovered_profile list \<Rightarrow> bool" where
  "default_present prefs ps \<longleftrightarrow>
     list_ex (\<lambda>x. pp_is_default x \<and> list_ex (\<lambda>p. dp_directory_name p = pp_directory x) ps) prefs"

definition settle_default :: "local_env \<Rightarrow> discovered_profile list \<Rightarrow> unit local_handler" where
  "settle_default e ps =
     bindS (profile_preferences e) (\<lambda>prefs.
     if default_present prefs ps then returnS ()
     else (case first_default ps of None \<Rightarrow> returnS () | Some p \<Rightarrow> set_default_profile e (dp_directory_name p)))"

definition ensure_discovered_profiles :: "'s desk \<Rightarrow> ('s, discovered_profile list) app_comp" where
  "ensure_discovered_profiles d =
     bindS (on_files Discovery (discover (de_reader d) (de_discovery d))) (\<lambda>(inst, ps).
     bindS (on_local (ensure_rows (desk_local d) ps)) (\<lambda>_.
     bindS (on_local (settle_default (desk_local d) ps)) (\<lambda>_.
     returnS ps)))"

record profile_view =
  pv_directory_name :: string
  pv_display_name :: string
  pv_browser_name :: string
  pv_bookmark_status :: bookmark_status
  pv_is_default :: bool
  pv_auto_sync :: bool
  pv_has_saved_copy :: bool
  pv_stats :: "bookmark_stats_record option"

record profile_report_record =
  rp_profiles :: "profile_view list"
  rp_archives :: "archive_row list"

definition has_saved_copy :: "'s desk \<Rightarrow> discovered_profile \<Rightarrow> ('s, bool) app_comp" where
  "has_saved_copy d p =
     (case de_session d of
        None \<Rightarrow> returnS False
      | Some server \<Rightarrow>
          bindS (bookmark_mapping (de_app d) server p) (\<lambda>m. returnS (m \<noteq> None)))"

definition view_stats :: "'s desk \<Rightarrow> discovered_profile \<Rightarrow> ('s, bookmark_stats_record option) app_comp" where
  "view_stats d p =
     (if dp_bookmark_status p \<noteq> Readable then returnS None
      else bindS (on_files Profile_data (attempt (read_profile (pr_of_text (de_reader d)) (desk_os d) p))) (\<lambda>r.
           returnS (case r of Inl _ \<Rightarrow> None | Inr snapshot \<Rightarrow> Some (snapshot_stats (de_app d) snapshot))))"

definition profile_view_of ::
  "profile_preference option \<Rightarrow> discovered_profile \<Rightarrow> bool \<Rightarrow> bookmark_stats_record option \<Rightarrow> profile_view" where
  "profile_view_of pref p saved stats =
     \<lparr>pv_directory_name = dp_directory_name p,
      pv_display_name = (case pref of None \<Rightarrow> dp_display_name p | Some x \<Rightarrow> pp_display_name x),
      pv_browser_name = dp_display_name p, pv_bookmark_status = dp_bookmark_status p,
      pv_is_default = (case pref of None \<Rightarrow> False | Some x \<Rightarrow> pp_is_default x),
      pv_auto_sync = (case pref of None \<Rightarrow> True | Some x \<Rightarrow> pp_auto_sync x),
      pv_has_saved_copy = saved, pv_stats = stats\<rparr>"

fun profile_views ::
  "'s desk \<Rightarrow> profile_preference list \<Rightarrow> discovered_profile list \<Rightarrow> ('s, profile_view list) app_comp" where
  "profile_views d prefs [] = returnS []"
| "profile_views d prefs (p # ps) =
     bindS (has_saved_copy d p) (\<lambda>saved.
     bindS (view_stats d p) (\<lambda>stats.
     bindS (profile_views d prefs ps) (\<lambda>rest.
     returnS (profile_view_of (List.find (\<lambda>x. pp_directory x = dp_directory_name p) prefs) p saved stats # rest))))"

definition profile_report :: "'s desk \<Rightarrow> ('s, profile_report_record) app_comp" where
  "profile_report d =
     bindS (ensure_discovered_profiles d) (\<lambda>ps.
     bindS (on_local (profile_preferences (desk_local d))) (\<lambda>prefs.
     bindS (profile_views d prefs ps) (\<lambda>views.
     bindS (on_local (profile_archives (desk_local d))) (\<lambda>archives.
     returnS \<lparr>rp_profiles = views, rp_archives = archives\<rparr>))))"

definition discover_profiles :: "'s desk \<Rightarrow> ('s, profile_report_record) app_comp" where
  "discover_profiles d = bindS (local_state d) (\<lambda>_. profile_report d)"

definition create_browser_profile :: "'s desk \<Rightarrow> string \<Rightarrow> ('s, profile_report_record) app_comp" where
  "create_browser_profile d name =
     (let display_name = rust_trim name in
      if display_name = [] \<or> chars_count display_name > 128
      then liftS (Inl (Refused ''Profile name must contain 1 to 128 characters''))
      else
        bindS (ensure_helium_closed d) (\<lambda>_.
        bindS (on_files Discovery (discover_installation (de_discovery d))) (\<lambda>inst.
        bindS (local_state d) (\<lambda>_.
        bindS (on_local (profile_archives (desk_local d))) (\<lambda>archives.
        bindS (on_files Discovery (create_profile_with_reserved (desk_os d) (in_user_data_dir inst)
          (map ar_directory archives))) (\<lambda>p.
        bindS (on_local (ensure_profile (desk_local d) (dp_directory_name p) display_name)) (\<lambda>_.
        profile_report d)))))))"

definition with_profiles :: "'s desk \<Rightarrow> unit local_handler \<Rightarrow> ('s, profile_report_record) app_comp" where
  "with_profiles d change =
     bindS (local_state d) (\<lambda>_.
     bindS (ensure_discovered_profiles d) (\<lambda>_.
     bindS (on_local change) (\<lambda>_. profile_report d)))"

definition rename_profile_command :: "'s desk \<Rightarrow> string \<Rightarrow> string \<Rightarrow> ('s, profile_report_record) app_comp" where
  "rename_profile_command d dir name = with_profiles d (rename_profile (desk_local d) dir name)"

definition set_default_profile_command :: "'s desk \<Rightarrow> string \<Rightarrow> ('s, profile_report_record) app_comp" where
  "set_default_profile_command d dir = with_profiles d (set_default_profile (desk_local d) dir)"

definition set_profile_auto_sync :: "'s desk \<Rightarrow> string \<Rightarrow> bool \<Rightarrow> ('s, profile_report_record) app_comp" where
  "set_profile_auto_sync d dir enabled = with_profiles d (set_auto_sync (desk_local d) dir enabled)"

section \<open>Archives\<close>

definition profile_archive_root :: "path \<Rightarrow> path" where
  "profile_archive_root user_data_dir = path_join user_data_dir (path_of ''.helium-sync-archives'')"

definition find_profile_archive :: "'s desk \<Rightarrow> string \<Rightarrow> ('s, archive_row) app_comp" where
  "find_profile_archive d i =
     bindS (on_local (profile_archives (desk_local d))) (\<lambda>rows.
     liftS (ok_or (Refused ''Profile archive is not registered'') (List.find (\<lambda>r. ar_id r = i) rows)))"

text \<open>Without links, the canonical path is the one from the root to the place.\<close>

definition canonicalize :: "os \<Rightarrow> path \<Rightarrow> (files, io_error, path) comp" where
  "canonicalize w p = sys w untouched (\<lambda>s.
     case node_of s p of None \<Rightarrow> Inl No_entry | Some n \<Rightarrow> Inr (RootDir # map Normal (place s p), fs_root s))"

definition canonical_id :: "local_env \<Rightarrow> string \<Rightarrow> app_error + unit" where
  "canonical_id e dir =
     (case le_uuid_parse e dir of
        None \<Rightarrow> Inl (Refused ''Profile archive directory identifier is invalid'')
      | Some u \<Rightarrow>
          if le_uuid_text e u \<noteq> dir then Inl (Refused ''Profile archive directory identifier is not canonical'')
          else Inr ())"

definition checked_archive_path :: "local_env \<Rightarrow> os \<Rightarrow> path \<Rightarrow> string \<Rightarrow> (files, app_error, path) comp" where
  "checked_archive_path e w archive_root dir =
     bindS (liftS (canonical_id e dir)) (\<lambda>_.
     bindS (with_err (Io_failed ''Could not inspect profile archive root'' archive_root) (canonicalize w archive_root)) (\<lambda>root.
     let candidate = path_join root (path_of dir) in
     bindS (with_err (Io_failed ''Could not inspect profile archive'' candidate) (symlink_metadata w candidate)) (\<lambda>n.
     if \<not> is_dir_node (Some n) then liftS (Inl (Refused ''Profile archive is not a regular directory''))
     else
       bindS (with_err (Io_failed ''Could not resolve profile archive'' candidate) (canonicalize w candidate)) (\<lambda>resolved.
       if path_parent resolved \<noteq> Some root
       then liftS (Inl (Refused ''Profile archive resolved outside its managed directory''))
       else returnS resolved))))"

text \<open>A directory is moved, then the database is told; when that fails it is moved back.\<close>

definition move_then :: "os \<Rightarrow> string \<Rightarrow> string \<Rightarrow> path \<Rightarrow> path \<Rightarrow> unit local_handler \<Rightarrow> ('s, unit) app_comp" where
  "move_then w what undo_what from to commit =
     bindS (on_files (Io_failed what from) (rename w from to)) (\<lambda>_ s.
     case on_local commit s of
       (Inr _, s1) \<Rightarrow> (Inr (), s1)
     | (Inl er, s1) \<Rightarrow>
         (let (r, fs) = rename w to from (ap_files s1)
          in (Inl (case r of Inr _ \<Rightarrow> er | Inl x \<Rightarrow> Rollback_failed undo_what er x), s1\<lparr>ap_files := fs\<rparr>)))"

definition archive_path_of :: "installation \<Rightarrow> string \<Rightarrow> path" where
  "archive_path_of inst dir = path_join (profile_archive_root (in_user_data_dir inst)) (path_of dir)"

definition store_profile ::
  "'s desk \<Rightarrow> string \<Rightarrow> discovered_profile \<Rightarrow> installation \<Rightarrow> string \<Rightarrow> string \<Rightarrow> ('s, profile_report_record) app_comp" where
  "store_profile d dir p inst display_name archive_id =
     (let archive_root = profile_archive_root (in_user_data_dir inst) in
      bindS (on_files (Io_failed ''Could not create profile archive directory'' archive_root)
        (create_dir_all (desk_os d) archive_root)) (\<lambda>_.
      bindS (move_then (desk_os d) ''Could not archive'' ''Could not record profile archive''
        (dp_path p) (archive_path_of inst archive_id)
        (record_profile_archive (desk_local d) archive_id dir archive_id display_name)) (\<lambda>_.
      profile_report d)))"

definition archive_profile :: "'s desk \<Rightarrow> string \<Rightarrow> ('s, profile_report_record) app_comp" where
  "archive_profile d dir =
     bindS (ensure_helium_closed d) (\<lambda>_.
     bindS (find_discovered_profile d dir) (\<lambda>p.
     bindS (on_files Discovery (discover_installation (de_discovery d))) (\<lambda>inst.
     bindS (local_state d) (\<lambda>_.
     bindS (ensure_discovered_profiles d) (\<lambda>_.
     bindS (on_local (profile_preferences (desk_local d))) (\<lambda>prefs.
     bindS (on_local tick) (\<lambda>n.
     let display_name = (case List.find (\<lambda>x. pp_directory x = dir) prefs of
           None \<Rightarrow> dp_display_name p | Some x \<Rightarrow> pp_display_name x);
         archive_id = le_uuid_text (desk_local d) (le_random (desk_local d) n)
     in store_profile d dir p inst display_name archive_id)))))))"

definition bring_back ::
  "'s desk \<Rightarrow> string \<Rightarrow> archive_row \<Rightarrow> installation \<Rightarrow> ('s, profile_report_record) app_comp" where
  "bring_back d i row inst =
     bindS (on_files id (checked_archive_path (desk_local d) (desk_os d)
       (profile_archive_root (in_user_data_dir inst)) (ar_archive_directory row))) (\<lambda>archived_path.
     let restored_path = path_join (in_user_data_dir inst) (path_of (ar_directory row)) in
     bindS (on_files id (path_exists (desk_os d) restored_path)) (\<lambda>taken.
     if taken then liftS (Inl (Refused ''Cannot restore because the profile directory already exists''))
     else
       bindS (move_then (desk_os d) ''Could not restore'' ''Could not finish profile restore''
         archived_path restored_path (remove_profile_archive (desk_local d) i)) (\<lambda>_.
       profile_report d)))"

definition restore_archived_profile :: "'s desk \<Rightarrow> string \<Rightarrow> ('s, profile_report_record) app_comp" where
  "restore_archived_profile d i =
     bindS (ensure_helium_closed d) (\<lambda>_.
     bindS (local_state d) (\<lambda>_.
     bindS (find_profile_archive d i) (\<lambda>row.
     bindS (on_files Discovery (discover_installation (de_discovery d))) (\<lambda>inst.
     bring_back d i row inst))))"

definition delete_archive_directory :: "'s desk \<Rightarrow> path \<Rightarrow> string \<Rightarrow> (files, app_error, unit) comp" where
  "delete_archive_directory d archive_root dir =
     (let candidate = path_join archive_root (path_of dir) in
      bindS (attempt (symlink_metadata (desk_os d) candidate)) (\<lambda>r.
      case r of
        Inr _ \<Rightarrow>
          bindS (checked_archive_path (desk_local d) (desk_os d) archive_root dir) (\<lambda>archived_path.
          with_err (Io_failed ''Could not permanently delete'' archived_path) (remove_dir_all (desk_os d) archived_path))
      | Inl No_entry \<Rightarrow> returnS ()
      | Inl x \<Rightarrow> liftS (Inl (Io_failed ''Could not inspect profile archive'' candidate x))))"

definition discard_archive ::
  "'s desk \<Rightarrow> string \<Rightarrow> archive_row \<Rightarrow> installation \<Rightarrow> ('s, profile_report_record) app_comp" where
  "discard_archive d i row inst =
     bindS (liftS (canonical_id (desk_local d) (ar_archive_directory row))) (\<lambda>_.
     bindS (on_files id (delete_archive_directory d (profile_archive_root (in_user_data_dir inst))
       (ar_archive_directory row))) (\<lambda>_.
     bindS (on_local (remove_profile_archive (desk_local d) i)) (\<lambda>_.
     profile_report d)))"

definition delete_archived_profile :: "'s desk \<Rightarrow> string \<Rightarrow> ('s, profile_report_record) app_comp" where
  "delete_archived_profile d i =
     bindS (ensure_helium_closed d) (\<lambda>_.
     bindS (local_state d) (\<lambda>_.
     bindS (find_profile_archive d i) (\<lambda>row.
     bindS (on_files Discovery (discover_installation (de_discovery d))) (\<lambda>inst.
     discard_archive d i row inst))))"

section \<open>Synchronization\<close>

definition session_context :: "'s desk \<Rightarrow> ('s, string) app_comp" where
  "session_context d = liftS (ok_or (Refused ''Sign in to a server first'') (de_session d))"

definition downloads_dir :: "'s desk \<Rightarrow> ('s, path) app_comp" where
  "downloads_dir d =
     liftS (ok_or (Refused ''The operating system did not provide a user home directory'') (ae_downloads (de_app d)))"

definition save_profile :: "'s desk \<Rightarrow> string \<Rightarrow> ('s, sync_feedback) app_comp" where
  "save_profile d dir =
     bindS (ensure_helium_closed d) (\<lambda>_.
     bindS (find_discovered_profile d dir) (\<lambda>p.
     bindS (session_context d) (\<lambda>server.
     save_profile_to_server (de_app d) server p)))"

definition load_profile :: "'s desk \<Rightarrow> string \<Rightarrow> ('s, sync_feedback) app_comp" where
  "load_profile d dir =
     bindS (ensure_helium_closed d) (\<lambda>_.
     bindS (find_discovered_profile d dir) (\<lambda>p.
     bindS (session_context d) (\<lambda>server.
     load_profile_from_server (de_app d) server p)))"

definition sync_profile :: "'s desk \<Rightarrow> string \<Rightarrow> ('s, sync_feedback) app_comp" where
  "sync_profile d dir =
     bindS (ensure_helium_closed d) (\<lambda>_.
     bindS (find_discovered_profile d dir) (\<lambda>p.
     bindS (session_context d) (\<lambda>server.
     bindS (downloads_dir d) (\<lambda>downloads.
     sync_profile_with_server (de_app d) server p downloads))))"

definition forced_default_sync :: "'s desk \<Rightarrow> string \<Rightarrow> ('s, sync_feedback option) app_comp" where
  "forced_default_sync d server =
     bindS (ensure_discovered_profiles d) (\<lambda>ps.
     bindS (on_local (default_profile (desk_local d))) (\<lambda>default.
     case default of
       None \<Rightarrow> returnS None
     | Some x \<Rightarrow>
         (case List.find (\<lambda>p. dp_directory_name p = pp_directory x) ps of
            None \<Rightarrow> returnS None
          | Some p \<Rightarrow>
              if dp_bookmark_status p = Readable
              then
                bindS (ensure_helium_closed d) (\<lambda>_.
                bindS (downloads_dir d) (\<lambda>downloads.
                bindS (sync_profile_with_server (de_app d) server p downloads) (\<lambda>fb. returnS (Some fb))))
              else liftS (Inl (Refused ''The default profile is not readable, so login sync could not complete'')))))"

definition launch_sync :: "'s desk \<Rightarrow> discovered_profile \<Rightarrow> ('s, sync_feedback option) app_comp" where
  "launch_sync d p =
     (case de_session d of
        Some server \<Rightarrow>
          if dp_bookmark_status p = Readable
          then bindS (downloads_dir d) (\<lambda>downloads.
               bindS (sync_profile_with_server (de_app d) server p downloads) (\<lambda>fb. returnS (Some fb)))
          else returnS None
      | None \<Rightarrow> returnS None)"

record launch_result =
  lr_profile_name :: string
  lr_sync :: "sync_feedback option"
  lr_message :: string

definition executable_file :: "'s desk \<Rightarrow> installation \<Rightarrow> (files, app_error, path) comp" where
  "executable_file d inst =
     (let missing = Refused ''Helium executable was not found. Set HELIUM_SYNC_HELIUM_PATH to the executable.'' in
      case in_executable inst of
        None \<Rightarrow> liftS (Inl missing)
      | Some x \<Rightarrow> bindS (path_is_file (desk_os d) x) (\<lambda>there. if there then returnS x else liftS (Inl missing)))"

definition launch_profile :: "'s desk \<Rightarrow> string \<Rightarrow> ('s, launch_result) app_comp" where
  "launch_profile d dir =
     bindS (find_discovered_profile d dir) (\<lambda>p.
     bindS (ensure_helium_closed d) (\<lambda>_.
     bindS (launch_sync d p) (\<lambda>sync.
     bindS (on_files Discovery (discover_installation (de_discovery d))) (\<lambda>inst.
     bindS (on_files id (executable_file d inst)) (\<lambda>executable.
     if \<not> de_spawn d executable (''--profile-directory='' @ dp_directory_name p)
     then liftS (Inl (Refused (''Could not launch '' @ path_text executable)))
     else
       bindS (local_state d) (\<lambda>_.
       bindS (on_local (profile_name (desk_local d) p)) (\<lambda>name.
       returnS \<lparr>lr_profile_name = name, lr_sync = sync,
         lr_message = ''Launched '' @ name @ ''. Close Helium before switching profiles.''\<rparr>)))))))"

end
