(* ===== verification/DiscoveryFacts.thy ===== *)
theory DiscoveryFacts
  imports Discovery ExtProps
begin

text \<open>
  Discovery only looks: it leaves every file as it was. What it finds is one of the named
  installations; and a new profile gets the first free \<open>Profile N\<close> that no archive holds.
\<close>

section \<open>Looking\<close>

lemma same_tree_about: "about_tree same_tree"
  by (rule about_treeI) (simp_all add: same_tree_def)

lemmas looking_order = about_tree_trans [OF same_tree_about] about_tree_refl [OF same_tree_about]

lemma looks_metadata: "keeps same_tree (file_metadata w p)"
  unfolding file_metadata_def by (rule keeps_looking [OF same_tree_about]) (auto split: option.splits)

lemma looks_read_bookmarks: "keeps same_tree (read_bookmarks_at of_text w p dir)"
  unfolding read_bookmarks_at_def Let_def
  by (intro keeps_intros looks_metadata keeps_reads same_tree_about looking_order)

lemma looks_first_installation: "keeps same_tree (first_installation w candidates)"
proof (induction candidates)
  case (Cons c cs)
  then show ?case unfolding first_installation.simps
    by (intro keeps_intros keeps_path_tests same_tree_about looking_order)
qed (simp, intro keeps_intros looking_order)

lemma looks_discover_installation: "keeps same_tree (discover_installation e)"
  unfolding discover_installation_def Let_def
  by (intro keeps_intros keeps_path_tests looks_first_installation same_tree_about looking_order)

lemma looks_probe_profiles: "keeps same_tree (probe_profiles rd w dir fs)"
proof (induction fs)
  case (Cons f fs)
  have "keeps same_tree (probe_profile rd w dir f)"
    unfolding probe_profile_def Let_def
    by (intro keeps_intros keeps_path_tests looks_read_bookmarks same_tree_about looking_order)
  with Cons show ?case unfolding probe_profiles.simps
    by (intro keeps_intros looking_order)
qed (simp, intro keeps_intros looking_order)

lemma looks_discover: "keeps same_tree (discover rd e)"
  unfolding discover_def enumerate_profiles_def cached_names_def Let_def
  by (intro keeps_intros keeps_path_tests keeps_reads looks_discover_installation looks_probe_profiles
      same_tree_about looking_order)

section \<open>What is found\<close>

text \<open>The user data directories an installation can have.\<close>

definition user_data_dirs :: "discovery_env \<Rightarrow> path list" where
  "user_data_dirs e =
     (case do_user_data_override (di_options e) of None \<Rightarrow> [] | Some dir \<Rightarrow> [dir])
     @ map in_user_data_dir (platform_candidates (do_executable_override (di_options e)) (di_linux_executable e) (di_config_dir e))"

lemma first_installation_Inr:
  "first_installation w candidates s = (Inr x, s') \<Longrightarrow> x \<in> set candidates"
  by (induction candidates arbitrary: s) (auto simp: result_simps split: if_splits)

lemma discover_installation_Inr:
  "discover_installation e s = (Inr x, s') \<Longrightarrow> in_user_data_dir x \<in> set (user_data_dirs e)"
  unfolding discover_installation_def user_data_dirs_def Let_def
  by (auto simp: result_simps dest!: first_installation_Inr split: option.splits if_splits)

lemma probe_profiles_Inr:
  "probe_profiles rd w dir fs s = (Inr ps, s') \<Longrightarrow> p \<in> set ps \<Longrightarrow>
     dp_path p = path_join dir (path_of (dp_directory_name p))"
proof (induction fs arbitrary: s ps)
  case (Cons f fs)
  then show ?case
    by (fastforce simp: probe_profile_def Let_def result_simps split: option.splits if_splits)
qed (simp add: result_simps)

lemma discover_Inr:
  assumes "discover rd e s = (Inr (inst, ps), s')" and "p \<in> set ps"
  shows "in_user_data_dir inst \<in> set (user_data_dirs e)"
    "dp_path p = path_join (in_user_data_dir inst) (path_of (dp_directory_name p))"
  using assms probe_profiles_Inr
  by (auto simp: discover_def enumerate_profiles_def bindS_Inr returnS_iff dest!: discover_installation_Inr)

section \<open>A new profile\<close>

lemma mkdir_outcome:
  assumes "mkdir w p s = (r, s')"
  shows "r = Inr u \<Longrightarrow> node_of s p = None \<and> node_of s' p = Some (Dir []) \<and> only_at (place s p) s s'"
    "r = Inl x \<Longrightarrow> same_tree s s'" "r = Inl Already_exists \<Longrightarrow> node_of s p \<noteq> None"
proof -
  show "r = Inl x \<Longrightarrow> same_tree s s'" using assms unfolding mkdir_def by (auto dest: sys_Inl_tree)
  show "r = Inl Already_exists \<Longrightarrow> node_of s p \<noteq> None"
    using assms by (auto simp: mkdir_def sys_Inl Let_def node_of_def entry_check_def result_simps split: if_splits option.splits)
  assume "r = Inr u"
  with assms have m: "p \<noteq> []" "entry_at (fs_root s) (place s p) = None" "is_dir_node (entry_at (fs_root s) (butlast (place s p)))"
    "s' = s\<lparr>fs_root := set_at (fs_root s) (place s p) (Some (Dir [])), fs_calls := Suc (fs_calls s)\<rparr>"
    by (auto simp: mkdir_def sys_Inr Let_def result_simps entry_check_Inr split: if_splits)
  then have "place s p \<noteq> []" by auto
  with m show "node_of s p = None \<and> node_of s' p = Some (Dir []) \<and> only_at (place s p) s s'"
    by (auto simp: node_of_def place_def entry_at_set_at_entry only_at_set [unfolded place_def])
qed

definition profile_path :: "path \<Rightarrow> nat \<Rightarrow> path" where
  "profile_path dir n = path_join dir (path_of (profile_dir n))"

lemma create_from_Inr:
  "create_from w dir reserved k s = (Inr p, s') \<Longrightarrow>
     \<exists>n. k \<le> n \<and> n < 2 ^ 32 \<and> dp_directory_name p = profile_dir n \<and> dp_path p = profile_path dir n
       \<and> profile_dir n \<notin> set reserved \<and> node_of s (dp_path p) = None \<and> node_of s' (dp_path p) = Some (Dir [])
       \<and> only_at (place s (dp_path p)) s s'
       \<and> (\<forall>m. k \<le> m \<longrightarrow> m < n \<longrightarrow> profile_dir m \<in> set reserved \<or> node_of s (profile_path dir m) \<noteq> None)"
proof (induction w dir reserved k arbitrary: s rule: create_from.induct)
  case (1 w dir reserved k)
  let ?path = "path_join dir (path_of (profile_dir k))"
  have bound: "k < 2 ^ 32" using "1.prems" by (subst (asm) create_from.simps) (auto simp: result_simps split: if_splits)
  show ?case
  proof (cases "profile_dir k \<in> set reserved")
    case True
    with "1.prems" bound have "create_from w dir reserved (Suc k) s = (Inr p, s')"
      by (subst (asm) create_from.simps) simp
    from "1.IH"(1) [OF _ True this] bound True show ?thesis
      by (metis Suc_leD Suc_leI le_neq_implies_less not_le)
  next
    case False
    obtain r s1 where r: "mkdir w ?path s = (r, s1)" by (cases "mkdir w ?path s")
    note made = mkdir_outcome [OF r]
    show ?thesis
    proof (cases r)
      case (Inr u)
      with "1.prems" bound False r have "s1 = s'" "dp_directory_name p = profile_dir k" "dp_path p = ?path"
        by (auto simp: create_from.simps [of w dir reserved k] Let_def bindS_def returnS_def)
      with made(1) [OF Inr] bound False show ?thesis by (fastforce simp: profile_path_def)
    next
      case (Inl x)
      with "1.prems" bound False r have x: "x = Already_exists" "create_from w dir reserved (Suc k) s1 = (Inr p, s')"
        by (auto simp: create_from.simps [of w dir reserved k] Let_def bindS_def liftS_def split: io_error.splits)
      have tree: "same_tree s s1" by (rule made(2) [OF Inl])
      have "node_of s (profile_path dir k) \<noteq> None" using made(3) Inl x(1) by (simp add: profile_path_def)
      moreover obtain n where n: "Suc k \<le> n" "n < 2 ^ 32" "dp_directory_name p = profile_dir n" "dp_path p = profile_path dir n"
        "profile_dir n \<notin> set reserved" "node_of s1 (dp_path p) = None" "node_of s' (dp_path p) = Some (Dir [])"
        "only_at (place s1 (dp_path p)) s1 s'"
        "\<And>m. Suc k \<le> m \<Longrightarrow> m < n \<Longrightarrow> profile_dir m \<in> set reserved \<or> node_of s1 (profile_path dir m) \<noteq> None"
        using "1.IH"(2) [OF _ False refl x(2)] bound by (metis not_le)
      moreover have "only_at (place s (dp_path p)) s s'"
        using n(8) tree by (simp add: same_tree_def only_at_def place_def)
      ultimately show ?thesis
        using same_tree_node [OF tree] by (metis Suc_leD Suc_leI le_neq_implies_less)
    qed
  qed
qed

lemma create_profile_Inr:
  assumes "create_profile_with_reserved w dir reserved s = (Inr p, s')"
  obtains n where "1 \<le> n" "dp_directory_name p = profile_dir n" "dp_path p = profile_path dir n" "profile_dir n \<notin> set reserved"
    "node_of s (dp_path p) = None" "node_of s' (dp_path p) = Some (Dir [])" "only_at (place s (dp_path p)) s s'"
    "\<And>m. 1 \<le> m \<Longrightarrow> m < n \<Longrightarrow> profile_dir m \<in> set reserved \<or> node_of s (profile_path dir m) \<noteq> None"
proof -
  obtain b s1 where b: "path_is_dir w dir s = (Inr b :: discovery_error + bool, s1)" "create_from w dir reserved 1 s1 = (Inr p, s')"
    using assms by (auto simp: create_profile_with_reserved_def bindS_Inr liftS_iff split: if_splits)
  have "keeps same_tree (path_is_dir w dir :: bool discovering)" by (intro keeps_path_tests same_tree_about)
  with b(1) have tree: "same_tree s s1" unfolding keeps_def by (metis snd_conv)
  from create_from_Inr [OF b(2)] show ?thesis
    using that same_tree_node [OF tree] tree by (auto simp: same_tree_def only_at_def place_def)
qed

end
