(* ===== verification/LifecycleFacts.thy ===== *)
theory LifecycleFacts
  imports Lifecycle DiscoveryFacts SyncFacts
begin

text \<open>
  What the commands on profiles leave behind. All they do before and after moving a directory
  looks at the files and may change preferences, but no file and no archive row (\<open>at_rest\<close>); the move
  and its row are made together, or undone, or the error says that undoing failed.
\<close>

section \<open>Commands at rest\<close>

definition same_archives :: "lconn \<Rightarrow> lconn \<Rightarrow> bool" where
  "same_archives c c' \<longleftrightarrow> ld_archives (lc_db c') = ld_archives (lc_db c)"

lemma same_archives_order: "reflp same_archives" "transp same_archives"
  by (auto simp: same_archives_def intro: reflpI transpI)

lemma archives_lsql:
  "(\<And>d x d'. q d = Some (x, d') \<Longrightarrow> ld_archives d' = ld_archives d) \<Longrightarrow> keeps same_archives (lsql e q)"
  by (auto simp: keeps_def same_archives_def lsql_def Let_def split: option.splits)

lemma archives_ltransaction:
  assumes "keeps same_archives body"
  shows "keeps same_archives (ltransaction e body)"
  unfolding keeps_def
proof
  fix c
  obtain r c' where r: "ltransaction e body c = (r, c')" by (cases "ltransaction e body c")
  show "same_archives c (snd (ltransaction e body c))"
  proof (cases r)
    case (Inl er)
    with r ltransaction_Inl show ?thesis by (fastforce simp: same_archives_def)
  next
    case (Inr x)
    with r ltransaction_Inr [of e body c x c'] obtain c2 where
      "body (c\<lparr>lc_tick := Suc (lc_tick c)\<rparr>) = (Inr x, c2)" "lc_db c' = lc_db c2" by blast
    then show ?thesis
      using assms [unfolded keeps_def, rule_format, of "c\<lparr>lc_tick := Suc (lc_tick c)\<rparr>"] r by (simp add: same_archives_def)
  qed
qed

lemma archives_statements:
  "insert_preference dir name d = Some (x, d') \<Longrightarrow> ld_archives d' = ld_archives d"
  "update_preferences p f d = Some (n, d') \<Longrightarrow> ld_archives d' = ld_archives d"
  "lno_op d = Some (y, d') \<Longrightarrow> ld_archives d' = ld_archives d"
  by (auto simp: insert_preference_def update_preferences_def Let_def split: if_splits prod.splits)

lemma archives_kept:
  "keeps same_archives (lsql e lno_op)" "keeps same_archives (ensure_profile e dir name)"
  "keeps same_archives (profile_preferences e)" "keeps same_archives (profile_archives e)"
  "keeps same_archives (set_default_profile e dir)" "keeps same_archives (local_mapping e server namespace k)"
  "keeps same_archives tick"
proof -
  note order = same_archives_order
  have select: "keeps same_archives (lsql e select_preferences)" "keeps same_archives (lsql e select_archives)"
    "keeps same_archives (lsql e (select_preference dir))" "keeps same_archives (lsql e (select_mapping m))" for m
    by (auto intro!: archives_lsql dest: select_keeps)
  have update: "keeps same_archives (lsql e (update_preferences p f))" for p f
    by (rule archives_lsql) (rule archives_statements)
  show "keeps same_archives (lsql e lno_op)" by (rule archives_lsql) (rule archives_statements)
  show "keeps same_archives (ensure_profile e dir name)"
    unfolding ensure_profile_def by (rule archives_lsql) (rule archives_statements)
  show "keeps same_archives (profile_preferences e)" unfolding profile_preferences_def by (intro keeps_intros select order)
  show "keeps same_archives (profile_archives e)" unfolding profile_archives_def by (rule select)
  show "keeps same_archives (set_default_profile e dir)"
    unfolding set_default_profile_def by (intro archives_ltransaction keeps_intros select update order)
  show "keeps same_archives (local_mapping e server namespace k)"
    unfolding local_mapping_def by (intro keeps_intros select order)
  show "keeps same_archives tick" by (simp add: keeps_def tick_def same_archives_def)
qed

definition at_rest :: "'s app \<Rightarrow> 's app \<Rightarrow> bool" where
  "at_rest s s' \<longleftrightarrow> same_tree (ap_files s) (ap_files s') \<and> same_archives (ap_local s) (ap_local s')"

lemma at_rest_order: "reflp at_rest" "transp at_rest"
  by (auto simp: at_rest_def same_tree_def same_archives_def intro!: reflpI transpI)

lemma at_rest_lifts:
  "keeps same_tree m \<Longrightarrow> keeps at_rest (on_files f m)" "keeps same_archives n \<Longrightarrow> keeps at_rest (on_local n)"
  by (auto simp: keeps_def at_rest_def on_files_def on_local_def same_tree_def same_archives_def split: prod.splits)
    (metis snd_conv)+

lemma looks_symlink_metadata: "keeps same_tree (symlink_metadata w p)"
  unfolding symlink_metadata_def by (rule keeps_looking [OF same_tree_about]) (auto split: option.splits)

lemma looks_no_markers: "keeps same_tree (no_markers w dir names)"
proof (induction names)
  case (Cons x xs)
  then show ?case unfolding no_markers.simps Let_def
    by (intro keeps_bindS keeps_attempt looks_symlink_metadata looking_order)
      (auto simp: liftS_def keeps_def same_tree_def split: sum.split io_error.split)
qed (simp, intro keeps_intros looking_order)

lemma closed_at_rest: "keeps at_rest (ensure_helium_closed d)"
  unfolding ensure_helium_closed_def ensure_profile_directory_unlocked_def
  by (intro keeps_intros at_rest_lifts looks_discover_installation looks_no_markers at_rest_order)

lemma discovery_at_rest:
  "keeps at_rest (find_discovered_profile d dir)" "keeps at_rest (local_state d)"
  "keeps at_rest (on_files Discovery (discover_installation (de_discovery d)))"
  unfolding find_discovered_profile_def local_state_def
  by (intro keeps_intros at_rest_lifts looks_discover looks_discover_installation archives_kept at_rest_order)+

lemma ensured_at_rest: "keeps at_rest (ensure_discovered_profiles d)"
proof -
  have "keeps same_archives (ensure_rows e ps)" for e ps
    by (induction ps) (simp, intro keeps_intros same_archives_order, unfold ensure_rows.simps,
        intro keeps_intros archives_kept same_archives_order)
  moreover have "keeps same_archives (settle_default e ps)" for e ps
    unfolding settle_default_def by (intro keeps_intros archives_kept same_archives_order)
  ultimately show ?thesis unfolding ensure_discovered_profiles_def
    by (intro keeps_intros at_rest_lifts looks_discover at_rest_order)
qed

lemma report_at_rest: "keeps at_rest (profile_report d)"
proof -
  have saved: "keeps at_rest (has_saved_copy d p)" for p
    unfolding has_saved_copy_def bookmark_mapping_def
    by (intro keeps_intros at_rest_lifts archives_kept at_rest_order)
  have stats: "keeps at_rest (view_stats d p)" for p
    unfolding view_stats_def read_profile_def by (intro keeps_intros at_rest_lifts looks_read_bookmarks at_rest_order)
  have "keeps at_rest (profile_views d prefs ps)" for prefs ps
    by (induction ps) (simp, intro keeps_intros at_rest_order, unfold profile_views.simps,
        intro keeps_intros saved stats at_rest_order)
  then show ?thesis unfolding profile_report_def
    by (intro keeps_intros at_rest_lifts ensured_at_rest archives_kept at_rest_order)
qed

section \<open>Moving a directory\<close>

definition moved :: "path \<Rightarrow> path \<Rightarrow> files \<Rightarrow> files \<Rightarrow> bool" where
  "moved from to s s' \<longleftrightarrow> node_of s from \<noteq> None \<and> node_of s' to = node_of s from \<and> node_of s' from = None"

lemma move_then_outcome:
  assumes run: "move_then w what undo from to commit s = (r, s')"
    and apart: "apart (place (ap_files s) from) (place (ap_files s) to)"
  obtains (unmoved) x where "r = Inl x" "node_of (ap_files s') from = node_of (ap_files s) from"
      "ap_local s' = ap_local s \<or> (\<exists>er. commit (ap_local s) = (Inl er, ap_local s'))"
  | (committed) "r = Inr ()" "moved from to (ap_files s) (ap_files s')" "commit (ap_local s) = (Inr (), ap_local s')"
  | (stuck) er x where "r = Inl (Rollback_failed undo er x)" "moved from to (ap_files s) (ap_files s')"
      "\<exists>y. commit (ap_local s) = (Inl y, ap_local s')"
proof -
  obtain y f where y: "rename w from to (ap_files s) = (y, f)" by (cases "rename w from to (ap_files s)")
  show ?thesis
  proof (cases y)
    case (Inl x)
    with run y have "r = Inl (Io_failed what from x)" "s' = s\<lparr>ap_files := f\<rparr>"
      by (auto simp: move_then_def on_files_def bindS_def)
    with same_tree_node rename_Inl y Inl unmoved show ?thesis by fastforce
  next
    case (Inr u)
    with y apart obtain n where n: "node_of (ap_files s) from = Some n" "node_of f to = Some n" "node_of f from = None"
      "fs_cwd f = fs_cwd (ap_files s)" by (metis rename_Inr unit.exhaust)
    obtain z c where z: "commit (ap_local s) = (z, c)" by (cases "commit (ap_local s)")
    show ?thesis
    proof (cases z)
      case (Inr v)
      with run y \<open>y = Inr u\<close> z n committed show ?thesis
        by (auto simp: move_then_def on_files_def on_local_def bindS_def moved_def)
    next
      case (Inl er)
      obtain b g where b: "rename w to from f = (b, g)" by (cases "rename w to from f")
      have s': "s' = s\<lparr>ap_files := g, ap_local := c\<rparr>"
        "r = Inl (case b of Inr _ \<Rightarrow> Client er | Inl x \<Rightarrow> Rollback_failed undo (Client er) x)"
        using run y \<open>y = Inr u\<close> z Inl b by (auto simp: move_then_def on_files_def on_local_def bindS_def)
      have ways: "apart (place f to) (place f from)" using apart n(4) apart_sym by (simp add: place_def)
      show ?thesis
      proof (cases b)
        case (Inl x)
        with rename_Inl b have "same_tree f g" by blast
        with s' n z \<open>z = Inl er\<close> Inl stuck show ?thesis by (auto simp: moved_def same_tree_node)
      next
        case (Inr v)
        with b ways obtain m where "node_of f to = Some m" "node_of g from = Some m" by (metis rename_Inr unit.exhaust)
        with s' n z \<open>z = Inl er\<close> Inr unmoved show ?thesis by auto
      qed
    qed
  qed
qed

lemma record_archive_outcome:
  assumes "record_profile_archive e i dir archive_dir name c = (r, c')"
  shows "r = Inl x \<Longrightarrow> ld_archives (lc_db c') = ld_archives (lc_db c)"
    "r = Inr u \<Longrightarrow> find_row ar_id i (ld_archives (lc_db c)) = None \<and> find_row ar_directory dir (ld_archives (lc_db c)) = None
      \<and> (\<exists>row. ar_id row = i \<and> ar_directory row = dir \<and> ar_archive_directory row = archive_dir
           \<and> ar_display_name row = name \<and> ld_archives (lc_db c') = ld_archives (lc_db c) @ [row])"
proof -
  show "r = Inl x \<Longrightarrow> ld_archives (lc_db c') = ld_archives (lc_db c)"
    using assms ltransaction_Inl unfolding record_profile_archive_def by metis
  assume "r = Inr u"
  with assms obtain c2 where "bindS tick (\<lambda>n.
        bindS (lsql e (insert_archive \<lparr>ar_id = i, ar_directory = dir, ar_archive_directory = archive_dir,
                 ar_display_name = name, ar_archived_at = le_now e n\<rparr>)) (\<lambda>_.
        bindS (lsql e (update_preferences (\<lambda>r. pr_directory r = dir) (\<lambda>r. r\<lparr>pr_is_default := 0\<rparr>))) (\<lambda>_.
        returnS ()))) (c\<lparr>lc_tick := Suc (lc_tick c)\<rparr>) = (Inr u, c2)" "lc_db c' = lc_db c2"
    unfolding record_profile_archive_def by (auto dest: ltransaction_Inr)
  then show "find_row ar_id i (ld_archives (lc_db c)) = None \<and> find_row ar_directory dir (ld_archives (lc_db c)) = None
      \<and> (\<exists>row. ar_id row = i \<and> ar_directory row = dir \<and> ar_archive_directory row = archive_dir
           \<and> ar_display_name row = name \<and> ld_archives (lc_db c') = ld_archives (lc_db c) @ [row])"
    by (auto simp: result_simps insert_archive_def dest!: archives_statements(2) split: if_splits)
qed

lemma move_then_elsewhere:
  assumes run: "move_then w what undo from to commit s = (r, s')"
    and apart: "apart (place (ap_files s) from) (place (ap_files s) to)"
      "apart (place (ap_files s) from) (place (ap_files s) q)" "apart (place (ap_files s) to) (place (ap_files s) q)"
  shows "node_of (ap_files s') q = node_of (ap_files s) q"
proof -
  obtain y f where y: "rename w from to (ap_files s) = (y, f)" by (cases "rename w from to (ap_files s)")
  have f: "node_of f q = node_of (ap_files s) q \<and> fs_cwd f = fs_cwd (ap_files s)"
  proof (cases y)
    case (Inl x)
    with y rename_Inl have "same_tree (ap_files s) f" by blast
    then show ?thesis by (simp add: same_tree_node) (simp add: same_tree_def)
  next
    case (Inr u)
    with y apart show ?thesis by (metis rename_Inr unit.exhaust)
  qed
  obtain b g where b: "rename w to from f = (b, g)" by (cases "rename w to from f")
  have "node_of g q = node_of f q"
  proof (cases b)
    case (Inl x)
    with b rename_Inl same_tree_node show ?thesis by blast
  next
    case (Inr u)
    from apart f have "apart (place f to) (place f from)" "apart (place f to) (place f q)" "apart (place f from) (place f q)"
      by (auto simp: place_def apart_sym)
    with b Inr show ?thesis by (metis rename_Inr unit.exhaust)
  qed
  with f run y b show ?thesis
    by (cases y; cases "commit (ap_local s)"; cases "fst (commit (ap_local s))")
      (auto simp: move_then_def on_files_def on_local_def bindS_def)
qed

lemma rename_cwd: "rename w p q s = (r, s') \<Longrightarrow> fs_cwd s' = fs_cwd s"
  by (auto simp: rename_def sys_def untouched_def split: option.splits sum.splits)

lemma move_then_cwd:
  "move_then w what undo from to commit s = (r, s') \<Longrightarrow> fs_cwd (ap_files s') = fs_cwd (ap_files s)"
  by (auto simp: move_then_def bindS_def on_files_def on_local_def dest!: rename_cwd split: prod.splits sum.splits)

section \<open>Archiving\<close>

text \<open>A command that is run at rest with \<open>s0\<close> ends as \<open>Q\<close> says.\<close>

definition ends :: "'s app \<Rightarrow> (app_error + 'a \<Rightarrow> 's app \<Rightarrow> bool) \<Rightarrow> ('s, 'a) app_comp \<Rightarrow> bool" where
  "ends s0 Q m \<longleftrightarrow> (\<forall>s r s'. at_rest s0 s \<longrightarrow> m s = (r, s') \<longrightarrow> Q r s')"

lemma ends_bindS:
  assumes "keeps at_rest m" and "\<And>s x. at_rest s0 s \<Longrightarrow> Q (Inl x) s"
    and "\<And>y s s1. at_rest s0 s \<Longrightarrow> m s = (Inr y, s1) \<Longrightarrow> ends s0 Q (f y)"
  shows "ends s0 Q (bindS m f)"
  unfolding ends_def
proof (intro allI impI)
  fix s r s'
  assume rest: "at_rest s0 s" and run: "bindS m f s = (r, s')"
  obtain y s1 where y: "m s = (y, s1)" by (cases "m s")
  with assms(1) have "at_rest s s1" unfolding keeps_def by (metis snd_conv)
  with rest at_rest_order(2) have "at_rest s0 s1" by (metis transpE)
  with run y assms(2) assms(3) [OF rest, of _ s1] show "Q r s'"
    by (cases y) (auto simp: bindS_def ends_def)
qed

lemma endsD: "ends s Q m \<Longrightarrow> m s = (r, s') \<Longrightarrow> Q r s'"
  using at_rest_order(1) unfolding ends_def by (metis reflpE)

abbreviation "dirs_of d \<equiv> user_data_dirs (de_discovery d)"

definition archived_at :: "path \<Rightarrow> string \<Rightarrow> path" where
  "archived_at u i = profile_archive_root u @ [Normal i]"

definition archives_of :: "'s app \<Rightarrow> archive_row list" where
  "archives_of s = ld_archives (lc_db (ap_local s))"

text \<open>The user data directories, if there are several, lie apart; the name of the profile is not
  the one of the archives, and identifiers are printed as plain names.\<close>

definition archives_apart :: "'s desk \<Rightarrow> string \<Rightarrow> files \<Rightarrow> bool" where
  "archives_apart d dir s \<longleftrightarrow> plain_name dir \<and> dir \<noteq> ''.helium-sync-archives''
     \<and> (\<forall>u. plain_name (le_uuid_text (desk_local d) u))
     \<and> (\<forall>a \<in> set (dirs_of d). downward a \<and> (\<forall>b \<in> set (dirs_of d). a = b \<or> apart (place s a) (place s b)))"

lemma profile_archive_root_name [simp]: "profile_archive_root u = u @ [Normal ''.helium-sync-archives'']"
  by (simp add: profile_archive_root_def path_of_plain plain_name_def)

lemma archives_apartD:
  assumes "archives_apart d dir s" and "a \<in> set (dirs_of d)" and "b \<in> set (dirs_of d)"
  shows "downward b" "apart (place s (profile_archive_root b)) (place s (a @ [Normal dir]))"
    "a = b \<or> apart (place s (a @ [Normal dir])) (place s (b @ [Normal dir]))"
    "a = b \<or> apart (place s (profile_archive_root a)) (place s (profile_archive_root b))"
proof -
  have wide: "apart (place s a @ [x]) (place s b @ [y])" if "a \<noteq> b \<or> x \<noteq> y" "a \<in> set (dirs_of d)" "b \<in> set (dirs_of d)" for a b x y
  proof (cases "a = b")
    case False
    with assms(1) that have "apart (place s a) (place s b)" by (auto simp: archives_apart_def)
    from apart_below2 [OF apart_below [OF this]] show ?thesis .
  qed (use that in simp)
  show "downward b" using assms by (auto simp: archives_apart_def)
  have "''.helium-sync-archives'' \<noteq> dir" using assms(1) by (auto simp: archives_apart_def)
  then show "apart (place s (profile_archive_root b)) (place s (a @ [Normal dir]))" using wide assms(2,3) by simp
  show "a = b \<or> apart (place s (a @ [Normal dir])) (place s (b @ [Normal dir]))"
    "a = b \<or> apart (place s (profile_archive_root a)) (place s (profile_archive_root b))"
    using wide assms(2,3) by (cases "a = b"; simp)+
qed

lemma archives_apart_cwd: "fs_cwd s' = fs_cwd s \<Longrightarrow> archives_apart d dir s' = archives_apart d dir s"
  by (simp add: archives_apart_def place_def)

definition kept_at :: "'s desk \<Rightarrow> string \<Rightarrow> 's app \<Rightarrow> 's app \<Rightarrow> path set \<Rightarrow> bool" where
  "kept_at d dir s s' without \<longleftrightarrow>
     (\<forall>u \<in> set (dirs_of d) - without. node_of (ap_files s') (u @ [Normal dir]) = node_of (ap_files s) (u @ [Normal dir]))"

definition archive_outcome :: "'s desk \<Rightarrow> string \<Rightarrow> 's app \<Rightarrow> app_error + 'a \<Rightarrow> 's app \<Rightarrow> bool" where
  "archive_outcome d dir s r s' \<longleftrightarrow>
     (\<exists>x. r = Inl x) \<and> kept_at d dir s s' {} \<and> archives_of s' = archives_of s
   \<or> (\<exists>a \<in> set (dirs_of d). \<exists>b \<in> set (dirs_of d). \<exists>i.
        moved (a @ [Normal dir]) (archived_at b i) (ap_files s) (ap_files s') \<and> kept_at d dir s s' {a}
        \<and> ((\<exists>row. ar_id row = i \<and> ar_directory row = dir \<and> ar_archive_directory row = i
               \<and> archives_of s' = archives_of s @ [row]
               \<and> find_row ar_id i (archives_of s) = None \<and> find_row ar_directory dir (archives_of s) = None)
           \<or> archives_of s' = archives_of s
             \<and> (\<exists>er x. r = Inl (Rollback_failed ''Could not record profile archive'' er x))))"

lemma at_rest_node: "at_rest s s' \<Longrightarrow> node_of (ap_files s') q = node_of (ap_files s) q"
  by (simp add: at_rest_def same_tree_node)

lemma at_rest_place: "at_rest s s' \<Longrightarrow> place (ap_files s') q = place (ap_files s) q"
  by (simp add: at_rest_def same_tree_place)

lemma at_rest_archives: "at_rest s s' \<Longrightarrow> archives_of s' = archives_of s"
  by (simp add: at_rest_def same_archives_def archives_of_def)

lemma at_rest_outcome:
  assumes "at_rest s0 s" and "at_rest s1 s'" and "archive_outcome d dir s r s1" and "\<forall>x. r = Inl x \<longrightarrow> r' = Inl x"
  shows "archive_outcome d dir s0 r' s'"
proof -
  have eq: "moved f t (ap_files s0) (ap_files s') = moved f t (ap_files s) (ap_files s1)"
    "kept_at d dir s0 s' W = kept_at d dir s s1 W" "archives_of s' = archives_of s1" "archives_of s0 = archives_of s" for f t W
    using at_rest_node [OF assms(1)] at_rest_node [OF assms(2)] at_rest_archives [OF assms(1)] at_rest_archives [OF assms(2)]
    by (auto simp: kept_at_def moved_def)
  show ?thesis
  proof (cases r)
    case (Inl x)
    with assms(3,4) show ?thesis by (simp add: archive_outcome_def eq)
  next
    case (Inr y)
    with assms(3) show ?thesis unfolding archive_outcome_def eq by blast
  qed
qed

lemma move_then_archives:
  assumes set: "archives_apart d dir (ap_files s)" "a \<in> set (dirs_of d)" "b \<in> set (dirs_of d)"
    and run: "move_then w what ''Could not record profile archive'' (a @ [Normal dir]) (archived_at b i)
      (record_profile_archive e i dir i name) s = (r, s')"
  shows "archive_outcome d dir s r s'"
proof -
  let ?from = "a @ [Normal dir]" and ?to = "archived_at b i"
  have below: "apart (place (ap_files s) ?to) (place (ap_files s) (u @ [Normal dir]))" if "u \<in> set (dirs_of d)" for u
    unfolding archived_at_def place_name [of _ "profile_archive_root b"]
    by (rule apart_below [OF archives_apartD(2) [OF set(1) that set(3)]])
  note ways = apart_sym [OF below [OF set(2)]]
  have others: "kept_at d dir s s' {a}"
    unfolding kept_at_def
  proof
    fix u assume u: "u \<in> set (dirs_of d) - {a}"
    with archives_apartD(3) [OF set(1,2), of u]
    have "apart (place (ap_files s) ?from) (place (ap_files s) (u @ [Normal dir]))" by auto
    from move_then_elsewhere [OF run ways this below] u
    show "node_of (ap_files s') (u @ [Normal dir]) = node_of (ap_files s) (u @ [Normal dir])" by simp
  qed
  from run ways show ?thesis
  proof (cases rule: move_then_outcome)
    case (unmoved x)
    then have "kept_at d dir s s' {}" using others set(2) by (auto simp: kept_at_def)
    moreover have "archives_of s' = archives_of s"
      using unmoved(3) record_archive_outcome(1) by (auto simp: archives_of_def)
    ultimately show ?thesis using unmoved(1) by (auto simp: archive_outcome_def)
  next
    case committed
    from record_archive_outcome(2) [OF committed(3) refl] committed(2) others set(2,3) show ?thesis
      unfolding archive_outcome_def archives_of_def by blast
  next
    case (stuck er x)
    then have "archives_of s' = archives_of s" using record_archive_outcome(1) by (auto simp: archives_of_def)
    with stuck(1,2) others set(2,3) show ?thesis unfolding archive_outcome_def by blast
  qed
qed

lemma make_archive_root:
  assumes "archives_apart d dir (ap_files s)" and "b \<in> set (dirs_of d)"
    and "on_files f (create_dir_all w (profile_archive_root b)) s = (r, s1)"
  shows "kept_at d dir s s1 {}" "archives_of s1 = archives_of s" "fs_cwd (ap_files s1) = fs_cwd (ap_files s)"
proof -
  from assms(3) obtain y c where c: "create_dir_all w (profile_archive_root b) (ap_files s) = (y, c)" "s1 = s\<lparr>ap_files := c\<rparr>"
    by (auto simp: on_files_iff)
  have down: "downward (profile_archive_root b)" using archives_apartD(1) [OF assms(1,2,2)] by simp
  have "node_of c (u @ [Normal dir]) = node_of (ap_files s) (u @ [Normal dir]) \<and> fs_cwd c = fs_cwd (ap_files s)"
    if "u \<in> set (dirs_of d)" for u
  proof -
    have "apart (place (ap_files s) (profile_archive_root b)) (place (ap_files s) (u @ [Normal dir]))"
      by (rule archives_apartD(2) [OF assms(1) that assms(2)])
    then have "\<And>t. place (ap_files s) (profile_archive_root b) \<noteq> place (ap_files s) (u @ [Normal dir]) @ t"
      by (simp add: apart_def)
    from create_dir_all_elsewhere [OF c(1) down this] show ?thesis by (simp add: node_of_def place_def)
  qed
  with assms(2) c(2) show "kept_at d dir s s1 {}" "archives_of s1 = archives_of s" "fs_cwd (ap_files s1) = fs_cwd (ap_files s)"
    by (auto simp: kept_at_def archives_of_def)
qed

lemma archive_tail:
  assumes set: "archives_apart d dir (ap_files s)" "a \<in> set (dirs_of d)" "b \<in> set (dirs_of d)"
    and run: "bindS (on_files f (create_dir_all w (profile_archive_root b))) (\<lambda>_.
      bindS (move_then w what ''Could not record profile archive'' (a @ [Normal dir]) (archived_at b i)
       (record_profile_archive e i dir i name)) (\<lambda>_. profile_report d)) s = (r, s')"
  shows "archive_outcome d dir s r s'"
proof -
  obtain y s1 where y: "on_files f (create_dir_all w (profile_archive_root b)) s = (y, s1)"
    by (cases "on_files f (create_dir_all w (profile_archive_root b)) s")
  note made = make_archive_root [OF set(1,3) y]
  have set1: "archives_apart d dir (ap_files s1)" using set(1) archives_apart_cwd [OF made(3), of d dir] by blast
  show ?thesis
  proof (cases y)
    case (Inl x)
    with run y made show ?thesis by (auto simp: bindS_def archive_outcome_def)
  next
    case (Inr v)
    obtain z s2 where z: "move_then w what ''Could not record profile archive'' (a @ [Normal dir]) (archived_at b i)
       (record_profile_archive e i dir i name) s1 = (z, s2)"
      by (cases "move_then w what ''Could not record profile archive'' (a @ [Normal dir]) (archived_at b i)
       (record_profile_archive e i dir i name) s1")
    note out = move_then_archives [OF set1 set(2,3) z]
    have "archive_outcome d dir s z s2"
      using out made set(2) by (auto simp: archive_outcome_def kept_at_def moved_def)
    moreover have "at_rest s2 s' \<and> (\<forall>x. z = Inl x \<longrightarrow> r = Inl x)"
    proof (cases z)
      case (Inl x)
      with run y Inr z at_rest_order(1) show ?thesis by (auto simp: bindS_def elim: reflpE)
    next
      case (Inr u)
      with run y \<open>y = Inr v\<close> z have "profile_report d s2 = (r, s')" by (simp add: bindS_def)
      with report_at_rest Inr show ?thesis unfolding keeps_def by (metis snd_conv sum.distinct(1))
    qed
    ultimately show ?thesis using at_rest_outcome at_rest_order(1) by (metis reflpE)
  qed
qed

lemma find_discovered_profile_Inr:
  assumes "find_discovered_profile d dir s = (Inr p, s')" and "plain_name dir"
  obtains u where "u \<in> set (dirs_of d)" "dp_path p = u @ [Normal dir]"
proof -
  from assms(1) obtain inst ps c where ps: "discover (de_reader d) (de_discovery d) (ap_files s) = (Inr (inst, ps), c)"
    "List.find (\<lambda>p. dp_directory_name p = dir) ps = Some p"
    by (auto simp: find_discovered_profile_def bindS_Inr on_files_iff Inr_map_err liftS_iff result_simps split: prod.splits)
  then have "p \<in> set ps" "dp_directory_name p = dir" by (auto simp: find_Some_iff in_set_conv_nth)
  from discover_Inr [OF ps(1) this(1)] this(2) assms(2) that show ?thesis by (simp add: path_of_plain)
qed

lemma archive_stops:
  assumes "at_rest s0 s"
  shows "archive_outcome d dir s0 (Inl x) s"
  using at_rest_node [OF assms] at_rest_archives [OF assms] by (simp add: archive_outcome_def kept_at_def)

lemma at_rest_apart: "at_rest s0 s \<Longrightarrow> archives_apart d dir (ap_files s0) \<Longrightarrow> archives_apart d dir (ap_files s)"
  using archives_apart_cwd [of "ap_files s" "ap_files s0" d dir] by (simp add: at_rest_def same_tree_def)

lemma store_profile_ends:
  assumes set: "archives_apart d dir (ap_files s0)" and p: "find_discovered_profile d dir s = (Inr p, s')"
    and b: "in_user_data_dir inst \<in> set (dirs_of d)" and i: "archive_id = le_uuid_text (desk_local d) u"
  shows "ends s0 (archive_outcome d dir s0) (store_profile d dir p inst display_name archive_id)"
  unfolding ends_def
proof (intro allI impI)
  fix t r t'
  assume rest: "at_rest s0 t" and run: "store_profile d dir p inst display_name archive_id t = (r, t')"
  from set i have plain: "plain_name dir" "plain_name archive_id" by (simp_all add: archives_apart_def)
  from find_discovered_profile_Inr [OF p plain(1)] obtain a where a: "a \<in> set (dirs_of d)" "dp_path p = a @ [Normal dir]" .
  from run have "archive_outcome d dir t r t'"
    using archive_tail [OF at_rest_apart [OF rest set] a(1) b] plain(2)
    by (simp add: store_profile_def Let_def a(2) archive_path_of_def archived_at_def path_of_plain del: append.simps)
  with rest show "archive_outcome d dir s0 r t'"
    using at_rest_outcome [OF rest reflpD [OF at_rest_order(1)]] by blast
qed

lemma archive_profile_outcome:
  assumes "archive_profile d dir s = (r, s')" and "archives_apart d dir (ap_files s)"
  shows "archive_outcome d dir s r s'"
proof -
  note quiet = closed_at_rest discovery_at_rest ensured_at_rest at_rest_lifts(2) [OF archives_kept(3)] at_rest_lifts(2) [OF archives_kept(7)]
  have "ends s (archive_outcome d dir s) (archive_profile d dir)"
    unfolding archive_profile_def Let_def
    by (intro ends_bindS quiet archive_stops store_profile_ends assms(2))
      (auto simp: on_files_iff Inr_map_err dest: discover_installation_Inr)
  from endsD [OF this assms(1)] show ?thesis .
qed

section \<open>Restoring\<close>

lemma canonicalize_Inr:
  assumes "canonicalize w p s = (Inr q, s')"
  shows "same_tree s s'" "q = RootDir # map Normal (place s p)" "node_of s p \<noteq> None"
  using assms by (auto simp: canonicalize_def sys_Inr same_tree_def split: option.splits)

lemma place_canonical [simp]: "place s (RootDir # map Normal xs) = xs"
  by (simp add: place_def walk_names)

lemma canonical_id_Inr: "canonical_id e dir = Inr u \<longleftrightarrow> (\<exists>v. le_uuid_parse e dir = Some v \<and> le_uuid_text e v = dir)"
  by (auto simp: canonical_id_def split: option.splits)

lemma looks_canonicalize: "keeps same_tree (canonicalize w p)"
  unfolding canonicalize_def by (rule keeps_looking [OF same_tree_about]) (auto split: option.splits)

lemma looks_checked_archive_path: "keeps same_tree (checked_archive_path e w root dir)"
  unfolding checked_archive_path_def Let_def
  by (intro keeps_intros looks_canonicalize looks_symlink_metadata looking_order)

text \<open>What passes the check is the directory of that name in the archive root.\<close>

lemma checked_archive_path_Inr:
  assumes run: "checked_archive_path e w root dir s = (Inr q, s')" and plain: "\<And>u. plain_name (le_uuid_text e u)"
  shows "plain_name dir" "q = RootDir # map Normal (place s (root @ [Normal dir]))"
proof -
  from run obtain r1 s1 n s2 s3 where id: "canonical_id e dir = Inr ()"
    and r1: "canonicalize w root s = (Inr r1, s1)"
    and n: "symlink_metadata w (path_join r1 (path_of dir)) s1 = (Inr n, s2)"
    and q: "canonicalize w (path_join r1 (path_of dir)) s2 = (Inr q, s3)"
    by (auto simp: checked_archive_path_def Let_def bindS_Inr liftS_iff returnS_iff Inr_map_err map_err_Inr with_err_run
        simp del: with_err_simps split: if_splits)
  from id plain show dir: "plain_name dir" by (auto simp: canonical_id_Inr)
  have "same_tree s1 s2" using looks_symlink_metadata n unfolding keeps_def by (metis snd_conv)
  with canonicalize_Inr(1) [OF r1] same_tree_trans have "same_tree s s2" by blast
  with canonicalize_Inr(2) [OF q] canonicalize_Inr(2) [OF r1] dir
  show "q = RootDir # map Normal (place s (root @ [Normal dir]))"
    by (simp add: path_of_plain same_tree_place del: append_Cons)
qed

definition restore_outcome :: "'s desk \<Rightarrow> archive_row \<Rightarrow> string \<Rightarrow> 's app \<Rightarrow> app_error + 'a \<Rightarrow> 's app \<Rightarrow> bool" where
  "restore_outcome d row i s r s' \<longleftrightarrow>
     (\<exists>x. r = Inl x) \<and> archives_of s' = archives_of s
       \<and> (\<forall>b \<in> set (dirs_of d). node_of (ap_files s') (archived_at b (ar_archive_directory row))
            = node_of (ap_files s) (archived_at b (ar_archive_directory row)))
   \<or> (\<exists>b \<in> set (dirs_of d).
        moved (archived_at b (ar_archive_directory row)) (b @ [Normal (ar_directory row)]) (ap_files s) (ap_files s')
        \<and> (archives_of s' = filter (\<lambda>x. ar_id x \<noteq> i) (archives_of s)
           \<or> archives_of s' = archives_of s
             \<and> (\<exists>er x. r = Inl (Rollback_failed ''Could not finish profile restore'' er x))))"

lemma key_ok_at_most_one: "key_ok key rows \<Longrightarrow> length (filter (\<lambda>x. key x = k) rows) \<le> 1"
  by (induction rows) (auto simp: key_ok_def filter_empty_conv image_iff)

lemma remove_archive_outcome:
  assumes "remove_profile_archive e i c = (r, c')" and "key_ok ar_id (ld_archives (lc_db c))"
  shows "r = Inl x \<Longrightarrow> ld_archives (lc_db c') = ld_archives (lc_db c)"
    "r = Inr u \<Longrightarrow> ld_archives (lc_db c') = filter (\<lambda>x. ar_id x \<noteq> i) (ld_archives (lc_db c))"
proof -
  let ?rows = "ld_archives (lc_db c)"
  note one = key_ok_at_most_one [OF assms(2), of i]
  show "r = Inl x \<Longrightarrow> ld_archives (lc_db c') = ?rows"
    using assms(1) one
    by (auto simp: remove_profile_archive_def result_simps delete_archive_def delete_rows_def expect_one_def
        filter_id_conv filter_empty_conv le_Suc_eq split: if_splits)
  show "r = Inr u \<Longrightarrow> ld_archives (lc_db c') = filter (\<lambda>x. ar_id x \<noteq> i) ?rows"
    using assms(1) by (auto simp: remove_profile_archive_def result_simps delete_archive_def delete_rows_def)
qed

lemma move_then_restores:
  assumes set: "archives_apart d (ar_directory row) (ap_files s)" "b \<in> set (dirs_of d)"
    and key: "key_ok ar_id (archives_of s)"
    and q: "q = RootDir # map Normal (place (ap_files s) (archived_at b (ar_archive_directory row)))"
    and run: "move_then w what ''Could not finish profile restore'' q (b @ [Normal (ar_directory row)])
      (remove_profile_archive e i) s = (r, s')"
  shows "restore_outcome d row i s r s'"
proof -
  let ?to = "b @ [Normal (ar_directory row)]" and ?from = "\<lambda>b. archived_at b (ar_archive_directory row)"
  have same: "node_of (ap_files t) q = node_of (ap_files t) (?from b)" if "fs_cwd (ap_files t) = fs_cwd (ap_files s)" for t :: "'a app"
    using that by (simp add: q node_of_def archived_at_def place_def walk_names del: append.simps) simp
  note cwd = same [OF move_then_cwd [OF run]] same [OF refl]
  have below: "apart (place (ap_files s) (?from c)) (place (ap_files s) ?to)" if "c \<in> set (dirs_of d)" for c
    unfolding archived_at_def place_name [of _ "profile_archive_root c"]
    by (rule apart_below [OF archives_apartD(2) [OF set that]])
  have ways: "apart (place (ap_files s) q) (place (ap_files s) ?to)" using below [OF set(2)] by (simp add: q)
  from run ways show ?thesis
  proof (cases rule: move_then_outcome)
    case (unmoved x)
    have "node_of (ap_files s') (?from c) = node_of (ap_files s) (?from c)" if c: "c \<in> set (dirs_of d)" for c
    proof (cases "c = b")
      case False
      with archives_apartD(4) [OF set(1,2) c]
      have "apart (place (ap_files s) (profile_archive_root b)) (place (ap_files s) (profile_archive_root c))" by auto
      from apart_below2 [OF apart_below [OF this]]
      have "apart (place (ap_files s) q) (place (ap_files s) (?from c))"
        unfolding q place_canonical archived_at_def place_name .
      from move_then_elsewhere [OF run ways this apart_sym [OF below [OF c]]] show ?thesis .
    qed (use unmoved cwd in simp)
    moreover have "archives_of s' = archives_of s"
      using unmoved(3) remove_archive_outcome(1) key by (auto simp: archives_of_def)
    ultimately show ?thesis using unmoved(1) by (auto simp: restore_outcome_def)
  next
    case committed
    have "archives_of s' = filter (\<lambda>x. ar_id x \<noteq> i) (archives_of s)"
      using remove_archive_outcome(2) [OF committed(3) key [unfolded archives_of_def] refl] by (simp add: archives_of_def)
    with committed(2) cwd set(2) show ?thesis unfolding restore_outcome_def moved_def by auto
  next
    case (stuck er x)
    then have "archives_of s' = archives_of s" using remove_archive_outcome(1) key by (auto simp: archives_of_def)
    with stuck(1,2) cwd set(2) show ?thesis unfolding restore_outcome_def moved_def by auto
  qed
qed

lemma restore_stops:
  assumes "at_rest s0 s"
  shows "restore_outcome d row i s0 (Inl x) s"
  using at_rest_node [OF assms] at_rest_archives [OF assms] by (simp add: restore_outcome_def)

lemma at_rest_restore:
  assumes "at_rest s0 s" and "at_rest s1 s'" and "restore_outcome d row i s r s1" and "\<forall>x. r = Inl x \<longrightarrow> r' = Inl x"
  shows "restore_outcome d row i s0 r' s'"
proof -
  have eq: "moved f t (ap_files s0) (ap_files s') = moved f t (ap_files s) (ap_files s1)"
    "archives_of s' = archives_of s1" "archives_of s0 = archives_of s"
    "node_of (ap_files s') q = node_of (ap_files s1) q" "node_of (ap_files s0) q = node_of (ap_files s) q" for f t q
    using at_rest_node [OF assms(1)] at_rest_node [OF assms(2)] at_rest_archives [OF assms(1)] at_rest_archives [OF assms(2)]
    by (auto simp: moved_def)
  show ?thesis
  proof (cases r)
    case (Inl x)
    with assms(3,4) show ?thesis by (simp add: restore_outcome_def eq)
  next
    case (Inr y)
    with assms(3) show ?thesis unfolding restore_outcome_def eq by blast
  qed
qed

lemma at_rest_refl: "at_rest s s"
  by (rule reflpD [OF at_rest_order(1)])

lemma then_report:
  assumes "bindS m (\<lambda>_. profile_report d) s = (r, s')"
  obtains y s1 where "m s = (y, s1)" "at_rest s1 s'" "\<forall>x. y = Inl x \<longrightarrow> r = Inl x"
proof -
  obtain y s1 where y: "m s = (y, s1)" by (cases "m s")
  have "at_rest s1 s' \<and> (\<forall>x. y = Inl x \<longrightarrow> r = Inl x)"
  proof (cases y)
    case (Inl x)
    with assms y show ?thesis by (auto simp: bindS_def at_rest_refl)
  next
    case (Inr u)
    with assms y have "profile_report d s1 = (r, s')" by (simp add: bindS_def)
    with report_at_rest Inr show ?thesis unfolding keeps_def by (metis snd_conv sum.distinct(1))
  qed
  with y that show ?thesis by blast
qed

lemma bring_back_ends:
  assumes set: "archives_apart d (ar_directory row) (ap_files s0)" and b: "in_user_data_dir inst \<in> set (dirs_of d)"
    and key: "key_ok ar_id (archives_of s0)"
  shows "ends s0 (restore_outcome d row i s0) (bring_back d i row inst)"
  unfolding bring_back_def Let_def
proof (intro ends_bindS at_rest_lifts looks_checked_archive_path keeps_path_tests same_tree_about restore_stops)
  fix q s s1 taken t t1
  let ?b = "in_user_data_dir inst"
  from set have plain: "plain_name (ar_directory row)" "\<And>u. plain_name (le_uuid_text (desk_local d) u)"
    by (simp_all add: archives_apart_def)
  assume rest: "at_rest s0 s"
    and "on_files id (checked_archive_path (desk_local d) (desk_os d) (profile_archive_root ?b) (ar_archive_directory row)) s = (Inr q, s1)"
  then obtain c where c: "checked_archive_path (desk_local d) (desk_os d) (profile_archive_root ?b) (ar_archive_directory row)
      (ap_files s) = (Inr q, c)" by (auto simp: on_files_iff Inr_map_err)
  have q: "q = RootDir # map Normal (place (ap_files s) (archived_at ?b (ar_archive_directory row)))"
    unfolding archived_at_def by (rule checked_archive_path_Inr(2) [OF c plain(2)])
  show "ends s0 (restore_outcome d row i s0) (if taken then liftS (Inl (Refused ''Cannot restore because the profile directory already exists''))
     else bindS (move_then (desk_os d) ''Could not restore'' ''Could not finish profile restore''
         q (path_join ?b (path_of (ar_directory row))) (remove_profile_archive (desk_local d) i)) (\<lambda>_. profile_report d))"
    unfolding ends_def
  proof (intro allI impI)
    fix u r u'
    assume rest2: "at_rest s0 u" and run: "(if taken then liftS (Inl (Refused ''Cannot restore because the profile directory already exists''))
     else bindS (move_then (desk_os d) ''Could not restore'' ''Could not finish profile restore''
         q (path_join ?b (path_of (ar_directory row))) (remove_profile_archive (desk_local d) i)) (\<lambda>_. profile_report d)) u = (r, u')"
    show "restore_outcome d row i s0 r u'"
    proof (cases taken)
      case True
      with run rest2 show ?thesis by (auto simp: liftS_def intro: restore_stops)
    next
      case False
      with run obtain y u1 where y: "move_then (desk_os d) ''Could not restore'' ''Could not finish profile restore''
         q (?b @ [Normal (ar_directory row)]) (remove_profile_archive (desk_local d) i) u = (y, u1)"
        "at_rest u1 u'" "\<forall>x. y = Inl x \<longrightarrow> r = Inl x"
        by (auto simp: path_of_plain [OF plain(1)] elim: then_report)
      have "q = RootDir # map Normal (place (ap_files u) (archived_at ?b (ar_archive_directory row)))"
        using q at_rest_place [OF rest] at_rest_place [OF rest2] by simp
      from move_then_restores [OF at_rest_apart [OF rest2 set] b _ this y(1)] key at_rest_archives [OF rest2]
      show ?thesis using at_rest_restore [OF rest2 y(2) _ y(3)] by simp
    qed
  qed
qed

text \<open>The row that a command on an archive finds.\<close>

lemma find_profile_archive_Inr:
  assumes "find_profile_archive d i s = (Inr row, s')"
  shows "row \<in> set (archives_of s)" "ar_id row = i"
proof -
  from assms obtain rows b where rows: "select_archives (lc_db (ap_local s)) = Some (rows, b)"
    and row: "List.find (\<lambda>r. ar_id r = i) rows = Some row"
    by (auto simp: find_profile_archive_def bindS_Inr on_local_iff Inr_map_err map_err_Inr liftS_iff profile_archives_def result_simps)
  have "set rows = set (archives_of s)" using rows by (auto simp: select_archives_def archives_of_def)
  with row show "row \<in> set (archives_of s)" "ar_id row = i" by (auto simp: find_Some_iff dest: nth_mem)
qed

lemma find_archive_at_rest: "keeps at_rest (find_profile_archive d i)"
  unfolding find_profile_archive_def by (intro keeps_intros at_rest_lifts archives_kept at_rest_order)

lemma restore_archived_profile_outcome:
  assumes run: "restore_archived_profile d i s = (r, s')" and key: "key_ok ar_id (archives_of s)"
    and row: "row \<in> set (archives_of s)" "ar_id row = i" and set: "archives_apart d (ar_directory row) (ap_files s)"
  shows "restore_outcome d row i s r s'"
proof -
  have only: "x = row" if "x \<in> set (archives_of s)" "ar_id x = i" for x
    using that row key by (metis find_row_Some_iff option.inject)
  note quiet = closed_at_rest discovery_at_rest find_archive_at_rest
  have "ends s (restore_outcome d row i s) (restore_archived_profile d i)"
    unfolding restore_archived_profile_def
  proof (intro ends_bindS quiet restore_stops)
    fix u t x t1 inst t2 t3
    assume t: "at_rest s t" "find_profile_archive d i t = (Inr x, t1)"
      and inst: "on_files Discovery (discover_installation (de_discovery d)) t2 = (Inr inst, t3)"
    have "x = row" using only find_profile_archive_Inr [OF t(2)] at_rest_archives [OF t(1)] by simp
    moreover have "in_user_data_dir inst \<in> set (dirs_of d)"
      using inst by (auto simp: on_files_iff Inr_map_err dest: discover_installation_Inr)
    ultimately
    show "ends s (restore_outcome d row i s) (bring_back d i x inst)"
      using bring_back_ends [OF set _ key] by simp
  qed
  from endsD [OF this run] show ?thesis .
qed

section \<open>Deleting\<close>

definition delete_outcome :: "'s desk \<Rightarrow> archive_row \<Rightarrow> string \<Rightarrow> 's app \<Rightarrow> app_error + 'a \<Rightarrow> 's app \<Rightarrow> bool" where
  "delete_outcome d row i s r s' \<longleftrightarrow>
     (\<forall>q. (\<forall>b \<in> set (dirs_of d). apart (place (ap_files s) (archived_at b (ar_archive_directory row))) (place (ap_files s) q))
        \<longrightarrow> node_of (ap_files s') q = node_of (ap_files s) q)
     \<and> ((\<exists>x. r = Inl x) \<and> archives_of s' = archives_of s
        \<or> archives_of s' = filter (\<lambda>x. ar_id x \<noteq> i) (archives_of s)
          \<and> (\<exists>b \<in> set (dirs_of d). node_of (ap_files s') (archived_at b (ar_archive_directory row)) = None))"

lemma symlink_metadata_run:
  assumes "symlink_metadata w p s = (r, s')"
  shows "same_tree s s'" "r = Inl No_entry \<Longrightarrow> node_of s p = None"
proof -
  show "same_tree s s'" using looks_symlink_metadata assms unfolding keeps_def by (metis snd_conv)
  show "r = Inl No_entry \<Longrightarrow> node_of s p = None"
    using assms by (auto simp: symlink_metadata_def sys_Inl split: option.splits)
qed

lemma delete_directory_run:
  assumes run: "delete_archive_directory d root dir s = (r, s')" and plain: "\<And>u. plain_name (le_uuid_text (desk_local d) u)"
    "plain_name dir"
  shows "only_at (place s (root @ [Normal dir])) s s'" "r = Inr u \<Longrightarrow> node_of s' (root @ [Normal dir]) = None"
proof -
  let ?c = "root @ [Normal dir]" and ?w = "desk_os d"
  obtain m s1 where m: "symlink_metadata ?w ?c s = (m, s1)" by (cases "symlink_metadata ?w ?c s")
  note seen = symlink_metadata_run [OF m]
  have run1: "(case m of
        Inr _ \<Rightarrow>
          bindS (checked_archive_path (desk_local d) ?w root dir) (\<lambda>q.
          with_err (Io_failed ''Could not permanently delete'' q) (remove_dir_all ?w q))
      | Inl No_entry \<Rightarrow> returnS ()
      | Inl x \<Rightarrow> liftS (Inl (Io_failed ''Could not inspect profile archive'' ?c x))) s1 = (r, s')"
    using run m by (simp add: delete_archive_directory_def Let_def path_of_plain [OF plain(2)] bindS_def)
  have "only_at (place s ?c) s s' \<and> (r = Inr u \<longrightarrow> node_of s' ?c = None)"
  proof (cases m)
    case (Inl x)
    with run1 have "s' = s1" "r = Inr u \<longrightarrow> x = No_entry"
      by (auto simp: returnS_def liftS_def split: io_error.splits)
    with seen Inl same_tree_only_at same_tree_node [OF seen(1), of ?c] show ?thesis by metis
  next
    case (Inr n)
    obtain y s2 where y: "checked_archive_path (desk_local d) ?w root dir s1 = (y, s2)"
      by (cases "checked_archive_path (desk_local d) ?w root dir s1")
    have tree: "same_tree s s2"
      using looks_checked_archive_path y seen(1) same_tree_trans unfolding keeps_def by (metis snd_conv)
    show ?thesis
    proof (cases y)
      case (Inl x)
      with run1 \<open>m = Inr n\<close> y tree show ?thesis by (auto simp: bindS_def same_tree_only_at)
    next
      case (Inr q)
      have q: "q = RootDir # map Normal (place s ?c)"
        using checked_archive_path_Inr(2) [OF y [unfolded Inr] plain(1)] same_tree_place [OF seen(1)] by simp
      obtain z s3 where z: "remove_dir_all ?w q s2 = (z, s3)" by (cases "remove_dir_all ?w q s2")
      have r: "s' = s3" "r = Inr u \<longrightarrow> z = Inr ()"
        using run1 \<open>m = Inr n\<close> y Inr z by (auto simp: bindS_def map_err_Inr Inr_map_err)
      have "place s2 q = place s ?c" unfolding q by (rule place_canonical)
      moreover have "place s ?c \<noteq> []" by simp
      ultimately have "only_at (place s ?c) s2 s3" "z = Inr () \<longrightarrow> node_of s3 q = None"
        using remove_dir_all_effect [OF z] by auto
      moreover have "node_of s3 q = node_of s3 ?c" if "only_at (place s ?c) s2 s3"
        using that tree by (simp add: q node_of_def place_def walk_names walk_append only_at_def same_tree_def)
      ultimately show ?thesis using r same_tree_only_at [OF tree] only_at_trans by metis
    qed
  qed
  then show "only_at (place s ?c) s s'" "r = Inr u \<Longrightarrow> node_of s' ?c = None" by auto
qed

lemma delete_stops:
  assumes "at_rest s0 s"
  shows "delete_outcome d row i s0 (Inl x) s"
  using at_rest_node [OF assms] at_rest_archives [OF assms] by (simp add: delete_outcome_def)

lemma remove_row_run:
  assumes "bindS (on_local (remove_profile_archive e i)) (\<lambda>_. profile_report d) s = (r, s')" and "key_ok ar_id (archives_of s)"
  shows "\<And>q. node_of (ap_files s') q = node_of (ap_files s) q"
    "(\<exists>x. r = Inl x) \<and> archives_of s' = archives_of s \<or> archives_of s' = filter (\<lambda>x. ar_id x \<noteq> i) (archives_of s)"
proof -
  from assms(1) obtain y s1 where y: "on_local (remove_profile_archive e i) s = (y, s1)" "at_rest s1 s'"
    "\<forall>x. y = Inl x \<longrightarrow> r = Inl x" by (rule then_report)
  from y(1) obtain z c where z: "remove_profile_archive e i (ap_local s) = (z, c)" "y = map_err Client z" "s1 = s\<lparr>ap_local := c\<rparr>"
    by (auto simp: on_local_iff)
  show "node_of (ap_files s') q = node_of (ap_files s) q" for q
    using at_rest_node [OF y(2)] z(3) by simp
  show "(\<exists>x. r = Inl x) \<and> archives_of s' = archives_of s \<or> archives_of s' = filter (\<lambda>x. ar_id x \<noteq> i) (archives_of s)"
    using remove_archive_outcome [OF z(1) assms(2) [unfolded archives_of_def]] z(2,3) y(3) at_rest_archives [OF y(2)]
    by (cases z) (auto simp: archives_of_def)
qed

lemma discard_archive_ends:
  assumes plain: "\<And>u. plain_name (le_uuid_text (desk_local d) u)" and b: "in_user_data_dir inst \<in> set (dirs_of d)"
    and key: "key_ok ar_id (archives_of s0)"
  shows "ends s0 (delete_outcome d row i s0) (discard_archive d i row inst)"
  unfolding discard_archive_def
proof (rule ends_bindS, rule keeps_liftS, rule at_rest_order, erule delete_stops)
  fix u and s s1 :: "'a app"
  let ?dir = "ar_archive_directory row" and ?root = "profile_archive_root (in_user_data_dir inst)"
  assume "liftS (canonical_id (desk_local d) ?dir) s = (Inr u, s1)"
  then obtain v where "le_uuid_text (desk_local d) v = ?dir" by (auto simp: liftS_iff canonical_id_Inr)
  with plain [of v] have dir: "plain_name ?dir" by simp
  show "ends s0 (delete_outcome d row i s0) (bindS (on_files id (delete_archive_directory d ?root ?dir)) (\<lambda>_.
     bindS (on_local (remove_profile_archive (desk_local d) i)) (\<lambda>_. profile_report d)))"
    unfolding ends_def
  proof (intro allI impI)
    fix t r t'
    assume rest: "at_rest s0 t" and run: "bindS (on_files id (delete_archive_directory d ?root ?dir)) (\<lambda>_.
     bindS (on_local (remove_profile_archive (desk_local d) i)) (\<lambda>_. profile_report d)) t = (r, t')"
    obtain y f where y: "delete_archive_directory d ?root ?dir (ap_files t) = (y, f)"
      by (cases "delete_archive_directory d ?root ?dir (ap_files t)")
    note gone = delete_directory_run [OF y plain dir]
    have spared: "node_of f q = node_of (ap_files s0) q"
      if "\<forall>b \<in> set (dirs_of d). apart (place (ap_files s0) (archived_at b ?dir)) (place (ap_files s0) q)" for q
    proof -
      have "apart (place (ap_files t) (?root @ [Normal ?dir])) (place (ap_files t) q)"
        using that b at_rest_place [OF rest] by (simp add: archived_at_def)
      from only_at_node [OF gone(1) this] at_rest_node [OF rest] show ?thesis by simp
    qed
    show "delete_outcome d row i s0 r t'"
    proof (cases y)
      case (Inl x)
      with run y have "r = Inl x" "t' = t\<lparr>ap_files := f\<rparr>" by (auto simp: bindS_def on_files_def)
      with spared at_rest_archives [OF rest] show ?thesis by (simp add: delete_outcome_def archives_of_def)
    next
      case (Inr v)
      with run y have rest_run: "bindS (on_local (remove_profile_archive (desk_local d) i)) (\<lambda>_. profile_report d) (t\<lparr>ap_files := f\<rparr>) = (r, t')"
        by (simp add: bindS_def on_files_def)
      have "archives_of (t\<lparr>ap_files := f\<rparr>) = archives_of s0" using at_rest_archives [OF rest] by (simp add: archives_of_def)
      with remove_row_run [OF rest_run] key spared gone(2) [OF Inr] b show ?thesis
        by (auto simp: delete_outcome_def archived_at_def simp del: profile_archive_root_name)
    qed
  qed
qed

lemma delete_archived_profile_outcome:
  assumes run: "delete_archived_profile d i s = (r, s')" and key: "key_ok ar_id (archives_of s)"
    and row: "row \<in> set (archives_of s)" "ar_id row = i" and plain: "\<And>u. plain_name (le_uuid_text (desk_local d) u)"
  shows "delete_outcome d row i s r s'"
proof -
  have only: "x = row" if "x \<in> set (archives_of s)" "ar_id x = i" for x
    using that row key by (metis find_row_Some_iff option.inject)
  note quiet = closed_at_rest discovery_at_rest find_archive_at_rest
  have "ends s (delete_outcome d row i s) (delete_archived_profile d i)"
    unfolding delete_archived_profile_def
  proof (intro ends_bindS quiet delete_stops)
    fix u t x t1 inst t2 t3
    assume t: "at_rest s t" "find_profile_archive d i t = (Inr x, t1)"
      and inst: "on_files Discovery (discover_installation (de_discovery d)) t2 = (Inr inst, t3)"
    have "x = row" using only find_profile_archive_Inr [OF t(2)] at_rest_archives [OF t(1)] by simp
    moreover have "in_user_data_dir inst \<in> set (dirs_of d)"
      using inst by (auto simp: on_files_iff Inr_map_err dest: discover_installation_Inr)
    ultimately show "ends s (delete_outcome d row i s) (discard_archive d i x inst)"
      using discard_archive_ends [OF plain _ key] by simp
  qed
  from endsD [OF this run] show ?thesis .
qed

end
