(* ===== verification/LifecycleProps.thy ===== *)
theory LifecycleProps
  imports LifecycleFacts SyncProps
begin

text \<open>
  The properties of the commands on profiles, and a desk they are applied to: one user data
  directory, given by the environment, with one profile in it.
\<close>

section \<open>An example\<close>

definition desk_env :: "shelf app_env" where
  "desk_env = shelf_env\<lparr>ae_local := quiet_env
     \<lparr>le_uuid_text := (\<lambda>u. CHR ''x'' # replicate (unat u) CHR ''x''),
      le_uuid_parse := (\<lambda>s. Some (word_of_nat (length s - 1)))\<rparr>\<rparr>"

definition demo_desk :: "shelf desk" where
  "demo_desk =
     \<lparr>de_app = desk_env,
      de_discovery = \<lparr>di_os = \<lparr>os_fault = (\<lambda>n. None), os_blind = (\<lambda>n. False)\<rparr>,
        di_options = \<lparr>do_executable_override = None, do_user_data_override = Some [RootDir, Normal ''u'']\<rparr>,
        di_linux_executable = None, di_config_dir = None\<rparr>,
      de_reader = \<lparr>pr_of_text = (\<lambda>b. None), pr_state_of = (\<lambda>b. None), pr_error_text = (\<lambda>x. [])\<rparr>,
      de_running = (\<lambda>i. False), de_spawn = (\<lambda>p a. True), de_session = None\<rparr>"

definition demo_home :: "shelf app" where
  "demo_home = shelf_app\<lparr>ap_files :=
     \<lparr>fs_root = Dir [(''u'', Dir [(''Default'', Dir [(''Bookmarks'', File [1])])])],
      fs_cwd = [], fs_calls = 0, fs_stats = 0\<rparr>\<rparr>"

lemma demo_archived:
  "(case archive_profile demo_desk ''Default'' demo_home of
      (Inr rep, s) \<Rightarrow> map ar_directory (archives_of s) = [''Default''] \<and> map ar_id (archives_of s) = [''xxxxxxxx'']
        \<and> (case restore_archived_profile demo_desk ''xxxxxxxx'' s of (Inr rep, s') \<Rightarrow> True | _ \<Rightarrow> False)
        \<and> (case delete_archived_profile demo_desk ''xxxxxxxx'' s of (Inr rep, s') \<Rightarrow> True | _ \<Rightarrow> False)
    | _ \<Rightarrow> False)"
  by code_simp

lemma demo_desk_apart:
  "set (user_data_dirs (de_discovery demo_desk)) = {[RootDir, Normal ''u'']}" "archives_apart demo_desk ''Default'' s"
proof -
  show dirs: "set (user_data_dirs (de_discovery demo_desk)) = {[RootDir, Normal ''u'']}"
    by (simp add: demo_desk_def user_data_dirs_def platform_candidates_def)
  have "plain_name (le_uuid_text (desk_local demo_desk) u)" for u
    by (auto simp: plain_name_def demo_desk_def desk_env_def)
  with dirs show "archives_apart demo_desk ''Default'' s"
    by (simp add: archives_apart_def plain_name_def downward_def)
qed

lemma demo_home_archives: "archives_of demo_home = []"
  by (simp add: archives_of_def demo_home_def shelf_app_def fresh_local_def empty_local_db_def)

section \<open>Properties\<close>

text \<open>C10. Archiving a profile, whatever calls fail: its directory ends whole at one of two places. Either
  it is where it was and no archive is recorded, or it is the archive that one new row names; only when
  an error says that moving it back failed too, it is in the archives without a row. Success means the row is there.\<close>

theorem archiving_keeps_profile:
  assumes "archive_profile d dir s = (r, s')" and "archives_apart d dir (ap_files s)"
  shows "archive_outcome d dir s r s'"
  by (rule archive_profile_outcome [OF assms])

lemma archiving_keeps_profile_witness:
  "\<exists>rep s'. archive_profile demo_desk ''Default'' demo_home = (Inr rep, s') \<and> archive_outcome demo_desk ''Default'' demo_home (Inr rep) s'"
proof -
  obtain rep s' where run: "archive_profile demo_desk ''Default'' demo_home = (Inr rep, s')"
    using demo_archived by (auto split: prod.splits sum.splits)
  with archiving_keeps_profile [OF run demo_desk_apart(2)] show ?thesis by blast
qed

text \<open>C30. A profile that was archived and restored from that archive has the directory it had, and the
  archives are those there were.\<close>

theorem archive_restored:
  assumes "archive_profile d dir s = (Inr rep, s1)" and "restore_archived_profile d i s1 = (Inr rep', s2)"
    and "row \<in> set (archives_of s1)" and "ar_id row = i" and "ar_directory row = dir"
    and "archives_apart d dir (ap_files s)" and "set (user_data_dirs (de_discovery d)) = {u}"
    and "key_ok ar_id (archives_of s)"
  shows "node_of (ap_files s2) (u @ [Normal dir]) = node_of (ap_files s) (u @ [Normal dir]) \<and> archives_of s2 = archives_of s"
proof -
  from archive_profile_outcome [OF assms(1,6)] obtain j new where
    there: "moved (u @ [Normal dir]) (archived_at u j) (ap_files s) (ap_files s1)"
    and new: "ar_id new = j" "ar_archive_directory new = j" "archives_of s1 = archives_of s @ [new]"
      "find_row ar_id j (archives_of s) = None" "find_row ar_directory dir (archives_of s) = None"
    unfolding archive_outcome_def assms(7) by (simp del: append.simps) blast
  have row: "row = new" using assms(3,5) new(3,5) by (auto simp: find_row_None)
  have key: "key_ok ar_id (archives_of s1)"
    using assms(8) new(1,3,4) by (auto simp: key_ok_def find_row_None)
  have set: "archives_apart d (ar_directory row) (ap_files s1)"
    using assms(6,7) by (simp add: archives_apart_def assms(5))
  from restore_archived_profile_outcome [OF assms(2) key assms(3,4) set]
  have "moved (archived_at u (ar_archive_directory row)) (u @ [Normal dir]) (ap_files s1) (ap_files s2)
      \<and> archives_of s2 = filter (\<lambda>x. ar_id x \<noteq> i) (archives_of s1)"
    unfolding restore_outcome_def assms(5,7) by (simp del: append.simps)
  then have here: "moved (archived_at u j) (u @ [Normal dir]) (ap_files s1) (ap_files s2)"
    and rows: "archives_of s2 = filter (\<lambda>x. ar_id x \<noteq> i) (archives_of s1)"
    by (simp_all add: row new(2))
  have "filter (\<lambda>x. ar_id x \<noteq> j) (archives_of s) = archives_of s"
    using new(4) by (auto simp: find_row_None filter_id_conv)
  with rows row new(1,3) assms(4) have "archives_of s2 = archives_of s" by simp
  with there here show ?thesis by (simp add: moved_def)
qed

lemma archive_restored_witness:
  "\<exists>rep s1 rep' s2. archive_profile demo_desk ''Default'' demo_home = (Inr rep, s1)
    \<and> restore_archived_profile demo_desk ''xxxxxxxx'' s1 = (Inr rep', s2)
    \<and> node_of (ap_files s2) [RootDir, Normal ''u'', Normal ''Default''] = Some (Dir [(''Bookmarks'', File [1])])"
proof -
  obtain rep s1 rep' s2 where run: "archive_profile demo_desk ''Default'' demo_home = (Inr rep, s1)"
    "restore_archived_profile demo_desk ''xxxxxxxx'' s1 = (Inr rep', s2)"
    and rows: "map ar_directory (archives_of s1) = [''Default'']" "map ar_id (archives_of s1) = [''xxxxxxxx'']"
    using demo_archived by (auto split: prod.splits sum.splits)
  from rows obtain row where row: "row \<in> set (archives_of s1)" "ar_id row = ''xxxxxxxx''" "ar_directory row = ''Default''"
    by (auto simp: map_eq_Cons_conv)
  have "node_of (ap_files demo_home) [RootDir, Normal ''u'', Normal ''Default''] = Some (Dir [(''Bookmarks'', File [1])])"
    by (simp add: demo_home_def node_of_def place_def)
  with archive_restored [OF run row demo_desk_apart(2,1)] run demo_home_archives show ?thesis by simp
qed

text \<open>C31. Deleting an archive touches nothing but its own directory below the archives, whatever calls
  fail; its row goes only when that directory is gone, and success means both.\<close>

theorem deleting_removes_only_the_archive:
  assumes "delete_archived_profile d i s = (r, s')" and "key_ok ar_id (archives_of s)"
    and "row \<in> set (archives_of s)" and "ar_id row = i" and "\<And>u. plain_name (le_uuid_text (desk_local d) u)"
  shows "delete_outcome d row i s r s'"
  by (rule delete_archived_profile_outcome [OF assms])

lemma deleting_removes_only_the_archive_witness:
  "\<exists>s1 rep s2. delete_archived_profile demo_desk ''xxxxxxxx'' s1 = (Inr rep, s2) \<and> length (archives_of s1) = 1
    \<and> archives_of s2 = []"
proof -
  obtain rep s1 rep' s2 where run: "archive_profile demo_desk ''Default'' demo_home = (Inr rep, s1)"
    "delete_archived_profile demo_desk ''xxxxxxxx'' s1 = (Inr rep', s2)"
    and rows: "map ar_id (archives_of s1) = [''xxxxxxxx'']"
    using demo_archived by (auto split: prod.splits sum.splits)
  from rows obtain row where row: "archives_of s1 = [row]" "ar_id row = ''xxxxxxxx''" by (auto simp: map_eq_Cons_conv)
  have "plain_name (le_uuid_text (desk_local demo_desk) u)" for u
    using demo_desk_apart(2) [of "ap_files s1"] by (simp add: archives_apart_def)
  from deleting_removes_only_the_archive [OF run(2) _ _ row(2) this] row
  have "archives_of s2 = []" by (auto simp: key_ok_def delete_outcome_def)
  with run(2) row(1) show ?thesis by (intro exI [of _ s1] exI [of _ rep'] exI [of _ s2]) simp
qed

end
