(* ===== verification/Secrets.thy ===== *)
theory Secrets
  imports Crypto
begin

text \<open>
  The secret store of the client, \<open>helium-sync-client-core/src/secrets.rs\<close>, and the operations of
  \<open>helium-sync-client/src-tauri/src/main.rs\<close> that use it alone. The trait \<open>SecretStore\<close> is
  \<open>secret_ops\<close>; its contract is the locale \<open>secret_store\<close>, in which the operations that use a
  store are verified once, whatever the store is. The in-memory store provides the contract; the
  native one provides it over the \<open>keyring\<close> crate, whose entries are the fields of \<open>keyring\<close>.
\<close>

section \<open>Stores\<close>

record 'w secret_ops =
  secret_set :: "string \<Rightarrow> string \<Rightarrow> ('w, client_error, unit) comp"
  secret_get :: "string \<Rightarrow> ('w, client_error, string option) comp"
  secret_delete :: "string \<Rightarrow> ('w, client_error, unit) comp"

text \<open>A \<open>Mutex<HashMap<String, String>>\<close>: the lock fails when its mutex is poisoned.\<close>

record memory_secrets =
  ms_values :: "string \<Rightarrow> string option"
  ms_poisoned :: bool

definition locked :: "(memory_secrets \<Rightarrow> 'a \<times> memory_secrets) \<Rightarrow> (memory_secrets, client_error, 'a) comp" where
  "locked f s =
     (if ms_poisoned s then (Inl (SecretStore ''in-memory secret store lock failed''), s)
      else (let (x, s') = f s in (Inr x, s')))"

definition memory_set :: "string \<Rightarrow> string \<Rightarrow> (memory_secrets, client_error, unit) comp" where
  "memory_set key v = locked (\<lambda>s. ((), s\<lparr>ms_values := (ms_values s)(key \<mapsto> v)\<rparr>))"

definition memory_get :: "string \<Rightarrow> (memory_secrets, client_error, string option) comp" where
  "memory_get key = locked (\<lambda>s. (ms_values s key, s))"

definition memory_delete :: "string \<Rightarrow> (memory_secrets, client_error, unit) comp" where
  "memory_delete key = locked (\<lambda>s. ((), s\<lparr>ms_values := (ms_values s)(key := None)\<rparr>))"

definition memory_store :: "memory_secrets secret_ops" where
  "memory_store = \<lparr>secret_set = memory_set, secret_get = memory_get, secret_delete = memory_delete\<rparr>"

text \<open>The keyring: an entry of a service is made (which may fail), then set, read or deleted.\<close>

datatype keyring_error = NoEntry | Keyring_failed string

record 'w keyring =
  kr_entry :: "string \<Rightarrow> string \<Rightarrow> string option"
  kr_set :: "string \<Rightarrow> string \<Rightarrow> string \<Rightarrow> ('w, keyring_error, unit) comp"
  kr_get :: "string \<Rightarrow> string \<Rightarrow> ('w, keyring_error, string) comp"
  kr_delete :: "string \<Rightarrow> string \<Rightarrow> ('w, keyring_error, unit) comp"

text \<open>\<open>kr_entry\<close> is the message of a failed \<open>Entry::new\<close>.\<close>

definition keyring_message :: "keyring_error \<Rightarrow> string" where
  "keyring_message er = (case er of NoEntry \<Rightarrow> ''No matching entry found in secure storage'' | Keyring_failed m \<Rightarrow> m)"

definition native_entry :: "'w keyring \<Rightarrow> string \<Rightarrow> string \<Rightarrow> client_error + unit" where
  "native_entry k service key =
     (case kr_entry k service key of None \<Rightarrow> Inr () | Some m \<Rightarrow> Inl (SecretStore m))"

definition native_set :: "'w keyring \<Rightarrow> string \<Rightarrow> string \<Rightarrow> string \<Rightarrow> ('w, client_error, unit) comp" where
  "native_set k service key v =
     bindS (liftS (native_entry k service key)) (\<lambda>_ s.
     case kr_set k service key v s of (r, s') \<Rightarrow> (map_err (\<lambda>er. SecretStore (keyring_message er)) r, s'))"

definition native_get :: "'w keyring \<Rightarrow> string \<Rightarrow> string \<Rightarrow> ('w, client_error, string option) comp" where
  "native_get k service key =
     bindS (liftS (native_entry k service key)) (\<lambda>_ s.
     case kr_get k service key s of
       (Inr v, s') \<Rightarrow> (Inr (Some v), s')
     | (Inl NoEntry, s') \<Rightarrow> (Inr None, s')
     | (Inl er, s') \<Rightarrow> (Inl (SecretStore (keyring_message er)), s'))"

definition native_delete :: "'w keyring \<Rightarrow> string \<Rightarrow> string \<Rightarrow> ('w, client_error, unit) comp" where
  "native_delete k service key =
     bindS (liftS (native_entry k service key)) (\<lambda>_ s.
     case kr_delete k service key s of
       (Inr _, s') \<Rightarrow> (Inr (), s')
     | (Inl NoEntry, s') \<Rightarrow> (Inr (), s')
     | (Inl er, s') \<Rightarrow> (Inl (SecretStore (keyring_message er)), s'))"

definition native_store :: "'w keyring \<Rightarrow> string \<Rightarrow> 'w secret_ops" where
  "native_store k service =
     \<lparr>secret_set = native_set k service, secret_get = native_get k service, secret_delete = native_delete k service\<rparr>"

section \<open>Operations on a store\<close>

definition MASTER_KEY_ENTRY :: string where "MASTER_KEY_ENTRY = ''sync-master-key''"
definition CONNECTION_SETTINGS_KEY :: string where "CONNECTION_SETTINGS_KEY = ''connection-settings-v1''"

text \<open>The random key is an argument; it is drawn only when no code is stored.\<close>

definition load_or_create_master_key ::
  "suite \<Rightarrow> 'w secret_ops \<Rightarrow> bytes \<Rightarrow> ('w, client_error, bytes \<times> string) comp" where
  "load_or_create_master_key c st fresh =
     bindS (secret_get st MASTER_KEY_ENTRY) (\<lambda>stored.
     case stored of
       Some code \<Rightarrow> bindS (liftS (from_recovery_code c code)) (\<lambda>key. returnS (key, code))
     | None \<Rightarrow>
         (let code = recovery_code c fresh in
          bindS (secret_set st MASTER_KEY_ENTRY code) (\<lambda>_. returnS (fresh, code))))"

definition import_code :: "suite \<Rightarrow> 'w secret_ops \<Rightarrow> string \<Rightarrow> ('w, client_error, unit) comp" where
  "import_code c st code =
     bindS (liftS (from_recovery_code c code)) (\<lambda>_. secret_set st MASTER_KEY_ENTRY code)"

definition delete_legacy :: "'w secret_ops \<Rightarrow> string \<Rightarrow> ('w, client_error, unit) comp" where
  "delete_legacy st key s =
     (case secret_delete st key s of
        (Inl (SecretStore m), s') \<Rightarrow>
          (Inl (SecretStore (''Connection settings were saved, but legacy keyring cleanup failed: '' @ m)), s')
      | x \<Rightarrow> x)"

definition persist_connection_settings ::
  "('c \<Rightarrow> string option) \<Rightarrow> 'w secret_ops \<Rightarrow> 'c \<Rightarrow> ('w, client_error, unit) comp" where
  "persist_connection_settings to_text st connection =
     bindS (liftS (ok_or (Serialization ''Could not serialize connection settings'') (to_text connection))) (\<lambda>serialized.
     bindS (secret_set st CONNECTION_SETTINGS_KEY serialized) (\<lambda>_.
     bindS (delete_legacy st ''api-token'') (\<lambda>_.
     delete_legacy st ''ssh-key-passphrase'')))"

definition load_connection_settings ::
  "(string \<Rightarrow> 'c option) \<Rightarrow> 'w secret_ops \<Rightarrow> ('w, client_error, 'c option) comp" where
  "load_connection_settings of_text st =
     bindS (secret_get st CONNECTION_SETTINGS_KEY) (\<lambda>saved.
     case saved of
       None \<Rightarrow> returnS None
     | Some t \<Rightarrow> liftS (map_sum id Some (ok_or (Serialization ''Saved connection settings are invalid'') (of_text t))))"

section \<open>The contract of a store\<close>

text \<open>\<open>stored\<close> is what the store holds. Each call does what it says or fails with an error of the
  store, and a call that fails changes nothing.\<close>

locale secret_store =
  fixes st :: "'w secret_ops" and stored :: "'w \<Rightarrow> string \<Rightarrow> string option"
  assumes set_law: "secret_set st key v w = (r, w') \<Longrightarrow>
      (r = Inr () \<and> stored w' = (stored w)(key \<mapsto> v)) \<or> (\<exists>m. r = Inl (SecretStore m)) \<and> stored w' = stored w"
    and get_law: "secret_get st key w = (q, w') \<Longrightarrow>
      stored w' = stored w \<and> (q = Inr (stored w key) \<or> (\<exists>m. q = Inl (SecretStore m)))"
    and delete_law: "secret_delete st key w = (r, w') \<Longrightarrow>
      (r = Inr () \<and> stored w' = (stored w)(key := None)) \<or> (\<exists>m. r = Inl (SecretStore m)) \<and> stored w' = stored w"
begin

lemma set_other:
  assumes "secret_set st key v w = (r, w')" and "x \<noteq> key"
  shows "stored w' x = stored w x"
  using set_law [OF assms(1)] assms(2) by auto

lemma delete_legacy_effect:
  assumes "delete_legacy st key w = (r, w')"
  shows "stored w' = (stored w)(key := None) \<and> r = Inr () \<or> (\<exists>m. r = Inl (SecretStore m)) \<and> stored w' = stored w"
proof -
  obtain q w1 where q: "secret_delete st key w = (q, w1)" by (cases "secret_delete st key w")
  with delete_law [OF q] assms show ?thesis by (auto simp: delete_legacy_def)
qed

text \<open>What is read back was written, and only the three keys of the settings are touched.\<close>

lemma persist_effect:
  assumes run: "persist_connection_settings to_text st connection w = (r, w')"
  shows "x \<notin> {CONNECTION_SETTINGS_KEY, ''api-token'', ''ssh-key-passphrase''} \<Longrightarrow> stored w' x = stored w x"
    and "r = Inr () \<Longrightarrow> \<exists>t. to_text connection = Some t \<and>
      stored w' = (stored w)(CONNECTION_SETTINGS_KEY \<mapsto> t, ''api-token'' := None, ''ssh-key-passphrase'' := None)"
    and "stored w' CONNECTION_SETTINGS_KEY = stored w CONNECTION_SETTINGS_KEY \<or>
      stored w' CONNECTION_SETTINGS_KEY = to_text connection"
proof -
  have keys: "CONNECTION_SETTINGS_KEY \<noteq> ''api-token''" "CONNECTION_SETTINGS_KEY \<noteq> ''ssh-key-passphrase''"
    by (simp_all add: CONNECTION_SETTINGS_KEY_def)
  have "stored w' = stored w \<and> r \<noteq> Inr () \<or> (\<exists>t. to_text connection = Some t \<and>
      (stored w' = (stored w)(CONNECTION_SETTINGS_KEY \<mapsto> t) \<and> r \<noteq> Inr () \<or>
       stored w' = (stored w)(CONNECTION_SETTINGS_KEY \<mapsto> t, ''api-token'' := None) \<and> r \<noteq> Inr () \<or>
       stored w' = (stored w)(CONNECTION_SETTINGS_KEY \<mapsto> t, ''api-token'' := None, ''ssh-key-passphrase'' := None)))"
    using run unfolding persist_connection_settings_def
    by (cases r) (auto simp: result_simps dest!: set_law delete_legacy_effect)
  with keys show "x \<notin> {CONNECTION_SETTINGS_KEY, ''api-token'', ''ssh-key-passphrase''} \<Longrightarrow> stored w' x = stored w x"
    "r = Inr () \<Longrightarrow> \<exists>t. to_text connection = Some t \<and>
      stored w' = (stored w)(CONNECTION_SETTINGS_KEY \<mapsto> t, ''api-token'' := None, ''ssh-key-passphrase'' := None)"
    "stored w' CONNECTION_SETTINGS_KEY = stored w CONNECTION_SETTINGS_KEY \<or>
      stored w' CONNECTION_SETTINGS_KEY = to_text connection"
    by auto
qed

text \<open>A stored master key is never replaced, and the one made is the one that is stored.\<close>

lemma master_key_effect:
  assumes run: "load_or_create_master_key c st fresh w = (r, w')"
  shows "x \<noteq> MASTER_KEY_ENTRY \<Longrightarrow> stored w' x = stored w x"
    and "stored w MASTER_KEY_ENTRY \<noteq> None \<Longrightarrow> stored w' = stored w"
    and "r = Inr (key, code) \<Longrightarrow> stored w' MASTER_KEY_ENTRY = Some code \<and>
      (from_recovery_code c code = Inr key \<or> stored w MASTER_KEY_ENTRY = None \<and> key = fresh \<and> code = recovery_code c fresh)"
proof -
  obtain q w1 where q: "secret_get st MASTER_KEY_ENTRY w = (q, w1)" by (cases "secret_get st MASTER_KEY_ENTRY w")
  note got = get_law [OF q]
  show "x \<noteq> MASTER_KEY_ENTRY \<Longrightarrow> stored w' x = stored w x"
    "stored w MASTER_KEY_ENTRY \<noteq> None \<Longrightarrow> stored w' = stored w"
    "r = Inr (key, code) \<Longrightarrow> stored w' MASTER_KEY_ENTRY = Some code \<and>
      (from_recovery_code c code = Inr key \<or> stored w MASTER_KEY_ENTRY = None \<and> key = fresh \<and> code = recovery_code c fresh)"
  proof (atomize (full), cases q)
    case (Inl er)
    with run got q show "(x \<noteq> MASTER_KEY_ENTRY \<longrightarrow> stored w' x = stored w x) \<and>
        (stored w MASTER_KEY_ENTRY \<noteq> None \<longrightarrow> stored w' = stored w) \<and>
        (r = Inr (key, code) \<longrightarrow> stored w' MASTER_KEY_ENTRY = Some code \<and>
          (from_recovery_code c code = Inr key \<or> stored w MASTER_KEY_ENTRY = None \<and> key = fresh \<and> code = recovery_code c fresh))"
      by (auto simp: load_or_create_master_key_def bindS_def)
  next
    case (Inr held)
    then have held: "stored w1 = stored w" "held = stored w MASTER_KEY_ENTRY" using got by auto
    show "(x \<noteq> MASTER_KEY_ENTRY \<longrightarrow> stored w' x = stored w x) \<and>
        (stored w MASTER_KEY_ENTRY \<noteq> None \<longrightarrow> stored w' = stored w) \<and>
        (r = Inr (key, code) \<longrightarrow> stored w' MASTER_KEY_ENTRY = Some code \<and>
          (from_recovery_code c code = Inr key \<or> stored w MASTER_KEY_ENTRY = None \<and> key = fresh \<and> code = recovery_code c fresh))"
    proof (cases held)
      case None
      obtain t w2 where set_run: "secret_set st MASTER_KEY_ENTRY (recovery_code c fresh) w1 = (t, w2)"
        by (cases "secret_set st MASTER_KEY_ENTRY (recovery_code c fresh) w1")
      from run q Inr None set_run have "w' = w2 \<and> (r = Inr (fresh, recovery_code c fresh) \<and> t = Inr () \<or> (\<exists>er. t = Inl er \<and> r = Inl er))"
        by (cases t) (auto simp: load_or_create_master_key_def Let_def bindS_def returnS_def)
      with set_law [OF set_run] held None show ?thesis by auto
    next
      case (Some stored_code)
      from run q Inr Some have "w' = w1 \<and> (r = Inr (key, code) \<longrightarrow> code = stored_code \<and> from_recovery_code c code = Inr key)"
        by (cases "from_recovery_code c stored_code") (auto simp: load_or_create_master_key_def bindS_def liftS_def returnS_def)
      with held Some show ?thesis by auto
    qed
  qed
qed

end

interpretation memory: secret_store memory_store ms_values
proof unfold_locales
  show "secret_set memory_store key v w = (r, w') \<Longrightarrow>
      r = Inr () \<and> ms_values w' = (ms_values w)(key \<mapsto> v) \<or> (\<exists>m. r = Inl (SecretStore m)) \<and> ms_values w' = ms_values w"
    for key v w r w'
    by (auto simp: memory_store_def memory_set_def locked_def split: if_splits)
  show "secret_get memory_store key w = (q, w') \<Longrightarrow>
      ms_values w' = ms_values w \<and> (q = Inr (ms_values w key) \<or> (\<exists>m. q = Inl (SecretStore m)))" for key w q w'
    by (auto simp: memory_store_def memory_get_def locked_def split: if_splits)
  show "secret_delete memory_store key w = (r, w') \<Longrightarrow>
      r = Inr () \<and> ms_values w' = (ms_values w)(key := None) \<or> (\<exists>m. r = Inl (SecretStore m)) \<and> ms_values w' = ms_values w"
    for key w r w'
    by (auto simp: memory_store_def memory_delete_def locked_def split: if_splits)
qed

text \<open>What the \<open>keyring\<close> crate documents of the entries of one service: \<open>held\<close> is the password of
  each, \<open>NoEntry\<close> means there is none, and a call that fails leaves the entries as they were.\<close>

definition keyring_ok :: "'w keyring \<Rightarrow> string \<Rightarrow> ('w \<Rightarrow> string \<Rightarrow> string option) \<Rightarrow> bool" where
  "keyring_ok k service held \<longleftrightarrow>
     (\<forall>key v w r w'. kr_set k service key v w = (r, w') \<longrightarrow>
        (r = Inr () \<and> held w' = (held w)(key \<mapsto> v)) \<or> (\<exists>er. r = Inl er) \<and> held w' = held w) \<and>
     (\<forall>key w r w'. kr_get k service key w = (r, w') \<longrightarrow> held w' = held w \<and>
        (\<forall>v. r = Inr v \<longrightarrow> held w key = Some v) \<and> (r = Inl NoEntry \<longrightarrow> held w key = None)) \<and>
     (\<forall>key w r w'. kr_delete k service key w = (r, w') \<longrightarrow>
        (r = Inr () \<and> held w' = (held w)(key := None)) \<or>
        (\<exists>er. r = Inl er) \<and> held w' = held w \<and> (r = Inl NoEntry \<longrightarrow> held w key = None))"

lemma native_run: "bindS (liftS (native_entry k service key)) m w = (r, w') \<Longrightarrow>
    m () w = (r, w') \<or> (\<exists>x. r = Inl (SecretStore x)) \<and> w' = w"
  by (auto simp: native_entry_def bindS_def liftS_def split: option.splits)

lemma native_secret_store:
  assumes "keyring_ok k service held"
  shows "secret_store (native_store k service) held"
proof
  note ok = assms [unfolded keyring_ok_def]
  fix key v w r w'
  assume run: "secret_set (native_store k service) key v w = (r, w')"
  obtain q u where q: "kr_set k service key v w = (q, u)" by (cases "kr_set k service key v w")
  from ok [THEN conjunct1, rule_format, OF q] q native_run [OF run [unfolded native_store_def native_set_def secret_ops.select_convs]]
  show "r = Inr () \<and> held w' = (held w)(key \<mapsto> v) \<or> (\<exists>m. r = Inl (SecretStore m)) \<and> held w' = held w"
    by auto
next
  note ok = assms [unfolded keyring_ok_def]
  fix key w q w'
  assume run: "secret_get (native_store k service) key w = (q, w')"
  obtain r u where r: "kr_get k service key w = (r, u)" by (cases "kr_get k service key w")
  from ok [THEN conjunct2, THEN conjunct1, rule_format, OF r] r native_run [OF run [unfolded native_store_def native_get_def secret_ops.select_convs]]
  show "held w' = held w \<and> (q = Inr (held w key) \<or> (\<exists>m. q = Inl (SecretStore m)))"
    by (auto split: sum.splits keyring_error.splits)
next
  note ok = assms [unfolded keyring_ok_def]
  fix key w r w'
  assume run: "secret_delete (native_store k service) key w = (r, w')"
  obtain q u where q: "kr_delete k service key w = (q, u)" by (cases "kr_delete k service key w")
  from ok [THEN conjunct2, THEN conjunct2, rule_format, OF q] q native_run [OF run [unfolded native_store_def native_delete_def secret_ops.select_convs]]
  show "r = Inr () \<and> held w' = (held w)(key := None) \<or> (\<exists>m. r = Inl (SecretStore m)) \<and> held w' = held w"
    by (auto split: sum.splits keyring_error.splits)
qed

end
