(* ===== verification/Transports.thy ===== *)
theory Transports
  imports ClientApi Discovery
begin

text \<open>
  The two transports of the API client: HTTPS (\<open>helium-sync-client-core/src/https.rs\<close>) and SSH to a
  Unix socket (\<open>ssh.rs\<close>). The crates \<open>url\<close>, \<open>reqwest\<close>, \<open>x509-parser\<close>, \<open>russh\<close> and \<open>hyper\<close> are the
  fields of \<open>https_lib\<close> and \<open>ssh_lib\<close>; their calls act on a remote state \<open>'s\<close>, so what has reached
  the other end is visible in it. A \<open>Url\<close> is its serialization.
  \<^item> The application's known-hosts files are part of the state, the user's own file is not changed.
  \<^item> \<open>connect\<close> of \<open>russh\<close> is two calls, up to the server's key (\<open>sl_greet\<close>) and from its acceptance
    by the handler (\<open>sl_enter\<close>).
\<close>

section \<open>HTTPS\<close>

datatype url = ServerUrl (server_url_text: string)

datatype certificate_mode =
    SystemTrust
  | CustomCa path
  | Pinned path string

text \<open>What the builder of the HTTP client is given: the roots to trust, beside TLS 1.3 only and the
  time limits, which are constants.\<close>

datatype trust_roots = Built_in | Only_certificate bytes

text \<open>An error of \<open>reqwest\<close>: whether it is a time-out, whether it is of connecting, and its text.\<close>

record http_error =
  he_timeout :: bool
  he_connect :: bool
  he_text :: string

record http_response =
  hx_status :: nat
  hx_tls :: "bytes option option"

record 's https_lib =
  hl_scheme :: "url \<Rightarrow> string"
  hl_username :: "url \<Rightarrow> string"
  hl_password :: "url \<Rightarrow> string option"
  hl_host :: "url \<Rightarrow> string option"
  hl_join :: "url \<Rightarrow> string \<Rightarrow> string + url"
  hl_read :: "path \<Rightarrow> string + bytes"
  hl_certificate :: "bytes \<Rightarrow> string + bytes"
  hl_first_pem :: "bytes \<Rightarrow> (string + bytes) option"
  hl_build :: "trust_roots \<Rightarrow> string + unit"
  hl_spki :: "bytes \<Rightarrow> string + bytes"
  hl_sha256 :: "bytes \<Rightarrow> bytes"
  hl_base64 :: "bytes \<Rightarrow> string"
  hl_send :: "trust_roots \<Rightarrow> url \<Rightarrow> transport_request \<Rightarrow> ('s, http_error, http_response) comp"
  hl_body :: "('s, http_error, bytes) comp"

record https_transport =
  ht_base_url :: url
  ht_roots :: trust_roots
  ht_expected_spki :: "string option"

definition certificate_unreadable :: "path \<Rightarrow> string \<Rightarrow> client_error" where
  "certificate_unreadable p er = Configuration (''could not read certificate '' @ path_text p @ '': '' @ er)"

definition load_certificate :: "'s https_lib \<Rightarrow> path \<Rightarrow> client_error + bytes" where
  "load_certificate h p =
     andThen (map_err (certificate_unreadable p) (hl_read h p)) (\<lambda>pem.
     map_err (\<lambda>er. Tls (''certificate PEM is invalid: '' @ er)) (hl_certificate h pem))"

definition select_roots :: "'s https_lib \<Rightarrow> certificate_mode \<Rightarrow> client_error + trust_roots \<times> string option" where
  "select_roots h mode =
     (case mode of
        SystemTrust \<Rightarrow> Inr (Built_in, None)
      | CustomCa p \<Rightarrow> andThen (load_certificate h p) (\<lambda>c. Inr (Only_certificate c, None))
      | Pinned p pin \<Rightarrow>
          if \<not> starts_with ''sha256/'' pin
          then Inl (Configuration ''SPKI pin must use the sha256/<base64> format'')
          else andThen (load_certificate h p) (\<lambda>c. Inr (Only_certificate c, Some pin)))"

definition new_https_transport :: "'s https_lib \<Rightarrow> url \<Rightarrow> certificate_mode \<Rightarrow> client_error + https_transport" where
  "new_https_transport h base_url mode =
     (if hl_scheme h base_url \<noteq> ''https''
      then Inl (Configuration ''server URL must use https://; plaintext HTTP is not supported'')
      else if hl_username h base_url \<noteq> [] \<or> hl_password h base_url \<noteq> None
      then Inl (Configuration ''credentials must not be embedded in the server URL'')
      else if hl_host h base_url = None
      then Inl (Configuration ''server URL must include a hostname'')
      else
        andThen (select_roots h mode) (\<lambda>(roots, expected).
        andThen (map_err Tls (hl_build h roots)) (\<lambda>_.
        Inr \<lparr>ht_base_url = base_url, ht_roots = roots, ht_expected_spki = expected\<rparr>)))"

definition spki_sha256 :: "'s https_lib \<Rightarrow> bytes \<Rightarrow> client_error + string" where
  "spki_sha256 h der =
     andThen (map_err (\<lambda>er. Tls (''could not parse peer certificate: '' @ er)) (hl_spki h der)) (\<lambda>raw.
     Inr (''sha256/'' @ hl_base64 h (hl_sha256 h raw)))"

definition spki_sha256_from_pem :: "'s https_lib \<Rightarrow> path \<Rightarrow> client_error + string" where
  "spki_sha256_from_pem h p =
     andThen (map_err (certificate_unreadable p) (hl_read h p)) (\<lambda>pem.
     case hl_first_pem h pem of
       None \<Rightarrow> Inl (Tls ''certificate PEM contains no certificate'')
     | Some (Inl er) \<Rightarrow> Inl (Tls (''certificate PEM is invalid: '' @ er))
     | Some (Inr der) \<Rightarrow> spki_sha256 h der)"

definition to_ascii_lowercase :: "string \<Rightarrow> string" where
  "to_ascii_lowercase s =
     map (\<lambda>c. if 65 \<le> code_of c \<and> code_of c \<le> 90 then char_of (code_of c + 32) else c) s"

fun contains_text :: "string \<Rightarrow> string \<Rightarrow> bool" where
  "contains_text w [] \<longleftrightarrow> w = []"
| "contains_text w (c # s) \<longleftrightarrow> starts_with w (c # s) \<or> contains_text w s"

definition classify_reqwest :: "http_error \<Rightarrow> client_error" where
  "classify_reqwest er =
     (if he_timeout er then Timeout
      else if he_connect er
      then (if contains_text ''certificate'' (to_ascii_lowercase (he_text er)) \<or>
               contains_text ''tls'' (to_ascii_lowercase (he_text er))
            then Tls (he_text er) else Connect (he_text er))
      else Connect (he_text er))"

text \<open>The pin is compared with the leaf certificate of the response.\<close>

definition check_pin :: "'s https_lib \<Rightarrow> string option \<Rightarrow> http_response \<Rightarrow> client_error + unit" where
  "check_pin h expected response =
     (case expected of
        None \<Rightarrow> Inr ()
      | Some pin \<Rightarrow>
          andThen (ok_or (Tls ''peer certificate details were unavailable'') (hx_tls response)) (\<lambda>info.
          andThen (ok_or (Tls ''server did not present a leaf certificate'') info) (\<lambda>certificate.
          andThen (spki_sha256 h certificate) (\<lambda>actual.
          if actual \<noteq> pin
          then Inl (Tls (''server public-key pin mismatch (expected '' @ pin @ '', received '' @ actual @ '')''))
          else Inr ()))))"

definition failing_as :: "('e \<Rightarrow> 'f) \<Rightarrow> ('s, 'e, 'a) comp \<Rightarrow> ('s, 'f, 'a) comp" where
  "failing_as f m = (\<lambda>s. let (r, s') = m s in (map_err f r, s'))"

lemma failing_as_iff [result_simps]:
  "failing_as f m s = (r, s') \<longleftrightarrow> (\<exists>q. m s = (q, s') \<and> r = map_err f q)"
  by (auto simp: failing_as_def split: prod.splits)

definition https_execute :: "'s https_lib \<Rightarrow> https_transport \<Rightarrow> 's transport" where
  "https_execute h t request =
     bindS (liftS (map_err Configuration
       (hl_join h (ht_base_url t) (dropWhile (\<lambda>c. c = CHR ''/'') (tr_path request))))) (\<lambda>url.
     bindS (failing_as classify_reqwest (hl_send h (ht_roots t) url request)) (\<lambda>response.
     bindS (liftS (check_pin h (ht_expected_spki t) response)) (\<lambda>_.
     bindS (failing_as classify_reqwest (hl_body h)) (\<lambda>body.
     returnS \<lparr>ts_status = hx_status response, ts_body = body\<rparr>))))"

section \<open>SSH\<close>

record ssh_config =
  sc_host :: string
  sc_port :: u16
  sc_username :: string
  sc_private_key :: path
  sc_passphrase :: "string option"
  sc_remote_socket :: string
  sc_known_hosts :: path
  sc_trusted :: "string option"

datatype handler_error = Protocol string | Unknown string | Changed string

record 's ssh_lib =
  sl_is_file :: "path \<Rightarrow> bool"
  sl_load_key :: "path \<Rightarrow> string option \<Rightarrow> string + bytes"
  sl_user_hosts :: "string \<Rightarrow> u16 \<Rightarrow> bytes \<Rightarrow> string + bool"
  sl_check_hosts :: "string \<Rightarrow> u16 \<Rightarrow> bytes \<Rightarrow> bytes option \<Rightarrow> string + bool"
  sl_learn_host :: "string \<Rightarrow> u16 \<Rightarrow> bytes \<Rightarrow> bytes option \<Rightarrow> string + bytes"
  sl_fingerprint :: "bytes \<Rightarrow> string"
  sl_uri_ok :: "string \<Rightarrow> bool"
  sl_greet :: "string \<Rightarrow> u16 \<Rightarrow> ('s, string, bytes) comp"
  sl_enter :: "('s, string, unit) comp"
  sl_rsa_hash :: "('s, string, string option option) comp"
  sl_authenticate :: "string \<Rightarrow> bytes \<Rightarrow> string option \<Rightarrow> ('s, string, bool) comp"
  sl_open_socket :: "string \<Rightarrow> ('s, string, unit) comp"
  sl_handshake :: "('s, string, unit) comp"
  sl_send :: "transport_request \<Rightarrow> ('s, string, nat) comp"
  sl_body :: "('s, string, bytes) comp"
  sl_disconnect :: "('s, string, unit) comp"

text \<open>The known-hosts files of the application and what is beyond the network.\<close>

record 's reach =
  rc_known :: "path \<Rightarrow> bytes option"
  rc_net :: 's

definition on_net :: "('e \<Rightarrow> 'f) \<Rightarrow> ('s, 'e, 'a) comp \<Rightarrow> ('s reach, 'f, 'a) comp" where
  "on_net f m = (\<lambda>w. let (r, s) = m (rc_net w) in (map_err f r, w\<lparr>rc_net := s\<rparr>))"

lemma on_net_iff [result_simps]:
  "on_net f m w = (r, w') \<longleftrightarrow> (\<exists>q s. m (rc_net w) = (q, s) \<and> r = map_err f q \<and> w' = w\<lparr>rc_net := s\<rparr>)"
  by (auto simp: on_net_def split: prod.splits)

definition new_ssh_transport :: "'s ssh_lib \<Rightarrow> ssh_config \<Rightarrow> client_error + ssh_config" where
  "new_ssh_transport l c =
     (if rust_trim (sc_host c) = [] \<or> rust_trim (sc_username c) = [] \<or> rust_trim (sc_remote_socket c) = []
      then Inl (Configuration ''SSH host, username, and remote socket are required'')
      else if \<not> sl_is_file l (sc_private_key c)
      then Inl (Configuration (''SSH private key '' @ path_text (sc_private_key c) @ '' is not readable''))
      else Inr c)"

definition check_server_key :: "'s ssh_lib \<Rightarrow> ssh_config \<Rightarrow> bytes \<Rightarrow> ('s reach, handler_error, bool) comp" where
  "check_server_key l c key =
     bindS (liftS (map_err Changed (sl_user_hosts l (sc_host c) (sc_port c) key))) (\<lambda>known.
     if known then returnS True
     else (\<lambda>w.
       bindS (liftS (map_err Changed
         (sl_check_hosts l (sc_host c) (sc_port c) key (rc_known w (sc_known_hosts c))))) (\<lambda>known.
       if known then returnS True
       else (let fingerprint = sl_fingerprint l key in
         if sc_trusted c = Some fingerprint
         then bindS (liftS (map_err Changed
                (sl_learn_host l (sc_host c) (sc_port c) key (rc_known w (sc_known_hosts c))))) (\<lambda>hosts w.
              (Inr True, w\<lparr>rc_known := (rc_known w)(sc_known_hosts c \<mapsto> hosts)\<rparr>))
         else liftS (Inl (Unknown fingerprint)))) w))"

definition map_handler_error :: "handler_error \<Rightarrow> client_error" where
  "map_handler_error er =
     (case er of
        Unknown fingerprint \<Rightarrow> SshHostKeyUnknown fingerprint
      | Changed message \<Rightarrow> SshHostKeyChanged message
      | Protocol message \<Rightarrow> Ssh message)"

text \<open>A handler that answers \<open>Ok(false)\<close> would be a protocol error of the library.\<close>

definition ssh_connect :: "'s ssh_lib \<Rightarrow> ssh_config \<Rightarrow> ('s reach, handler_error, unit) comp" where
  "ssh_connect l c =
     bindS (on_net Protocol (sl_greet l (sc_host c) (sc_port c))) (\<lambda>key.
     bindS (check_server_key l c key) (\<lambda>accepted.
     if accepted then on_net Protocol (sl_enter l) else liftS (Inl (Protocol ''Unknown server key''))))"

definition load_private_key :: "'s ssh_lib \<Rightarrow> path \<Rightarrow> string option \<Rightarrow> client_error + bytes" where
  "load_private_key l p passphrase =
     map_err (\<lambda>er. Ssh (''could not load SSH private key: '' @ er)) (sl_load_key l p passphrase)"

definition outgoing_request :: "'s ssh_lib \<Rightarrow> transport_request \<Rightarrow> client_error + transport_request" where
  "outgoing_request l request =
     (if sl_uri_ok l (tr_path request)
      then Inr (request\<lparr>tr_headers := (''host'', ''helium-sync-unix-socket'') # tr_headers request\<rparr>)
      else Inl (Serialization ''invalid uri''))"

text \<open>The session once the server's key is accepted.\<close>

definition ssh_session :: "'s ssh_lib \<Rightarrow> ssh_config \<Rightarrow> bytes \<Rightarrow> 's reach transport" where
  "ssh_session l c key request =
     bindS (on_net Ssh (sl_rsa_hash l)) (\<lambda>hash.
     bindS (on_net Ssh (sl_authenticate l (sc_username c) key (case hash of None \<Rightarrow> None | Some x \<Rightarrow> x))) (\<lambda>success.
     if \<not> success then liftS (Inl SshAuthentication)
     else
       bindS (on_net RemoteSocket (sl_open_socket l (sc_remote_socket c))) (\<lambda>_.
       bindS (on_net RemoteSocket (sl_handshake l)) (\<lambda>_.
       bindS (liftS (outgoing_request l request)) (\<lambda>outgoing.
       bindS (on_net RemoteSocket (sl_send l outgoing)) (\<lambda>status.
       bindS (on_net RemoteSocket (sl_body l)) (\<lambda>body w.
       (let (_, s) = sl_disconnect l (rc_net w) in
        (Inr \<lparr>ts_status = status, ts_body = body\<rparr>, w\<lparr>rc_net := s\<rparr>)))))))))"

definition ssh_execute :: "'s ssh_lib \<Rightarrow> ssh_config \<Rightarrow> 's reach transport" where
  "ssh_execute l c request =
     bindS (liftS (load_private_key l (sc_private_key c) (sc_passphrase c))) (\<lambda>key.
     bindS (failing_as map_handler_error (ssh_connect l c)) (\<lambda>_.
     ssh_session l c key request))"

text \<open>The same remote reached over HTTPS.\<close>

definition https_reach :: "'s https_lib \<Rightarrow> https_transport \<Rightarrow> 's reach transport" where
  "https_reach h t request = on_net id (https_execute h t request)"

end
