(* ===== verification/SignIn.thy ===== *)
theory SignIn
  imports Lifecycle Network Secrets Transports
begin

text \<open>
  Signing in from the desktop client (\<open>connect_https\<close>, \<open>connect_ssh\<close> and \<open>connect\<close> of
  \<open>helium-sync-client/src-tauri/src/main.rs\<close>) and the commands on the recovery code and the saved
  connection, over the transports, the secret store, the API client and the commands on profiles.
  \<^item> \<open>ui_state\<close> is what the commands share; each holds the lock on profile operations to its end, so
    they run one after the other.
  \<^item> The fields of the core that are neither the API, the master key nor the device (the primitives, the
    clock, the JSON of snapshots) are those of \<open>ue_desk\<close>; so is the random source, which a new key is
    drawn from in turn.
  \<^item> A path that the user types is a string, as the form sends it. The rule for macOS is not included.
\<close>

section \<open>Data\<close>

record https_input =
  hi_url :: string
  hi_port :: u16
  hi_api_token :: string
  hi_certificate_mode :: string
  hi_certificate_path :: "string option"
  hi_spki_pin :: "string option"
  hi_device_name :: string

record ssh_input =
  si_host :: string
  si_port :: u16
  si_username :: string
  si_private_key :: string
  si_passphrase :: "string option"
  si_remote_socket :: string
  si_api_token :: string
  si_trusted_fingerprint :: "string option"
  si_device_name :: string

datatype saved_connection = Saved_https https_input | Saved_ssh ssh_input

record diagnostic_check =
  dc_name :: string
  dc_ok :: bool
  dc_summary :: string
  dc_details :: string

record login_result =
  lg_sync :: "sync_feedback option"
  lg_checks :: "diagnostic_check list"

record 's session =
  us_core :: "'s core"
  us_code :: string
  us_server :: string

record ('w, 's) ui_state =
  ui_app :: "'s api_state app"
  ui_secrets :: 'w
  ui_session :: "'s api_state session option"

record ('w, 's) ui_env =
  ue_desk :: "'s api_state desk"
  ue_store :: "'w secret_ops"
  ue_json :: body_codec
  ue_fresh_key :: "nat \<Rightarrow> bytes"
  ue_settings_text :: "saved_connection \<Rightarrow> string option"
  ue_settings_parse :: "string \<Rightarrow> saved_connection option"
  ue_home :: "string option"
  ue_data_dir :: path

text \<open>The crate \<open>url\<close>: \<open>set_port\<close> fails for a URL that cannot have one.\<close>

record url_lib =
  ul_parse :: "string \<Rightarrow> string + url"
  ul_port :: "url \<Rightarrow> u16 option"
  ul_set_port :: "u16 \<Rightarrow> url \<Rightarrow> url option"
  ul_path :: "url \<Rightarrow> string"
  ul_set_path :: "string \<Rightarrow> url \<Rightarrow> url"

type_synonym ('w, 's, 'a) ui_comp = "(('w, 's) ui_state, app_error, 'a) comp"

definition on_app :: "('s api_state, 'a) app_comp \<Rightarrow> ('w, 's, 'a) ui_comp" where
  "on_app m = (\<lambda>s. let (r, a) = m (ui_app s) in (r, s\<lparr>ui_app := a\<rparr>))"

definition on_secrets :: "('w, client_error, 'a) comp \<Rightarrow> ('w, 's, 'a) ui_comp" where
  "on_secrets m = (\<lambda>s. let (r, w) = m (ui_secrets s) in (map_err Client r, s\<lparr>ui_secrets := w\<rparr>))"

definition set_session :: "'s api_state session option \<Rightarrow> ('w, 's, unit) ui_comp" where
  "set_session x = (\<lambda>s. (Inr (), s\<lparr>ui_session := x\<rparr>))"

definition on_api :: "('s api_state, client_error, 'a) comp \<Rightarrow> ('w, 's, 'a) ui_comp" where
  "on_api m = on_app (on_core Client (call m))"

abbreviation ui_core :: "('w, 's) ui_env \<Rightarrow> 's api_state core" where
  "ui_core u \<equiv> ae_core (de_app (ue_desk u))"

abbreviation ui_local :: "('w, 's) ui_env \<Rightarrow> local_env" where
  "ui_local u \<equiv> desk_local (ue_desk u)"

section \<open>Paths the user types\<close>

definition join_text :: "string \<Rightarrow> string \<Rightarrow> string" where
  "join_text base t =
     (if starts_with ''/'' t then t
      else if base = [] \<or> last base = CHR ''/'' then base @ t else base @ ''/'' @ t)"

definition expand_user_path :: "string option \<Rightarrow> string \<Rightarrow> app_error + string" where
  "expand_user_path home t =
     (if t \<noteq> ''~'' \<and> \<not> starts_with ''~/'' t \<and> \<not> starts_with [CHR ''~'', CHR 0x5C] t then Inr t
      else andThen (ok_or (Refused ''The operating system did not provide a user home directory'') home) (\<lambda>h.
        if t = ''~'' then Inr h else Inr (join_text h (drop 2 t))))"

section \<open>Recovery code and settings\<close>

definition reveal_recovery_code :: "('w, 's, string) ui_comp" where
  "reveal_recovery_code = (\<lambda>s.
     (ok_or (Refused ''Connect to a server before revealing the recovery code'') (map_option us_code (ui_session s)), s))"

definition import_recovery_code :: "('w, 's) ui_env \<Rightarrow> string \<Rightarrow> ('w, 's, unit) ui_comp" where
  "import_recovery_code u code =
     bindS (on_secrets (import_code (core_suite (ui_core u)) (ue_store u) code)) (\<lambda>_. set_session None)"

definition load_connection_settings_command :: "('w, 's) ui_env \<Rightarrow> ('w, 's, saved_connection option) ui_comp" where
  "load_connection_settings_command u = on_secrets (load_connection_settings (ue_settings_parse u) (ue_store u))"

definition inspect_certificate :: "'n https_lib \<Rightarrow> string option \<Rightarrow> string \<Rightarrow> app_error + string" where
  "inspect_certificate h home p =
     andThen (expand_user_path home p) (\<lambda>p. map_err Client (spki_sha256_from_pem h (path_of p)))"

section \<open>Signing in\<close>

definition passed :: "string \<Rightarrow> string \<Rightarrow> string \<Rightarrow> diagnostic_check" where
  "passed name summary details = \<lparr>dc_name = name, dc_ok = True, dc_summary = summary, dc_details = details\<rparr>"

definition version_text :: "protocol_version \<Rightarrow> string" where
  "version_text v = show_nat (unat (protocol_number v))"

definition joined :: "string list \<Rightarrow> string" where
  "joined ws = (case ws of [] \<Rightarrow> [] | w # ws \<Rightarrow> w @ concat (map (\<lambda>x. '', '' @ x) ws))"

definition diagnostic_report :: "string \<Rightarrow> version_response \<Rightarrow> status_response \<Rightarrow> diagnostic_check list" where
  "diagnostic_report transport v st =
     [passed (transport @ '' connection'') (transport @ '' transport connected'')
        ''Certificate or host-key verification succeeded.'',
      passed ''API authentication'' ''Bearer token accepted''
        ''The token was sent only in the authenticated transport.'',
      passed ''Protocol'' (''Protocol '' @ version_text (sr_protocol st) @ '' compatible'')
        (''Server '' @ vr_server_version v @ '' supports '' @ version_text (range_min (vr_protocol v)) @
         ''-'' @ version_text (range_max (vr_protocol v)) @ '' with capabilities: '' @
         joined (vr_capabilities v)),
      passed ''Database'' ''Server health is OK''
        (''Server status: '' @ sr_status st @ ''; database: '' @ sr_database st)]"

text \<open>The key, the local database and the device's identity.\<close>

definition prepare_identity :: "('w, 's) ui_env \<Rightarrow> ('w, 's, bytes \<times> string \<times> device_id) ui_comp" where
  "prepare_identity u =
     bindS (on_app (on_core Client draw)) (\<lambda>n.
     bindS (on_secrets (load_or_create_master_key (core_suite (ui_core u)) (ue_store u) (ue_fresh_key u n))) (\<lambda>(master, code).
     bindS (on_app (local_state (ue_desk u))) (\<lambda>_.
     bindS (on_app (on_local (local_device_id (ui_local u)))) (\<lambda>device.
     returnS (master, code, device)))))"

text \<open>\<open>ApiClient::new\<close> has negotiated nothing yet.\<close>

definition new_api :: "('w, 's, unit) ui_comp" where
  "new_api = on_app (\<lambda>a. (Inr (), a\<lparr>ap_client := (ap_client a)\<lparr>cl_remote :=
     (cl_remote (ap_client a))\<lparr>as_protocol := None\<rparr>\<rparr>\<rparr>))"

definition new_core :: "('w, 's) ui_env \<Rightarrow> 's transport \<Rightarrow> string \<Rightarrow> bytes \<Rightarrow> device_id \<Rightarrow> 's api_state core" where
  "new_core u execute token master device =
     (ui_core u)\<lparr>core_api := api_client (ue_json u) token execute, core_master := master, core_device := device\<rparr>"

text \<open>What the server must answer before anything is kept: the negotiation, its status and the
  registration of the device.\<close>

definition greet_server ::
  "('w, 's) ui_env \<Rightarrow> 's transport \<Rightarrow> string \<Rightarrow> 's api_state core \<Rightarrow> string \<Rightarrow>
     ('w, 's, version_response \<times> status_response) ui_comp" where
  "greet_server u execute token core device_name =
     bindS new_api (\<lambda>_.
     bindS (on_api (negotiate_version (ue_json u) token execute)) (\<lambda>version.
     bindS (on_api (client_status (ue_json u) token execute)) (\<lambda>status.
     bindS (on_app (on_core Client (core_register_device core (rust_trim device_name)))) (\<lambda>_.
     returnS (version, status)))))"

definition with_core :: "'s desk \<Rightarrow> 's core \<Rightarrow> 's desk" where
  "with_core d core = d\<lparr>de_app := (de_app d)\<lparr>ae_core := core\<rparr>\<rparr>"

text \<open>What is kept of an accepted connection, and the synchronization of the default profile.\<close>

definition keep_connection ::
  "('w, 's) ui_env \<Rightarrow> 's api_state core \<Rightarrow> string \<Rightarrow> string \<Rightarrow> string \<Rightarrow> saved_connection \<Rightarrow>
     ('w, 's, sync_feedback option) ui_comp" where
  "keep_connection u core code transport endpoint saved =
     bindS (on_secrets (persist_connection_settings (ue_settings_text u) (ue_store u) saved)) (\<lambda>_.
     bindS (on_app (on_local (save_connection (ui_local u) endpoint (to_ascii_lowercase transport) endpoint))) (\<lambda>_.
     bindS (on_app (forced_default_sync (with_core (ue_desk u) core) endpoint)) (\<lambda>sync.
     bindS (set_session (Some \<lparr>us_core = core, us_code = code, us_server = endpoint\<rparr>)) (\<lambda>_.
     returnS sync))))"

definition connect ::
  "('w, 's) ui_env \<Rightarrow> 's transport \<Rightarrow> string \<Rightarrow> string \<Rightarrow> string \<Rightarrow> string \<Rightarrow> saved_connection \<Rightarrow>
     ('w, 's, login_result) ui_comp" where
  "connect u execute token device_name transport endpoint saved =
     (if length token < 32 then liftS (Inl (Refused ''API token must contain at least 32 characters''))
      else
        bindS (prepare_identity u) (\<lambda>(master, code, device).
        let core = new_core u execute token master device in
        bindS (greet_server u execute token core device_name) (\<lambda>(v, st).
        bindS (keep_connection u core code transport endpoint saved) (\<lambda>sync.
        returnS \<lparr>lg_sync = sync, lg_checks = diagnostic_report transport v st\<rparr>))))"

section \<open>The two forms\<close>

definition server_url :: "url_lib \<Rightarrow> https_input \<Rightarrow> app_error + url" where
  "server_url ul input =
     (let trimmed = rust_trim (hi_url input);
          t = (if contains_text ''://'' trimmed then trimmed else ''https://'' @ trimmed)
      in andThen (map_err (\<lambda>er. Refused (''Server URL: '' @ er)) (ul_parse ul t)) (\<lambda>url.
         andThen (if ul_port ul url = None
                  then ok_or (Refused ''Server URL cannot accept a port'') (ul_set_port ul (hi_port input) url)
                  else Inr url) (\<lambda>url.
         Inr (if ul_path ul url \<noteq> [] \<and> last (ul_path ul url) = CHR ''/'' then url else ul_set_path ul ''/'' url))))"

definition chosen_certificate :: "string option \<Rightarrow> https_input \<Rightarrow> app_error + certificate_mode" where
  "chosen_certificate home input =
     (if hi_certificate_mode input = ''system'' then Inr SystemTrust
      else if hi_certificate_mode input = ''custom_ca'' then
        andThen (ok_or (Refused ''Custom CA certificate path is required'') (hi_certificate_path input)) (\<lambda>p.
        andThen (expand_user_path home p) (\<lambda>p. Inr (CustomCa (path_of p))))
      else if hi_certificate_mode input = ''pinned'' then
        andThen (ok_or (Refused ''Pinned certificate path is required'') (hi_certificate_path input)) (\<lambda>p.
        andThen (expand_user_path home p) (\<lambda>p.
        andThen (ok_or (Refused ''SPKI pin is required'')
                  (case hi_spki_pin input of Some v \<Rightarrow> if rust_trim v = [] then None else Some v | None \<Rightarrow> None)) (\<lambda>pin.
        Inr (Pinned (path_of p) pin))))
      else Inl (Refused ''Unknown certificate mode''))"

definition connect_https ::
  "('w, 'n reach) ui_env \<Rightarrow> url_lib \<Rightarrow> 'n https_lib \<Rightarrow> https_input \<Rightarrow> ('w, 'n reach, login_result) ui_comp" where
  "connect_https u ul h input =
     bindS (set_session None) (\<lambda>_.
     bindS (liftS (server_url ul input)) (\<lambda>url.
     bindS (liftS (chosen_certificate (ue_home u) input)) (\<lambda>mode.
     let endpoint = server_url_text url in
     bindS (liftS (map_err Client (new_https_transport h url mode))) (\<lambda>transport.
     connect u (https_reach h transport) (hi_api_token input) (hi_device_name input) ''HTTPS'' endpoint
       (Saved_https (input\<lparr>hi_url := endpoint\<rparr>))))))"

definition nonempty :: "string option \<Rightarrow> string option" where
  "nonempty x = (case x of Some v \<Rightarrow> if v = [] then None else Some v | None \<Rightarrow> None)"

definition ssh_config_of :: "('w, 's) ui_env \<Rightarrow> ssh_input \<Rightarrow> ssh_config" where
  "ssh_config_of u input =
     \<lparr>sc_host = si_host input, sc_port = si_port input, sc_username = si_username input,
      sc_private_key = path_of (si_private_key input), sc_passphrase = nonempty (si_passphrase input),
      sc_remote_socket = si_remote_socket input, sc_known_hosts = path_join (ue_data_dir u) [Normal ''known_hosts''],
      sc_trusted = (case si_trusted_fingerprint input of
         Some v \<Rightarrow> if rust_trim v = [] then None else Some v | None \<Rightarrow> None)\<rparr>"

definition connect_ssh ::
  "('w, 'n reach) ui_env \<Rightarrow> 'n ssh_lib \<Rightarrow> ssh_input \<Rightarrow> ('w, 'n reach, login_result) ui_comp" where
  "connect_ssh u l input =
     bindS (set_session None) (\<lambda>_.
     bindS (liftS (expand_user_path (ue_home u) (si_private_key input))) (\<lambda>key.
     let input = input\<lparr>si_private_key := key\<rparr>;
         endpoint = si_host input @ '':'' @ show_nat (unat (si_port input)) @ '':'' @ si_remote_socket input in
     bindS (liftS (map_err Client (new_ssh_transport l (ssh_config_of u input)))) (\<lambda>config.
     connect u (ssh_execute l config) (si_api_token input) (si_device_name input) ''SSH'' endpoint (Saved_ssh input))))"

end
