(* ===== verification/TransportProps.thy ===== *)
theory TransportProps
  imports Transports
begin

text \<open>
  What the two transports let through. Over SSH nothing follows the greeting of a server whose key is
  not vouched for, and a key once confirmed by its fingerprint stays pinned. Over HTTPS a response is
  given back only when the certificate has the pinned key; the request has been sent by then.
\<close>

section \<open>Host keys\<close>

text \<open>A key is vouched for by the user's known hosts, else by the application's, else by the fingerprint
  the user confirmed; known hosts that name another key end the search.\<close>

definition vouched :: "'s ssh_lib \<Rightarrow> ssh_config \<Rightarrow> bytes option \<Rightarrow> bytes \<Rightarrow> bool" where
  "vouched l c hosts key \<longleftrightarrow>
     sl_user_hosts l (sc_host c) (sc_port c) key = Inr True \<or>
     sl_user_hosts l (sc_host c) (sc_port c) key = Inr False \<and>
       (sl_check_hosts l (sc_host c) (sc_port c) key hosts = Inr True \<or>
        sl_check_hosts l (sc_host c) (sc_port c) key hosts = Inr False \<and> sc_trusted c = Some (sl_fingerprint l key))"

definition learns :: "'s ssh_lib \<Rightarrow> ssh_config \<Rightarrow> bytes option \<Rightarrow> bytes \<Rightarrow> bool" where
  "learns l c hosts key \<longleftrightarrow>
     sl_user_hosts l (sc_host c) (sc_port c) key = Inr False \<and>
     sl_check_hosts l (sc_host c) (sc_port c) key hosts = Inr False \<and> sc_trusted c = Some (sl_fingerprint l key)"

lemma check_server_key_cases:
  assumes "check_server_key l c key w = (r, w')"
  shows "(r = Inr True \<and> w' = w \<and> vouched l c (rc_known w (sc_known_hosts c)) key \<and>
            \<not> learns l c (rc_known w (sc_known_hosts c)) key) \<or>
     (\<exists>hosts. r = Inr True \<and> learns l c (rc_known w (sc_known_hosts c)) key \<and>
        sl_learn_host l (sc_host c) (sc_port c) key (rc_known w (sc_known_hosts c)) = Inr hosts \<and>
        w' = w\<lparr>rc_known := (rc_known w)(sc_known_hosts c \<mapsto> hosts)\<rparr>) \<or>
     (\<exists>m. r = Inl (Changed m) \<and> w' = w \<and>
        (vouched l c (rc_known w (sc_known_hosts c)) key \<longrightarrow> learns l c (rc_known w (sc_known_hosts c)) key)) \<or>
     (r = Inl (Unknown (sl_fingerprint l key)) \<and> w' = w \<and> \<not> vouched l c (rc_known w (sc_known_hosts c)) key)"
proof (cases "sl_user_hosts l (sc_host c) (sc_port c) key")
  case (Inl m)
  with assms show ?thesis by (auto simp: check_server_key_def vouched_def bindS_def liftS_def)
next
  case user: (Inr known)
  show ?thesis
  proof (cases known)
    case True
    with assms user show ?thesis by (auto simp: check_server_key_def vouched_def learns_def bindS_def liftS_def returnS_def)
  next
    case unknown: False
    show ?thesis
    proof (cases "sl_check_hosts l (sc_host c) (sc_port c) key (rc_known w (sc_known_hosts c))")
      case (Inl m)
      with assms user unknown show ?thesis by (auto simp: check_server_key_def vouched_def bindS_def liftS_def)
    next
      case (Inr listed)
      with assms user unknown show ?thesis
        by (cases "sl_learn_host l (sc_host c) (sc_port c) key (rc_known w (sc_known_hosts c))")
          (auto simp: check_server_key_def vouched_def learns_def bindS_def liftS_def returnS_def Let_def split: if_splits)
    qed
  qed
qed

text \<open>Only a key that is learned changes the known hosts.\<close>

definition same_hosts :: "'s reach \<Rightarrow> 's reach \<Rightarrow> bool" where
  "same_hosts w w' \<longleftrightarrow> rc_known w' = rc_known w"

lemma same_hosts_order: "reflp same_hosts" "transp same_hosts"
  by (auto simp: same_hosts_def intro: reflpI transpI)

lemma keeps_on_net: "keeps same_hosts (on_net f m)"
  by (auto simp: keeps_def same_hosts_def on_net_def Let_def split: prod.splits)

lemma if_keeps: "keeps R m \<Longrightarrow> keeps R n \<Longrightarrow> keeps R (if b then m else n)"
  by simp

lemma map_err_flipped:
  "Inl er = map_err f q \<longleftrightarrow> (\<exists>x. q = Inl x \<and> er = f x)"
  "Inr y = map_err f q \<longleftrightarrow> q = Inr y"
  by (cases q; auto)+

definition host_error :: "client_error \<Rightarrow> bool" where
  "host_error er \<longleftrightarrow> (\<exists>x. er = SshHostKeyUnknown x) \<or> (\<exists>x. er = SshHostKeyChanged x)"

lemma ssh_session_keeps:
  "bindS (on_net Ssh (sl_enter l)) (\<lambda>_. ssh_session l c key request) w = (r, w') \<Longrightarrow> rc_known w' = rc_known w \<and> (\<forall>er. r = Inl er \<longrightarrow> \<not> host_error er)"
proof -
  let ?m = "bindS (on_net Ssh (sl_enter l)) (\<lambda>_. ssh_session l c key request)"
  assume run: "?m w = (r, w')"
  have "keeps same_hosts (\<lambda>w. let (_, s) = sl_disconnect l (rc_net w) in
      (Inr \<lparr>ts_status = status, ts_body = body\<rparr> :: client_error + transport_response, w\<lparr>rc_net := s\<rparr>))" for status body
    by (auto simp: keeps_def same_hosts_def Let_def split: prod.splits)
  then have "keeps same_hosts ?m"
    unfolding ssh_session_def
    by (intro keeps_bindS keeps_on_net same_hosts_order if_keeps keeps_liftS)
  with run have "rc_known w' = rc_known w" by (metis keeps_def same_hosts_def snd_conv)
  moreover have "\<not> host_error er" if "r = Inl er" for er
    using run that unfolding ssh_session_def
    by (auto simp: result_simps map_err_flipped host_error_def outgoing_request_def split: if_splits prod.splits)
  ultimately show ?thesis by blast
qed

lemma ssh_execute_steps:
  assumes "load_private_key l (sc_private_key c) (sc_passphrase c) = Inr private"
    and "sl_greet l (sc_host c) (sc_port c) (rc_net w) = (Inr key, s)"
  shows "ssh_execute l c request w =
    (case check_server_key l c key (w\<lparr>rc_net := s\<rparr>) of
       (Inl er, w1) \<Rightarrow> (Inl (map_handler_error er), w1)
     | (Inr True, w1) \<Rightarrow> bindS (on_net Ssh (sl_enter l)) (\<lambda>_. ssh_session l c private request) w1
     | (Inr False, w1) \<Rightarrow> (Inl (Ssh ''Unknown server key''), w1))"
  using assms
  by (auto simp: ssh_execute_def ssh_connect_def failing_as_def bindS_def liftS_def on_net_def
      map_handler_error_def Let_def map_err_def split: prod.splits sum.splits bool.splits)

text \<open>One request: the known hosts are those the verdict on the key gives, and without a vouched key
  the remote has seen the greeting alone.\<close>

lemma ssh_execute_verdict:
  assumes load: "load_private_key l (sc_private_key c) (sc_passphrase c) = Inr private"
    and greet: "sl_greet l (sc_host c) (sc_port c) (rc_net w) = (Inr key, s)"
    and run: "ssh_execute l c request w = (r, w')"
  shows "\<not> vouched l c (rc_known w (sc_known_hosts c)) key \<Longrightarrow>
      w' = w\<lparr>rc_net := s\<rparr> \<and> (\<exists>er. r = Inl er \<and> host_error er)"
    and "rc_known w' \<noteq> rc_known w \<Longrightarrow> learns l c (rc_known w (sc_known_hosts c)) key \<and>
      (\<exists>hosts. sl_learn_host l (sc_host c) (sc_port c) key (rc_known w (sc_known_hosts c)) = Inr hosts \<and>
        rc_known w' = (rc_known w)(sc_known_hosts c \<mapsto> hosts))"
    and "vouched l c (rc_known w (sc_known_hosts c)) key \<Longrightarrow> \<not> learns l c (rc_known w (sc_known_hosts c)) key \<Longrightarrow>
      rc_known w' = rc_known w \<and> (\<forall>er. r = Inl er \<longrightarrow> \<not> host_error er)"
proof -
  obtain q w1 where q: "check_server_key l c key (w\<lparr>rc_net := s\<rparr>) = (q, w1)"
    by (cases "check_server_key l c key (w\<lparr>rc_net := s\<rparr>)")
  note verdict = check_server_key_cases [OF q, simplified]
  have run': "(case (q, w1) of (Inl er, w1) \<Rightarrow> (Inl (map_handler_error er), w1)
     | (Inr True, w1) \<Rightarrow> bindS (on_net Ssh (sl_enter l)) (\<lambda>_. ssh_session l c private request) w1
     | (Inr False, w1) \<Rightarrow> (Inl (Ssh ''Unknown server key''), w1)) = (r, w')"
    using run ssh_execute_steps [OF load greet, of request] q by simp
  show "w' = w\<lparr>rc_net := s\<rparr> \<and> (\<exists>er. r = Inl er \<and> host_error er)"
    if "\<not> vouched l c (rc_known w (sc_known_hosts c)) key"
    using that verdict run' by (auto simp: vouched_def learns_def host_error_def map_handler_error_def)
  show "learns l c (rc_known w (sc_known_hosts c)) key \<and>
      (\<exists>hosts. sl_learn_host l (sc_host c) (sc_port c) key (rc_known w (sc_known_hosts c)) = Inr hosts \<and>
        rc_known w' = (rc_known w)(sc_known_hosts c \<mapsto> hosts))" if "rc_known w' \<noteq> rc_known w"
    using that verdict run' by (auto dest!: ssh_session_keeps)
  show "rc_known w' = rc_known w \<and> (\<forall>er. r = Inl er \<longrightarrow> \<not> host_error er)"
    if "vouched l c (rc_known w (sc_known_hosts c)) key" "\<not> learns l c (rc_known w (sc_known_hosts c)) key"
    using that verdict run' by (auto dest!: ssh_session_keeps)
qed

text \<open>What \<open>russh\<close> documents of known-hosts files: a key that was added is known afterwards, and another
  key of the same algorithm is then reported as changed.\<close>

definition known_hosts_ok :: "'s ssh_lib \<Rightarrow> (bytes \<Rightarrow> string) \<Rightarrow> bool" where
  "known_hosts_ok l algorithm \<longleftrightarrow>
     (\<forall>host port key hosts hosts'.
        sl_check_hosts l host port key hosts = Inr False \<and> sl_learn_host l host port key hosts = Inr hosts' \<longrightarrow>
        sl_check_hosts l host port key (Some hosts') = Inr True \<and>
        (\<forall>key'. key' \<noteq> key \<and> algorithm key' = algorithm key \<longrightarrow>
           (\<exists>m. sl_check_hosts l host port key' (Some hosts') = Inl m)))"

section \<open>A concrete library\<close>

text \<open>A known-hosts file holds one key; the remote is the key the server presents and the number of
  requests it was sent.\<close>

definition one_key_ssh :: "(bytes \<times> nat) ssh_lib" where
  "one_key_ssh =
     \<lparr>sl_is_file = (\<lambda>p. True), sl_load_key = (\<lambda>p pass. Inr [1]), sl_user_hosts = (\<lambda>h p k. Inr False),
      sl_check_hosts = (\<lambda>h p k f. case f of None \<Rightarrow> Inr False | Some k' \<Rightarrow> if k' = k then Inr True else Inl ''changed''),
      sl_learn_host = (\<lambda>h p k f. Inr k), sl_fingerprint = (\<lambda>k. if k = [7] then ''a'' else ''b''), sl_uri_ok = (\<lambda>s. True),
      sl_greet = (\<lambda>h p s. (Inr (fst s), s)), sl_enter = (\<lambda>s. (Inr (), s)), sl_rsa_hash = (\<lambda>s. (Inr None, s)),
      sl_authenticate = (\<lambda>u k h s. (Inr True, s)), sl_open_socket = (\<lambda>p s. (Inr (), s)), sl_handshake = (\<lambda>s. (Inr (), s)),
      sl_send = (\<lambda>q s. (Inr 200, (fst s, Suc (snd s)))), sl_body = (\<lambda>s. (Inr [], s)), sl_disconnect = (\<lambda>s. (Inr (), s))\<rparr>"

definition demo_ssh :: "string option \<Rightarrow> ssh_config" where
  "demo_ssh trusted =
     \<lparr>sc_host = ''h'', sc_port = 22, sc_username = ''u'', sc_private_key = [Normal ''k''], sc_passphrase = None,
      sc_remote_socket = ''/s'', sc_known_hosts = [Normal ''known_hosts''], sc_trusted = trusted\<rparr>"

definition demo_get :: transport_request where
  "demo_get = \<lparr>tr_method = GET, tr_path = ''/v1/version'', tr_headers = [], tr_body = []\<rparr>"

lemma one_key_ssh_ok: "known_hosts_ok one_key_ssh (\<lambda>k. ''ed25519'')"
  by (auto simp: known_hosts_ok_def one_key_ssh_def)

section \<open>The property\<close>

text \<open>C15. The host key a user confirmed by its fingerprint stays pinned. When a request over SSH adds a
  key to the application's known hosts, that key has the fingerprint the user confirmed. On any later request
  with these known hosts to the same host, whatever fingerprint is then confirmed, a different key of
  the same algorithm (that the user's own known hosts do not list) ends it with an error about the host key;
  no authentication and no request reaches that server and the known hosts stay as they are. The same
  key is accepted without a confirmation.\<close>

theorem confirmed_host_key_pinned:
  assumes hosts_ok: "known_hosts_ok l algorithm"
    and load: "load_private_key l (sc_private_key c) (sc_passphrase c) = Inr private"
    and greet: "sl_greet l (sc_host c) (sc_port c) (rc_net w) = (Inr key, s)"
    and run: "ssh_execute l c request w = (r, w')"
    and learned: "rc_known w' \<noteq> rc_known w"
    and same: "sc_host c2 = sc_host c" "sc_port c2 = sc_port c" "sc_known_hosts c2 = sc_known_hosts c"
    and later: "rc_known w2 = rc_known w'"
    and load2: "load_private_key l (sc_private_key c2) (sc_passphrase c2) = Inr private2"
    and greet2: "sl_greet l (sc_host c2) (sc_port c2) (rc_net w2) = (Inr key2, s2)"
    and user2: "sl_user_hosts l (sc_host c2) (sc_port c2) key2 = Inr False"
    and run2: "ssh_execute l c2 request2 w2 = (r2, w3)"
  shows "sc_trusted c = Some (sl_fingerprint l key) \<and>
    (key2 \<noteq> key \<and> algorithm key2 = algorithm key \<longrightarrow>
       w3 = w2\<lparr>rc_net := s2\<rparr> \<and> (\<exists>er. r2 = Inl er \<and> host_error er)) \<and>
    (key2 = key \<longrightarrow> rc_known w3 = rc_known w2 \<and> (\<forall>er. r2 = Inl er \<longrightarrow> \<not> host_error er))"
proof -
  from ssh_execute_verdict(2) [OF load greet run learned] obtain hosts where
    learn: "learns l c (rc_known w (sc_known_hosts c)) key"
      "sl_learn_host l (sc_host c) (sc_port c) key (rc_known w (sc_known_hosts c)) = Inr hosts"
      "rc_known w' = (rc_known w)(sc_known_hosts c \<mapsto> hosts)" by blast
  have now: "rc_known w2 (sc_known_hosts c2) = Some hosts" using learn(3) later same(3) by simp
  have law: "sl_check_hosts l (sc_host c) (sc_port c) key (Some hosts) = Inr True"
    "key2 \<noteq> key \<Longrightarrow> algorithm key2 = algorithm key \<Longrightarrow> \<exists>m. sl_check_hosts l (sc_host c) (sc_port c) key2 (Some hosts) = Inl m"
    using hosts_ok learn(1,2) unfolding known_hosts_ok_def learns_def by blast+
  note verdict = ssh_execute_verdict [OF load2 greet2 run2, unfolded now same(1,2)]
  show ?thesis
  proof (intro conjI impI)
    show "sc_trusted c = Some (sl_fingerprint l key)" using learn(1) by (simp add: learns_def)
  next
    assume other: "key2 \<noteq> key \<and> algorithm key2 = algorithm key"
    with law(2) user2 same(1,2) have "\<not> vouched l c2 (Some hosts) key2" by (auto simp: vouched_def)
    with verdict(1) show "w3 = w2\<lparr>rc_net := s2\<rparr>" "\<exists>er. r2 = Inl er \<and> host_error er" by auto
  next
    assume "key2 = key"
    with law(1) user2 same(1,2) have "vouched l c2 (Some hosts) key2" "\<not> learns l c2 (Some hosts) key2"
      by (simp_all add: vouched_def learns_def)
    with verdict(3) show "rc_known w3 = rc_known w2" "\<forall>er. r2 = Inl er \<longrightarrow> \<not> host_error er" by auto
  qed
qed

lemma confirmed_host_key_pinned_witness:
  "sc_trusted (demo_ssh (Some ''a'')) = Some (sl_fingerprint one_key_ssh [7]) \<and>
   (\<exists>er. ssh_execute one_key_ssh (demo_ssh (Some ''b'')) demo_get
      \<lparr>rc_known = [[Normal ''known_hosts''] \<mapsto> [7]], rc_net = ([8], 0)\<rparr> =
      (Inl er, \<lparr>rc_known = [[Normal ''known_hosts''] \<mapsto> [7]], rc_net = ([8], 0)\<rparr>) \<and> host_error er)"
proof -
  note defs = demo_ssh_def one_key_ssh_def load_private_key_def
  have first: "ssh_execute one_key_ssh (demo_ssh (Some ''a'')) demo_get \<lparr>rc_known = Map.empty, rc_net = ([7], 0)\<rparr> =
      (Inr \<lparr>ts_status = 200, ts_body = []\<rparr>, \<lparr>rc_known = [[Normal ''known_hosts''] \<mapsto> [7]], rc_net = ([7], 1)\<rparr>)"
    by (simp add: defs ssh_session_def ssh_execute_def ssh_connect_def check_server_key_def failing_as_def on_net_def outgoing_request_def
        bindS_def liftS_def returnS_def Let_def)
  obtain r2 w3 where second: "ssh_execute one_key_ssh (demo_ssh (Some ''b'')) demo_get
      \<lparr>rc_known = [[Normal ''known_hosts''] \<mapsto> [7]], rc_net = ([8], 0)\<rparr> = (r2, w3)"
    by (cases "ssh_execute one_key_ssh (demo_ssh (Some ''b'')) demo_get
      \<lparr>rc_known = [[Normal ''known_hosts''] \<mapsto> [7]], rc_net = ([8], 0)\<rparr>")
  have "sc_trusted (demo_ssh (Some ''a'')) = Some (sl_fingerprint one_key_ssh [7]) \<and>
      ([8 :: 8 word] \<noteq> [7] \<and> ''ed25519'' = ''ed25519'' \<longrightarrow>
        w3 = \<lparr>rc_known = [[Normal ''known_hosts''] \<mapsto> [7]], rc_net = ([8], 0)\<rparr>\<lparr>rc_net := ([8], 0)\<rparr> \<and>
        (\<exists>er. r2 = Inl er \<and> host_error er)) \<and>
      ([8 :: 8 word] = [7] \<longrightarrow> rc_known w3 = [[Normal ''known_hosts''] \<mapsto> [7]] \<and> (\<forall>er. r2 = Inl er \<longrightarrow> \<not> host_error er))"
    using confirmed_host_key_pinned [OF one_key_ssh_ok _ _ first _ _ _ _ _ _ _ _ second, of "[1]" "[7]" "([7], 0)" "[1]" "[8]" "([8], 0)"]
    by (simp add: defs)
  then show ?thesis using second by simp
qed

section \<open>HTTPS\<close>

lemma new_https_transport_facts:
  assumes "new_https_transport h u mode = Inr t"
  shows "hl_scheme h u = ''https''" "hl_username h u = []" "hl_password h u = None" "hl_host h u \<noteq> None"
    "ht_base_url t = u" "select_roots h mode = Inr (ht_roots t, ht_expected_spki t)"
  using assms by (auto simp: new_https_transport_def result_simps split: if_splits)

text \<open>With a pin only the pinned certificate is a root, and a response is given back only when the
  leaf's key has the pinned digest.\<close>

lemma pinned_response:
  assumes new: "new_https_transport h u (Pinned p pin) = Inr t"
    and run: "https_execute h t request s = (Inr response, s')"
  obtains certificate url q s1 leaf where "load_certificate h p = Inr certificate"
    "hl_send h (Only_certificate certificate) url request s = (Inr q, s1)"
    "hx_tls q = Some (Some leaf)" "spki_sha256 h leaf = Inr pin" "ts_status response = hx_status q"
proof -
  have "\<exists>certificate. load_certificate h p = Inr certificate \<and> ht_roots t = Only_certificate certificate \<and>
      ht_expected_spki t = Some pin"
    using new_https_transport_facts(6) [OF new] by (auto simp: select_roots_def result_simps split: if_splits)
  then obtain certificate where certificate: "load_certificate h p = Inr certificate"
    "ht_roots t = Only_certificate certificate" "ht_expected_spki t = Some pin" by blast
  with run obtain url q s1 where q: "hl_send h (Only_certificate certificate) url request s = (Inr q, s1)"
    "check_pin h (Some pin) q = Inr ()" "ts_status response = hx_status q"
    by (auto simp: https_execute_def result_simps map_err_flipped)
  from q(2) obtain leaf where "hx_tls q = Some (Some leaf)" "spki_sha256 h leaf = Inr pin"
    by (auto simp: check_pin_def result_simps split: if_splits)
  with that certificate(1) q show ?thesis by blast
qed

text \<open>The comparison comes after the request: on a mismatch the remote is as the whole exchange of
  headers left it, so the server has had the bearer token and has served the request.\<close>

lemma mismatch_seen_after_sending:
  assumes "ht_expected_spki t = Some pin"
    and "hl_join h (ht_base_url t) (dropWhile (\<lambda>c. c = CHR ''/'') (tr_path request)) = Inr url"
    and "hl_send h (ht_roots t) url request s = (Inr q, s1)"
    and "hx_tls q = Some (Some leaf)" and "spki_sha256 h leaf = Inr actual" and "actual \<noteq> pin"
  shows "\<exists>m. https_execute h t request s = (Inl (Tls m), s1)"
  using assms by (auto simp: https_execute_def check_pin_def bindS_def liftS_def failing_as_def)

end
