(* ===== verification/SignInProps.thy ===== *)
theory SignInProps
  imports SignIn TransportProps LifecycleProps
begin

text \<open>
  What signing in does to the credentials the client holds, whatever the secret store, the transport
  and the server do: a master key is never replaced, the saved connection only by one the server has
  accepted, and there is a session only after success.
\<close>

section \<open>Sequences\<close>

lemma bindS_cases:
  assumes "bindS m f s = (r, s')"
  obtains er where "m s = (Inl er, s')" "r = Inl er"
  | x s1 where "m s = (Inr x, s1)" "f x s1 = (r, s')"
  using assms by (auto simp: bindS_def split: prod.splits sum.splits)

definition same_credentials :: "('w, 's) ui_state \<Rightarrow> ('w, 's) ui_state \<Rightarrow> bool" where
  "same_credentials s s' \<longleftrightarrow> ui_secrets s' = ui_secrets s \<and> ui_session s' = ui_session s"

lemma same_credentials_order: "reflp same_credentials" "transp same_credentials"
  by (auto simp: same_credentials_def intro: reflpI transpI)

lemma on_app_iff [result_simps]:
  "on_app m s = (r, s') \<longleftrightarrow> (\<exists>a. m (ui_app s) = (r, a) \<and> s' = s\<lparr>ui_app := a\<rparr>)"
  by (auto simp: on_app_def split: prod.splits)

lemma on_secrets_iff [result_simps]:
  "on_secrets m s = (r, s') \<longleftrightarrow> (\<exists>q w. m (ui_secrets s) = (q, w) \<and> r = map_err Client q \<and> s' = s\<lparr>ui_secrets := w\<rparr>)"
  by (auto simp: on_secrets_def split: prod.splits)

lemma keeps_on_app [intro]: "keeps same_credentials (on_app m)"
  by (auto simp: keeps_def same_credentials_def on_app_def Let_def split: prod.splits)

lemma same_credentialsD:
  "keeps same_credentials m \<Longrightarrow> m s = (r, s') \<Longrightarrow> ui_secrets s' = ui_secrets s \<and> ui_session s' = ui_session s"
  by (auto simp: keeps_def same_credentials_def dest!: spec [of _ s])

lemma greet_server_keeps: "keeps same_credentials (greet_server u execute token core name)"
  unfolding greet_server_def new_api_def on_api_def
  by (intro keeps_bindS keeps_on_app keeps_returnS same_credentials_order)

section \<open>With any store that keeps its contract\<close>

context secret_store
begin

lemma prepare_effect:
  assumes store: "ue_store u = st" and run: "prepare_identity u s = (r, s')"
  shows "ui_session s' = ui_session s \<and>
    (\<forall>x. x \<noteq> MASTER_KEY_ENTRY \<longrightarrow> stored (ui_secrets s') x = stored (ui_secrets s) x) \<and>
    (stored (ui_secrets s) MASTER_KEY_ENTRY \<noteq> None \<longrightarrow> stored (ui_secrets s') = stored (ui_secrets s)) \<and>
    (\<forall>key code device. r = Inr (key, code, device) \<longrightarrow> stored (ui_secrets s') MASTER_KEY_ENTRY = Some code \<and>
       (from_recovery_code (core_suite (ui_core u)) code = Inr key \<or>
        (\<exists>n. key = ue_fresh_key u n \<and> code = recovery_code (core_suite (ui_core u)) key)))"
  using run [unfolded prepare_identity_def]
proof (cases rule: bindS_cases)
  case (1 er)
  with same_credentialsD [OF keeps_on_app] show ?thesis by (metis sum.distinct(1))
next
  case (2 n s1)
  have s1: "ui_secrets s1 = ui_secrets s" "ui_session s1 = ui_session s"
    using same_credentialsD [OF keeps_on_app 2(1)] by auto
  let ?load = "load_or_create_master_key (core_suite (ui_core u)) st (ue_fresh_key u n)"
  obtain q w where q: "?load (ui_secrets s1) = (q, w)" by (cases "?load (ui_secrets s1)")
  note effect = master_key_effect [OF q, unfolded s1(1)]
  show ?thesis
    using 2(2)
  proof (cases rule: bindS_cases)
    case (1 er)
    with q store have "w = ui_secrets s'" "ui_session s' = ui_session s1" by (auto simp: on_secrets_iff)
    with effect(1,2) s1 1(2) show ?thesis by auto
  next
    case (2 x s2)
    obtain master code where x: "x = (master, code)" by (cases x)
    from 2(1) q store x have s2: "ui_secrets s2 = w" "ui_session s2 = ui_session s1" "q = Inr (master, code)"
      by (auto simp: on_secrets_iff result_simps map_err_flipped)
    let ?rest = "bindS (on_app (local_state (ue_desk u))) (\<lambda>_. bindS (on_app (on_local (local_device_id (ui_local u))))
      (\<lambda>device. returnS (master, code, device)))"
    have kept: "keeps same_credentials ?rest"
      by (intro keeps_bindS keeps_on_app keeps_returnS same_credentials_order)
    have rest: "?rest s2 = (r, s')" using 2(2) x by simp
    from same_credentialsD [OF kept rest] s1 s2 have s': "ui_secrets s' = w" "ui_session s' = ui_session s"
      by simp_all
    show ?thesis
    proof (intro conjI allI impI)
      fix key code' device
      assume "r = Inr (key, code', device)"
      with rest have same: "key = master" "code' = code" by (auto simp: bindS_Inr returnS_iff)
      from effect(3) [OF s2(3)] show "stored (ui_secrets s') MASTER_KEY_ENTRY = Some code'"
        by (simp add: s' same)
      from effect(3) [OF s2(3)] show "from_recovery_code (core_suite (ui_core u)) code' = Inr key \<or>
          (\<exists>n. key = ue_fresh_key u n \<and> code' = recovery_code (core_suite (ui_core u)) key)"
        by (metis same)
    qed (use effect(1,2) s' in auto)
  qed
qed

lemma keep_connection_effect:
  assumes store: "ue_store u = st"
    and run: "keep_connection u core code transport endpoint saved s = (r, s')"
  shows "(stored (ui_secrets s') MASTER_KEY_ENTRY = stored (ui_secrets s) MASTER_KEY_ENTRY) \<and>
    (stored (ui_secrets s') CONNECTION_SETTINGS_KEY = stored (ui_secrets s) CONNECTION_SETTINGS_KEY \<or>
     stored (ui_secrets s') CONNECTION_SETTINGS_KEY = ue_settings_text u saved) \<and>
    (case r of
       Inl _ \<Rightarrow> ui_session s' = ui_session s
     | Inr _ \<Rightarrow> stored (ui_secrets s') CONNECTION_SETTINGS_KEY = ue_settings_text u saved \<and> ue_settings_text u saved \<noteq> None \<and>
         ui_session s' = Some \<lparr>us_core = core, us_code = code, us_server = endpoint\<rparr>)"
proof -
  let ?persist = "persist_connection_settings (ue_settings_text u) st saved"
  obtain q w where q: "?persist (ui_secrets s) = (q, w)" by (cases "?persist (ui_secrets s)")
  note effect = persist_effect [OF q]
  have keys: "MASTER_KEY_ENTRY \<notin> {CONNECTION_SETTINGS_KEY, ''api-token'', ''ssh-key-passphrase''}"
    "CONNECTION_SETTINGS_KEY \<noteq> ''api-token''" "CONNECTION_SETTINGS_KEY \<noteq> ''ssh-key-passphrase''"
    by (simp_all add: MASTER_KEY_ENTRY_def CONNECTION_SETTINGS_KEY_def)
  have secrets: "ui_secrets s' = w \<and> (case r of Inl _ \<Rightarrow> ui_session s' = ui_session s
      | Inr _ \<Rightarrow> q = Inr () \<and> ui_session s' = Some \<lparr>us_core = core, us_code = code, us_server = endpoint\<rparr>)"
    using run q store unfolding keep_connection_def
    by (cases r) (auto simp: result_simps set_session_def map_err_flipped)
  show ?thesis
    using secrets effect(1) [OF keys(1)] effect(2,3) keys(2,3) by (cases r) auto
qed

end

section \<open>The attempt as a whole\<close>

text \<open>The server, reached with this transport and token, has answered the negotiation, its status and
  the registration of this device.\<close>

definition accepted_by :: "('w, 's) ui_env \<Rightarrow> 's transport \<Rightarrow> string \<Rightarrow> string \<Rightarrow> bool" where
  "accepted_by u execute token name \<longleftrightarrow>
     (\<exists>master device (s :: ('w, 's) ui_state) x s'.
        greet_server u execute token (new_core u execute token master device) name s = (Inr x, s'))"

lemma fresh_code_accepted:
  assumes "suite_ok c" and "length key = MASTER_KEY_LENGTH"
  shows "from_recovery_code c (recovery_code c key) = Inr key"
proof -
  have "base64_decode c (base64_encode c (key @ take 4 (digest256 c key))) = Some (key @ take 4 (digest256 c key))"
    using suite_okD(3) [OF assms(1)] by blast
  with assms(2) suite_okD(2) [OF assms(1)] show ?thesis
    by (simp add: from_recovery_code_def recovery_code_def MASTER_KEY_LENGTH_def Let_def)
qed

text \<open>A session that may be used: it is with the endpoint, and its core has the stored master key.\<close>

definition session_of ::
  "('w, 's) ui_env \<Rightarrow> ('w \<Rightarrow> string \<Rightarrow> string option) \<Rightarrow> 's transport \<Rightarrow> string \<Rightarrow> string \<Rightarrow> ('w, 's) ui_state \<Rightarrow> bool" where
  "session_of u stored execute token endpoint s \<longleftrightarrow>
     (\<exists>key code device. ui_session s = Some \<lparr>us_core = new_core u execute token key device, us_code = code, us_server = endpoint\<rparr> \<and>
        stored (ui_secrets s) MASTER_KEY_ENTRY = Some code \<and> from_recovery_code (core_suite (ui_core u)) code = Inr key)"

definition sign_in_outcome ::
  "('w, 's) ui_env \<Rightarrow> ('w \<Rightarrow> string \<Rightarrow> string option) \<Rightarrow> 's transport \<Rightarrow> string \<Rightarrow> string \<Rightarrow> string \<Rightarrow>
     saved_connection \<Rightarrow> ('w, 's) ui_state \<Rightarrow> app_error + login_result \<Rightarrow> ('w, 's) ui_state \<Rightarrow> bool" where
  "sign_in_outcome u stored execute token name endpoint saved s r s' \<longleftrightarrow>
     (stored (ui_secrets s) MASTER_KEY_ENTRY \<noteq> None \<longrightarrow>
        stored (ui_secrets s') MASTER_KEY_ENTRY = stored (ui_secrets s) MASTER_KEY_ENTRY) \<and>
     (stored (ui_secrets s') CONNECTION_SETTINGS_KEY \<noteq> stored (ui_secrets s) CONNECTION_SETTINGS_KEY \<longrightarrow>
        accepted_by u execute token name \<and>
        stored (ui_secrets s') CONNECTION_SETTINGS_KEY = ue_settings_text u saved) \<and>
     (case r of
        Inl _ \<Rightarrow> ui_session s' = ui_session s
      | Inr _ \<Rightarrow> accepted_by u execute token name \<and>
          stored (ui_secrets s') CONNECTION_SETTINGS_KEY = ue_settings_text u saved \<and> ue_settings_text u saved \<noteq> None \<and>
          session_of u stored execute token endpoint s')"

lemma sign_in_outcome_stopped:
  assumes "\<forall>x. x \<noteq> MASTER_KEY_ENTRY \<longrightarrow> stored (ui_secrets s') x = stored (ui_secrets s) x"
    and "stored (ui_secrets s) MASTER_KEY_ENTRY \<noteq> None \<longrightarrow> stored (ui_secrets s') = stored (ui_secrets s)"
    and "ui_session s' = ui_session s"
  shows "sign_in_outcome u stored execute token name endpoint saved s (Inl er) s'"
  using assms by (simp add: sign_in_outcome_def MASTER_KEY_ENTRY_def CONNECTION_SETTINGS_KEY_def)

context secret_store
begin

lemma connect_outcome:
  assumes store: "ue_store u = st" and suite: "suite_ok (core_suite (ui_core u))"
    and fresh: "\<And>n. length (ue_fresh_key u n) = MASTER_KEY_LENGTH"
    and run: "connect u execute token name transport endpoint saved s = (r, s')"
  shows "sign_in_outcome u stored execute token name endpoint saved s r s'"
proof (cases "length token < 32")
  case True
  with run show ?thesis by (auto simp: connect_def liftS_def intro: sign_in_outcome_stopped)
next
  case False
  with run have "bindS (prepare_identity u) (\<lambda>(master, code, device).
        bindS (greet_server u execute token (new_core u execute token master device) name) (\<lambda>(v, st).
        bindS (keep_connection u (new_core u execute token master device) code transport endpoint saved) (\<lambda>sync.
        returnS \<lparr>lg_sync = sync, lg_checks = diagnostic_report transport v st\<rparr>))) s = (r, s')"
    by (simp add: connect_def Let_def)
  then show ?thesis
  proof (cases rule: bindS_cases)
    case (1 er)
    with prepare_effect [OF store 1(1)] show ?thesis by (auto intro: sign_in_outcome_stopped)
  next
    case (2 x s1)
    obtain master code device where x: "x = (master, code, device)" by (cases x) auto
    let ?core = "new_core u execute token master device"
    note prepared = prepare_effect [OF store 2(1)]
    have code: "stored (ui_secrets s1) MASTER_KEY_ENTRY = Some code"
      "from_recovery_code (core_suite (ui_core u)) code = Inr master"
      using prepared x fresh_code_accepted [OF suite fresh] by auto
    from 2(2) [unfolded x prod.case] show ?thesis
    proof (cases rule: bindS_cases)
      case (1 er)
      with prepared same_credentialsD [OF greet_server_keeps 1(1)] show ?thesis
        by (auto intro!: sign_in_outcome_stopped)
    next
      case (2 y s2)
      note same = same_credentialsD [OF greet_server_keeps 2(1)]
      have accepted: "accepted_by u execute token name" unfolding accepted_by_def using 2(1) by blast
      obtain q s3 where q: "keep_connection u ?core code transport endpoint saved s2 = (q, s3)"
        by (cases "keep_connection u ?core code transport endpoint saved s2")
      note kept = keep_connection_effect [OF store q]
      have end_state: "s' = s3 \<and> (\<forall>er. r = Inl er \<longrightarrow> q = Inl er) \<and> (\<forall>z. r = Inr z \<longrightarrow> (\<exists>sync. q = Inr sync))"
        using 2(2) q by (cases q) (auto simp: bindS_def returnS_def split: prod.splits)
      show ?thesis
        using prepared kept same accepted code end_state
        by (cases r) (auto simp: sign_in_outcome_def session_of_def MASTER_KEY_ENTRY_def CONNECTION_SETTINGS_KEY_def)
    qed
  qed
qed

end

section \<open>A token the server does not know\<close>

text \<open>Whatever the network does, the server of \<open>Network\<close> accepts no request with a wrong token, so an
  attempt with one neither replaces the saved connection nor opens a session.\<close>

lemma respond_refused: "respond j (401, body) = resp \<Longrightarrow> \<not> is_success (ts_status resp)"
  by (auto simp: respond_def is_success_def split: option.splits)

lemma http_serve_wrong_token:
  assumes "site_sha t (bytes_of token) \<noteq> app_token_digest (site_app t)"
    and "map_of (tr_headers req) ''authorization'' = Some (''Bearer '' @ token)"
  shows "\<not> is_success (ts_status (fst (http_serve t req c)))"
proof -
  have "strip_prefix ''Bearer '' (''Bearer '' @ token) = Some token"
    by (simp add: strip_prefix_def)
  with assms have "\<exists>er. ae_status er = 401 \<and>
      require_auth (site_sha t) (site_app t) (map_of (tr_headers req) ''authorization'') = Inl er"
    by (simp add: require_auth_def api_error_new_def)
  then obtain er where er: "ae_status er = 401"
    "require_auth (site_sha t) (site_app t) (map_of (tr_headers req) ''authorization'') = Inl er" by blast
  then show ?thesis
    by (auto simp: http_serve_def Let_def serve_request_def bindS_def liftS_def respond_refused split: option.split)
qed

lemma wrong_token_request:
  assumes "site_sha t (bytes_of token) \<noteq> app_token_digest (site_app t)"
  shows "json_request j token (site_transport t) m path payload k incl a \<noteq> (Inr b, a')"
proof
  assume run: "json_request j token (site_transport t) m path payload k incl a = (Inr b, a')"
  then obtain bytes resp w' where sent: "site_transport t
      \<lparr>tr_method = m, tr_path = path, tr_headers = request_headers token (as_protocol a) incl (payload \<noteq> None), tr_body = bytes\<rparr>
      (as_remote a) = (Inr resp, w')" "parse_response j k resp = Inr b"
    by (auto simp: json_request_def result_simps split: if_splits)
  then obtain req w where req: "tr_headers req = request_headers token (as_protocol a) incl (payload \<noteq> None)"
    "site_transport t req w = (Inr resp, w')" "parse_response j k resp = Inr b"
    by (metis transport_request.select_convs(3))
  have "map_of (tr_headers req) ''authorization'' = Some (''Bearer '' @ token)"
    by (simp add: req(1) request_headers_def)
  then have "\<not> is_success (ts_status (fst (http_serve t req c)))" for c
    using http_serve_wrong_token [OF assms] by blast
  moreover have "\<exists>c. resp = fst (http_serve t req c)"
    using req(2) by (auto simp: site_transport_def Let_def split: prod.splits fate.splits) (metis fst_conv)+
  ultimately show False using req(3) by (auto simp: parse_response_def Let_def split: if_splits)
qed

lemma wrong_token_refused:
  assumes "site_sha t (bytes_of token) \<noteq> app_token_digest (site_app t)"
  shows "\<not> accepted_by u (site_transport t) token name"
  using wrong_token_request [OF assms]
  by (auto simp: accepted_by_def greet_server_def on_api_def negotiate_version_def on_core_def on_app_iff bindS_Inr call_iff
      Let_def map_err_Inr split: prod.splits)

lemma refused_token_keeps_connection:
  assumes "secret_store (ue_store u) stored" and "suite_ok (core_suite (ui_core u))"
    and "\<And>n. length (ue_fresh_key u n) = MASTER_KEY_LENGTH"
    and "site_sha t (bytes_of token) \<noteq> app_token_digest (site_app t)"
    and "connect u (site_transport t) token name transport endpoint saved s = (r, s')"
  shows "\<exists>er. r = Inl er" "ui_session s' = ui_session s"
    "stored (ui_secrets s') CONNECTION_SETTINGS_KEY = stored (ui_secrets s) CONNECTION_SETTINGS_KEY"
  using secret_store.connect_outcome [OF assms(1) refl assms(2,3,5)] wrong_token_refused [OF assms(4), of u name]
  by (auto simp: sign_in_outcome_def split: sum.splits)

section \<open>An example\<close>

text \<open>A server that accepts everything, a browser without profiles and a client that has never signed in.\<close>

definition agreeable_json :: body_codec where
  "agreeable_json =
     \<lparr>body_text = (\<lambda>b. Some []),
      body_parse = (\<lambda>k t. case k of
         KVersion \<Rightarrow> Some (BodyVersion \<lparr>vr_server_version = ''1.0'', vr_protocol = default_range, vr_capabilities = []\<rparr>)
       | KStatus \<Rightarrow> Some (BodyStatus \<lparr>sr_status = ''ok'', sr_database = ''ok'', sr_server_time = Timestamp 0,
           sr_protocol = PROTOCOL_MAX\<rparr>)
       | KDevice \<Rightarrow> Some (BodyDevice \<lparr>dev_id = DeviceId 1, dev_name = ''d'', dev_created_at = Timestamp 0,
           dev_revoked_at = None\<rparr>)
       | _ \<Rightarrow> None),
      id_text = (\<lambda>u. [])\<rparr>"

definition agreeable_https :: "unit https_lib" where
  "agreeable_https =
     \<lparr>hl_scheme = (\<lambda>u. ''https''), hl_username = (\<lambda>u. []), hl_password = (\<lambda>u. None), hl_host = (\<lambda>u. Some ''h''),
      hl_join = (\<lambda>u p. Inr u), hl_read = (\<lambda>p. Inr []), hl_certificate = (\<lambda>b. Inr b), hl_first_pem = (\<lambda>b. None),
      hl_build = (\<lambda>r. Inr ()), hl_spki = (\<lambda>b. Inr b), hl_sha256 = id, hl_base64 = (\<lambda>b. []),
      hl_send = (\<lambda>r u q s. (Inr \<lparr>hx_status = 200, hx_tls = None\<rparr>, s)), hl_body = (\<lambda>s. (Inr [], s))\<rparr>"

definition plain_urls :: url_lib where
  "plain_urls = \<lparr>ul_parse = (\<lambda>t. Inr (ServerUrl t)), ul_port = (\<lambda>u. None), ul_set_port = (\<lambda>p u. Some u),
     ul_path = (\<lambda>u. ''/''), ul_set_path = (\<lambda>p u. u)\<rparr>"

definition first_ui :: "(memory_secrets, unit reach) ui_env" where
  "first_ui =
     \<lparr>ue_desk = \<lparr>de_app = \<lparr>ae_core = demo_core (api_client agreeable_json [] (\<lambda>q w. (Inl Timeout, w))), ae_local = ae_local desk_env,
          ae_ext = ae_ext desk_env, ae_of_text = ae_of_text desk_env, ae_temp = ae_temp desk_env, ae_downloads = None\<rparr>,
        de_discovery = de_discovery demo_desk, de_reader = de_reader demo_desk, de_running = (\<lambda>i. False),
        de_spawn = (\<lambda>p a. True), de_session = None\<rparr>,
      ue_store = memory_store, ue_json = agreeable_json, ue_fresh_key = (\<lambda>n. demo_master),
      ue_settings_text = (\<lambda>c. case c of Saved_https i \<Rightarrow> Some (hi_url i) | Saved_ssh i \<Rightarrow> None),
      ue_settings_parse = (\<lambda>t. None), ue_home = None, ue_data_dir = []\<rparr>"

definition first_form :: https_input where
  "first_form = \<lparr>hi_url = ''h'', hi_port = 443, hi_api_token = replicate 32 CHR ''t'', hi_certificate_mode = ''system'',
     hi_certificate_path = None, hi_spki_pin = None, hi_device_name = ''d''\<rparr>"

definition first_run :: "(memory_secrets, unit reach) ui_state" where
  "first_run =
     \<lparr>ui_app = \<lparr>ap_client = \<lparr>cl_remote = \<lparr>as_protocol = None, as_remote = \<lparr>rc_known = (\<lambda>p. None), rc_net = ()\<rparr>\<rparr>, cl_draws = 0\<rparr>,
        ap_local = fresh_local,
        ap_files = \<lparr>fs_root = Dir [(''u'', Dir [])], fs_cwd = [], fs_calls = 0, fs_stats = 0\<rparr>\<rparr>,
      ui_secrets = \<lparr>ms_values = (\<lambda>k. None), ms_poisoned = False\<rparr>, ui_session = None\<rparr>"

abbreviation first_token :: string where "first_token \<equiv> replicate 32 CHR ''t''"

abbreviation first_transport :: https_transport where
  "first_transport \<equiv> \<lparr>ht_base_url = ServerUrl ''https://h'', ht_roots = Built_in, ht_expected_spki = None\<rparr>"

lemma first_header: "header_value_ok (''Bearer '' @ first_token)"
  by (auto simp: header_value_ok_def code_of_def)

lemma agreeable_request:
  "json_request agreeable_json first_token (https_reach agreeable_https first_transport) m path payload k b a =
     (ok_or (Serialization ''json'') (body_parse agreeable_json k []), a)"
  using first_header
  by (cases payload; cases "as_protocol a")
    (simp_all add: json_request_def get_protocol_def bindS_def liftS_def remote_def https_reach_def on_net_def https_execute_def
      agreeable_https_def failing_as_def check_pin_def returnS_def parse_response_def is_success_def agreeable_json_def)

lemma agreeable_bodies [simp]:
  "body_parse agreeable_json KVersion [] =
     Some (BodyVersion \<lparr>vr_server_version = ''1.0'', vr_protocol = default_range, vr_capabilities = []\<rparr>)"
  "body_parse agreeable_json KStatus [] =
     Some (BodyStatus \<lparr>sr_status = ''ok'', sr_database = ''ok'', sr_server_time = Timestamp 0, sr_protocol = PROTOCOL_MAX\<rparr>)"
  "body_parse agreeable_json KDevice [] =
     Some (BodyDevice \<lparr>dev_id = DeviceId 1, dev_name = ''d'', dev_created_at = Timestamp 0, dev_revoked_at = None\<rparr>)"
  by (simp_all add: agreeable_json_def)

definition greeted :: "(memory_secrets, unit reach) ui_state \<Rightarrow> (memory_secrets, unit reach) ui_state" where
  "greeted s = s\<lparr>ui_app := (ui_app s)\<lparr>ap_client := (ap_client (ui_app s))\<lparr>cl_remote :=
     (cl_remote (ap_client (ui_app s)))\<lparr>as_protocol := Some PROTOCOL_MAX\<rparr>\<rparr>\<rparr>\<rparr>"

lemma agreeable_greeting:
  "\<exists>v. greet_server first_ui (https_reach agreeable_https first_transport) first_token
      (new_core first_ui (https_reach agreeable_https first_transport) first_token master device) name s = (Inr v, greeted s)"
  by (simp add: greet_server_def new_api_def on_app_def on_api_def on_core_def call_def bindS_def returnS_def liftS_def
      negotiate_version_def client_status_def negotiated_request_def ensure_negotiated_def get_protocol_def set_protocol_def
      core_register_device_def new_core_def api_client_def client_register_device_def agreeable_request
      first_ui_def greeted_def default_range_def negotiate_def PROTOCOL_MIN_def PROTOCOL_MAX_def)

lemma first_identity:
  "case prepare_identity first_ui first_run of
     (Inr (master, code, device), s) \<Rightarrow>
       (case keep_connection first_ui core code ''HTTPS'' ''https://h''
          (Saved_https (first_form\<lparr>hi_url := ''https://h''\<rparr>)) (greeted s) of
        (Inr x, s') \<Rightarrow> True | _ \<Rightarrow> False)
   | _ \<Rightarrow> False"
  by code_simp

lemma first_form_read:
  "server_url plain_urls first_form = Inr (ServerUrl ''https://h'')" "chosen_certificate None first_form = Inr SystemTrust"
  "new_https_transport agreeable_https (ServerUrl ''https://h'') SystemTrust = Inr first_transport"
proof -
  have trim: "rust_trim ''h'' = ''h''" by code_simp
  show "server_url plain_urls first_form = Inr (ServerUrl ''https://h'')"
    by (simp add: server_url_def plain_urls_def first_form_def trim starts_with_def strip_prefix_def)
qed (simp_all add: chosen_certificate_def first_form_def new_https_transport_def select_roots_def agreeable_https_def)

lemma first_sign_in: "\<exists>x s. connect_https first_ui plain_urls agreeable_https first_form first_run = (Inr x, s)"
proof -
  obtain master code device s1 where identity: "prepare_identity first_ui first_run = (Inr (master, code, device), s1)"
    using first_identity [of "ui_core first_ui"] by (auto split: prod.splits sum.splits)
  let ?core = "new_core first_ui (https_reach agreeable_https first_transport) first_token master device"
  obtain v where v: "greet_server first_ui (https_reach agreeable_https first_transport) first_token ?core ''d'' s1 =
      (Inr v, greeted s1)"
    using agreeable_greeting by blast
  obtain x s' where kept: "keep_connection first_ui ?core code ''HTTPS'' ''https://h''
      (Saved_https (first_form\<lparr>hi_url := ''https://h''\<rparr>)) (greeted s1) = (Inr x, s')"
    using first_identity [of ?core] identity by (auto split: prod.splits sum.splits)
  have "set_session None first_run = (Inr (), first_run)" by (simp add: set_session_def first_run_def)
  with identity v kept first_form_read show ?thesis
    by (cases v) (simp add: connect_https_def connect_def bindS_def liftS_def returnS_def first_form_def first_ui_def Let_def)
qed

section \<open>The property\<close>

lemma connect_https_run:
  assumes "connect_https u ul h input s = (r, s')"
  obtains er where "r = Inl er" "s' = s\<lparr>ui_session := None\<rparr>"
  | url mode t where "server_url ul input = Inr url" "chosen_certificate (ue_home u) input = Inr mode"
      "new_https_transport h url mode = Inr t"
      "connect u (https_reach h t) (hi_api_token input) (hi_device_name input) ''HTTPS'' (server_url_text url)
         (Saved_https (input\<lparr>hi_url := server_url_text url\<rparr>)) (s\<lparr>ui_session := None\<rparr>) = (r, s')"
  using assms unfolding connect_https_def
  by (auto simp: Let_def bindS_def liftS_def set_session_def map_err_def split: sum.splits)

text \<open>C9. Signing in over HTTPS protects the credentials the client holds, whatever calls fail and whatever
  the server answers: a stored master key is never replaced; the saved connection changes only to the one
  of this form, and only when the URL is https and the server, reached with the chosen certificate
  and this token, has negotiated, given its status and registered the device; a failed attempt leaves no session,
  and after a successful one the connection is saved and the session has the stored master key.\<close>

theorem signing_in_keeps_credentials:
  assumes store: "secret_store (ue_store u) stored" and suite: "suite_ok (core_suite (ui_core u))"
    and fresh: "\<And>n. length (ue_fresh_key u n) = MASTER_KEY_LENGTH"
    and run: "connect_https u ul h input s = (r, s')"
  shows "(stored (ui_secrets s) MASTER_KEY_ENTRY \<noteq> None \<longrightarrow>
        stored (ui_secrets s') MASTER_KEY_ENTRY = stored (ui_secrets s) MASTER_KEY_ENTRY) \<and>
    (stored (ui_secrets s') CONNECTION_SETTINGS_KEY \<noteq> stored (ui_secrets s) CONNECTION_SETTINGS_KEY \<or> (\<exists>x. r = Inr x) \<longrightarrow>
       (\<exists>url mode t. server_url ul input = Inr url \<and> chosen_certificate (ue_home u) input = Inr mode \<and>
          new_https_transport h url mode = Inr t \<and> hl_scheme h url = ''https'' \<and>
          accepted_by u (https_reach h t) (hi_api_token input) (hi_device_name input) \<and>
          stored (ui_secrets s') CONNECTION_SETTINGS_KEY =
            ue_settings_text u (Saved_https (input\<lparr>hi_url := server_url_text url\<rparr>)) \<and>
          (\<forall>x. r = Inr x \<longrightarrow>
             session_of u stored (https_reach h t) (hi_api_token input) (server_url_text url) s'))) \<and>
    (\<forall>er. r = Inl er \<longrightarrow> ui_session s' = None)"
  using run
proof (cases rule: connect_https_run)
  case (1 er)
  then show ?thesis by simp
next
  case (2 url mode t)
  from secret_store.connect_outcome [OF store refl suite fresh 2(4)] new_https_transport_facts(1) [OF 2(3)] 2(1-3)
  show ?thesis by (cases r) (auto simp: sign_in_outcome_def)
qed

lemma signing_in_keeps_credentials_witness:
  "\<exists>x s. connect_https first_ui plain_urls agreeable_https first_form first_run = (Inr x, s) \<and>
     (\<exists>t. session_of first_ui ms_values (https_reach agreeable_https t) first_token ''https://h'' s)"
proof -
  obtain x s where run: "connect_https first_ui plain_urls agreeable_https first_form first_run = (Inr x, s)"
    using first_sign_in by blast
  have store: "secret_store (ue_store first_ui) ms_values"
    using memory.secret_store_axioms by (simp add: first_ui_def)
  have suite: "suite_ok (core_suite (ui_core first_ui))" by (simp add: first_ui_def demo_suite_ok)
  have fresh: "length (ue_fresh_key first_ui n) = MASTER_KEY_LENGTH" for n
    by (simp add: first_ui_def demo_master_def MASTER_KEY_LENGTH_def)
  from signing_in_keeps_credentials [OF store suite fresh run] first_form_read(1)
  show ?thesis using run by (auto simp: first_form_def)
qed

text \<open>The form for SSH does the same over its transport.\<close>

lemma connect_ssh_run:
  assumes "connect_ssh u l input s = (r, s')"
  obtains er where "r = Inl er" "s' = s\<lparr>ui_session := None\<rparr>"
  | key config endpoint where "expand_user_path (ue_home u) (si_private_key input) = Inr key"
      "new_ssh_transport l (ssh_config_of u (input\<lparr>si_private_key := key\<rparr>)) = Inr config"
      "connect u (ssh_execute l config) (si_api_token input) (si_device_name input) ''SSH'' endpoint
         (Saved_ssh (input\<lparr>si_private_key := key\<rparr>)) (s\<lparr>ui_session := None\<rparr>) = (r, s')"
  using assms unfolding connect_ssh_def
  by (auto simp: Let_def bindS_def liftS_def set_session_def map_err_def split: sum.splits)

lemma connect_ssh_outcome:
  assumes store: "secret_store (ue_store u) stored" and suite: "suite_ok (core_suite (ui_core u))"
    and fresh: "\<And>n. length (ue_fresh_key u n) = MASTER_KEY_LENGTH"
    and run: "connect_ssh u l input s = (r, s')"
  shows "(\<exists>er. r = Inl er \<and> s' = s\<lparr>ui_session := None\<rparr>) \<or>
    (\<exists>key config endpoint. new_ssh_transport l (ssh_config_of u (input\<lparr>si_private_key := key\<rparr>)) = Inr config \<and>
       sign_in_outcome u stored (ssh_execute l config) (si_api_token input) (si_device_name input) endpoint
         (Saved_ssh (input\<lparr>si_private_key := key\<rparr>)) (s\<lparr>ui_session := None\<rparr>) r s')"
  using run
proof (cases rule: connect_ssh_run)
  case (2 key config endpoint)
  with secret_store.connect_outcome [OF store refl suite fresh 2(3)] show ?thesis by blast
qed blast

end
