(* ===== verification/ServerCommands.thy ===== *)
theory ServerCommands
  imports ServerMain ConfProps
begin

text \<open>
  The commands of the server's program (\<open>helium-sync-server/src/main.rs\<close>): serving, checking the
  configuration, making a development certificate and asking a running server for its health. The
  argument parser, the HTTP client and the certificate library are parameters; what is logged or
  printed is the result (\<open>command_report\<close>), the configuration in its \<open>Debug\<close> form.
\<close>

section \<open>Commands\<close>

record 'addr server_args =
  sa_config :: "path option"
  sa_listen :: "'addr option"
  sa_unix_socket :: "path option"
  sa_unix_socket_group :: "string option"
  sa_data_dir :: "path option"
  sa_tls_certificate :: "path option"
  sa_tls_private_key :: "path option"
  sa_database :: "path option"
  sa_log_level :: "string option"
  sa_token_file :: "path option"

datatype 'addr server_command =
    Serve "'addr server_args"
  | Check "'addr server_args"
  | GenerateDevCert path "string list"
  | Healthcheck "'addr server_args" string

definition overrides_of :: "'addr server_args \<Rightarrow> 'addr config_overrides" where
  "overrides_of v =
     \<lparr>ov_config = sa_config v, ov_listen = sa_listen v, ov_unix_socket = sa_unix_socket v,
      ov_unix_socket_group = sa_unix_socket_group v, ov_data_dir = sa_data_dir v,
      ov_tls_certificate = sa_tls_certificate v, ov_tls_private_key = sa_tls_private_key v,
      ov_database = sa_database v, ov_log_level = sa_log_level v, ov_token_file = sa_token_file v\<rparr>"

datatype command_error =
    Command_config config_error
  | Command_serve server_error
  | Command_cert cert_error
  | Command_health string

datatype 'addr command_report =
    Served "(string \<times> 'addr debug_value) list"
  | Valid_configuration "(string \<times> 'addr debug_value) list"
  | Certificate_written bool
  | Healthy

text \<open>\<open>he_get\<close> is a GET over HTTPS only, trusting the one certificate.\<close>

record 'addr command_env =
  he_start :: "'addr start_env"
  he_issue :: "string list \<Rightarrow> string + bytes \<times> bytes"
  he_read :: "path \<Rightarrow> string + bytes"
  he_pem :: "bytes \<Rightarrow> string + bytes"
  he_client :: "bytes \<Rightarrow> string + unit"
  he_get :: "bytes \<Rightarrow> string \<Rightarrow> (string \<times> string) list \<Rightarrow> string + nat"

definition health_headers :: "string \<Rightarrow> (string \<times> string) list" where
  "health_headers token = [(''authorization'', ''Bearer '' @ token), (''x-helium-sync-protocol'', ''1'')]"

definition healthcheck :: "'addr command_env \<Rightarrow> 'addr server_config \<Rightarrow> string \<Rightarrow> string + unit" where
  "healthcheck e c url =
     andThen (he_read e (sc_tls_certificate c)) (\<lambda>pem.
     andThen (he_pem e pem) (\<lambda>certificate.
     andThen (he_client e certificate) (\<lambda>_.
     andThen (he_get e certificate url (health_headers (sc_token c))) (\<lambda>status.
     if 200 \<le> status \<and> status < 300 then Inr ()
     else Inl (''health endpoint returned '' @ show_nat status)))))"

definition with_config ::
  "'addr command_env \<Rightarrow> 'addr server_args \<Rightarrow> ('addr server_config \<Rightarrow> (server_run, command_error, 'a) comp) \<Rightarrow>
     (server_run, command_error, 'a) comp" where
  "with_config e args m =
     bindS (liftS (map_err Command_config (load_config (se_conf (he_start e)) (overrides_of args)))) m"

definition failing_with :: "('e \<Rightarrow> 'f) \<Rightarrow> ('s, 'e, 'a) comp \<Rightarrow> ('s, 'f, 'a) comp" where
  "failing_with f m = (\<lambda>s. let (r, s') = m s in (map_err f r, s'))"

fun run_command :: "'addr command_env \<Rightarrow> 'addr server_command \<Rightarrow> (server_run, command_error, 'addr command_report) comp" where
  "run_command e (Serve args) =
     with_config e args (\<lambda>c.
     bindS (failing_with Command_serve (serve (he_start e) c)) (\<lambda>_. returnS (Served (debug_config c))))"
| "run_command e (Check args) = with_config e args (\<lambda>c. returnS (Valid_configuration (debug_config c)))"
| "run_command e (GenerateDevCert dir hostnames) =
     bindS (failing_with Command_cert (on_files (generate_dev_cert (se_os (he_start e)) (he_issue e) dir hostnames)))
       (\<lambda>written. returnS (Certificate_written written))"
| "run_command e (Healthcheck args url) =
     with_config e args (\<lambda>c.
     bindS (liftS (map_err Command_health (healthcheck e c url))) (\<lambda>_. returnS Healthy))"

definition exit_code :: "command_error + 'addr command_report \<Rightarrow> nat" where
  "exit_code r = (case r of Inl _ \<Rightarrow> 1 | Inr _ \<Rightarrow> 0)"

section \<open>What the commands show and touch\<close>

text \<open>Checking a configuration changes nothing, and fails exactly when serving with it would stop before it
  touches anything, with the same error.\<close>

lemma check_changes_nothing: "snd (run_command e (Check args) s) = s"
  by (simp add: with_config_def bindS_def liftS_def returnS_def split: sum.split)

lemma check_predicts_serve:
  "run_command e (Check args) s = (Inl er, s) \<longleftrightarrow>
     (\<exists>x. er = Command_config x \<and> run_command e (Serve args) s = (Inl er, s) \<and>
        load_config (se_conf (he_start e)) (overrides_of args) = Inl x)"
  by (auto simp: with_config_def bindS_def liftS_def returnS_def map_err_def split: sum.splits)

text \<open>No command prints the token: the report of two configurations that differ only in it is the same.\<close>

lemma report_hides_token: "debug_config (c\<lparr>sc_token := t\<rparr>) = debug_config c"
  by (simp add: debug_config_def)

text \<open>A certificate pair that exists is left alone, and half a pair is refused before anything is written.\<close>

lemma present_pair_left_alone:
  assumes "create_dir_all (se_os (he_start e)) dir (sr_files s) = (Inr (), f1)"
    and "path_exists (se_os (he_start e)) (path_join dir (path_of ''server.crt'')) f1 = (Inr there :: cert_error + bool, f2)"
    and "path_exists (se_os (he_start e)) (path_join dir (path_of ''server.key'')) f2 = (Inr there' :: cert_error + bool, f3)"
    and "there \<or> there'"
  shows "run_command e (GenerateDevCert dir names) s =
    (if there \<and> there' then Inr (Certificate_written False) else Inl (Command_cert Partial_pair), s\<lparr>sr_files := f3\<rparr>)"
  using assms
  by (auto simp: generate_dev_cert_def failing_with_def on_files_def bindS_def with_err_def returnS_def liftS_def Let_def)

end
