(* ===== verification/Spec2Isabelle.thy ===== *)
theory Spec2Isabelle
  imports ServerProps BookmarkProps ClientProps BundleProps LocalStateProps StartProps ExtProps SyncProps SettledProps LifecycleProps SignInProps ServerCommands
begin

text \<open>
  Helium Sync keeps the bookmarks and extensions of browser profiles the same on several computers. A
  server (\<open>crates/helium-sync-server\<close>) stores opaque encrypted objects with revisions and a log of
  changes in SQLite and answers HTTP requests over TLS or a Unix socket. A desktop client
  (\<open>crates/helium-sync-client/src-tauri\<close>) finds the profiles of the browser, reads and replaces their
  files (\<open>crates/helium-sync-profile\<close>), encrypts what it uploads and keeps a local database
  (\<open>crates/helium-sync-client-core\<close>). Both sides share the protocol types (\<open>crates/helium-sync-common\<close>).
  This development models these five crates and proves what makes them correct.

  \<^bold>\<open>Conventions.\<close> A definition has the name of the function it translates, where HOL leaves it free.
  A fallible function returns \<open>error + value\<close>; one that also changes a state is a computation
  \<open>'s \<Rightarrow> (error + value) \<times> 's\<close> composed by \<open>bindS\<close> (\<open>Prelude\<close>), so an early return keeps the state it
  had reached. \<open>keeps R m\<close> says that a computation relates the states before and after it by \<open>R\<close>, on
  every result. Strings are lists of UTF-8 bytes (\<open>Rust_Strings\<close>), paths lists of components (\<open>Paths\<close>),
  integers words of their width. Third-party crates (serde_json, sqlx, ring, reqwest, russh, rustls, zip,
  keyring, uuid, time, url) are fields of environment records; what they document is a predicate (\<open>codec_ok\<close>,
  \<open>suite_ok\<close>, \<open>body_codec_ok\<close>, \<open>known_hosts_ok\<close>, \<open>keyring_ok\<close>) that the theorems which need it assume,
  and each such theorem has a witness on a concrete environment.

  \<^bold>\<open>Faults.\<close> The database calls, the file-system calls and the network exchanges each consume a tick of a
  schedule that says which of them fail; a failing file-system call may have done part of its work. The checks
  \<open>exists\<close>, \<open>is_dir\<close> and \<open>is_file\<close>, which answer false when their \<open>stat\<close> fails, have a schedule of their own.
  Theorems hold for every schedule unless they state otherwise, so they cover the error paths. Two kinds do:
  those that say that something succeeds assume no faults, and the two on loading extensions assume that no check made during the load failed (\<open>no_check_failed\<close>),
  because the code takes a failed check for an absent entry and then loses data
  (\<open>failed_check_loses_preferences\<close>). A failed check before the backup of the bookmarks costs the backup
  (\<open>bookmarks_seen\<close>, \<open>blind_check_loses_bookmarks\<close>).

  \<^bold>\<open>The server.\<close>
  \<^item> \<open>Wire\<close>: \<open>helium-sync-common/src/lib.rs\<close>, the identifiers, the version negotiation and the bodies.
  \<^item> \<open>Tables\<close>, \<open>ServerDb\<close>: the tables of \<open>migrations/0001_initial.sql\<close> as lists of rows, the SQL
    statements, transactions that roll back.
  \<^item> \<open>ServerApi\<close>: \<open>api.rs\<close> and \<open>auth.rs\<close>, every handler with its guards in order, and the two layers around them.
  \<^item> \<open>ServerInv\<close>: \<open>db_inv\<close>, the invariant of the database, kept by every request.
  \<^item> \<open>ServerSpec\<close>: the abstract \<open>store\<close> and the simulation \<open>sim\<close>; each handler refines one operation of it.
  \<^item> \<open>ServerProps\<close>: runs of requests from any number of clients: refinement, gapless revision histories, batches
    that happen whole or not at all, stale writes refused, revoked devices, authentication.
  \<^item> \<open>ServerConf\<close>, \<open>ConfProps\<close>, \<open>Tls\<close>: \<open>config.rs\<close> and \<open>tls.rs\<close>; validation accepts exactly the safe
    configurations (\<open>safe_config\<close>).
  \<^item> \<open>ServerMain\<close>, \<open>StartProps\<close>: \<open>serve\<close> of \<open>lib.rs\<close> over a file system with faults: no file at the socket path
    is replaced and nothing is served before the socket has its mode and group. \<open>ServerCommands\<close>: \<open>main.rs\<close>.

  \<^bold>\<open>The client core.\<close>
  \<^item> \<open>Bookmarks\<close>, \<open>BookmarkFile\<close>, \<open>BookmarkProps\<close>: the snapshot, the three-way merge, and Chromium's file. At every
    path whose ancestors are folders on both sides the merge is the three-way rule.
  \<^item> \<open>Crypto\<close>, \<open>CryptoProps\<close>: \<open>crypto.rs\<close>. Decryption accepts exactly what encryption made for the same
    metadata; associated data is injective, and two uses get one key only if HKDF collides on their inputs.
  \<^item> \<open>ClientApi\<close>: \<open>api.rs\<close> and \<open>transport.rs\<close>. \<open>Transports\<close>, \<open>TransportProps\<close>: \<open>https.rs\<close> and \<open>ssh.rs\<close>,
    what each lets through.
  \<^item> \<open>Orchestration\<close>: \<open>orchestration.rs\<close>. \<open>ObjectStore\<close> states the contract of the server as a locale over the
    five calls; the client's lemmas are proved inside it. \<open>Network\<close> connects the API client through a
    lossy network to the server above and interprets the locale on it, so \<open>ClientProps\<close> and \<open>BundleProps\<close>
    speak of both sides at once. \<open>BundleFacts\<close>: what a failed save of an extension bundle leaves on a server
    that keeps the contract. \<open>ClientDemo\<close> is a concrete site.
  \<^item> \<open>LocalState\<close>, \<open>LocalStateProps\<close>: \<open>state.rs\<close>, the client's database, its invariant, and what
    choosing the default profile does.
  \<^item> \<open>Secrets\<close>: \<open>secrets.rs\<close>; the trait's contract is the locale \<open>secret_store\<close>, interpreted on the in-memory store
    and shown for the native one.

  \<^bold>\<open>Profiles and the desktop client.\<close>
  \<^item> \<open>Paths\<close>, \<open>Files\<close>: paths, and \<open>std::fs\<close> on a tree of nodes with faults.
  \<^item> \<open>Restore\<close>, \<open>RestoreProps\<close>: \<open>restore_bookmarks\<close>: the live file is the old or the new one, or the error says
    otherwise, and what the backup holds.
  \<^item> \<open>ExtBundle\<close>, \<open>ExtRestore\<close>, \<open>ExtExchange\<close>, \<open>ExtSight\<close>, \<open>ExtProps\<close>: making and loading an extension bundle; the
    exchange of several targets with its roll-back; runs without a failed check coincide with runs on a system
    where none fails.
  \<^item> \<open>Discovery\<close>, \<open>DiscoveryFacts\<close>: finding the installation and its profiles, creating one.
  \<^item> \<open>SyncEngine\<close>, \<open>SyncFacts\<close>, \<open>SyncProps\<close>: saving, loading and synchronizing a profile in \<open>main.rs\<close>: after
    success the live bookmarks, the base and the server agree; changed extensions are not replaced.
    \<open>SettledProps\<close>: a device that changed nothing uploads nothing and follows the server.
  \<^item> \<open>Lifecycle\<close>, \<open>LifecycleFacts\<close>, \<open>LifecycleProps\<close>: the commands on profiles; archiving, restoring and deleting
    leave the directory whole.
  \<^item> \<open>SignIn\<close>, \<open>SignInProps\<close>: the two connection forms; a stored master key is never replaced and the saved
    connection only by an accepted one.

  \<^bold>\<open>How the parts meet.\<close> \<open>connect\<close> makes a \<open>core\<close> from the API client over a transport, the master key of the
  secret store and the device id of the local database. The commands run it, the local database and the file system
  as the three parts of \<open>app\<close>. The API client's calls, through \<open>site_transport\<close>, are requests to
  \<open>serve_request\<close> on the server's database.

  \<^bold>\<open>Bounds and fuel.\<close> There is no fuel: every loop of the code is a recursion that terminates. Discovery on the server
  is bounded by the number of changes still to come; new profile directories
  are numbered below 2^32, as the code does; walks over trees recurse on the tree.
  Limits of the code (4 MiB payloads, 100 operations, 1000 changes, chunks of 2,900,000 bytes) are constants
  with its values; revisions and cursors are 64-bit words stored as 63-bit SQL integers, with both conversions checked.

  \<^bold>\<open>Not modelled.\<close>
  \<^item> Concurrency inside the server: a request runs to its end before the next; SQLite serializes the transactions,
    and the interleaving of clients is the order of a list of requests, or the visitors of \<open>site\<close>.
  \<^item> Symbolic links and other processes that change the files while a call sequence runs. The branches that reject
    links are absent, the second reading attempt of \<open>read_bookmarks\<close> sees what the first did.
  \<^item> The internals of the third-party crates, the opening of a database and its migrations (\<open>storage.rs\<close>), logging,
    the HTTP framework beyond routing, limits and layers, Tauri and the TypeScript window.
  \<^item> Timing: timeouts are outcomes of a call, key material is not wiped.
  \<^item> The candidates for the installation on macOS and Windows; file mode bits other than those of the socket.
  \<^item> An archive file is written and read in one call; a temporary name that is taken is an error.
\<close>

end
